(* ===== verification/LB_Prelude.thy ===== *)
theory LB_Prelude
  imports Main "HOL-Library.Word" "HOL-Library.Multiset"
begin

text \<open>
  Shared vocabulary of the lazybsd development: the widths of the C integers the sources use,
  the C \<open>switch\<close> over integer labels, panics as values, byte-addressed memory, and the generic
  list and word lemmas the component theories rest on.
\<close>

unbundle bit_operations_syntax

named_theorems switch_simps
named_theorems callout_simps
named_theorems socket_simps
named_theorems mem_simps

section \<open>C integers\<close>

type_synonym u8 = "8 word"
type_synonym u16 = "16 word"
type_synonym u32 = "32 word"
type_synonym u64 = "64 word"

text \<open>A C \<open>int\<close> is a 32-bit word read by \<open>sint\<close>; a \<open>long\<close> or \<open>quad_t\<close> a 64-bit one.\<close>

type_synonym i32 = "32 word"
type_synonym i64 = "64 word"

abbreviation (input) INT_MAX :: int where "INT_MAX \<equiv> 2147483647"
abbreviation (input) INT_MIN :: int where "INT_MIN \<equiv> -2147483648"
abbreviation (input) UINT_MAX :: int where "UINT_MAX \<equiv> 4294967295"
abbreviation (input) LONG_MAX :: int where "LONG_MAX \<equiv> 9223372036854775807"

text \<open>An \<open>int\<close> computed by the code, wrapped to its 32 bits.\<close>

definition c_int :: "int \<Rightarrow> int" where
  "c_int x = sint (word_of_int x :: i32)"

lemma c_int_id: "- (2 ^ 31) \<le> x \<Longrightarrow> x < 2 ^ 31 \<Longrightarrow> c_int x = x"
  by (simp add: c_int_def signed_of_int signed_take_bit_int_eq_self)

lemma c_int_small: "\<bar>x\<bar> < 2000000 \<Longrightarrow> c_int x = x"
  by (rule c_int_id) auto

section \<open>Panics as values\<close>

text \<open>\<open>panic\<close> never returns: an operation that may panic yields \<open>Inl\<close> of its message.\<close>

datatype panic = Panic string

type_synonym 'a kresult = "panic + 'a"

section \<open>The C switch\<close>

fun c_switch :: "'a \<Rightarrow> ('a \<times> 'b) list \<Rightarrow> 'b \<Rightarrow> 'b" where
  "c_switch x [] d = d"
| "c_switch x ((k, v) # cs) d = (if x = k then v else c_switch x cs d)"

lemma c_switch_map_of: "c_switch x cs d = (case map_of cs x of None \<Rightarrow> d | Some v \<Rightarrow> v)"
  by (induction cs) auto

lemma c_switch_default: "x \<notin> fst ` set cs \<Longrightarrow> c_switch x cs d = d"
  by (induction cs) auto

lemma c_switch_label: "x \<in> fst ` set cs \<Longrightarrow> c_switch x cs d \<in> snd ` set cs"
  by (induction cs) force+

lemma c_switch_any_default:
  "x \<in> fst ` set cs \<Longrightarrow> c_switch x cs d = c_switch x cs d'"
  by (induction cs) force+

lemma c_switch_map: "f (c_switch x cs d) = c_switch x (map (apsnd f) cs) (f d)"
  by (induction cs) auto

lemma c_switch_inj:
  assumes "distinct (map snd cs)" and "x \<in> fst ` set cs" and "y \<in> fst ` set cs"
    and "c_switch x cs d = c_switch y cs d"
  shows "x = y"
  using assms
proof (induction cs)
  case Nil
  then show ?case by simp
next
  case (Cons kv cs)
  obtain k v where kv: "kv = (k, v)" by force
  have tail: "c_switch z cs d \<noteq> v" if "z \<in> fst ` set cs" for z
    using c_switch_label [OF that, of d] Cons.prems(1) kv by force
  show ?case
    using Cons kv tail by (auto split: if_splits)
qed

section \<open>Byte-addressed memory\<close>

type_synonym mem = "nat \<Rightarrow> u8"

text \<open>\<open>bcopy\<close>/\<open>memmove\<close>: overlapping regions are copied as if through a temporary.\<close>

definition bcopy :: "nat \<Rightarrow> nat \<Rightarrow> nat \<Rightarrow> mem \<Rightarrow> mem" where
  "bcopy src dst n m = (\<lambda>a. if dst \<le> a \<and> a < dst + n then m (src + (a - dst)) else m a)"

definition mread :: "mem \<Rightarrow> nat \<Rightarrow> nat \<Rightarrow> u8 list" where
  "mread m p n = map (\<lambda>i. m (p + i)) [0..<n]"

lemma length_mread [simp]: "length (mread m p n) = n"
  by (simp add: mread_def)

lemma nth_mread [simp]: "i < n \<Longrightarrow> mread m p n ! i = m (p + i)"
  by (simp add: mread_def)

lemma mread_cong: "(\<And>i. i < n \<Longrightarrow> m (p + i) = m' (q + i)) \<Longrightarrow> mread m p n = mread m' q n"
  by (simp add: mread_def)

lemma bcopy_outside [mem_simps]: "a < dst \<or> dst + n \<le> a \<Longrightarrow> bcopy src dst n m a = m a"
  by (auto simp: bcopy_def)

lemma bcopy_inside [mem_simps]: "i < n \<Longrightarrow> bcopy src dst n m (dst + i) = m (src + i)"
  by (simp add: bcopy_def)

lemma mread_bcopy [mem_simps]: "mread (bcopy src dst n m) dst n = mread m src n"
  by (rule mread_cong) (simp add: bcopy_def)

lemma bcopy_self [simp]: "bcopy p p n m = m"
  by (rule ext) (simp add: bcopy_def)

section \<open>Lists\<close>

text \<open>\<open>LIST_NEXT\<close> on a bucket: the element after \<open>x\<close>; \<open>LIST_FIRST\<close>: the head.\<close>

fun list_next :: "'a list \<Rightarrow> 'a \<Rightarrow> 'a option" where
  "list_next [] x = None"
| "list_next (y # ys) x =
     (if x = y then (case ys of [] \<Rightarrow> None | z # _ \<Rightarrow> Some z) else list_next ys x)"

definition list_first :: "'a list \<Rightarrow> 'a option" where
  "list_first xs = (case xs of [] \<Rightarrow> None | x # _ \<Rightarrow> Some x)"

lemma list_first_simps [simp]: "list_first [] = None" "list_first (x # xs) = Some x"
  by (simp_all add: list_first_def)

lemma list_next_append: "x \<notin> set xs \<Longrightarrow> list_next (xs @ x # ys) x = list_first ys"
  by (induction xs) (auto split: list.splits)

lemma list_first_SomeD: "list_first xs = Some x \<Longrightarrow> \<exists>ys. xs = x # ys"
  by (cases xs) auto

lemma list_first_None [simp]: "list_first xs = None \<longleftrightarrow> xs = []"
  by (cases xs) auto

lemma remove1_split: "x \<notin> set xs \<Longrightarrow> remove1 x (xs @ x # ys) = xs @ ys"
  by (simp add: remove1_append)

section \<open>fls: the position of the highest set bit\<close>

text \<open>\<open>fls\<close> of \<^verbatim>\<open>strings.h\<close>, on the unsigned value of its argument: 0 for 0, else one plus
  the index of the most significant bit.\<close>

fun fls :: "nat \<Rightarrow> nat" where
  "fls n = (if n = 0 then 0 else Suc (fls (n div 2)))"

declare fls.simps [simp del]

lemma fls_zero [simp]: "fls 0 = 0"
  by (simp add: fls.simps)

lemma fls_upper: "n < 2 ^ fls n"
proof (induction n rule: fls.induct)
  case (1 n)
  show ?case
  proof (cases "n = 0")
    case False
    with 1 have "n div 2 < 2 ^ fls (n div 2)" by simp
    then show ?thesis using False by (simp add: fls.simps [of n])
  qed simp
qed

lemma fls_lower: "0 < n \<Longrightarrow> 2 ^ fls n \<le> 2 * n"
proof (induction n rule: fls.induct)
  case (1 n)
  show ?case
  proof (cases "n div 2 = 0")
    case True
    with 1 show ?thesis by (simp add: fls.simps [of n])
  next
    case False
    with 1 have "2 ^ fls (n div 2) \<le> 2 * (n div 2)" by simp
    then show ?thesis using 1 by (simp add: fls.simps [of n])
  qed
qed

lemma fls_le: "n < 2 ^ k \<Longrightarrow> fls n \<le> k"
proof (cases "n = 0")
  case False
  assume "n < 2 ^ k"
  then have "2 ^ fls n < (2 ^ Suc k :: nat)"
    using fls_lower [of n] False by simp
  then have "fls n < Suc k"
    by (rule power_less_imp_less_exp [rotated]) simp
  then show ?thesis by simp
qed simp

section \<open>Words\<close>

text \<open>Masking with a power of two minus one is reduction modulo that power.\<close>

lemma unat_and_mask: "unat (x AND (2 ^ k - 1) :: 'a::len word) = unat x mod 2 ^ k"
proof -
  have "x AND (2 ^ k - 1) = take_bit k x"
    by (simp add: take_bit_eq_mask mask_eq_exp_minus_1)
  then show ?thesis
    by (simp only: unsigned_take_bit_eq) (simp only: take_bit_eq_mod)
qed

lemma and_mask_eq_iff:
  "(x AND (2 ^ k - 1) = y AND (2 ^ k - 1)) \<longleftrightarrow> unat x mod 2 ^ k = unat (y :: 'a::len word) mod 2 ^ k"
  by (simp add: word_unat_eq_iff unat_and_mask)

lemma unat_two_power: "k < LENGTH('a) \<Longrightarrow> unat (2 ^ k :: 'a::len word) = 2 ^ k"
proof -
  assume "k < LENGTH('a)"
  have "unat (2 ^ k :: 'a word) = unat (of_nat (2 ^ k) :: 'a word)" by simp
  also have "\<dots> = 2 ^ k mod 2 ^ LENGTH('a)" by (rule unat_of_nat)
  also have "\<dots> = 2 ^ k" using \<open>k < LENGTH('a)\<close> by simp
  finally show ?thesis .
qed

lemma unat_ucast_up:
  assumes "LENGTH('a) \<le> LENGTH('b)"
  shows "unat (ucast (x :: 'a::len word) :: 'b::len word) = unat x"
proof -
  have "unat x < 2 ^ LENGTH('a)" by (rule unsigned_less)
  also have "\<dots> \<le> 2 ^ LENGTH('b)" using assms by (simp add: power_increasing)
  finally show ?thesis by (simp add: unsigned_ucast_eq take_bit_nat_eq_self_iff)
qed

end
