(* ===== verification/LB_Lock.thy ===== *)
theory LB_Lock
  imports LB_Prelude
begin

text \<open>
  \<^verbatim>\<open>bsd/lib/lazybsd_lock.c\<close> with \<^verbatim>\<open>bsd/include/sys/{mutex,rwlock,sx}.h\<close>: in this port every
  lock operation is a no-op on the machine.  What remains observable is the table of lock
  classes (which methods exist: an absent initialiser is a NULL function pointer) and the
  \<open>LO_*\<close> flags the initialisers derive from their options.  Flag words are sets of named bits.
\<close>

section \<open>Lock classes\<close>

datatype lcflag = LC_SLEEPLOCK | LC_SPINLOCK | LC_SLEEPABLE | LC_RECURSABLE | LC_UPGRADABLE

text \<open>
  A method gets the console, the only thing one of them touches (\<open>lock_spin\<close> and
  \<open>unlock_spin\<close> print), and returns it; an unlock method also returns its status word.
\<close>

type_synonym console = "string list"

record lock_class =
  lc_name :: string
  lc_flags :: "lcflag set"
  lc_assert :: "(console \<Rightarrow> console) option"
  lc_lock :: "(console \<Rightarrow> console) option"
  lc_unlock :: "(console \<Rightarrow> nat \<times> console) option"

definition assert_mtx :: "console \<Rightarrow> console" where "assert_mtx con = con"

definition lock_mtx :: "console \<Rightarrow> console" where "lock_mtx con = con"

definition unlock_mtx :: "console \<Rightarrow> nat \<times> console" where "unlock_mtx con = (0, con)"

definition lock_rw :: "console \<Rightarrow> console" where "lock_rw con = con"

definition unlock_rw :: "console \<Rightarrow> nat \<times> console" where "unlock_rw con = (0, con)"

definition assert_rw :: "console \<Rightarrow> console" where "assert_rw con = con"

definition assert_rm :: "console \<Rightarrow> console" where "assert_rm con = con"

definition lock_spin :: "console \<Rightarrow> console" where
  "lock_spin con = con @ [''lock_spin: called!'']"

definition unlock_spin :: "console \<Rightarrow> nat \<times> console" where
  "unlock_spin con = (0, con @ [''unlock_spin: called!''])"

definition lock_rm :: "console \<Rightarrow> console" where "lock_rm con = con"

definition unlock_rm :: "console \<Rightarrow> nat \<times> console" where "unlock_rm con = (1, con)"

definition lock_class_mtx_sleep :: lock_class where
  "lock_class_mtx_sleep =
     \<lparr>lc_name = ''sleep mutex'', lc_flags = {LC_SLEEPLOCK, LC_RECURSABLE},
      lc_assert = Some assert_mtx, lc_lock = Some lock_mtx, lc_unlock = Some unlock_mtx\<rparr>"

definition lock_class_rw :: lock_class where
  "lock_class_rw =
     \<lparr>lc_name = ''rw'', lc_flags = {LC_SLEEPLOCK, LC_RECURSABLE, LC_UPGRADABLE},
      lc_assert = Some assert_rw, lc_lock = Some lock_rw, lc_unlock = Some unlock_rw\<rparr>"

definition lock_class_rm :: lock_class where
  "lock_class_rm =
     \<lparr>lc_name = ''rm'', lc_flags = {LC_SLEEPLOCK, LC_RECURSABLE},
      lc_assert = Some assert_rm, lc_lock = None, lc_unlock = None\<rparr>"

definition lock_class_sx :: lock_class where
  "lock_class_sx =
     \<lparr>lc_name = ''sx'', lc_flags = {LC_SLEEPLOCK, LC_SLEEPABLE, LC_RECURSABLE, LC_UPGRADABLE},
      lc_assert = None, lc_lock = None, lc_unlock = None\<rparr>"

definition lock_class_mtx_spin :: lock_class where
  "lock_class_mtx_spin =
     \<lparr>lc_name = ''spin mutex'', lc_flags = {LC_SPINLOCK, LC_RECURSABLE},
      lc_assert = Some assert_mtx, lc_lock = Some lock_spin, lc_unlock = Some unlock_spin\<rparr>"

definition lock_class_rm_sleepable :: lock_class where
  "lock_class_rm_sleepable =
     \<lparr>lc_name = ''sleepable rm'', lc_flags = {LC_SLEEPLOCK, LC_SLEEPABLE, LC_RECURSABLE},
      lc_assert = Some assert_rm, lc_lock = Some lock_rm, lc_unlock = Some unlock_rm\<rparr>"

section \<open>Initialisers\<close>

datatype lockopt = OPT_DUPOK | OPT_NOPROFILE | OPT_NOWITNESS | OPT_QUIET | OPT_RECURSE | OPT_NEW

datatype loflag = LO_UPGRADABLE | LO_SLEEPABLE | LO_DUPOK | LO_NOPROFILE | LO_WITNESS
  | LO_RECURSABLE | LO_QUIET | LO_NEW

text \<open>
  \<open>lock_init\<close> is FreeBSD's: it gets the address of the lock object, the class, a name and a type, and
  the flag word.  The flag word is one of \<open>LO_*\<close> bits, except that a mutex initialiser hands on the
  \<open>MTX_*\<close> options it was given unconverted.  \<open>MPASS\<close>, like \<open>KASSERT\<close>, is no code in this build.
\<close>

datatype init_flags = LO_flags "loflag set" | MTX_opts "lockopt set"

type_synonym 's lock_init = "nat \<Rightarrow> lock_class \<Rightarrow> string \<Rightarrow> string option \<Rightarrow> init_flags \<Rightarrow> 's \<Rightarrow> 's"

definition lazybsd_mtx_init :: "'s lock_init \<Rightarrow> nat \<Rightarrow> string \<Rightarrow> string option \<Rightarrow> lockopt set \<Rightarrow> 's \<Rightarrow> 's" where
  "lazybsd_mtx_init lock_init lo name typ opts = lock_init lo lock_class_mtx_sleep name typ (MTX_opts opts)"

record lock_args =
  la_lock :: nat
  la_desc :: string
  la_opts :: "lockopt set"

definition mtx_sysinit :: "'s lock_init \<Rightarrow> lock_args \<Rightarrow> 's \<Rightarrow> 's" where
  "mtx_sysinit lock_init margs =
     lazybsd_mtx_init lock_init (la_lock margs) (la_desc margs) None (la_opts margs)"

definition rw_flags :: "lockopt set \<Rightarrow> loflag set" where
  "rw_flags opts = {LO_UPGRADABLE}
     \<union> (if OPT_DUPOK \<in> opts then {LO_DUPOK} else {})
     \<union> (if OPT_NOPROFILE \<in> opts then {LO_NOPROFILE} else {})
     \<union> (if OPT_NOWITNESS \<notin> opts then {LO_WITNESS} else {})
     \<union> (if OPT_RECURSE \<in> opts then {LO_RECURSABLE} else {})
     \<union> (if OPT_QUIET \<in> opts then {LO_QUIET} else {})"

definition lazybsd_rw_init_flags :: "'s lock_init \<Rightarrow> nat \<Rightarrow> string \<Rightarrow> lockopt set \<Rightarrow> 's \<Rightarrow> 's" where
  "lazybsd_rw_init_flags lock_init lo name opts =
     lock_init lo lock_class_rw name None (LO_flags (rw_flags opts))"

definition rw_sysinit :: "'s lock_init \<Rightarrow> lock_args \<Rightarrow> 's \<Rightarrow> 's" where
  "rw_sysinit lock_init args = lazybsd_rw_init_flags lock_init (la_lock args) (la_desc args) {}"

definition rm_init_flags :: "'s lock_init \<Rightarrow> nat \<Rightarrow> string \<Rightarrow> lockopt set \<Rightarrow> 's \<Rightarrow> 's" where
  "rm_init_flags lock_init rm name opts =
     lock_init rm lock_class_rm name None
       (LO_flags ((if OPT_NOWITNESS \<notin> opts then {LO_WITNESS} else {})
                  \<union> (if OPT_RECURSE \<in> opts then {LO_RECURSABLE} else {})))"

definition rm_init :: "'s lock_init \<Rightarrow> nat \<Rightarrow> string \<Rightarrow> 's \<Rightarrow> 's" where
  "rm_init lock_init rm name = rm_init_flags lock_init rm name {}"

definition rm_sysinit :: "'s lock_init \<Rightarrow> lock_args \<Rightarrow> 's \<Rightarrow> 's" where
  "rm_sysinit lock_init args = rm_init lock_init (la_lock args) (la_desc args)"

definition sx_flags :: "lockopt set \<Rightarrow> loflag set" where
  "sx_flags opts = {LO_SLEEPABLE, LO_UPGRADABLE}
     \<union> (if OPT_DUPOK \<in> opts then {LO_DUPOK} else {})
     \<union> (if OPT_NOPROFILE \<in> opts then {LO_NOPROFILE} else {})
     \<union> (if OPT_NOWITNESS \<notin> opts then {LO_WITNESS} else {})
     \<union> (if OPT_RECURSE \<in> opts then {LO_RECURSABLE} else {})
     \<union> (if OPT_QUIET \<in> opts then {LO_QUIET} else {})
     \<union> (if OPT_NEW \<in> opts then {LO_NEW} else {})"

definition sx_init_flags :: "'s lock_init \<Rightarrow> nat \<Rightarrow> string \<Rightarrow> lockopt set \<Rightarrow> 's \<Rightarrow> 's" where
  "sx_init_flags lock_init sx description opts =
     lock_init sx lock_class_sx description None (LO_flags (sx_flags opts))"

definition sx_sysinit :: "'s lock_init \<Rightarrow> lock_args \<Rightarrow> 's \<Rightarrow> 's" where
  "sx_sysinit lock_init args = sx_init_flags lock_init (la_lock args) (la_desc args) {}"

text \<open>\<open>mutex_init\<close>; \<open>giant\<close> and \<open>p_mtx\<close> are the addresses of \<open>Giant\<close> and \<open>proc0.p_mtx\<close>.\<close>

definition mutex_init :: "'s lock_init \<Rightarrow> nat \<Rightarrow> nat \<Rightarrow> 's \<Rightarrow> 's" where
  "mutex_init lock_init giant p_mtx st =
     lazybsd_mtx_init lock_init p_mtx ''process lock'' None {OPT_DUPOK}
       (lazybsd_mtx_init lock_init giant ''Giant'' None {OPT_RECURSE} st)"

section \<open>Operations\<close>

text \<open>Every acquisition succeeds at once, whoever holds the lock, and nothing is recorded: the
  operations return a constant and leave the state, here any state, alone.\<close>

datatype lock_op = RM_destroy | RM_wlock | RM_wunlock | RM_rlock | RM_runlock | RM_wowned
  | RW_wlock_hard | RW_wunlock_hard
  | SX_destroy | SX_xlock | SX_slock | SX_xlock_hard | SX_xunlock_hard | SX_xunlock | SX_sunlock
  | SX_try_slock | SX_try_xlock | SX_try_upgrade | SX_downgrade | Spinlock_enter | Spinlock_exit

fun lock_op_result :: "lock_op \<Rightarrow> int option" where
  "lock_op_result RM_rlock = Some 1"
| "lock_op_result RM_wowned = Some 1"
| "lock_op_result SX_xlock = Some 0"
| "lock_op_result SX_slock = Some 0"
| "lock_op_result SX_xlock_hard = Some 1"
| "lock_op_result SX_try_slock = Some 1"
| "lock_op_result SX_try_xlock = Some 1"
| "lock_op_result SX_try_upgrade = Some 1"
| "lock_op_result _ = None"

lemmas lock_class_defs =
  lock_class_mtx_sleep_def lock_class_rw_def lock_class_rm_def lock_class_sx_def
  lock_class_mtx_spin_def lock_class_rm_sleepable_def

end
