(* ===== verification/LB_Callout.thy ===== *)
theory LB_Callout
  imports LB_Lock
begin

text \<open>
  \<^verbatim>\<open>bsd/lib/lazybsd_kern_timeout.c\<close>: the callout wheel that drives every timer of the stack.

  The single \<open>struct callout_cpu\<close> (\<open>CC_CPU\<close> and \<open>CC_SELF\<close> both name \<open>cc_cpu\<close>) and the globals
  of the file are the record \<open>cst\<close>; a \<open>struct callout\<close> is a record stored under its address.
  The intrusive lists are lists of addresses: \<open>LIST_REMOVE\<close> takes a callout off the bucket it
  is linked on.  Flag words are sets of named bits.  Locking is a no-op in this port
  (\<^verbatim>\<open>lazybsd_lock.c\<close>), and so are the sleep queue macros at the top of the file.

  A callout's function, the code the stack registers, is the parameter \<open>call\<close>: it gets the
  function and argument words and the state, and may itself use the callout interface.
  \<open>None\<close> is \<open>does not return\<close>, \<open>Some (Inl p)\<close> a panic or a call through a NULL pointer.
\<close>

section \<open>State\<close>

datatype cflag = CALLOUT_LOCAL_ALLOC | CALLOUT_ACTIVE | CALLOUT_PENDING | CALLOUT_RETURNUNLOCKED
  | CALLOUT_SHAREDLOCK | CALLOUT_DFRMIGRATION | CALLOUT_PROCESSED | CALLOUT_DIRECT

datatype lclass = MTX_SLEEP | RW | RM | SX | MTX_SPIN | RM_SLEEPABLE

fun lock_class_of :: "lclass \<Rightarrow> lock_class" where
  "lock_class_of MTX_SLEEP = lock_class_mtx_sleep"
| "lock_class_of RW = lock_class_rw"
| "lock_class_of RM = lock_class_rm"
| "lock_class_of SX = lock_class_sx"
| "lock_class_of MTX_SPIN = lock_class_mtx_spin"
| "lock_class_of RM_SLEEPABLE = lock_class_rm_sleepable"

record lock_object =
  lo_addr :: nat
  lo_class :: lclass

definition LOCK_CLASS :: "lock_object \<Rightarrow> lock_class" where
  "LOCK_CLASS l = lock_class_of (lo_class l)"

text \<open>\<open>mutex_init\<close> makes \<open>Giant\<close> a sleep mutex.\<close>

definition Giant :: lock_object where
  "Giant = \<lparr>lo_addr = 0, lo_class = MTX_SLEEP\<rparr>"

record callout =
  c_time :: i32
  c_arg :: nat
  c_func :: "nat option"
  c_lock :: "lock_object option"
  c_flags :: "cflag set"
  c_iflags :: "cflag set"
  c_cpu :: int

record cc_exec =
  cc_curr :: "nat option"
  cc_drain :: "nat option"
  cc_cancel :: bool
  cc_waiting :: bool

text \<open>\<open>cc_exec_entity\<close> has two entries, indexed by \<open>direct\<close>.\<close>

record 'w cst =
  callouts :: "nat \<Rightarrow> callout"
  cc_exec_entity :: "bool \<Rightarrow> cc_exec"
  cc_next :: "nat option"
  cc_callout :: "nat list"
  cc_callwheel :: "nat \<Rightarrow> nat list"
  cc_expireq :: "nat list"
  cc_callfree :: "nat list"
  cc_softticks :: i32
  cc_bucket :: u32
  cc_inited :: bool
  callwheelsize :: u32
  callwheelmask :: u32
  ncallout :: i32
  timeout_cpu :: int
  ticks :: i32
  world :: 'w

type_synonym 'w outcome = "'w cst kresult option"
type_synonym 'w callback = "nat \<Rightarrow> nat \<Rightarrow> 'w cst \<Rightarrow> 'w outcome"

definition upd_callout :: "nat \<Rightarrow> (callout \<Rightarrow> callout) \<Rightarrow> 'w cst \<Rightarrow> 'w cst" where
  "upd_callout c f st = st\<lparr>callouts := (callouts st)(c := f (callouts st c))\<rparr>"

definition upd_exec :: "bool \<Rightarrow> (cc_exec \<Rightarrow> cc_exec) \<Rightarrow> 'w cst \<Rightarrow> 'w cst" where
  "upd_exec d f st = st\<lparr>cc_exec_entity := (cc_exec_entity st)(d := f (cc_exec_entity st d))\<rparr>"

definition pending :: "'w cst \<Rightarrow> nat \<Rightarrow> bool" where
  "pending st c \<longleftrightarrow> CALLOUT_PENDING \<in> c_iflags (callouts st c)"

abbreviation ctime :: "'w cst \<Rightarrow> nat \<Rightarrow> i32" where
  "ctime st c \<equiv> c_time (callouts st c)"

section \<open>The wheel\<close>

definition callout_get_bucket :: "'w cst \<Rightarrow> i32 \<Rightarrow> u32" where
  "callout_get_bucket st to_ticks = to_ticks AND callwheelmask st"

abbreviation bucket :: "'w cst \<Rightarrow> i32 \<Rightarrow> nat list" where
  "bucket st t \<equiv> cc_callwheel st (unat (callout_get_bucket st t))"

definition LIST_NEXT :: "'w cst \<Rightarrow> nat \<Rightarrow> nat option" where
  "LIST_NEXT st c = list_next (bucket st (ctime st c)) c"

definition LIST_REMOVE :: "nat \<Rightarrow> 'w cst \<Rightarrow> 'w cst" where
  "LIST_REMOVE c st = st\<lparr>cc_callwheel := (\<lambda>b. remove1 c (cc_callwheel st b))\<rparr>"

definition LIST_INSERT_HEAD :: "u32 \<Rightarrow> nat \<Rightarrow> 'w cst \<Rightarrow> 'w cst" where
  "LIST_INSERT_HEAD b c st =
     st\<lparr>cc_callwheel := (cc_callwheel st)(unat b := c # cc_callwheel st (unat b))\<rparr>"

definition cc_cce_cleanup :: "bool \<Rightarrow> 'w cst \<Rightarrow> 'w cst" where
  "cc_cce_cleanup direct = upd_exec direct
     (\<lambda>e. e\<lparr>cc_curr := None, cc_cancel := False, cc_waiting := False\<rparr>)"

definition cc_cce_migrating :: "bool \<Rightarrow> 'w cst \<Rightarrow> bool" where
  "cc_cce_migrating direct st = False"

datatype resetflag = C_DIRECT_EXEC

definition callout_cc_add ::
    "nat \<Rightarrow> i32 \<Rightarrow> nat option \<Rightarrow> nat \<Rightarrow> int \<Rightarrow> resetflag set \<Rightarrow> 'w cst \<Rightarrow> 'w cst" where
  "callout_cc_add c to_ticks func arg cpu flags st =
     (let st = upd_callout c (\<lambda>co. co\<lparr>c_arg := arg\<rparr>) st;
          st = upd_callout c (\<lambda>co. co\<lparr>c_iflags := insert CALLOUT_PENDING (c_iflags co)\<rparr>) st;
          st = upd_callout c (\<lambda>co. co\<lparr>c_iflags := c_iflags co - {CALLOUT_PROCESSED}\<rparr>) st;
          st = upd_callout c (\<lambda>co. co\<lparr>c_flags := insert CALLOUT_ACTIVE (c_flags co)\<rparr>) st;
          st = (if C_DIRECT_EXEC \<in> flags
                then upd_callout c (\<lambda>co. co\<lparr>c_iflags := insert CALLOUT_DIRECT (c_iflags co)\<rparr>) st
                else st);
          st = upd_callout c (\<lambda>co. co\<lparr>c_func := func\<rparr>) st;
          st = upd_callout c (\<lambda>co. co\<lparr>c_time := ticks st + to_ticks\<rparr>) st;
          b = callout_get_bucket st (ctime st c);
          st = LIST_INSERT_HEAD b c st
      in if cc_bucket st = b then st\<lparr>cc_next := Some c\<rparr> else st)"

definition callout_cc_del :: "nat \<Rightarrow> 'w cst \<Rightarrow> 'w cst" where
  "callout_cc_del c st =
     (if CALLOUT_LOCAL_ALLOC \<notin> c_iflags (callouts st c) then st
      else let st = upd_callout c (\<lambda>co. co\<lparr>c_func := None\<rparr>) st
           in st\<lparr>cc_callfree := c # cc_callfree st\<rparr>)"

text \<open>
  The block both \<open>callout_reset_tick_on\<close> and \<open>_callout_stop_safe\<close> use to take a pending
  callout off its list, moving the sweep's \<open>cc_next\<close> on when it points at it.
\<close>

definition callout_unlink :: "nat \<Rightarrow> 'w cst \<Rightarrow> 'w cst" where
  "callout_unlink c st =
     (if CALLOUT_PROCESSED \<notin> c_iflags (callouts st c)
      then let st = (if cc_next st = Some c then st\<lparr>cc_next := LIST_NEXT st c\<rparr> else st)
           in LIST_REMOVE c st
      else st\<lparr>cc_expireq := remove1 c (cc_expireq st)\<rparr>)"

section \<open>Initialisation\<close>

definition callout_init :: "nat \<Rightarrow> bool \<Rightarrow> 'w cst \<Rightarrow> 'w cst" where
  "callout_init c mpsafe st =
     st\<lparr>callouts := (callouts st)(c :=
          \<lparr>c_time = 0, c_arg = 0, c_func = None,
           c_lock = (if mpsafe then None else Some Giant), c_flags = {},
           c_iflags = (if mpsafe then {CALLOUT_RETURNUNLOCKED} else {}),
           c_cpu = timeout_cpu st\<rparr>)\<rparr>"

text \<open>\<open>_callout_init_lock\<close>.  The build does not define \<open>INVARIANTS\<close>, so here and in the rest of the file
  a \<open>KASSERT\<close> is no code; \<open>init_lock_asserts\<close> is what the three of this function demand.\<close>

definition init_lock_asserts :: "lock_object option \<Rightarrow> cflag set \<Rightarrow> bool" where
  "init_lock_asserts lock flags \<longleftrightarrow>
     flags \<subseteq> {CALLOUT_RETURNUNLOCKED, CALLOUT_SHAREDLOCK}
   \<and> (lock \<noteq> None \<or> CALLOUT_RETURNUNLOCKED \<notin> flags)
   \<and> (case lock of None \<Rightarrow> True
      | Some l \<Rightarrow> lc_flags (LOCK_CLASS l) \<inter> {LC_SPINLOCK, LC_SLEEPABLE} = {})"

definition callout_init_lock :: "nat \<Rightarrow> lock_object option \<Rightarrow> cflag set \<Rightarrow> 'w cst \<Rightarrow> 'w cst" where
  "callout_init_lock c lock flags st =
     st\<lparr>callouts := (callouts st)(c :=
          \<lparr>c_time = 0, c_arg = 0, c_func = None, c_lock = lock, c_flags = {},
           c_iflags = flags \<inter> {CALLOUT_RETURNUNLOCKED, CALLOUT_SHAREDLOCK},
           c_cpu = timeout_cpu st\<rparr>)\<rparr>"

text \<open>
  \<open>callout_cpu_init\<close>; the loop over the preallocated callouts pushes each on \<open>cc_callfree\<close>.
\<close>

fun init_callouts :: "nat list \<Rightarrow> 'w cst \<Rightarrow> 'w cst" where
  "init_callouts [] st = st"
| "init_callouts (c # cs) st =
     (let st = callout_init c False st;
          st = upd_callout c (\<lambda>co. co\<lparr>c_iflags := {CALLOUT_LOCAL_ALLOC}\<rparr>) st
      in init_callouts cs (st\<lparr>cc_callfree := c # cc_callfree st\<rparr>))"

definition callout_cpu_init :: "'w cst \<Rightarrow> 'w cst" where
  "callout_cpu_init st =
     (let st = st\<lparr>cc_callfree := [], cc_inited := True, cc_callwheel := (\<lambda>_. []), cc_expireq := []\<rparr>;
          st = cc_cce_cleanup True (cc_cce_cleanup False st)
      in init_callouts (cc_callout st) st)"

text \<open>
  \<open>callout_callwheel_init\<close>.  \<open>getenv_int\<close> is what \<open>TUNABLE_INT_FETCH\<close> calls (the kernel
  environment component); \<open>base\<close> is the block \<open>malloc\<close> returned for the preallocated callouts
  (\<open>M_WAITOK\<close>: it does not fail) and \<open>cpuid\<close> is \<open>PCPU_GET(cpuid)\<close>.  The \<open>pin_*\<close> tunables are read
  and never used.
\<close>

definition callout_callwheel_init ::
    "(string \<Rightarrow> i32 option) \<Rightarrow> i32 \<Rightarrow> i32 \<Rightarrow> nat \<Rightarrow> int \<Rightarrow> 'w cst \<Rightarrow> 'w cst" where
  "callout_callwheel_init getenv_int maxproc maxfiles base cpuid st =
     (let st = st\<lparr>cc_exec_entity := (\<lambda>_. \<lparr>cc_curr = None, cc_drain = None, cc_cancel = False,
                                          cc_waiting = False\<rparr>),
                 cc_next := None, cc_callout := [], cc_callwheel := (\<lambda>_. []), cc_expireq := [],
                 cc_callfree := [], cc_softticks := 0, cc_bucket := 0, cc_inited := False\<rparr>;
          n = (if 16 + maxproc + maxfiles <s 18508 then 16 + maxproc + maxfiles else 18508);
          n = (case getenv_int ''kern.ncallout'' of None \<Rightarrow> n | Some v \<Rightarrow> v);
          size = push_bit (fls (unat n)) 1;
          st = st\<lparr>ncallout := n, callwheelsize := size, callwheelmask := size - 1,
                  timeout_cpu := cpuid\<rparr>;
          st = st\<lparr>cc_callout := map (\<lambda>i. base + i) [0..<nat (sint n)]\<rparr>
      in callout_cpu_init st)"

section \<open>Running a callout\<close>

text \<open>
  \<open>lock_status\<close>: only passed to the lock method, which ignores it in this port, so it is not
  part of the model; \<open>CALLOUT_SHAREDLOCK\<close> is never set in \<open>c_flags\<close>.
\<close>

definition null_deref :: "'a kresult option" where
  "null_deref = Some (Inl (Panic ''null pointer''))"

text \<open>From the label \<open>skip\<close> on: clear \<open>cc_curr\<close>, run a pending drain function, wake waiters,
  and put a locally allocated callout back on the free list.\<close>

definition softclock_skip ::
    "'w callback \<Rightarrow> nat \<Rightarrow> bool \<Rightarrow> nat \<Rightarrow> cflag set \<Rightarrow> 'w cst \<Rightarrow> 'w outcome" where
  "softclock_skip call c direct arg iflags st =
     (let st = upd_exec direct (\<lambda>e. e\<lparr>cc_curr := None\<rparr>) st;
          out = (case cc_drain (cc_exec_entity st direct) of
                   None \<Rightarrow> Some (Inr st)
                 | Some drain \<Rightarrow> call drain arg (upd_exec direct (\<lambda>e. e\<lparr>cc_drain := None\<rparr>) st))
      in case out of
           None \<Rightarrow> None
         | Some (Inl p) \<Rightarrow> Some (Inl p)
         | Some (Inr st) \<Rightarrow>
             (if cc_waiting (cc_exec_entity st direct) then
                let st = (if cc_cce_migrating direct st
                          then upd_callout c
                                 (\<lambda>co. co\<lparr>c_iflags := c_iflags co - {CALLOUT_DFRMIGRATION}\<rparr>)
                                 (cc_cce_cleanup direct st)
                          else st);
                    st = upd_exec direct (\<lambda>e. e\<lparr>cc_waiting := False\<rparr>) st
                in Some (Inr (if CALLOUT_LOCAL_ALLOC \<in> iflags then callout_cc_del c st else st))
              else if cc_cce_migrating direct st
              then Some (Inl (Panic ''migration should not happen''))
              else Some (Inr (if CALLOUT_LOCAL_ALLOC \<in> iflags then callout_cc_del c st else st))))"

text \<open>After the handler: the lock is dropped unless the handler returned it unlocked.\<close>

definition softclock_finish ::
    "'w callback \<Rightarrow> nat \<Rightarrow> bool \<Rightarrow> nat \<Rightarrow> cflag set \<Rightarrow> lock_object option \<Rightarrow> 'w cst \<Rightarrow> 'w outcome" where
  "softclock_finish call c direct arg iflags lock st =
     (if CALLOUT_RETURNUNLOCKED \<notin> iflags
         \<and> (case lock of None \<Rightarrow> True | Some l \<Rightarrow> lc_unlock (LOCK_CLASS l) = None)
      then null_deref
      else softclock_skip call c direct arg iflags st)"

definition softclock_run ::
    "'w callback \<Rightarrow> nat \<Rightarrow> bool \<Rightarrow> nat option \<Rightarrow> nat \<Rightarrow> cflag set \<Rightarrow> lock_object option \<Rightarrow> 'w cst
     \<Rightarrow> 'w outcome" where
  "softclock_run call c direct func arg iflags lock st =
     (case func of
        None \<Rightarrow> null_deref
      | Some f \<Rightarrow>
          (case call f arg st of
             None \<Rightarrow> None
           | Some (Inl p) \<Rightarrow> Some (Inl p)
           | Some (Inr st) \<Rightarrow> softclock_finish call c direct arg iflags lock st))"

definition softclock_call_cc :: "'w callback \<Rightarrow> nat \<Rightarrow> bool \<Rightarrow> 'w cst \<Rightarrow> 'w outcome" where
  "softclock_call_cc call c direct st =
     (let co = callouts st c;
          lock = c_lock co; func = c_func co; arg = c_arg co; iflags = c_iflags co;
          st = upd_callout c
                 (\<lambda>co. co\<lparr>c_iflags := (if CALLOUT_LOCAL_ALLOC \<in> c_iflags co then {CALLOUT_LOCAL_ALLOC}
                                      else c_iflags co - {CALLOUT_PENDING})\<rparr>) st;
          st = upd_exec direct
                 (\<lambda>e. e\<lparr>cc_curr := Some c, cc_cancel := False, cc_drain := None\<rparr>) st
      in case lock of
           None \<Rightarrow> softclock_run call c direct func arg iflags lock st
         | Some l \<Rightarrow>
             (case lc_lock (LOCK_CLASS l) of
                None \<Rightarrow> null_deref
              | Some _ \<Rightarrow>
                  (if cc_cancel (cc_exec_entity st direct) then
                     (if lc_unlock (LOCK_CLASS l) = None then null_deref
                      else softclock_skip call c direct arg iflags st)
                   else softclock_run call c direct func arg iflags lock
                          (upd_exec direct (\<lambda>e. e\<lparr>cc_cancel := True\<rparr>) st))))"

section \<open>The software clock\<close>

text \<open>The inner \<open>while (c)\<close> over one bucket, and the outer loop over the elapsed ticks.\<close>

partial_function (option) softclock_bucket ::
    "'w callback \<Rightarrow> i32 \<Rightarrow> nat option \<Rightarrow> 'w cst \<Rightarrow> 'w outcome" where
  "softclock_bucket call curticks c st =
     (case c of
        None \<Rightarrow> Some (Inr st)
      | Some x \<Rightarrow>
          (if ctime st x \<noteq> curticks
           then softclock_bucket call curticks (LIST_NEXT st x) st
           else
             (case softclock_call_cc call x True
                     (LIST_REMOVE x (st\<lparr>cc_next := LIST_NEXT st x,
                                       cc_bucket := callout_get_bucket st curticks\<rparr>)) of
                None \<Rightarrow> None
              | Some (Inl p) \<Rightarrow> Some (Inl p)
              | Some (Inr st') \<Rightarrow>
                  softclock_bucket call curticks (cc_next st') (st'\<lparr>cc_next := None\<rparr>))))"

partial_function (option) softclock :: "'w callback \<Rightarrow> 'w cst \<Rightarrow> 'w outcome" where
  "softclock call st =
     (if cc_softticks st = ticks st then Some (Inr st)
      else
        (case softclock_bucket call (cc_softticks st) (list_first (bucket st (cc_softticks st)))
                (st\<lparr>cc_softticks := cc_softticks st + 1\<rparr>) of
           None \<Rightarrow> None
         | Some (Inl p) \<Rightarrow> Some (Inl p)
         | Some (Inr st') \<Rightarrow> softclock call st'))"

text \<open>The scan of \<open>callout_tick\<close>: skip empty buckets up to \<open>ticks\<close>.\<close>

function tick_scan :: "'w cst \<Rightarrow> bool \<times> 'w cst" where
  "tick_scan st =
     (if sint (cc_softticks st - ticks st) < 0
      then if bucket st (cc_softticks st) \<noteq> [] then (True, st)
           else tick_scan (st\<lparr>cc_softticks := cc_softticks st + 1\<rparr>)
      else (False, st))"
  by pat_completeness auto
termination
proof (relation "measure (\<lambda>st. unat (ticks st - cc_softticks st))", goal_cases)
  case (2 st)
  then have "ticks st - cc_softticks st \<noteq> 0" by auto
  then have "unat (ticks st - cc_softticks st - 1) < unat (ticks st - cc_softticks st)"
    by (simp add: unat_minus_one unat_gt_0)
  then show ?case by (simp add: algebra_simps)
qed simp

declare tick_scan.simps [simp del]

definition callout_tick :: "'w callback \<Rightarrow> 'w cst \<Rightarrow> 'w outcome" where
  "callout_tick call st =
     (let (need_softclock, st) = tick_scan st
      in if need_softclock then softclock call st else Some (Inr st))"

section \<open>Arming a callout\<close>

text \<open>
  \<open>callout_reset_tick_on\<close>; \<open>maxcpu\<close> is \<open>MAXCPU\<close> of the FreeBSD headers.  \<open>callout_lock\<close> locks the one
  \<open>cc_cpu\<close> and has no effect.  The result is \<open>cancelled\<close>.
\<close>

definition callout_reset_tick_on ::
    "int \<Rightarrow> nat \<Rightarrow> i32 \<Rightarrow> nat option \<Rightarrow> nat \<Rightarrow> int \<Rightarrow> resetflag set \<Rightarrow> 'w cst \<Rightarrow> (int \<times> 'w cst) kresult" where
  "callout_reset_tick_on maxcpu c to_ticks ftn arg cpu flags st =
     (if cpu \<noteq> -1 \<and> (cpu \<ge> maxcpu \<or> \<not> cc_inited st)
      then Inl (Panic ''Invalid CPU in callout'')
      else
          let direct = (C_DIRECT_EXEC \<in> flags);
              cpu = (if CALLOUT_LOCAL_ALLOC \<in> c_iflags (callouts st c) \<or> cpu = -1
                     then c_cpu (callouts st c) else cpu);
              running = (cc_curr (cc_exec_entity st direct) = Some c);
              cancel = (running \<and> c_lock (callouts st c) \<noteq> None
                        \<and> \<not> cc_cancel (cc_exec_entity st direct));
              st = (if cancel then upd_exec direct (\<lambda>e. e\<lparr>cc_cancel := True\<rparr>) st else st);
              cancelled = (if cancel then 1 else 0)
          in if running \<and> cc_waiting (cc_exec_entity st direct) then Inr (cancelled, st)
             else
               let was_pending = pending st c;
                   st = (if was_pending then
                           upd_callout c (\<lambda>co. co\<lparr>c_iflags := c_iflags co - {CALLOUT_PENDING},
                                                  c_flags := c_flags co - {CALLOUT_ACTIVE}\<rparr>)
                             (callout_unlink c st)
                         else st);
                   cancelled = (if was_pending then 1 else cancelled);
                   to_ticks = (if to_ticks \<le>s 0 then 1 else to_ticks)
               in Inr (cancelled, callout_cc_add c to_ticks ftn arg cpu flags st))"

text \<open>The two \<open>callout_schedule\<close> idioms call \<open>callout_reset_on\<close> of the FreeBSD headers.\<close>

definition callout_schedule_on ::
    "(nat \<Rightarrow> i32 \<Rightarrow> nat option \<Rightarrow> nat \<Rightarrow> int \<Rightarrow> 'w cst \<Rightarrow> (int \<times> 'w cst) kresult)
     \<Rightarrow> nat \<Rightarrow> i32 \<Rightarrow> int \<Rightarrow> 'w cst \<Rightarrow> (int \<times> 'w cst) kresult" where
  "callout_schedule_on reset_on c to_ticks cpu st =
     reset_on c to_ticks (c_func (callouts st c)) (c_arg (callouts st c)) cpu st"

definition callout_schedule ::
    "(nat \<Rightarrow> i32 \<Rightarrow> nat option \<Rightarrow> nat \<Rightarrow> int \<Rightarrow> 'w cst \<Rightarrow> (int \<times> 'w cst) kresult)
     \<Rightarrow> nat \<Rightarrow> i32 \<Rightarrow> 'w cst \<Rightarrow> (int \<times> 'w cst) kresult" where
  "callout_schedule reset_on c to_ticks st =
     reset_on c to_ticks (c_func (callouts st c)) (c_arg (callouts st c)) (c_cpu (callouts st c)) st"

section \<open>Stopping a callout\<close>

datatype csflag = CS_DRAIN | CS_EXECUTING

definition callout_migrating :: "'w cst \<Rightarrow> nat \<Rightarrow> bool" where
  "callout_migrating st c \<longleftrightarrow> CALLOUT_DFRMIGRATION \<in> c_iflags (callouts st c)"

abbreviation cexec :: "csflag set \<Rightarrow> int" where
  "cexec flags \<equiv> (if CS_EXECUTING \<in> flags then 1 else 0)"

text \<open>The tail of \<open>_callout_stop_safe\<close>, from the release of the sleep queue on.\<close>

definition callout_stop_tail ::
    "nat \<Rightarrow> bool \<Rightarrow> bool \<Rightarrow> int \<Rightarrow> 'w cst \<Rightarrow> int \<times> 'w cst" where
  "callout_stop_tail c direct not_on_a_list cancelled st =
     (if \<not> pending st c
      then (if cc_curr (cc_exec_entity st direct) \<noteq> Some c then -1 else cancelled, st)
      else
        let st = upd_callout c (\<lambda>co. co\<lparr>c_iflags := c_iflags co - {CALLOUT_PENDING},
                                       c_flags := c_flags co - {CALLOUT_ACTIVE}\<rparr>) st;
            st = (if \<not> not_on_a_list then callout_unlink c st else st)
        in (cancelled, callout_cc_del c st))"

definition set_drain :: "bool \<Rightarrow> nat option \<Rightarrow> 'w cst \<Rightarrow> 'w cst" where
  "set_drain direct drain st =
     (if drain \<noteq> None then upd_exec direct (\<lambda>e. e\<lparr>cc_drain := drain\<rparr>) st else st)"

text \<open>The check for a callout that slipped into a migration while the lock was not held.\<close>

definition callout_stop_slipped :: "nat \<Rightarrow> 'w cst \<Rightarrow> bool" where
  "callout_stop_slipped c st \<longleftrightarrow>
     callout_migrating st c \<and> pending st c \<and> CALLOUT_ACTIVE \<in> c_flags (callouts st c)"

definition callout_stop_slip :: "nat \<Rightarrow> 'w cst \<Rightarrow> 'w cst" where
  "callout_stop_slip c st =
     (if callout_stop_slipped c st then
        upd_callout c (\<lambda>co. co\<lparr>c_iflags := c_iflags co - {CALLOUT_PENDING},
                              c_flags := c_flags co - {CALLOUT_ACTIVE}\<rparr>) st
      else st)"

definition clear_active :: "nat \<Rightarrow> 'w cst \<Rightarrow> 'w cst" where
  "clear_active c = upd_callout c (\<lambda>co. co\<lparr>c_flags := c_flags co - {CALLOUT_ACTIVE}\<rparr>)"

text \<open>The callout is running and \<open>CS_DRAIN\<close> is not set.\<close>

definition callout_stop_running ::
    "nat \<Rightarrow> csflag set \<Rightarrow> nat option \<Rightarrow> bool \<Rightarrow> bool \<Rightarrow> bool \<Rightarrow> 'w cst \<Rightarrow> int \<times> 'w cst" where
  "callout_stop_running c flags drain use_lock direct slipped st =
     (if use_lock \<and> \<not> cc_cancel (cc_exec_entity st direct) \<and> drain = None then
        let st = upd_exec direct (\<lambda>e. e\<lparr>cc_cancel := True\<rparr>) st;
            st = (if callout_migrating st c then
                    upd_callout c
                      (\<lambda>co. co\<lparr>c_iflags := c_iflags co - {CALLOUT_DFRMIGRATION}\<rparr>) st
                  else st)
        in (1, st)
      else if callout_migrating st c then
        (cexec flags,
         set_drain direct drain
           (upd_callout c (\<lambda>co. co\<lparr>c_iflags := c_iflags co - {CALLOUT_DFRMIGRATION}\<rparr>) st))
      else callout_stop_tail c direct slipped (cexec flags) (set_drain direct drain st))"

text \<open>
  The body from the label \<open>again\<close>.  With \<open>CS_DRAIN\<close> and the callout running, the source marks the
  entity as waited for, sleeps (a no-op macro) and tests again: nothing else runs in between,
  so whether the loop ends is decided by \<open>cc_curr\<close> alone.
\<close>

partial_function (option) callout_stop_again ::
    "nat \<Rightarrow> csflag set \<Rightarrow> nat option \<Rightarrow> bool \<Rightarrow> bool \<Rightarrow> bool \<Rightarrow> 'w cst \<Rightarrow> (int \<times> 'w cst) option" where
  "callout_stop_again c flags drain use_lock direct sq_locked st =
     (let slipped = callout_stop_slipped c st;
          st = callout_stop_slip c st
      in if cc_curr (cc_exec_entity st direct) = Some c then
           let st = clear_active c st
           in if CS_DRAIN \<in> flags then
                (if \<not> sq_locked then callout_stop_again c flags drain use_lock direct True st
                 else
                   let st = upd_exec direct (\<lambda>e. e\<lparr>cc_waiting := True\<rparr>) st
                   in if cc_curr (cc_exec_entity st direct) = Some c
                      then callout_stop_again c flags drain use_lock direct True st
                      else Some (callout_stop_tail c direct slipped (cexec flags)
                                   (set_drain direct drain st)))
              else Some (callout_stop_running c flags drain use_lock direct slipped st)
         else Some (callout_stop_tail c direct slipped 1 st))"

definition callout_stop_safe ::
    "nat \<Rightarrow> csflag set \<Rightarrow> nat option \<Rightarrow> 'w cst \<Rightarrow> (int \<times> 'w cst) kresult option" where
  "callout_stop_safe c flags drain st =
     (let lock = c_lock (callouts st c);
          locked = (CS_DRAIN \<notin> flags \<and> lock \<noteq> None);
          direct = (CALLOUT_DIRECT \<in> c_iflags (callouts st c))
      in if locked \<and> lock \<noteq> Some Giant \<and> lc_assert (LOCK_CLASS (the lock)) = None
         then null_deref
         else (case callout_stop_again c flags drain locked direct False st of
                 None \<Rightarrow> None
               | Some r \<Rightarrow> Some (Inr r)))"

section \<open>The hardware clock and the time counter\<close>

text \<open>
  \<open>lazybsd_hardclock\<close>; \<open>tc_ticktock\<close> and \<open>cpu_tick_calibration\<close> are FreeBSD's.  \<open>DEVICE_POLLING\<close> is
  not configured.
\<close>

definition lazybsd_hardclock ::
    "int \<Rightarrow> (int \<Rightarrow> 'w \<Rightarrow> 'w) \<Rightarrow> ('w \<Rightarrow> 'w) \<Rightarrow> 'w callback \<Rightarrow> 'w cst \<Rightarrow> 'w outcome" where
  "lazybsd_hardclock hz tc_ticktock cpu_tick_calibration call st =
     (case callout_tick call (st\<lparr>ticks := ticks st + 1\<rparr>) of
        None \<Rightarrow> None
      | Some (Inl p) \<Rightarrow> Some (Inl p)
      | Some (Inr st) \<Rightarrow>
          Some (Inr (st\<lparr>world := cpu_tick_calibration (tc_ticktock ((hz + 999) div 1000) (world st))\<rparr>)))"

text \<open>\<open>lazybsd_tc_get_timecount\<close>: nanoseconds scaled to the counter's frequency, in 64 bits,
  returned as an \<open>unsigned int\<close>.\<close>

definition lazybsd_tc_get_timecount :: "u64 \<Rightarrow> u64 \<Rightarrow> u32" where
  "lazybsd_tc_get_timecount ns tc_frequency = ucast (ns * tc_frequency div 1000000000)"

end
