(* ===== verification/LB_Callout_Inv.thy ===== *)
theory LB_Callout_Inv
  imports LB_Callout
begin

text \<open>
  The invariant of the callout wheel, what one use of the callout interface may change
  (\<open>api_ok\<close>), and the lemmas that arming and stopping a callout keep both.  The interface a
  handler is held to is the locale \<open>callout_client\<close>; its last section interprets it on handlers
  that are sequences of callout operations.
\<close>

section \<open>The invariant\<close>

definition wheel_inv :: "'w cst \<Rightarrow> bool" where
  "wheel_inv st \<longleftrightarrow>
     (\<exists>k\<le>31. callwheelsize st = 2 ^ k \<and> callwheelmask st = 2 ^ k - 1)
   \<and> (\<forall>b. distinct (cc_callwheel st b))
   \<and> (\<forall>b c. c \<in> set (cc_callwheel st b) \<longleftrightarrow>
          pending st c \<and> b = unat (callout_get_bucket st (ctime st c)))
   \<and> (\<forall>c. CALLOUT_PROCESSED \<notin> c_iflags (callouts st c) \<and> \<not> callout_migrating st c)"

lemma wheel_inv_distinct: "wheel_inv st \<Longrightarrow> distinct (cc_callwheel st b)"
  by (simp add: wheel_inv_def)

lemma wheel_inv_mem:
  "wheel_inv st \<Longrightarrow> c \<in> set (cc_callwheel st b) \<longleftrightarrow>
     pending st c \<and> b = unat (callout_get_bucket st (ctime st c))"
  by (simp add: wheel_inv_def)

lemma wheel_inv_flags:
  assumes "wheel_inv st"
  shows "CALLOUT_PROCESSED \<notin> c_iflags (callouts st c)" "\<not> callout_migrating st c"
  using assms by (simp_all add: wheel_inv_def)

lemma wheel_inv_cong:
  assumes "cc_callwheel st' = cc_callwheel st" "callwheelsize st' = callwheelsize st"
    "callwheelmask st' = callwheelmask st"
    "\<And>c. pending st' c = pending st c" "\<And>c. pending st c \<Longrightarrow> ctime st' c = ctime st c"
    "\<And>c. CALLOUT_PROCESSED \<in> c_iflags (callouts st' c) \<longleftrightarrow> CALLOUT_PROCESSED \<in> c_iflags (callouts st c)"
    "\<And>c. callout_migrating st' c = callout_migrating st c"
  shows "wheel_inv st' \<longleftrightarrow> wheel_inv st"
  unfolding wheel_inv_def callout_get_bucket_def using assms by (auto simp: callout_get_bucket_def)

section \<open>Pointers into a bucket\<close>

definition from_ptr :: "'a option \<Rightarrow> 'a list \<Rightarrow> 'a list" where
  "from_ptr p xs = (case p of None \<Rightarrow> [] | Some x \<Rightarrow> dropWhile (\<lambda>y. y \<noteq> x) xs)"

lemma from_ptr_None [simp]: "from_ptr None xs = []"
  by (simp add: from_ptr_def)

lemma from_ptr_split: "x \<notin> set as \<Longrightarrow> from_ptr (Some x) (as @ x # bs) = x # bs"
  by (induction as) (auto simp: from_ptr_def)

lemma from_ptr_first [simp]: "from_ptr (list_first xs) xs = xs"
  by (cases xs) (auto simp: from_ptr_def)

lemma distinct_split:
  assumes "distinct xs" "x \<in> set xs"
  obtains as bs where "xs = as @ x # bs" "x \<notin> set as" "x \<notin> set bs"
  using assms by (metis distinct.simps(2) distinct_append split_list disjoint_insert(2) list.set(2)
      not_distinct_conv_prefix)

lemma from_ptr_next:
  assumes "distinct xs" "x \<in> set xs"
  shows "set (from_ptr (list_next xs x) xs) = set (from_ptr (Some x) xs) - {x}"
    and "length (from_ptr (list_next xs x) xs) < length (from_ptr (Some x) xs)"
    and "\<And>y. list_next xs x = Some y \<Longrightarrow> y \<in> set xs \<and> y \<noteq> x"
proof -
  obtain as bs where xs: "xs = as @ x # bs" "x \<notin> set as" "x \<notin> set bs"
    using assms by (rule distinct_split)
  have next1: "list_next xs x = list_first bs"
    using xs by (simp add: list_next_append)
  have tail: "from_ptr (list_first bs) xs = bs"
  proof (cases bs)
    case (Cons z zs)
    then have "z \<notin> set (as @ [x])" using assms xs by auto
    then show ?thesis using from_ptr_split [of z "as @ [x]" zs] xs Cons by simp
  qed simp
  show "set (from_ptr (list_next xs x) xs) = set (from_ptr (Some x) xs) - {x}"
    using xs tail next1 by (simp add: from_ptr_split)
  show "length (from_ptr (list_next xs x) xs) < length (from_ptr (Some x) xs)"
    using xs tail next1 by (simp add: from_ptr_split)
  show "y \<in> set xs \<and> y \<noteq> x" if "list_next xs x = Some y" for y
  proof -
    from that next1 have "list_first bs = Some y" by simp
    then obtain zs where "bs = y # zs" by (blast dest: list_first_SomeD)
    then show ?thesis using xs by auto
  qed
qed

lemma from_ptr_remove1:
  assumes "distinct xs" "x \<in> set xs" "x \<noteq> y"
  shows "set (from_ptr (Some x) (remove1 y xs)) = set (from_ptr (Some x) xs) - {y}"
proof -
  obtain as bs where xs: "xs = as @ x # bs" "x \<notin> set as"
    using assms(1,2) by (rule distinct_split)
  have "remove1 y xs = remove1 y as @ x # remove1 y bs"
    using xs assms by (cases "y \<in> set as") (auto simp: remove1_append remove1_idem disjoint_iff)
  moreover have "x \<notin> set (remove1 y as)" using xs by (meson notin_set_remove1)
  ultimately show ?thesis
    using assms xs by (auto simp: from_ptr_split)
qed

lemma from_ptr_next_remove1:
  assumes "distinct xs" "x \<in> set xs"
  shows "set (from_ptr (list_next xs x) (remove1 x xs)) = set (from_ptr (Some x) xs) - {x}"
proof (cases "list_next xs x")
  case None
  then show ?thesis using from_ptr_next(1) [OF assms] by simp
next
  case (Some y)
  with from_ptr_next(3) [OF assms] have y: "y \<in> set xs" "y \<noteq> x" by auto
  have "set (from_ptr (Some y) (remove1 x xs)) = set (from_ptr (Some y) xs) - {x}"
    using assms(1) y by (rule from_ptr_remove1)
  then show ?thesis using from_ptr_next(1) [OF assms] Some by simp
qed

section \<open>What one use of the interface may change\<close>

text \<open>
  \<open>sweep cur p st\<close>: \<open>p\<close> is a pointer into the bucket of tick \<open>cur\<close> and every callout due at
  \<open>cur\<close> is at or after it.  This is what \<open>softclock\<close> needs of \<open>cc_next\<close> when a handler returns.
\<close>

definition sweep :: "i32 \<Rightarrow> nat option \<Rightarrow> 'w cst \<Rightarrow> bool" where
  "sweep cur p st \<longleftrightarrow>
     (\<forall>x. p = Some x \<longrightarrow> x \<in> set (bucket st cur))
   \<and> (\<forall>x\<in>set (bucket st cur). ctime st x = cur \<longrightarrow> x \<in> set (from_ptr p (bucket st cur)))"

text \<open>\<open>arms st st'\<close>: what is pending afterwards was so before, or was armed strictly in the
  future of \<open>ticks\<close>.\<close>

definition arms :: "'w cst \<Rightarrow> 'w cst \<Rightarrow> bool" where
  "arms st st' \<longleftrightarrow>
     (\<forall>c. pending st' c \<longrightarrow> pending st c \<and> ctime st' c = ctime st c
        \<or> (\<exists>d. 0 < sint d \<and> ctime st' c = ticks st + d))"

definition same_clock :: "'w cst \<Rightarrow> 'w cst \<Rightarrow> bool" where
  "same_clock st st' \<longleftrightarrow>
     ticks st' = ticks st \<and> cc_softticks st' = cc_softticks st \<and> cc_bucket st' = cc_bucket st
   \<and> callwheelsize st' = callwheelsize st \<and> callwheelmask st' = callwheelmask st"

definition api_ok :: "'w cst \<Rightarrow> 'w cst \<Rightarrow> bool" where
  "api_ok st st' \<longleftrightarrow> same_clock st st' \<and>
     (wheel_inv st \<longrightarrow> wheel_inv st' \<and> arms st st'
       \<and> (\<forall>cur. sint (cur - ticks st) < 0 \<longrightarrow> cc_bucket st = callout_get_bucket st cur
            \<longrightarrow> sweep cur (cc_next st) st \<longrightarrow> sweep cur (cc_next st') st'))"

lemma same_clock_bucket: "same_clock st st' \<Longrightarrow> callout_get_bucket st' t = callout_get_bucket st t"
  by (simp add: same_clock_def callout_get_bucket_def)

lemma arms_refl [intro]: "arms st st"
  by (simp add: arms_def)

lemma arms_trans:
  assumes "arms st st'" "arms st' st''" "ticks st' = ticks st"
  shows "arms st st''"
proof -
  have "pending st c \<and> ctime st'' c = ctime st c \<or> (\<exists>d. 0 < sint d \<and> ctime st'' c = ticks st + d)"
    if p: "pending st'' c" for c
  proof -
    from assms(2) p consider "pending st' c" "ctime st'' c = ctime st' c"
      | d where "0 < sint d" "ctime st'' c = ticks st' + d"
      unfolding arms_def by blast
    then show ?thesis
      using assms(1,3) unfolding arms_def by cases auto
  qed
  then show ?thesis unfolding arms_def by blast
qed

lemma api_ok_refl [intro]: "api_ok st st"
  by (auto simp: api_ok_def same_clock_def)

lemma api_ok_trans:
  assumes a: "api_ok st st'" and b: "api_ok st' st''"
  shows "api_ok st st''"
proof -
  have clock: "same_clock st st''" "same_clock st st'"
    using a b by (auto simp: api_ok_def same_clock_def)
  have "arms st st''" if "wheel_inv st"
    using that a b clock by (auto simp: api_ok_def same_clock_def intro: arms_trans)
  moreover have "sweep cur (cc_next st'') st''"
    if "wheel_inv st" "sint (cur - ticks st) < 0" "cc_bucket st = callout_get_bucket st cur"
      "sweep cur (cc_next st) st" for cur
    using that a b clock same_clock_bucket [OF clock(2)]
    by (auto simp: api_ok_def same_clock_def)
  ultimately show ?thesis
    using a b clock by (auto simp: api_ok_def)
qed

text \<open>A tick armed in the future is never one the sweep is still to visit.\<close>

lemma future_not_due:
  assumes "sint (cur - t) < 0" and "0 < sint d"
  shows "t + d \<noteq> (cur :: i32)"
proof
  assume "t + d = cur"
  then have "cur - t = d" by auto
  with assms show False by simp
qed

section \<open>Operations that leave the wheel alone\<close>

lemma api_ok_neutral:
  assumes "same_clock st st'" "cc_callwheel st' = cc_callwheel st" "cc_next st' = cc_next st"
    "\<And>c. pending st' c = pending st c" "\<And>c. ctime st' c = ctime st c"
    "\<And>c. CALLOUT_PROCESSED \<in> c_iflags (callouts st' c) \<longleftrightarrow> CALLOUT_PROCESSED \<in> c_iflags (callouts st c)"
    "\<And>c. callout_migrating st' c = callout_migrating st c"
  shows "api_ok st st'"
proof -
  have "wheel_inv st' \<longleftrightarrow> wheel_inv st"
    using assms by (intro wheel_inv_cong) (auto simp: same_clock_def)
  moreover have "arms st st'" using assms by (simp add: arms_def)
  moreover have "sweep cur (cc_next st') st' \<longleftrightarrow> sweep cur (cc_next st) st" for cur
    using assms same_clock_bucket [OF assms(1)] by (simp add: sweep_def)
  ultimately show ?thesis using assms(1) by (simp add: api_ok_def)
qed

lemma upd_exec_simps [callout_simps]:
  "callouts (upd_exec d f st) = callouts st" "cc_callwheel (upd_exec d f st) = cc_callwheel st"
  "cc_next (upd_exec d f st) = cc_next st" "ticks (upd_exec d f st) = ticks st"
  "cc_softticks (upd_exec d f st) = cc_softticks st" "cc_bucket (upd_exec d f st) = cc_bucket st"
  "callwheelsize (upd_exec d f st) = callwheelsize st"
  "callwheelmask (upd_exec d f st) = callwheelmask st" "world (upd_exec d f st) = world st"
  "cc_inited (upd_exec d f st) = cc_inited st"
  "cc_exec_entity (upd_exec d f st) = (cc_exec_entity st)(d := f (cc_exec_entity st d))"
  by (simp_all add: upd_exec_def)

lemma upd_callout_simps [callout_simps]:
  "callouts (upd_callout c f st) = (callouts st)(c := f (callouts st c))"
  "cc_callwheel (upd_callout c f st) = cc_callwheel st"
  "cc_next (upd_callout c f st) = cc_next st" "ticks (upd_callout c f st) = ticks st"
  "cc_softticks (upd_callout c f st) = cc_softticks st" "cc_bucket (upd_callout c f st) = cc_bucket st"
  "callwheelsize (upd_callout c f st) = callwheelsize st"
  "callwheelmask (upd_callout c f st) = callwheelmask st" "world (upd_callout c f st) = world st"
  "cc_inited (upd_callout c f st) = cc_inited st"
  "cc_exec_entity (upd_callout c f st) = cc_exec_entity st"
  by (simp_all add: upd_callout_def)

lemma pending_upd_exec [callout_simps]: "pending (upd_exec d f st) = pending st"
  by (simp add: pending_def upd_exec_simps fun_eq_iff)

lemma migrating_upd_exec [callout_simps]: "callout_migrating (upd_exec d f st) = callout_migrating st"
  by (simp add: callout_migrating_def upd_exec_simps fun_eq_iff)

lemma api_ok_upd_exec: "api_ok st (upd_exec d f st)"
  by (rule api_ok_neutral) (simp_all add: same_clock_def pending_def callout_migrating_def callout_simps)

lemma api_ok_set_drain: "api_ok st (set_drain d dr st)"
  by (auto simp: set_drain_def intro: api_ok_upd_exec)

lemma api_ok_cc_del: "api_ok st (callout_cc_del c st)"
  by (rule api_ok_neutral)
    (auto simp: callout_cc_del_def Let_def same_clock_def pending_def callout_migrating_def callout_simps)

section \<open>Taking a callout off the wheel\<close>

definition callout_clear :: "callout \<Rightarrow> callout" where
  "callout_clear co = co\<lparr>c_iflags := c_iflags co - {CALLOUT_PENDING},
                        c_flags := c_flags co - {CALLOUT_ACTIVE}\<rparr>"

lemma callout_clear_simps [callout_simps]:
  "c_time (callout_clear co) = c_time co" "c_lock (callout_clear co) = c_lock co"
  "c_func (callout_clear co) = c_func co" "c_arg (callout_clear co) = c_arg co"
  "c_iflags (callout_clear co) = c_iflags co - {CALLOUT_PENDING}"
  "c_flags (callout_clear co) = c_flags co - {CALLOUT_ACTIVE}"
  by (simp_all add: callout_clear_def)

definition callout_detach :: "nat \<Rightarrow> 'w cst \<Rightarrow> 'w cst" where
  "callout_detach c st = upd_callout c callout_clear (callout_unlink c st)"

text \<open>Clearing the flags before or after the unlinking is the same.\<close>

lemma unlink_clear: "callout_unlink c (upd_callout c callout_clear st) = callout_detach c st"
  by (simp add: callout_detach_def callout_unlink_def LIST_REMOVE_def LIST_NEXT_def upd_callout_def
      callout_get_bucket_def callout_clear_def Let_def)

lemma callout_detach_simps:
  assumes "wheel_inv st"
  shows "callouts (callout_detach c st) = (callouts st)(c := callout_clear (callouts st c))"
    "cc_callwheel (callout_detach c st) = (\<lambda>b. remove1 c (cc_callwheel st b))"
    "cc_next (callout_detach c st) = (if cc_next st = Some c then LIST_NEXT st c else cc_next st)"
    "ticks (callout_detach c st) = ticks st" "cc_softticks (callout_detach c st) = cc_softticks st"
    "cc_bucket (callout_detach c st) = cc_bucket st"
    "callwheelsize (callout_detach c st) = callwheelsize st"
    "callwheelmask (callout_detach c st) = callwheelmask st"
    "cc_exec_entity (callout_detach c st) = cc_exec_entity st"
    "world (callout_detach c st) = world st"
  using wheel_inv_flags(1) [OF assms, of c]
  by (auto simp: callout_detach_def callout_unlink_def LIST_REMOVE_def upd_callout_def Let_def)

lemma same_clock_detach: "same_clock st (callout_detach c st)"
  by (auto simp: callout_detach_def callout_unlink_def LIST_REMOVE_def upd_callout_def Let_def
      same_clock_def)

lemma pending_detach:
  "wheel_inv st \<Longrightarrow> pending (callout_detach c st) x \<longleftrightarrow> pending st x \<and> x \<noteq> c"
  by (simp add: pending_def callout_detach_simps callout_simps)

lemma wheel_inv_detach:
  assumes inv: "wheel_inv st"
  shows "wheel_inv (callout_detach c st)"
proof -
  let ?st = "callout_detach c st"
  have bkt: "callout_get_bucket ?st t = callout_get_bucket st t" for t
    by (rule same_clock_bucket [OF same_clock_detach])
  have "x \<in> set (cc_callwheel ?st b) \<longleftrightarrow>
      pending ?st x \<and> b = unat (callout_get_bucket ?st (ctime ?st x))" for b x
    using wheel_inv_mem [OF inv, of x b] wheel_inv_distinct [OF inv, of b]
    by (auto simp: callout_detach_simps [OF inv] pending_detach [OF inv] bkt callout_simps)
  moreover have "distinct (cc_callwheel ?st b)" for b
    using wheel_inv_distinct [OF inv] by (simp add: callout_detach_simps [OF inv])
  moreover have "CALLOUT_PROCESSED \<notin> c_iflags (callouts ?st x) \<and> \<not> callout_migrating ?st x" for x
    using wheel_inv_flags(1,2) [OF inv, of x]
    by (auto simp: callout_detach_simps [OF inv] callout_migrating_def callout_simps)
  moreover have "\<exists>k\<le>31. callwheelsize ?st = 2 ^ k \<and> callwheelmask ?st = 2 ^ k - 1"
    using inv by (simp add: callout_detach_simps [OF inv] wheel_inv_def)
  ultimately show ?thesis unfolding wheel_inv_def by blast
qed

lemma sweep_remove:
  assumes inv: "wheel_inv st" and sw: "sweep cur p st"
    and st': "cc_callwheel st' = (\<lambda>b. remove1 c (cc_callwheel st b))"
      "callwheelmask st' = callwheelmask st" "\<And>x. x \<noteq> c \<Longrightarrow> ctime st' x = ctime st x"
      "p' = (if p = Some c then LIST_NEXT st c else p)"
  shows "sweep cur p' st'"
proof -
  let ?b = "bucket st cur"
  have b': "bucket st' cur = remove1 c ?b" using st' by (simp add: callout_get_bucket_def)
  have d: "distinct ?b" by (rule wheel_inv_distinct [OF inv])
  have sets: "set (from_ptr p' (remove1 c ?b)) = set (from_ptr p ?b) - {c}
      \<and> (\<forall>x. p' = Some x \<longrightarrow> x \<in> set ?b \<and> x \<noteq> c)"
  proof (cases "p = Some c")
    case True
    then have c: "c \<in> set ?b" using sw by (simp add: sweep_def)
    then have "bucket st (ctime st c) = ?b" using wheel_inv_mem [OF inv] by metis
    then have p': "p' = list_next ?b c" using st'(4) True by (simp add: LIST_NEXT_def)
    show ?thesis
      using from_ptr_next_remove1 [OF d c] from_ptr_next(3) [OF d c] p' True by simp
  next
    case False
    then have p': "p' = p" using st'(4) by simp
    show ?thesis
    proof (cases p)
      case (Some x)
      then have "x \<in> set ?b" "x \<noteq> c" using sw False by (auto simp: sweep_def)
      then show ?thesis using from_ptr_remove1 [OF d] p' Some by simp
    qed (simp add: p')
  qed
  show ?thesis
    unfolding sweep_def b' using sets sw d st'(3) by (auto simp: sweep_def)
qed

lemma api_ok_detach: "api_ok st (callout_detach c st)"
proof -
  have "wheel_inv st \<Longrightarrow> arms st (callout_detach c st)"
    by (simp add: arms_def pending_detach callout_detach_simps)
  moreover have "sweep cur (cc_next (callout_detach c st)) (callout_detach c st)"
    if "wheel_inv st" "sweep cur (cc_next st) st" for cur
    by (rule sweep_remove [OF that, of _ c])
      (simp_all add: callout_detach_simps [OF that(1)] callout_simps)
  ultimately show ?thesis
    using same_clock_detach by (simp add: api_ok_def wheel_inv_detach)
qed

section \<open>Putting a callout on the wheel\<close>

definition callout_armed :: "i32 \<Rightarrow> nat option \<Rightarrow> nat \<Rightarrow> resetflag set \<Rightarrow> callout \<Rightarrow> callout" where
  "callout_armed t f a fl co =
     co\<lparr>c_time := t, c_arg := a, c_func := f, c_flags := insert CALLOUT_ACTIVE (c_flags co),
        c_iflags := (if C_DIRECT_EXEC \<in> fl
                     then insert CALLOUT_DIRECT (insert CALLOUT_PENDING (c_iflags co) - {CALLOUT_PROCESSED})
                     else insert CALLOUT_PENDING (c_iflags co) - {CALLOUT_PROCESSED})\<rparr>"

lemma callout_armed_simps [callout_simps]:
  "c_time (callout_armed t f a fl co) = t" "c_arg (callout_armed t f a fl co) = a"
  "c_func (callout_armed t f a fl co) = f" "c_lock (callout_armed t f a fl co) = c_lock co"
  "CALLOUT_PENDING \<in> c_iflags (callout_armed t f a fl co)"
  "CALLOUT_ACTIVE \<in> c_flags (callout_armed t f a fl co)"
  "CALLOUT_PROCESSED \<notin> c_iflags (callout_armed t f a fl co)"
  "CALLOUT_DFRMIGRATION \<in> c_iflags (callout_armed t f a fl co) \<longleftrightarrow> CALLOUT_DFRMIGRATION \<in> c_iflags co"
  "CALLOUT_LOCAL_ALLOC \<in> c_iflags (callout_armed t f a fl co) \<longleftrightarrow> CALLOUT_LOCAL_ALLOC \<in> c_iflags co"
  "CALLOUT_RETURNUNLOCKED \<in> c_iflags (callout_armed t f a fl co)
     \<longleftrightarrow> CALLOUT_RETURNUNLOCKED \<in> c_iflags co"
  by (simp_all add: callout_armed_def)

lemma upd_callout_comp: "upd_callout c f (upd_callout c g st) = upd_callout c (\<lambda>co. f (g co)) st"
  by (simp add: upd_callout_def)

text \<open>The eight assignments of \<open>callout_cc_add\<close> as one update.\<close>

lemma callout_armed_assigns:
  "(if C_DIRECT_EXEC \<in> fl
    then co\<lparr>c_arg := a, c_iflags := insert CALLOUT_PENDING (c_iflags co) - {CALLOUT_PROCESSED},
            c_flags := insert CALLOUT_ACTIVE (c_flags co)\<rparr>
         \<lparr>c_iflags := insert CALLOUT_DIRECT (insert CALLOUT_PENDING (c_iflags co) - {CALLOUT_PROCESSED}),
            c_func := f, c_time := t\<rparr>
    else co\<lparr>c_arg := a, c_iflags := insert CALLOUT_PENDING (c_iflags co) - {CALLOUT_PROCESSED},
            c_flags := insert CALLOUT_ACTIVE (c_flags co), c_func := f, c_time := t\<rparr>)
   = callout_armed t f a fl co"
  by (rule callout.equality) (simp_all add: callout_armed_def)

lemma callout_cc_add_upd:
  "callout_cc_add c d f a cpu fl st =
     (let st' = upd_callout c (callout_armed (ticks st + d) f a fl) st;
          b = callout_get_bucket st (ticks st + d);
          st' = LIST_INSERT_HEAD b c st'
      in if cc_bucket st = b then st'\<lparr>cc_next := Some c\<rparr> else st')"
  unfolding callout_cc_add_def callout_armed_assigns [symmetric]
  by (simp add: Let_def upd_callout_comp callout_simps callout_get_bucket_def LIST_INSERT_HEAD_def)

lemma callout_cc_add_simps:
  shows "callouts (callout_cc_add c d f a cpu fl st) =
      (callouts st)(c := callout_armed (ticks st + d) f a fl (callouts st c))"
    "cc_callwheel (callout_cc_add c d f a cpu fl st) =
      (let b = unat (callout_get_bucket st (ticks st + d))
       in (cc_callwheel st)(b := c # cc_callwheel st b))"
    "cc_next (callout_cc_add c d f a cpu fl st) =
      (if cc_bucket st = callout_get_bucket st (ticks st + d) then Some c else cc_next st)"
    "cc_exec_entity (callout_cc_add c d f a cpu fl st) = cc_exec_entity st"
    "world (callout_cc_add c d f a cpu fl st) = world st"
    "callwheelsize (callout_cc_add c d f a cpu fl st) = callwheelsize st"
    "callwheelmask (callout_cc_add c d f a cpu fl st) = callwheelmask st"
  by (simp_all add: callout_cc_add_upd Let_def upd_callout_def LIST_INSERT_HEAD_def)

lemma same_clock_cc_add: "same_clock st (callout_cc_add c d f a cpu fl st)"
  by (simp add: callout_cc_add_upd Let_def upd_callout_def LIST_INSERT_HEAD_def same_clock_def)

lemma pending_cc_add: "pending (callout_cc_add c d f a cpu fl st) x \<longleftrightarrow> pending st x \<or> x = c"
  by (simp add: pending_def callout_cc_add_simps callout_simps)

lemma wheel_inv_cc_add:
  assumes inv: "wheel_inv st" and np: "\<not> pending st c"
  shows "wheel_inv (callout_cc_add c d f a cpu fl st)" (is "wheel_inv ?st")
proof -
  have bkt: "callout_get_bucket ?st t = callout_get_bucket st t" for t
    by (rule same_clock_bucket [OF same_clock_cc_add])
  have c: "c \<notin> set (cc_callwheel st b)" for b
    using wheel_inv_mem [OF inv] np by simp
  have "x \<in> set (cc_callwheel ?st b) \<longleftrightarrow>
      pending ?st x \<and> b = unat (callout_get_bucket ?st (ctime ?st x))" for b x
    using wheel_inv_mem [OF inv, of x b] c np
    by (auto simp: callout_cc_add_simps pending_cc_add bkt callout_simps Let_def)
  moreover have "distinct (cc_callwheel ?st b)" for b
    using wheel_inv_distinct [OF inv] c by (simp add: callout_cc_add_simps Let_def)
  moreover have "CALLOUT_PROCESSED \<notin> c_iflags (callouts ?st x) \<and> \<not> callout_migrating ?st x" for x
    using wheel_inv_flags(1,2) [OF inv, of x]
    by (auto simp: callout_cc_add_simps callout_migrating_def callout_simps)
  moreover have "\<exists>k\<le>31. callwheelsize ?st = 2 ^ k \<and> callwheelmask ?st = 2 ^ k - 1"
    using inv by (simp add: callout_cc_add_simps wheel_inv_def)
  ultimately show ?thesis unfolding wheel_inv_def by blast
qed

lemma sweep_cc_add:
  assumes inv: "wheel_inv st" and np: "\<not> pending st c" and d: "0 < sint d"
    and cur: "sint (cur - ticks st) < 0" and bkt: "cc_bucket st = callout_get_bucket st cur"
    and sw: "sweep cur (cc_next st) st"
  shows "sweep cur (cc_next (callout_cc_add c d f a cpu fl st)) (callout_cc_add c d f a cpu fl st)"
    (is "sweep cur (cc_next ?st) ?st")
proof -
  have mask: "callout_get_bucket ?st t = callout_get_bucket st t" for t
    by (rule same_clock_bucket [OF same_clock_cc_add])
  have c: "c \<notin> set (bucket st cur)" using wheel_inv_mem [OF inv] np by simp
  have nd: "ticks st + d \<noteq> cur" using cur d by (rule future_not_due)
  show ?thesis
  proof (cases "callout_get_bucket st (ticks st + d) = callout_get_bucket st cur")
    case True
    then have "bucket ?st cur = c # bucket st cur" "cc_next ?st = Some c"
      using bkt by (simp_all add: callout_cc_add_simps Let_def mask)
    then show ?thesis by (simp add: sweep_def from_ptr_def)
  next
    case False
    then have "unat (callout_get_bucket st (ticks st + d)) \<noteq> unat (callout_get_bucket st cur)"
      by (simp add: word_unat_eq_iff)
    then have "bucket ?st cur = bucket st cur" "cc_next ?st = cc_next st"
      using False bkt by (simp_all add: callout_cc_add_simps Let_def mask)
    moreover have "ctime ?st x = ctime st x" if "x \<in> set (bucket st cur)" for x
      using that c by (auto simp: callout_cc_add_simps)
    ultimately show ?thesis using sw by (simp add: sweep_def)
  qed
qed

lemma api_ok_cc_add:
  assumes "\<not> pending st c" "0 < sint d"
  shows "api_ok st (callout_cc_add c d f a cpu fl st)"
proof -
  have "arms st (callout_cc_add c d f a cpu fl st)"
    using assms by (auto simp: arms_def pending_cc_add callout_cc_add_simps callout_simps)
  then show ?thesis
    unfolding api_ok_def using assms
    by (simp add: same_clock_cc_add wheel_inv_cc_add sweep_cc_add)
qed

section \<open>Arming and stopping keep the interface\<close>

lemma sint_reset_ticks: "0 < sint (if t \<le>s 0 then 1 else t :: i32)"
  by (simp add: word_sle_eq)

lemma not_pending_detach: "\<not> pending (callout_detach c st) c"
  by (simp add: callout_detach_def pending_def callout_simps)

lemma api_ok_detach_add:
  assumes "0 < sint d"
  shows "api_ok st (callout_cc_add c d f a cpu fl (if pending st c then callout_detach c st else st))"
proof (cases "pending st c")
  case True
  then show ?thesis
    using api_ok_trans [OF api_ok_detach api_ok_cc_add [OF not_pending_detach assms]] by simp
next
  case False
  then show ?thesis using api_ok_cc_add [OF False assms] by simp
qed

text \<open>The state \<open>callout_reset_tick_on\<close> arms the callout in: a cancellation of the running
  instance recorded, the callout off the wheel.\<close>

definition reset_cancels :: "nat \<Rightarrow> resetflag set \<Rightarrow> 'w cst \<Rightarrow> bool" where
  "reset_cancels c fl st \<longleftrightarrow>
     cc_curr (cc_exec_entity st (C_DIRECT_EXEC \<in> fl)) = Some c \<and> c_lock (callouts st c) \<noteq> None
   \<and> \<not> cc_cancel (cc_exec_entity st (C_DIRECT_EXEC \<in> fl))"

definition reset_marked :: "nat \<Rightarrow> resetflag set \<Rightarrow> 'w cst \<Rightarrow> 'w cst" where
  "reset_marked c fl st =
     (if reset_cancels c fl st
      then upd_exec (C_DIRECT_EXEC \<in> fl) (\<lambda>e. e\<lparr>cc_cancel := True\<rparr>) st else st)"

lemma reset_marked_simps:
  "pending (reset_marked c fl st) = pending st" "callouts (reset_marked c fl st) = callouts st"
  "ticks (reset_marked c fl st) = ticks st" "api_ok st (reset_marked c fl st)"
  "cc_waiting (cc_exec_entity (reset_marked c fl st) d) = cc_waiting (cc_exec_entity st d)"
  by (simp_all add: reset_marked_def callout_simps api_ok_upd_exec api_ok_refl)

definition reset_panics :: "int \<Rightarrow> int \<Rightarrow> 'w cst \<Rightarrow> bool" where
  "reset_panics maxcpu cpu st \<longleftrightarrow> cpu \<noteq> -1 \<and> (cpu \<ge> maxcpu \<or> \<not> cc_inited st)"

definition reset_refused :: "nat \<Rightarrow> resetflag set \<Rightarrow> 'w cst \<Rightarrow> bool" where
  "reset_refused c fl st \<longleftrightarrow>
     cc_curr (cc_exec_entity st (C_DIRECT_EXEC \<in> fl)) = Some c
   \<and> cc_waiting (cc_exec_entity st (C_DIRECT_EXEC \<in> fl))"

lemma callout_cc_add_cpu: "callout_cc_add c d f a cpu fl st = callout_cc_add c d f a cpu' fl st"
  by (simp only: callout_cc_add_def)

lemma clear_unlink:
  "upd_callout c (\<lambda>co. co\<lparr>c_iflags := c_iflags co - {CALLOUT_PENDING},
     c_flags := c_flags co - {CALLOUT_ACTIVE}\<rparr>) (callout_unlink c s) = callout_detach c s"
  by (simp add: callout_detach_def callout_clear_def [abs_def])

lemma callout_reset_eq:
  assumes "\<not> reset_panics maxcpu cpu st"
  shows "callout_reset_tick_on maxcpu c t f a cpu fl st =
     (let st1 = reset_marked c fl st
      in if reset_refused c fl st then Inr (if reset_cancels c fl st then 1 else 0, st1)
         else Inr (if pending st c \<or> reset_cancels c fl st then 1 else 0,
                   callout_cc_add c (if t \<le>s 0 then 1 else t) f a cpu fl
                     (if pending st c then callout_detach c st1 else st1)))"
proof -
  have guard: "\<not> (cpu \<noteq> -1 \<and> (cpu \<ge> maxcpu \<or> \<not> cc_inited st))"
    using assms by (simp add: reset_panics_def)
  show ?thesis
    unfolding callout_reset_tick_on_def Let_def if_not_P [OF guard]
      clear_unlink reset_cancels_def [symmetric]
    by (subst callout_cc_add_cpu [where cpu' = cpu], cases "reset_cancels c fl st"; cases "pending st c")
      (simp_all add: reset_marked_def reset_refused_def callout_simps)
qed

lemma callout_reset_api_ok:
  assumes "callout_reset_tick_on maxcpu c t f a cpu fl st = Inr (r, st')"
  shows "api_ok st st'"
proof -
  have np: "\<not> reset_panics maxcpu cpu st"
    using assms by (auto simp: callout_reset_tick_on_def reset_panics_def split: if_splits)
  let ?m = "reset_marked c fl st"
  have "st' = ?m \<or> st' = callout_cc_add c (if t \<le>s 0 then 1 else t) f a cpu fl
          (if pending ?m c then callout_detach c ?m else ?m)"
    using assms unfolding callout_reset_eq [OF np] Let_def reset_marked_simps(1)
    by (auto split: if_splits)
  then show ?thesis
    using reset_marked_simps(4) api_ok_trans [OF reset_marked_simps(4) api_ok_detach_add [OF sint_reset_ticks]]
    by metis
qed


text \<open>\<open>_callout_stop_safe\<close> on a callout that is not running, and on one that is.\<close>

lemma stop_slip_simps [callout_simps]:
  "wheel_inv st \<Longrightarrow> \<not> callout_stop_slipped c st"
  "wheel_inv st \<Longrightarrow> callout_stop_slip c st = st"
  "cc_exec_entity (callout_stop_slip c st) = cc_exec_entity st"
  using wheel_inv_flags(2) [of st c]
  by (auto simp: callout_stop_slip_def callout_stop_slipped_def callout_simps)

lemma stop_not_running:
  assumes "wheel_inv st" "cc_curr (cc_exec_entity st direct) \<noteq> Some c"
  shows "callout_stop_again c flags drain use_lock direct sq st
    = Some (callout_stop_tail c direct False 1 st)"
  using assms by (subst callout_stop_again.simps) (simp add: Let_def stop_slip_simps)

lemma api_ok_clear_active: "api_ok st (clear_active c st)"
  by (rule api_ok_neutral)
    (simp_all add: clear_active_def same_clock_def pending_def callout_migrating_def callout_simps)

lemma clear_active_simps [callout_simps]:
  "cc_exec_entity (clear_active c st) = cc_exec_entity st"
  "callout_migrating (clear_active c st) x = callout_migrating st x"
  "pending (clear_active c st) x = pending st x"
  by (simp_all add: clear_active_def pending_def callout_migrating_def callout_simps)

lemma stop_running:
  assumes "wheel_inv st" "cc_curr (cc_exec_entity st direct) = Some c" "CS_DRAIN \<notin> flags"
  shows "callout_stop_again c flags drain use_lock direct sq st
    = (if use_lock \<and> \<not> cc_cancel (cc_exec_entity st direct) \<and> drain = None
       then Some (1, upd_exec direct (\<lambda>e. e\<lparr>cc_cancel := True\<rparr>) (clear_active c st))
       else Some (callout_stop_tail c direct False (cexec flags)
                    (set_drain direct drain (clear_active c st))))"
  using assms wheel_inv_flags(2) [OF assms(1), of c]
  by (subst callout_stop_again.simps) (simp add: Let_def callout_simps callout_stop_running_def)

text \<open>Draining a callout that is running never returns: sleeping is a no-op in this port, and
  nothing else clears \<open>cc_curr\<close>.\<close>

lemma stop_drain_running:
  assumes "CS_DRAIN \<in> flags" "cc_curr (cc_exec_entity st direct) = Some c"
  shows "callout_stop_again c flags drain use_lock direct sq st = None"
proof (rule ccontr)
  assume "callout_stop_again c flags drain use_lock direct sq st \<noteq> None"
  then obtain r where "callout_stop_again c flags drain use_lock direct sq st = Some r" by auto
  then have "CS_DRAIN \<in> flags \<longrightarrow> cc_curr (cc_exec_entity st direct) \<noteq> Some c"
    by (rule callout_stop_again.raw_induct [rotated, where P =
          "\<lambda>c flags drain use_lock direct sq st r.
             CS_DRAIN \<in> flags \<longrightarrow> cc_curr (cc_exec_entity st direct) \<noteq> Some c"])
      (fastforce simp: Let_def callout_simps split: if_splits)
  with assms show False by simp
qed

lemma stop_tail_eq:
  "callout_stop_tail c direct False r st =
     (if \<not> pending st c then (if cc_curr (cc_exec_entity st direct) \<noteq> Some c then -1 else r, st)
      else (r, callout_cc_del c (callout_detach c st)))"
  by (simp add: callout_stop_tail_def Let_def unlink_clear [symmetric] callout_clear_def [abs_def])

lemma stop_tail_api_ok: "api_ok st (snd (callout_stop_tail c direct False r st))"
  by (auto simp: stop_tail_eq intro: api_ok_trans [OF api_ok_detach api_ok_cc_del])

lemma callout_stop_api_ok:
  assumes "wheel_inv st" "callout_stop_safe c flags drain st = Some (Inr (r, st'))"
  shows "api_ok st st'"
proof -
  let ?d = "CALLOUT_DIRECT \<in> c_iflags (callouts st c)"
  obtain ul where again: "callout_stop_again c flags drain ul ?d False st = Some (r, st')"
    using assms(2)
    by (auto simp: callout_stop_safe_def Let_def null_deref_def split: if_splits option.splits)
  show ?thesis
  proof (cases "cc_curr (cc_exec_entity st ?d) = Some c")
    case True
    then have "CS_DRAIN \<notin> flags" using again stop_drain_running by fastforce
    note run = stop_running [OF assms(1) True this]
    show ?thesis
      using again stop_tail_api_ok [of "set_drain ?d drain (clear_active c st)" c ?d "cexec flags"]
      by (auto simp: run split: if_splits
          intro: api_ok_trans [OF api_ok_clear_active] api_ok_upd_exec api_ok_trans [OF api_ok_set_drain])
  next
    case False
    show ?thesis
      using again stop_tail_api_ok [of st c ?d 1] by (simp add: stop_not_running [OF assms(1) False])
  qed
qed

section \<open>What firing needs\<close>

text \<open>
  A callout a client owns: it was not preallocated, and its lock class has the methods
  \<open>softclock_call_cc\<close> and \<open>_callout_stop_safe\<close> call.  \<open>fire_ok\<close>: every pending callout is owned
  and has a function.
\<close>

definition client_ok :: "callout \<Rightarrow> bool" where
  "client_ok co \<longleftrightarrow> CALLOUT_LOCAL_ALLOC \<notin> c_iflags co
     \<and> (case c_lock co of
          None \<Rightarrow> CALLOUT_RETURNUNLOCKED \<in> c_iflags co
        | Some l \<Rightarrow> lc_lock (LOCK_CLASS l) \<noteq> None \<and> lc_unlock (LOCK_CLASS l) \<noteq> None
            \<and> lc_assert (LOCK_CLASS l) \<noteq> None)"

definition fire_ok :: "nat set \<Rightarrow> 'w cst \<Rightarrow> bool" where
  "fire_ok owned st \<longleftrightarrow> (\<forall>c\<in>owned. client_ok (callouts st c))
     \<and> (\<forall>c. pending st c \<longrightarrow> c \<in> owned \<and> c_func (callouts st c) \<noteq> None)"

lemma client_ok_cong:
  assumes "c_lock co' = c_lock co"
    "CALLOUT_LOCAL_ALLOC \<in> c_iflags co' \<longleftrightarrow> CALLOUT_LOCAL_ALLOC \<in> c_iflags co"
    "CALLOUT_RETURNUNLOCKED \<in> c_iflags co' \<longleftrightarrow> CALLOUT_RETURNUNLOCKED \<in> c_iflags co"
  shows "client_ok co' \<longleftrightarrow> client_ok co"
  using assms by (simp add: client_ok_def cong: option.case_cong)

lemma fire_ok_step:
  assumes "fire_ok owned st" "\<And>c. c \<in> owned \<Longrightarrow> client_ok (callouts st' c) \<longleftrightarrow> client_ok (callouts st c)"
    "\<And>c. pending st' c \<Longrightarrow> pending st c \<and> c_func (callouts st' c) = c_func (callouts st c)
            \<or> c \<in> owned \<and> c_func (callouts st' c) \<noteq> None"
  shows "fire_ok owned st'"
  unfolding fire_ok_def
proof (intro conjI ballI allI impI)
  show "client_ok (callouts st' c)" if "c \<in> owned" for c
    using that assms(1,2) by (simp add: fire_ok_def)
  show "c \<in> owned" "c_func (callouts st' c) \<noteq> None" if "pending st' c" for c
    using assms(1) assms(3) [OF that] by (metis fire_ok_def)+
qed

lemma client_ok_clear [simp]: "client_ok (callout_clear co) = client_ok co"
  by (rule client_ok_cong) (simp_all add: callout_simps)

lemma client_ok_armed [simp]: "client_ok (callout_armed t f a fl co) = client_ok co"
  by (rule client_ok_cong) (simp_all add: callout_simps)

lemma client_ok_flags [simp]: "client_ok (co\<lparr>c_flags := fl\<rparr>) = client_ok co"
  by (rule client_ok_cong) simp_all

lemma client_ok_not_pending [simp]:
  "client_ok (co\<lparr>c_iflags := c_iflags co - {CALLOUT_PENDING}\<rparr>) = client_ok co"
  by (rule client_ok_cong) simp_all

lemma fire_ok_upd_exec: "fire_ok owned (upd_exec d f st) = fire_ok owned st"
  by (simp add: fire_ok_def callout_simps)

lemma fire_ok_detach: "wheel_inv st \<Longrightarrow> fire_ok owned st \<Longrightarrow> fire_ok owned (callout_detach c st)"
  by (erule fire_ok_step) (auto simp: callout_detach_simps pending_detach callout_simps)

lemma fire_ok_cc_add:
  "fire_ok owned st \<Longrightarrow> c \<in> owned \<Longrightarrow> fire_ok owned (callout_cc_add c d (Some f) a cpu fl st)"
  by (erule fire_ok_step) (auto simp: callout_cc_add_simps pending_cc_add callout_simps)

lemma fire_ok_clear_active: "fire_ok owned st \<Longrightarrow> fire_ok owned (clear_active c st)"
  by (erule fire_ok_step)
    (auto simp: clear_active_def pending_def callout_simps split: if_splits)

lemma fire_ok_set_drain: "fire_ok owned (set_drain d dr st) = fire_ok owned st"
  by (simp add: set_drain_def fire_ok_upd_exec)

lemma cc_del_client:
  "client_ok (callouts st c) \<Longrightarrow> callout_cc_del c st = st"
  by (simp add: callout_cc_del_def client_ok_def)

end
