(* ===== verification/LB_Softclock.thy ===== *)
theory LB_Softclock
  imports LB_Callout_Inv
begin

text \<open>
  Running the callout wheel: what \<open>softclock_call_cc\<close>, \<open>softclock\<close>, \<open>callout_tick\<close> and
  \<open>lazybsd_hardclock\<close> promise.  The locale \<open>callout_client\<close> is what the wheel relies on of the
  functions registered with it: they return, and they touch the wheel through the callout
  interface only.  Under it the sweep terminates and leaves no callout of an elapsed tick
  behind.  Two interpretations follow: functions that are sequences of callout operations,
  and functions that leave the wheel alone.
\<close>

section \<open>Firing one callout\<close>

text \<open>The state a callout's function is called in.\<close>

definition fired :: "nat \<Rightarrow> bool \<Rightarrow> 'w cst \<Rightarrow> 'w cst" where
  "fired c direct st =
     upd_exec direct (\<lambda>e. e\<lparr>cc_curr := Some c, cc_cancel := (c_lock (callouts st c) \<noteq> None),
                            cc_drain := None\<rparr>)
       (upd_callout c (\<lambda>co. co\<lparr>c_iflags := c_iflags co - {CALLOUT_PENDING}\<rparr>) st)"

lemma upd_exec_cancel:
  "upd_exec d (\<lambda>e. e\<lparr>cc_cancel := True\<rparr>)
     (upd_exec d (\<lambda>e. e\<lparr>cc_curr := c, cc_cancel := False, cc_drain := None\<rparr>) st)
   = upd_exec d (\<lambda>e. e\<lparr>cc_curr := c, cc_cancel := True, cc_drain := None\<rparr>) st"
  by (cases "cc_exec_entity st d") (simp add: upd_exec_def)

lemma softclock_call_cc_eq:
  assumes ok: "client_ok (callouts st c)" and f: "c_func (callouts st c) = Some f"
  shows "softclock_call_cc call c direct st =
     (case call f (c_arg (callouts st c)) (fired c direct st) of
        None \<Rightarrow> None
      | Some (Inl p) \<Rightarrow> Some (Inl p)
      | Some (Inr st') \<Rightarrow>
          softclock_skip call c direct (c_arg (callouts st c)) (c_iflags (callouts st c)) st')"
proof -
  have nl: "CALLOUT_LOCAL_ALLOC \<notin> c_iflags (callouts st c)" using ok by (simp add: client_ok_def)
  have upd: "upd_callout c (\<lambda>co. co\<lparr>c_iflags := if CALLOUT_LOCAL_ALLOC \<in> c_iflags co
        then {CALLOUT_LOCAL_ALLOC} else c_iflags co - {CALLOUT_PENDING}\<rparr>) st
      = upd_callout c (\<lambda>co. co\<lparr>c_iflags := c_iflags co - {CALLOUT_PENDING}\<rparr>) st"
    using nl by (simp add: upd_callout_def)
  show ?thesis
  proof (cases "c_lock (callouts st c)")
    case None
    then have "CALLOUT_RETURNUNLOCKED \<in> c_iflags (callouts st c)"
      using ok by (simp add: client_ok_def)
    then show ?thesis
      using None f unfolding softclock_call_cc_def Let_def upd
      by (simp add: softclock_run_def softclock_finish_def fired_def upd_exec_def
          split: option.split sum.split)
  next
    case (Some l)
    then have "lc_lock (LOCK_CLASS l) \<noteq> None" "lc_unlock (LOCK_CLASS l) \<noteq> None"
      using ok by (auto simp: client_ok_def)
    then show ?thesis
      using Some f unfolding softclock_call_cc_def Let_def upd upd_exec_cancel
      by (auto simp: softclock_run_def softclock_finish_def fired_def callout_simps
          split: option.split sum.split)
  qed
qed

text \<open>Taking the callout \<open>x\<close> of the current tick off its bucket to fire it.\<close>

definition taken :: "i32 \<Rightarrow> nat \<Rightarrow> 'w cst \<Rightarrow> 'w cst" where
  "taken cur x st =
     LIST_REMOVE x (st\<lparr>cc_next := LIST_NEXT st x, cc_bucket := callout_get_bucket st cur\<rparr>)"

lemma taken_fired_simps [callout_simps]:
  "callouts (fired x d (taken cur x st)) =
     (callouts st)(x := (callouts st x)\<lparr>c_iflags := c_iflags (callouts st x) - {CALLOUT_PENDING}\<rparr>)"
  "cc_callwheel (fired x d (taken cur x st)) = (\<lambda>b. remove1 x (cc_callwheel st b))"
  "cc_next (fired x d (taken cur x st)) = LIST_NEXT st x"
  "cc_bucket (fired x d (taken cur x st)) = callout_get_bucket st cur"
  "ticks (fired x d (taken cur x st)) = ticks st"
  "cc_softticks (fired x d (taken cur x st)) = cc_softticks st"
  "callwheelsize (fired x d (taken cur x st)) = callwheelsize st"
  "callwheelmask (fired x d (taken cur x st)) = callwheelmask st"
  "world (fired x d (taken cur x st)) = world st"
  by (simp_all add: fired_def taken_def callout_simps LIST_REMOVE_def)

lemma callouts_taken [callout_simps]: "callouts (taken cur x st) = callouts st"
  by (simp add: taken_def LIST_REMOVE_def)

lemma pending_taken_fired [callout_simps]:
  "pending (fired x d (taken cur x st)) c \<longleftrightarrow> pending st c \<and> c \<noteq> x"
  by (simp add: pending_def callout_simps)

lemma wheel_inv_fired:
  assumes inv: "wheel_inv st"
  shows "wheel_inv (fired x d (taken cur x st))"
proof -
  have "wheel_inv (fired x d (taken cur x st)) \<longleftrightarrow> wheel_inv (callout_detach x st)"
    by (rule wheel_inv_cong)
      (auto simp: callout_simps callout_detach_simps [OF inv] pending_detach [OF inv]
        callout_migrating_def)
  then show ?thesis using wheel_inv_detach [OF inv] by simp
qed

lemma sweep_fired:
  assumes "wheel_inv st" "sweep cur (Some x) st"
  shows "sweep cur (LIST_NEXT st x) (fired x d (taken cur x st))"
  by (rule sweep_remove [OF assms, of _ x]) (simp_all add: callout_simps)

lemma fire_ok_fired: "fire_ok owned st \<Longrightarrow> fire_ok owned (fired x d (taken cur x st))"
  by (erule fire_ok_step) (auto simp: callout_simps)

lemma sweep_skip:
  assumes inv: "wheel_inv st" and sw: "sweep cur (Some x) st" and nd: "ctime st x \<noteq> cur"
  shows "sweep cur (LIST_NEXT st x) st"
    and "length (from_ptr (LIST_NEXT st x) (bucket st cur)) < length (from_ptr (Some x) (bucket st cur))"
proof -
  have x: "x \<in> set (bucket st cur)" and d: "distinct (bucket st cur)"
    using sw wheel_inv_distinct [OF inv] by (auto simp: sweep_def)
  then have "bucket st (ctime st x) = bucket st cur" using wheel_inv_mem [OF inv] by metis
  then have nxt: "LIST_NEXT st x = list_next (bucket st cur) x" by (simp add: LIST_NEXT_def)
  show "sweep cur (LIST_NEXT st x) st"
    unfolding sweep_def nxt
    using sw nd from_ptr_next(1,3) [OF d x] by (auto simp: sweep_def)
  show "length (from_ptr (LIST_NEXT st x) (bucket st cur)) < length (from_ptr (Some x) (bucket st cur))"
    unfolding nxt by (rule from_ptr_next(2) [OF d x])
qed

section \<open>The sweep over one bucket\<close>

definition due :: "i32 \<Rightarrow> 'w cst \<Rightarrow> nat set" where
  "due cur st = {x. pending st x \<and> ctime st x = cur}"

lemma due_bucket: "wheel_inv st \<Longrightarrow> due cur st = {x \<in> set (bucket st cur). ctime st x = cur}"
  using wheel_inv_mem by (auto simp: due_def)

lemma finite_due: "wheel_inv st \<Longrightarrow> finite (due cur st)"
  by (simp add: due_bucket)

lemma due_arms:
  assumes "arms st st'" "sint (cur - ticks st) < 0"
  shows "due cur st' \<subseteq> due cur st"
  using assms future_not_due [OF assms(2)] by (fastforce simp: arms_def due_def)

lemma due_fired: "due cur (fired x d (taken cur x st)) = due cur st - {x}"
  by (auto simp: due_def callout_simps)

text \<open>What a stretch of the sweep leaves as it was.\<close>

definition same_ticks :: "'w cst \<Rightarrow> 'w cst \<Rightarrow> bool" where
  "same_ticks st st' \<longleftrightarrow> ticks st' = ticks st \<and> cc_softticks st' = cc_softticks st
     \<and> callwheelsize st' = callwheelsize st \<and> callwheelmask st' = callwheelmask st"

lemma same_ticks_refl [intro]: "same_ticks st st"
  by (simp add: same_ticks_def)

lemma same_ticks_trans: "same_ticks st st' \<Longrightarrow> same_ticks st' st'' \<Longrightarrow> same_ticks st st''"
  by (simp add: same_ticks_def)

lemma cc_next_irrelevant:
  "wheel_inv (st\<lparr>cc_next := p\<rparr>) = wheel_inv st" "sweep cur q (st\<lparr>cc_next := p\<rparr>) = sweep cur q st"
  "fire_ok owned (st\<lparr>cc_next := p\<rparr>) = fire_ok owned st" "due cur (st\<lparr>cc_next := p\<rparr>) = due cur st"
  "arms s (st\<lparr>cc_next := p\<rparr>) = arms s st"
  by (simp_all add: wheel_inv_def sweep_def fire_ok_def due_def arms_def pending_def
      callout_migrating_def callout_get_bucket_def)

locale callout_client =
  fixes call :: "'w callback" and owned :: "nat set"
  assumes call_ok:
    "wheel_inv st \<Longrightarrow> fire_ok owned st
     \<Longrightarrow> \<exists>st'. call f a st = Some (Inr st') \<and> api_ok st st' \<and> fire_ok owned st'"
begin

lemma skip_ok:
  assumes "wheel_inv st" "fire_ok owned st" "CALLOUT_LOCAL_ALLOC \<notin> iflags"
  shows "\<exists>st'. softclock_skip call c d a iflags st = Some (Inr st') \<and> api_ok st st' \<and> fire_ok owned st'"
proof -
  let ?s = "upd_exec d (\<lambda>e. e\<lparr>cc_curr := None\<rparr>) st"
  have 1: "wheel_inv (upd_exec d f s)" if "wheel_inv s" for f and s :: "'w cst"
    using that api_ok_upd_exec [of s d f] by (simp add: api_ok_def)
  have "\<exists>s'. (case cc_drain (cc_exec_entity ?s d) of None \<Rightarrow> Some (Inr ?s)
        | Some drain \<Rightarrow> call drain a (upd_exec d (\<lambda>e. e\<lparr>cc_drain := None\<rparr>) ?s)) = Some (Inr s')
        \<and> api_ok st s' \<and> fire_ok owned s'"
  proof (cases "cc_drain (cc_exec_entity ?s d)")
    case None
    then show ?thesis using assms by (auto simp: fire_ok_upd_exec intro: api_ok_upd_exec)
  next
    case (Some drain)
    let ?t = "upd_exec d (\<lambda>e. e\<lparr>cc_drain := None\<rparr>) ?s"
    have "wheel_inv ?t" "fire_ok owned ?t" using assms by (simp_all add: 1 fire_ok_upd_exec)
    then obtain s' where "call drain a ?t = Some (Inr s')" "api_ok ?t s'" "fire_ok owned s'"
      using call_ok by blast
    then show ?thesis
      using Some api_ok_trans [OF api_ok_upd_exec api_ok_trans [OF api_ok_upd_exec]] by auto
  qed
  then obtain s' where s': "(case cc_drain (cc_exec_entity ?s d) of None \<Rightarrow> Some (Inr ?s)
        | Some drain \<Rightarrow> call drain a (upd_exec d (\<lambda>e. e\<lparr>cc_drain := None\<rparr>) ?s)) = Some (Inr s')"
      "api_ok st s'" "fire_ok owned s'" by blast
  show ?thesis
    unfolding softclock_skip_def Let_def s'(1) using assms(3) s'(2,3)
    by (auto simp: cc_cce_migrating_def fire_ok_upd_exec intro: api_ok_trans [OF _ api_ok_upd_exec])
qed

lemma fire_one:
  assumes inv: "wheel_inv st" and fo: "fire_ok owned st" and x: "pending st x"
  shows "\<exists>st'. softclock_call_cc call x True (taken cur x st) = Some (Inr st')
    \<and> api_ok (fired x True (taken cur x st)) st' \<and> fire_ok owned st'"
proof -
  let ?s = "taken cur x st"
  have co: "client_ok (callouts ?s x)" "CALLOUT_LOCAL_ALLOC \<notin> c_iflags (callouts ?s x)"
    using fo x by (auto simp: fire_ok_def callout_simps client_ok_def)
  obtain f where f: "c_func (callouts ?s x) = Some f"
    using fo x by (auto simp: fire_ok_def callout_simps)
  obtain s1 where s1: "call f (c_arg (callouts ?s x)) (fired x True ?s) = Some (Inr s1)"
      "api_ok (fired x True ?s) s1" "fire_ok owned s1"
    using call_ok [OF wheel_inv_fired [OF inv] fire_ok_fired [OF fo]] by blast
  then have "wheel_inv s1" using wheel_inv_fired [OF inv] by (simp add: api_ok_def)
  then obtain s2 where "softclock_skip call x True (c_arg (callouts ?s x)) (c_iflags (callouts ?s x)) s1
      = Some (Inr s2)" "api_ok s1 s2" "fire_ok owned s2"
    using skip_ok [OF _ s1(3) co(2)] by blast
  then show ?thesis
    using api_ok_trans [OF s1(2)] by (simp add: softclock_call_cc_eq [OF co(1) f] s1(1))
qed

lemma fire_one_sweep:
  assumes inv: "wheel_inv st" and fo: "fire_ok owned st" and sw: "sweep cur (Some x) st"
    and due: "ctime st x = cur" and cur: "sint (cur - ticks st) < 0"
  shows "\<exists>st'. softclock_call_cc call x True (taken cur x st) = Some (Inr st')
    \<and> wheel_inv st' \<and> fire_ok owned st' \<and> sweep cur (cc_next st') st'
    \<and> arms st st' \<and> same_ticks st st' \<and> card (due cur st') < card (due cur st)"
proof -
  let ?f = "fired x True (taken cur x st)"
  have "x \<in> set (bucket st cur)" using sw by (simp add: sweep_def)
  then have x: "pending st x" using wheel_inv_mem [OF inv] by blast
  obtain st' where st': "softclock_call_cc call x True (taken cur x st) = Some (Inr st')"
      "api_ok ?f st'" "fire_ok owned st'" using fire_one [OF inv fo x] by blast
  have clock: "same_clock ?f st'" "wheel_inv st'" "arms ?f st'"
    using st'(2) wheel_inv_fired [OF inv] by (auto simp: api_ok_def)
  have "sint (cur - ticks ?f) < 0" "cc_bucket ?f = callout_get_bucket ?f cur" "sweep cur (cc_next ?f) ?f"
    using cur sweep_fired [OF inv sw] by (simp_all add: callout_simps callout_get_bucket_def)
  then have "sweep cur (cc_next st') st'"
    using st'(2) wheel_inv_fired [OF inv] unfolding api_ok_def by blast
  moreover have "arms st ?f" by (auto simp: arms_def callout_simps)
  then have "arms st st'" using clock(3) by (rule arms_trans) (simp add: callout_simps)
  moreover have "same_ticks st st'" using clock(1) by (simp add: same_ticks_def same_clock_def callout_simps)
  moreover have "due cur st' \<subseteq> due cur st - {x}"
    using due_arms [OF clock(3), of cur] cur by (simp add: due_fired callout_simps)
  then have "card (due cur st') < card (due cur st)"
    using x due finite_due [OF inv, of cur] by (intro psubset_card_mono) (auto simp: due_def)
  ultimately show ?thesis using st' clock(2) by blast
qed

text \<open>\<open>P\<close> is what a proof wants kept along the way, firing by firing.\<close>

lemma softclock_bucket_inv:
  assumes "wheel_inv st" "fire_ok owned st" "sweep cur p st" "sint (cur - ticks st) < 0" "P st"
    and fire: "\<And>x s s'. wheel_inv s \<Longrightarrow> fire_ok owned s \<Longrightarrow> pending s x \<Longrightarrow> ctime s x = cur \<Longrightarrow> sint (cur - ticks s) < 0 \<Longrightarrow> P s
      \<Longrightarrow> softclock_call_cc call x True (taken cur x s) = Some (Inr s') \<Longrightarrow> P (s'\<lparr>cc_next := None\<rparr>)"
  shows "\<exists>st'. softclock_bucket call cur p st = Some (Inr st')
    \<and> wheel_inv st' \<and> fire_ok owned st' \<and> arms st st' \<and> same_ticks st st' \<and> due cur st' = {} \<and> P st'"
  using assms(1-5)
proof (induction "(p, st)" arbitrary: p st rule:
    wf_induct_rule [OF wf_measures [of "[\<lambda>(p, st). card (due cur st),
      \<lambda>(p, st). length (from_ptr p (bucket st cur))]"]])
  case (1 p st)
  note inv = 1(2) and fo = 1(3) and sw = 1(4) and cur = 1(5) and P = 1(6)
  show ?case
  proof (cases p)
    case None
    then have "due cur st = {}" using sw by (auto simp: due_bucket [OF inv] sweep_def)
    then show ?thesis
      using None inv fo P by (subst softclock_bucket.simps) auto
  next
    case (Some x)
    then have swx: "sweep cur (Some x) st" using sw by simp
    show ?thesis
    proof (cases "ctime st x = cur")
      case False
      note skip = sweep_skip [OF inv swx False]
      have "\<exists>st'. softclock_bucket call cur (LIST_NEXT st x) st = Some (Inr st')
          \<and> wheel_inv st' \<and> fire_ok owned st' \<and> arms st st' \<and> same_ticks st st' \<and> due cur st' = {} \<and> P st'"
        by (rule 1(1) [OF _ inv fo skip(1) cur P]) (simp add: Some skip(2))
      then show ?thesis using False Some by (subst softclock_bucket.simps) simp
    next
      case True
      obtain s where s: "softclock_call_cc call x True (taken cur x st) = Some (Inr s)"
          "wheel_inv s" "fire_ok owned s" "sweep cur (cc_next s) s" "arms st s" "same_ticks st s"
          "card (due cur s) < card (due cur st)"
        using fire_one_sweep [OF inv fo swx True cur] by blast
      let ?n = "s\<lparr>cc_next := None\<rparr>"
      have "x \<in> set (bucket st cur)" using swx by (simp add: sweep_def)
      then have "pending st x" using wheel_inv_mem [OF inv] by blast
      then have Pn: "P ?n" by (rule fire [OF inv fo _ True cur P s(1)])
      have "\<exists>st'. softclock_bucket call cur (cc_next s) ?n = Some (Inr st')
          \<and> wheel_inv st' \<and> fire_ok owned st' \<and> arms ?n st' \<and> same_ticks ?n st' \<and> due cur st' = {} \<and> P st'"
        by (rule 1(1)) (use s cur Pn in \<open>auto simp: cc_next_irrelevant same_ticks_def\<close>)
      then obtain st' where st': "softclock_bucket call cur (cc_next s) ?n = Some (Inr st')"
          "wheel_inv st'" "fire_ok owned st'" "arms ?n st'" "same_ticks ?n st'" "due cur st' = {}" "P st'"
        by blast
      have "arms st ?n" using s(5) by (simp add: cc_next_irrelevant)
      then have "arms st st'"
        using st'(4) by (rule arms_trans) (use s(6) in \<open>simp add: same_ticks_def\<close>)
      moreover have "same_ticks st st'" using s(6) st'(5) by (simp add: same_ticks_def)
      moreover have "softclock_bucket call cur p st = Some (Inr st')"
        using True Some s(1) st'(1) by (subst softclock_bucket.simps) (simp add: taken_def)
      ultimately show ?thesis using st' by blast
    qed
  qed
qed

lemma softclock_bucket_ok:
  assumes "wheel_inv st" "fire_ok owned st" "sweep cur p st" "sint (cur - ticks st) < 0"
  shows "\<exists>st'. softclock_bucket call cur p st = Some (Inr st')
    \<and> wheel_inv st' \<and> fire_ok owned st' \<and> arms st st' \<and> same_ticks st st' \<and> due cur st' = {}"
  using softclock_bucket_inv [OF assms, of "\<lambda>_. True"] by blast

end

section \<open>The software clock\<close>

definition lag :: "'w cst \<Rightarrow> nat" where
  "lag st = unat (ticks st - cc_softticks st)"

lemma sint_neg_i32: "sint (w :: i32) < 0 \<longleftrightarrow> 2 ^ 31 \<le> uint w"
proof -
  have b: "0 \<le> uint w" "uint w < 2 ^ 32" using uint_lt2p [of w] by simp_all
  have "sint w < 0 \<longleftrightarrow> bit w 31" using bit_last_iff [of w] by simp
  also have "\<dots> \<longleftrightarrow> bit (uint w) 31" by (simp add: bit_uint_iff)
  also have "\<dots> \<longleftrightarrow> odd (uint w div 2 ^ 31)" by (rule bit_iff_odd)
  also have "\<dots> \<longleftrightarrow> 2 ^ 31 \<le> uint w"
  proof (cases "2 ^ 31 \<le> uint w")
    case True
    then have "uint w div 2 ^ 31 = 1" using b by (intro int_div_pos_eq [of _ _ _ "uint w - 2 ^ 31"]) auto
    then show ?thesis using True by simp
  next
    case False
    then have "uint w div 2 ^ 31 = 0" using b by (intro div_pos_pos_trivial) auto
    then show ?thesis using False by simp
  qed
  finally show ?thesis .
qed

lemma sint_behind:
  fixes s t :: i32
  shows "sint (s - t) < 0 \<longleftrightarrow> 0 < unat (t - s) \<and> unat (t - s) \<le> 2 ^ 31"
proof -
  have arith: "2 ^ 31 \<le> (if b \<le> a then a - b else a - b + 2 ^ 32) \<longleftrightarrow>
      0 < (if a \<le> b then b - a else b - a + 2 ^ 32) \<and> (if a \<le> b then b - a else b - a + 2 ^ 32) \<le> 2 ^ 31"
    if "0 \<le> a" "a < 2 ^ 32" "0 \<le> b" "b < 2 ^ 32" for a b :: int
    using that by auto
  have sub: "uint (a - b) = (if uint b \<le> uint a then uint a - uint b else uint a - uint b + 2 ^ 32)"
    for a b :: i32 by (simp add: uint_sub_if')
  have lt: "uint a < 2 ^ 32" for a :: i32 using uint_lt2p [of a] by simp
  have "sint (s - t) < 0 \<longleftrightarrow> 0 < uint (t - s) \<and> uint (t - s) \<le> 2 ^ 31"
    unfolding sint_neg_i32 sub by (rule arith [OF uint_ge_0 lt uint_ge_0 lt])
  moreover have "unat (t - s) \<le> 2 ^ 31 \<longleftrightarrow> uint (t - s) \<le> 2 ^ 31"
    using of_nat_le_iff [where 'a = int, of "unat (t - s)" "2 ^ 31"] by simp
  moreover have "0 < unat (t - s) \<longleftrightarrow> 0 < uint (t - s)"
    using of_nat_less_iff [where 'a = int, of 0 "unat (t - s)"] by simp
  ultimately show ?thesis by blast
qed

lemma lag_step:
  assumes "lag st = Suc n"
  shows "cc_softticks st \<noteq> ticks st" "lag (st\<lparr>cc_softticks := cc_softticks st + 1\<rparr>) = n"
proof -
  show "cc_softticks st \<noteq> ticks st" using assms by (auto simp: lag_def)
  then have "ticks st - cc_softticks st \<noteq> 0" by auto
  then have "unat (ticks st - cc_softticks st - 1) = n"
    using assms by (simp add: unat_minus_one lag_def)
  then show "lag (st\<lparr>cc_softticks := cc_softticks st + 1\<rparr>) = n"
    by (simp add: lag_def algebra_simps)
qed

lemma lag_0: "lag st = 0 \<longleftrightarrow> cc_softticks st = ticks st"
proof -
  have "lag st = 0 \<longleftrightarrow> ticks st - cc_softticks st = 0" by (simp only: lag_def unat_eq_zero)
  then show ?thesis by auto
qed

lemma softticks_irrelevant:
  "wheel_inv (st\<lparr>cc_softticks := t\<rparr>) = wheel_inv st" "sweep cur q (st\<lparr>cc_softticks := t\<rparr>) = sweep cur q st"
  "fire_ok owned (st\<lparr>cc_softticks := t\<rparr>) = fire_ok owned st" "arms (st\<lparr>cc_softticks := t\<rparr>) s = arms st s"
  "bucket (st\<lparr>cc_softticks := t\<rparr>) cur = bucket st cur"
  by (simp_all add: wheel_inv_def sweep_def fire_ok_def arms_def pending_def
      callout_migrating_def callout_get_bucket_def)

lemma ticks_irrelevant:
  "wheel_inv (st\<lparr>ticks := t\<rparr>) = wheel_inv st" "fire_ok owned (st\<lparr>ticks := t\<rparr>) = fire_ok owned st"
  "pending (st\<lparr>ticks := t\<rparr>) = pending st"
  by (simp_all add: wheel_inv_def fire_ok_def pending_def callout_migrating_def callout_get_bucket_def
      fun_eq_iff)

lemma sweep_first: "sweep cur (list_first (bucket st cur)) st"
  by (auto simp: sweep_def dest: list_first_SomeD)

context callout_client
begin

theorem softclock_ok:
  assumes "wheel_inv st" "fire_ok owned st" "lag st \<le> 2 ^ 31"
  shows "\<exists>st'. softclock call st = Some (Inr st') \<and> wheel_inv st' \<and> fire_ok owned st'
    \<and> ticks st' = ticks st \<and> cc_softticks st' = ticks st \<and> callwheelsize st' = callwheelsize st
    \<and> arms st st' \<and> (\<forall>k < lag st. due (cc_softticks st + of_nat k) st' = {})"
  using assms
proof (induction "lag st" arbitrary: st)
  case 0
  then show ?case by (subst softclock.simps) (auto simp: lag_0 [symmetric] intro: exI [of _ st])
next
  case (Suc n st)
  let ?c = "cc_softticks st"
  let ?s = "st\<lparr>cc_softticks := ?c + 1\<rparr>"
  note step = lag_step [OF Suc(2) [symmetric]]
  have behind: "sint (?c - ticks st) < 0"
    using Suc(2,5) by (simp add: sint_behind lag_def)
  obtain s where s: "softclock_bucket call ?c (list_first (bucket st ?c)) ?s = Some (Inr s)"
      "wheel_inv s" "fire_ok owned s" "arms ?s s" "same_ticks ?s s" "due ?c s = {}"
    using softclock_bucket_ok [of ?s ?c "list_first (bucket st ?c)"] Suc(3,4) behind sweep_first [of ?c st]
    by (auto simp: softticks_irrelevant)
  have n: "n = lag s" using step(2) s(5) by (simp add: lag_def same_ticks_def)
  have tk: "ticks s = ticks st" "cc_softticks s = ?c + 1" "callwheelsize s = callwheelsize st"
    using s(5) by (simp_all add: same_ticks_def)
  obtain st' where st': "softclock call s = Some (Inr st')" "wheel_inv st'" "fire_ok owned st'"
      "ticks st' = ticks s" "cc_softticks st' = ticks s" "callwheelsize st' = callwheelsize s"
      "arms s st'" "\<forall>k < lag s. due (cc_softticks s + of_nat k) st' = {}"
    using Suc(1) [OF n s(2,3)] Suc(2,5) n by auto
  have "due ?c st' = {}"
    using due_arms [OF st'(7), of ?c] behind s(6) tk by simp
  then have "due (?c + of_nat k) st' = {}" if "k < lag st" for k
    using that st'(8) tk n Suc(2) by (cases k) (auto simp: algebra_simps)
  moreover have "arms st st'"
    using arms_trans [OF _ st'(7) tk(1)] s(4) by (simp add: softticks_irrelevant)
  moreover have "softclock call st = Some (Inr st')"
    using step(1) s(1) st'(1) by (subst softclock.simps) simp
  ultimately show ?case using st' tk by auto
qed

end

section \<open>The scan of \<open>callout_tick\<close> only skips empty buckets\<close>

lemma softclock_empty:
  assumes "cc_softticks st \<noteq> ticks st" "bucket st (cc_softticks st) = []"
  shows "softclock call st = softclock call (st\<lparr>cc_softticks := cc_softticks st + 1\<rparr>)"
  using assms by (subst softclock.simps) (simp add: softclock_bucket.simps)

lemma callout_tick_softclock:
  assumes "lag st \<le> 2 ^ 31"
  shows "callout_tick call st = softclock call st"
  using assms
proof (induction st rule: tick_scan.induct)
  case (1 st)
  let ?s = "st\<lparr>cc_softticks := cc_softticks st + 1\<rparr>"
  consider "lag st = 0" | n where "lag st = Suc n" "bucket st (cc_softticks st) \<noteq> []"
    | n where "lag st = Suc n" "bucket st (cc_softticks st) = []" by (cases "lag st") auto
  then show ?case
  proof cases
    case 1
    then show ?thesis
      by (simp add: callout_tick_def tick_scan.simps [of st] softclock.simps [of _ st] lag_0)
  next
    case (2 n)
    then show ?thesis
      using \<open>lag st \<le> 2 ^ 31\<close>
      by (simp add: callout_tick_def tick_scan.simps [of st] sint_behind lag_def)
  next
    case (3 n)
    then have neg: "sint (cc_softticks st - ticks st) < 0"
      using \<open>lag st \<le> 2 ^ 31\<close> by (simp add: sint_behind lag_def)
    have "callout_tick call st = callout_tick call ?s"
      using neg 3(2) by (simp add: callout_tick_def tick_scan.simps [of st])
    also have "\<dots> = softclock call ?s"
      using 1(1) [OF neg] 3 lag_step(2) [OF 3(1)] \<open>lag st \<le> 2 ^ 31\<close> by simp
    also have "\<dots> = softclock call st"
      using softclock_empty [OF lag_step(1) [OF 3(1)] 3(2)] by simp
    finally show ?thesis .
  qed
qed

section \<open>Functions that use the callout interface\<close>

lemma reset_client_ok:
  assumes inv: "wheel_inv st" and fo: "fire_ok owned st" and c: "c \<in> owned"
    and np: "\<not> reset_panics maxcpu cpu st"
  shows "\<exists>r st'. callout_reset_tick_on maxcpu c t (Some f) a cpu fl st = Inr (r, st')
    \<and> api_ok st st' \<and> fire_ok owned st'"
proof -
  let ?m = "reset_marked c fl st"
  have m: "wheel_inv ?m" "fire_ok owned ?m"
    using inv fo reset_marked_simps(4) [of st c fl]
    by (auto simp: api_ok_def reset_marked_def fire_ok_upd_exec)
  obtain r st' where eq: "callout_reset_tick_on maxcpu c t (Some f) a cpu fl st = Inr (r, st')"
      and st': "st' = ?m \<or> st' = callout_cc_add c (if t \<le>s 0 then 1 else t) (Some f) a cpu fl
          (if pending st c then callout_detach c ?m else ?m)"
    unfolding callout_reset_eq [OF np] Let_def by (cases "reset_refused c fl st") auto
  have "fire_ok owned (if pending st c then callout_detach c ?m else ?m)"
    using m fire_ok_detach by auto
  then have "fire_ok owned st'" using st' m(2) fire_ok_cc_add [OF _ c] by auto
  then show ?thesis using eq callout_reset_api_ok [OF eq] by auto
qed

lemma stop_tail_fire_ok:
  assumes "wheel_inv st" "fire_ok owned st" "c \<in> owned"
  shows "fire_ok owned (snd (callout_stop_tail c direct False r st))"
proof -
  have "fire_ok owned (callout_detach c st)" using assms by (intro fire_ok_detach)
  moreover from this have "client_ok (callouts (callout_detach c st) c)"
    using assms(3) by (simp add: fire_ok_def)
  ultimately show ?thesis using assms by (simp add: stop_tail_eq cc_del_client)
qed

lemma stop_client_ok:
  assumes inv: "wheel_inv st" and fo: "fire_ok owned st" and c: "c \<in> owned"
    and nd: "CS_DRAIN \<notin> flags"
  shows "\<exists>r st'. callout_stop_safe c flags drain st = Some (Inr (r, st'))
    \<and> api_ok st st' \<and> fire_ok owned st'"
proof -
  let ?d = "CALLOUT_DIRECT \<in> c_iflags (callouts st c)" and ?ul = "c_lock (callouts st c) \<noteq> None"
  have "client_ok (callouts st c)" using fo c by (simp add: fire_ok_def)
  then have safe: "callout_stop_safe c flags drain st
      = map_option Inr (callout_stop_again c flags drain ?ul ?d False st)"
    using nd by (auto simp: callout_stop_safe_def Let_def client_ok_def split: option.splits)
  have act: "wheel_inv (set_drain ?d drain (clear_active c st))"
      "fire_ok owned (set_drain ?d drain (clear_active c st))"
    using inv fo api_ok_trans [OF api_ok_clear_active api_ok_set_drain, of st]
    by (auto simp: api_ok_def fire_ok_set_drain fire_ok_clear_active)
  have "\<exists>p. callout_stop_again c flags drain ?ul ?d False st = Some p \<and> fire_ok owned (snd p)"
  proof (cases "cc_curr (cc_exec_entity st ?d) = Some c")
    case True
    show ?thesis
      using stop_tail_fire_ok [OF act c, of ?d "cexec flags"] fire_ok_clear_active [OF fo]
      by (auto simp: stop_running [OF inv True nd] fire_ok_upd_exec simp del: split_paired_Ex)
  next
    case False
    show ?thesis
      using stop_tail_fire_ok [OF inv fo c, of ?d 1]
      by (simp add: stop_not_running [OF inv False] del: split_paired_Ex)
  qed
  then obtain r st' where "callout_stop_again c flags drain ?ul ?d False st = Some (r, st')" "fire_ok owned st'"
    by (metis prod.collapse)
  then have "callout_stop_safe c flags drain st = Some (Inr (r, st'))" using safe by simp
  with callout_stop_api_ok [OF inv this] \<open>fire_ok owned st'\<close> show ?thesis by blast
qed

text \<open>
  A registered function as the callout operations it performs: \<open>callout_reset\<close>,
  \<open>callout_stop\<close> and \<open>callout_async_drain\<close> on callouts of the client.
\<close>

datatype client_op = Reset nat i32 nat nat | Stop nat | Async_Drain nat nat

fun client_op_step :: "nat set \<Rightarrow> client_op \<Rightarrow> 'w cst \<Rightarrow> 'w outcome" where
  "client_op_step owned (Reset c t f a) st =
     (if c \<notin> owned then Some (Inr st)
      else case callout_reset_tick_on 1 c t (Some f) a (-1) {} st of
             Inl p \<Rightarrow> Some (Inl p) | Inr (_, st') \<Rightarrow> Some (Inr st'))"
| "client_op_step owned (Stop c) st =
     (if c \<notin> owned then Some (Inr st)
      else case callout_stop_safe c {} None st of
             None \<Rightarrow> None | Some (Inl p) \<Rightarrow> Some (Inl p) | Some (Inr (_, st')) \<Rightarrow> Some (Inr st'))"
| "client_op_step owned (Async_Drain c d) st =
     (if c \<notin> owned then Some (Inr st)
      else case callout_stop_safe c {} (Some d) st of
             None \<Rightarrow> None | Some (Inl p) \<Rightarrow> Some (Inl p) | Some (Inr (_, st')) \<Rightarrow> Some (Inr st'))"

fun client_ops :: "nat set \<Rightarrow> client_op list \<Rightarrow> 'w cst \<Rightarrow> 'w outcome" where
  "client_ops owned [] st = Some (Inr st)"
| "client_ops owned (x # xs) st =
     (case client_op_step owned x st of
        None \<Rightarrow> None | Some (Inl p) \<Rightarrow> Some (Inl p) | Some (Inr st') \<Rightarrow> client_ops owned xs st')"

definition client_call :: "(nat \<Rightarrow> nat \<Rightarrow> client_op list) \<Rightarrow> nat set \<Rightarrow> 'w callback" where
  "client_call prog owned f a st = client_ops owned (prog f a) st"

lemma client_op_ok:
  assumes "wheel_inv st" "fire_ok owned st"
  shows "\<exists>st'. client_op_step owned x st = Some (Inr st') \<and> api_ok st st' \<and> fire_ok owned st'"
proof (cases x)
  case (Reset c t f a)
  have "\<not> reset_panics 1 (-1) st" by (simp add: reset_panics_def)
  with reset_client_ok [OF assms, of c 1 "-1" t f a "{}"] show ?thesis
    using Reset assms api_ok_refl by (cases "c \<in> owned") auto
next
  case (Stop c)
  with stop_client_ok [OF assms, of c "{}" None] show ?thesis
    using assms api_ok_refl by (cases "c \<in> owned") auto
next
  case (Async_Drain c d)
  with stop_client_ok [OF assms, of c "{}" "Some d"] show ?thesis
    using assms api_ok_refl by (cases "c \<in> owned") auto
qed

lemma client_ops_ok:
  assumes "wheel_inv st" "fire_ok owned st"
  shows "\<exists>st'. client_ops owned xs st = Some (Inr st') \<and> api_ok st st' \<and> fire_ok owned st'"
  using assms
proof (induction xs arbitrary: st)
  case (Cons x xs)
  obtain s where s: "client_op_step owned x st = Some (Inr s)" "api_ok st s" "fire_ok owned s"
    using client_op_ok [OF Cons.prems] by blast
  then have "wheel_inv s" using Cons.prems by (simp add: api_ok_def)
  with s Cons.IH [of s] show ?case using api_ok_trans [OF s(2)] by auto
qed auto

interpretation cl: callout_client "client_call prog owned" owned for prog owned
  by unfold_locales (simp add: client_call_def client_ops_ok)

section \<open>Functions that leave the wheel alone\<close>

text \<open>A function that only acts on the rest of the kernel, \<open>world\<close>.\<close>

definition inert :: "(nat \<Rightarrow> nat \<Rightarrow> 'w \<Rightarrow> 'w) \<Rightarrow> 'w callback" where
  "inert g f a st = Some (Inr (st\<lparr>world := g f a (world st)\<rparr>))"

lemma world_irrelevant:
  "wheel_inv (st\<lparr>world := w\<rparr>) = wheel_inv st" "fire_ok owned (st\<lparr>world := w\<rparr>) = fire_ok owned st"
  by (simp_all add: wheel_inv_def fire_ok_def pending_def callout_migrating_def callout_get_bucket_def)

interpretation inert: callout_client "inert g" owned for g owned
proof unfold_locales
  fix f a and st :: "'a cst"
  have "api_ok st (st\<lparr>world := g f a (world st)\<rparr>)"
    by (rule api_ok_neutral) (simp_all add: same_clock_def pending_def callout_migrating_def)
  then show "\<exists>st'. inert g f a st = Some (Inr st') \<and> api_ok st st' \<and> fire_ok owned st'"
    if "fire_ok owned st" using that by (simp add: inert_def world_irrelevant)
qed

definition call_of :: "(nat \<Rightarrow> nat \<Rightarrow> 'w \<Rightarrow> 'w) \<Rightarrow> 'w cst \<Rightarrow> nat \<Rightarrow> 'w \<Rightarrow> 'w" where
  "call_of g st c = g (the (c_func (callouts st c))) (c_arg (callouts st c))"

definition unpend :: "callout \<Rightarrow> callout" where
  "unpend co = co\<lparr>c_iflags := c_iflags co - {CALLOUT_PENDING}\<rparr>"

lemma unpend_simps [simp]:
  "c_time (unpend co) = c_time co" "c_func (unpend co) = c_func co" "c_arg (unpend co) = c_arg co"
  by (simp_all add: unpend_def)

text \<open>\<open>swept D st st'\<close>: exactly the callouts in \<open>D\<close> were taken off the wheel.\<close>

definition swept :: "nat set \<Rightarrow> 'w cst \<Rightarrow> 'w cst \<Rightarrow> bool" where
  "swept D st st' \<longleftrightarrow>
     callouts st' = (\<lambda>c. if c \<in> D then unpend (callouts st c) else callouts st c)
   \<and> cc_callwheel st' = (\<lambda>b. filter (\<lambda>c. c \<notin> D) (cc_callwheel st b))
   \<and> ticks st' = ticks st \<and> callwheelsize st' = callwheelsize st \<and> callwheelmask st' = callwheelmask st"

lemma swept_refl: "swept {} st st"
  by (simp add: swept_def)

lemma swept_trans:
  assumes "swept D st st'" "swept E st' st''" "D \<inter> E = {}"
  shows "swept (D \<union> E) st st''"
  using assms by (auto simp: swept_def fun_eq_iff)

lemma pending_swept: "swept D st st' \<Longrightarrow> pending st' c \<longleftrightarrow> pending st c \<and> c \<notin> D"
  by (auto simp: swept_def pending_def unpend_def)

lemma ctime_swept: "swept D st st' \<Longrightarrow> ctime st' c = ctime st c"
  by (simp add: swept_def)

lemma call_of_swept: "swept D st st' \<Longrightarrow> call_of g st' = call_of g st"
  by (simp add: swept_def call_of_def fun_eq_iff)

lemma bucket_swept: "swept D st st' \<Longrightarrow> bucket st' t = filter (\<lambda>c. c \<notin> D) (bucket st t)"
  by (simp add: swept_def callout_get_bucket_def)

lemma inert_fire:
  assumes "wheel_inv st" "fire_ok owned st" "pending st x"
  shows "\<exists>s. softclock_call_cc (inert g) x True (taken cur x st) = Some (Inr s)
    \<and> swept {x} st s \<and> cc_softticks s = cc_softticks st \<and> cc_next s = LIST_NEXT st x
    \<and> world s = call_of g st x (world st) \<and> wheel_inv s \<and> fire_ok owned s"
proof -
  let ?t = "taken cur x st" and ?f = "fired x True (taken cur x st)"
  have co: "client_ok (callouts ?t x)" "CALLOUT_LOCAL_ALLOC \<notin> c_iflags (callouts ?t x)"
    using assms by (auto simp: fire_ok_def callout_simps client_ok_def)
  obtain f where f: "c_func (callouts ?t x) = Some f"
    using assms by (auto simp: fire_ok_def callout_simps)
  let ?w = "?f\<lparr>world := g f (c_arg (callouts ?t x)) (world ?f)\<rparr>"
  have drain: "cc_drain (cc_exec_entity ?w True) = None" by (simp add: fired_def callout_simps)
  obtain h where s: "softclock_call_cc (inert g) x True ?t = Some (Inr (upd_exec True h ?w))"
    unfolding softclock_call_cc_eq [OF co(1) f] inert_def softclock_skip_def Let_def
    using drain co(2) by (cases "cc_waiting (cc_exec_entity ?w True)")
      (auto simp: callout_simps cc_cce_migrating_def upd_exec_def)
  let ?s = "upd_exec True h ?w"
  have "remove1 x xs = filter (\<lambda>c. c \<noteq> x) xs" if "distinct xs" for xs
    using that by (simp add: distinct_remove1_removeAll removeAll_filter_not_eq eq_commute)
  then have "swept {x} st ?s"
    using wheel_inv_distinct [OF assms(1)]
    by (auto simp: swept_def callout_simps unpend_def fun_eq_iff)
  moreover have "wheel_inv ?s"
    using wheel_inv_fired [OF assms(1)] api_ok_upd_exec [of ?w True h]
    by (simp add: api_ok_def world_irrelevant)
  moreover have "fire_ok owned ?s"
    using fire_ok_fired [OF assms(2)] by (simp add: fire_ok_upd_exec world_irrelevant)
  ultimately show ?thesis
    using s f by (intro exI [of _ ?s]) (simp add: callout_simps call_of_def)
qed

lemma LIST_NEXT_bucket:
  assumes inv: "wheel_inv st" and b: "bucket st cur = pre @ x # xs"
  shows "LIST_NEXT st x = list_first xs" "x \<notin> set pre" "x \<notin> set xs" "pending st x"
proof -
  have "distinct (pre @ x # xs)" using wheel_inv_distinct [OF inv] b by metis
  then show nx: "x \<notin> set pre" "x \<notin> set xs" by auto
  have x: "x \<in> set (bucket st cur)" using b by simp
  then show "pending st x" using wheel_inv_mem [OF inv] by blast
  have "bucket st (ctime st x) = bucket st cur" using x wheel_inv_mem [OF inv] by metis
  then show "LIST_NEXT st x = list_first xs"
    using nx b by (simp add: LIST_NEXT_def list_next_append)
qed

lemma inert_bucket:
  assumes "wheel_inv st" "fire_ok owned st" "bucket st cur = pre @ xs"
  shows "\<exists>st'. softclock_bucket (inert g) cur (list_first xs) st = Some (Inr st')
    \<and> swept (set (filter (\<lambda>c. ctime st c = cur) xs)) st st' \<and> cc_softticks st' = cc_softticks st
    \<and> world st' = fold (call_of g st) (filter (\<lambda>c. ctime st c = cur) xs) (world st)
    \<and> wheel_inv st' \<and> fire_ok owned st'"
  using assms
proof (induction xs arbitrary: pre st)
  case Nil
  then show ?case using swept_refl [of st] by (subst softclock_bucket.simps) auto
next
  case (Cons x xs)
  note next1 = LIST_NEXT_bucket [OF Cons.prems(1,3)]
  show ?case
  proof (cases "ctime st x = cur")
    case False
    then show ?thesis
      using Cons.IH [OF Cons.prems(1,2), of "pre @ [x]"] Cons.prems(3) next1(1)
      by (subst softclock_bucket.simps) simp
  next
    case True
    obtain s where s: "softclock_call_cc (inert g) x True (taken cur x st) = Some (Inr s)"
        "swept {x} st s" "cc_softticks s = cc_softticks st" "cc_next s = LIST_NEXT st x"
        "world s = call_of g st x (world st)" "wheel_inv s" "fire_ok owned s"
      using inert_fire [OF Cons.prems(1,2) next1(4)] by blast
    let ?n = "s\<lparr>cc_next := None\<rparr>" and ?ds = "filter (\<lambda>c. ctime st c = cur) xs"
    have n: "swept {x} st ?n" "wheel_inv ?n" "fire_ok owned ?n"
      using s(2,6,7) by (simp_all add: swept_def cc_next_irrelevant)
    have "filter (\<lambda>c. c \<noteq> x) ys = ys" if "x \<notin> set ys" for ys
      using that by (induction ys) auto
    then have "bucket ?n cur = pre @ xs"
      using bucket_swept [OF n(1), of cur] Cons.prems(3) next1(2,3) by simp
    then obtain st' where st': "softclock_bucket (inert g) cur (list_first xs) ?n = Some (Inr st')"
        "swept (set ?ds) ?n st'" "cc_softticks st' = cc_softticks s"
        "world st' = fold (call_of g st) ?ds (call_of g st x (world st))"
        "wheel_inv st'" "fire_ok owned st'"
      using Cons.IH [OF n(2,3), of pre] s(5) by (auto simp: ctime_swept [OF s(2)] call_of_swept [OF n(1)])
    have "swept ({x} \<union> set ?ds) st st'"
      by (rule swept_trans [OF n(1) st'(2)]) (use next1(3) in auto)
    moreover have "softclock_bucket (inert g) cur (list_first (x # xs)) st = Some (Inr st')"
      using True s(1,4) st'(1) next1(1) by (subst softclock_bucket.simps) (simp add: taken_def)
    ultimately show ?thesis using True st' s(3) by simp
  qed
qed

text \<open>The callouts due in the ticks \<open>softclock\<close> has still to run, in the order it runs them.\<close>

definition due_list :: "'w cst \<Rightarrow> nat list" where
  "due_list st = concat (map (\<lambda>k. let t = cc_softticks st + of_nat k
                                   in filter (\<lambda>c. ctime st c = t) (bucket st t)) [0..<lag st])"

lemma due_list_Suc:
  assumes "lag st = Suc n" "swept D st st'" "cc_softticks st' = cc_softticks st + 1"
    and D: "\<And>c. c \<in> D \<Longrightarrow> ctime st c = cc_softticks st"
  shows "due_list st = filter (\<lambda>c. ctime st c = cc_softticks st) (bucket st (cc_softticks st)) @ due_list st'"
proof -
  have lag': "lag st' = n"
    using lag_step(2) [OF assms(1)] assms(2,3) by (simp add: lag_def swept_def)
  have "filter (\<lambda>c. ctime st' c = t) (bucket st' t) = filter (\<lambda>c. ctime st c = t) (bucket st t)"
    if "t \<noteq> cc_softticks st" for t
    using that D by (auto simp: bucket_swept [OF assms(2)] ctime_swept [OF assms(2)] intro!: filter_cong)
  moreover have "cc_softticks st' + of_nat k \<noteq> cc_softticks st" if "k < n" for k
  proof
    assume "cc_softticks st' + of_nat k = cc_softticks st"
    then have "of_nat (Suc k) = (0 :: i32)" using assms(3) by simp
    then have "unat (of_nat (Suc k) :: i32) = 0" by simp
    moreover have "Suc k < 2 ^ 32"
      using that assms(1) order.strict_trans2 [OF unsigned_less [of "ticks st - cc_softticks st"], of "2 ^ 32 :: nat"]
      by (simp add: lag_def)
    ultimately show False by (simp add: unat_of_nat del: of_nat_Suc)
  qed
  ultimately show ?thesis
    unfolding due_list_def assms(1) lag' map_upt_Suc
    by (auto simp: Let_def assms(3) algebra_simps intro!: arg_cong [where f = concat])
qed

lemma due_list_0: "lag st = 0 \<Longrightarrow> due_list st = []"
  by (simp add: due_list_def)

lemma set_due_list:
  assumes "wheel_inv st"
  shows "set (due_list st) = {c. pending st c \<and> unat (ctime st c - cc_softticks st) < lag st}"
proof (intro set_eqI iffI)
  fix c assume "c \<in> set (due_list st)"
  then obtain k where k: "k < lag st" "ctime st c = cc_softticks st + of_nat k"
      "c \<in> set (bucket st (cc_softticks st + of_nat k))" by (auto simp: due_list_def Let_def)
  have "unat (of_nat k :: i32) \<le> k" by (simp add: unat_of_nat)
  then show "c \<in> {c. pending st c \<and> unat (ctime st c - cc_softticks st) < lag st}"
    using k wheel_inv_mem [OF assms] by auto
next
  fix c assume c: "c \<in> {c. pending st c \<and> unat (ctime st c - cc_softticks st) < lag st}"
  define k where "k = unat (ctime st c - cc_softticks st)"
  have "ctime st c = cc_softticks st + of_nat k" by (simp add: k_def)
  moreover have "c \<in> set (bucket st (ctime st c))" using c wheel_inv_mem [OF assms] by simp
  moreover have "k < lag st" using c by (simp add: k_def)
  ultimately have "\<exists>k\<in>{0..<lag st}. c \<in> set (bucket st (cc_softticks st + of_nat k))
      \<and> ctime st c = cc_softticks st + of_nat k" by (metis atLeastLessThan_iff zero_le)
  then show "c \<in> set (due_list st)" by (simp add: due_list_def Let_def)
qed

lemma softticks_swept:
  "swept D (st\<lparr>cc_softticks := t\<rparr>) s = swept D st s" "call_of g (st\<lparr>cc_softticks := t\<rparr>) = call_of g st"
  by (simp_all add: swept_def call_of_def fun_eq_iff)

lemma inert_softclock:
  assumes "wheel_inv st" "fire_ok owned st"
  shows "\<exists>st'. softclock (inert g) st = Some (Inr st') \<and> swept (set (due_list st)) st st'
    \<and> cc_softticks st' = ticks st \<and> world st' = fold (call_of g st) (due_list st) (world st)
    \<and> wheel_inv st' \<and> fire_ok owned st' \<and> distinct (due_list st)"
  using assms
proof (induction "lag st" arbitrary: st)
  case 0
  then show ?case
    using swept_refl [of st] by (subst softclock.simps) (auto simp: due_list_0 lag_0 [symmetric] intro: exI [of _ st])
next
  case (Suc n st)
  let ?c = "cc_softticks st"
  let ?s = "st\<lparr>cc_softticks := ?c + 1\<rparr>" and ?ds = "filter (\<lambda>c. ctime st c = ?c) (bucket st ?c)"
  note step = lag_step [OF Suc(2) [symmetric]]
  have "wheel_inv ?s" "fire_ok owned ?s" "bucket ?s ?c = [] @ bucket st ?c"
    using Suc.prems by (simp_all add: softticks_irrelevant callout_get_bucket_def)
  from inert_bucket [OF this, of g] obtain s where s:
      "softclock_bucket (inert g) ?c (list_first (bucket st ?c)) ?s = Some (Inr s)"
      "swept (set ?ds) st s" "cc_softticks s = ?c + 1" "world s = fold (call_of g st) ?ds (world st)"
      "wheel_inv s" "fire_ok owned s"
    by (auto simp: softticks_swept simp del: set_filter)
  note dl = due_list_Suc [OF Suc(2) [symmetric] s(2,3)]
  have dl: "due_list st = ?ds @ due_list s" by (rule dl) simp
  have n: "n = lag s" using step(2) s(2,3) by (simp add: lag_def swept_def)
  obtain st' where st': "softclock (inert g) s = Some (Inr st')" "swept (set (due_list s)) s st'"
      "cc_softticks st' = ticks s" "world st' = fold (call_of g s) (due_list s) (world s)"
      "wheel_inv st'" "fire_ok owned st'" "distinct (due_list s)"
    using Suc(1) [OF n s(5,6)] by blast
  have disj: "set ?ds \<inter> set (due_list s) = {}"
    using pending_swept [OF s(2)] by (auto simp: set_due_list [OF s(5)])
  have "softclock (inert g) st = Some (Inr st')"
    using step(1) s(1) st'(1) by (subst softclock.simps) simp
  moreover have "swept (set (due_list st)) st st'"
    using swept_trans [OF s(2) st'(2) disj] by (simp add: dl)
  moreover have "world st' = fold (call_of g st) (due_list st) (world st)"
    using st'(4) s(4) by (simp add: dl call_of_swept [OF s(2)])
  moreover have "cc_softticks st' = ticks st" using st'(3) s(2) by (simp add: swept_def)
  moreover have "distinct (due_list st)"
    using disj st'(7) wheel_inv_distinct [OF Suc.prems(1)] by (simp add: dl)
  ultimately show ?case using st'(5,6) by blast
qed

end
