(* ===== verification/LB_Bystander.thy ===== *)
theory LB_Bystander
  imports LB_Softclock
begin

text \<open>
  Following one callout through the clock interrupts.  Every call the wheel makes is recorded: the callout it is made for
  (\<open>cc_curr\<close>, none for the function that ends a drain), the function and its argument.  The locale \<open>callout_bystander\<close> is what
  the registered functions owe the callout that is followed: while it is pending, those of other callouts leave it alone.  Its own
  function may do what it likes with it.  Under that contract the callout stays as it was armed until its tick, and then its
  function is called, once.
\<close>

section \<open>Recording the calls\<close>

type_synonym call_log = "(nat option \<times> nat \<times> nat) list"

definition recorded :: "('w \<times> call_log) callback \<Rightarrow> ('w \<times> call_log) callback" where
  "recorded h f a st =
     h f a (st\<lparr>world := (fst (world st), snd (world st) @ [(cc_curr (cc_exec_entity st True), f, a)])\<rparr>)"

text \<open>The calls made for the callout \<open>c\<close>, in order.\<close>

definition calls_of :: "nat \<Rightarrow> 'w \<times> call_log \<Rightarrow> (nat \<times> nat) list" where
  "calls_of c w = map snd (filter (\<lambda>e. fst e = Some c) (snd w))"

lemma calls_of_apfst [simp]: "calls_of c (apfst g w) = calls_of c w"
  by (simp add: calls_of_def)

text \<open>The contract of the registered functions, without the record: they return, use the wheel through its interface, do not touch the
  record, and spare \<open>c\<close> while it is pending, unless they run for \<open>c\<close> itself.\<close>

definition bystanders :: "nat \<Rightarrow> nat set \<Rightarrow> ('w \<times> call_log) callback \<Rightarrow> bool" where
  "bystanders c owned h \<longleftrightarrow> (\<forall>st f a. wheel_inv st \<longrightarrow> fire_ok owned st \<longrightarrow>
     (\<exists>st'. h f a st = Some (Inr st') \<and> api_ok st st' \<and> fire_ok owned st' \<and> snd (world st') = snd (world st)
        \<and> (cc_curr (cc_exec_entity st True) \<noteq> Some c \<longrightarrow> pending st c \<longrightarrow> callouts st' c = callouts st c)))"

locale callout_bystander = callout_client call owned for call :: "('w \<times> call_log) callback" and owned :: "nat set" +
  fixes c :: nat
  assumes call_records: "wheel_inv st \<Longrightarrow> fire_ok owned st \<Longrightarrow> call f a st = Some (Inr st') \<Longrightarrow>
      calls_of c (world st') = calls_of c (world st) @ (if cc_curr (cc_exec_entity st True) = Some c then [(f, a)] else [])"
    and call_spares: "wheel_inv st \<Longrightarrow> fire_ok owned st \<Longrightarrow> call f a st = Some (Inr st') \<Longrightarrow>
      cc_curr (cc_exec_entity st True) \<noteq> Some c \<Longrightarrow> pending st c \<Longrightarrow> callouts st' c = callouts st c"
begin

lemma skip_spares:
  assumes "wheel_inv st" "fire_ok owned st" "CALLOUT_LOCAL_ALLOC \<notin> iflags"
    and "softclock_skip call x True a iflags st = Some (Inr st')"
  shows "calls_of c (world st') = calls_of c (world st)" "pending st c \<Longrightarrow> callouts st' c = callouts st c"
proof -
  let ?s = "upd_exec True (\<lambda>e. e\<lparr>cc_curr := None\<rparr>) st"
  let ?t = "upd_exec True (\<lambda>e. e\<lparr>cc_drain := None\<rparr>) ?s"
  have t: "wheel_inv ?t" "fire_ok owned ?t"
    using assms(1,2) api_ok_upd_exec [of st True] api_ok_upd_exec [of ?s True] by (simp_all add: api_ok_def fire_ok_upd_exec)
  have curr: "cc_curr (cc_exec_entity ?t True) = None" by (simp add: callout_simps)
  obtain s1 where s1: "(case cc_drain (cc_exec_entity ?s True) of None \<Rightarrow> Some (Inr ?s)
      | Some drain \<Rightarrow> call drain a ?t) = Some (Inr s1)" and st': "\<exists>k. st' = upd_exec True k s1 \<or> st' = s1"
    using assms(3,4) by (auto simp: softclock_skip_def Let_def cc_cce_migrating_def split: option.splits sum.splits if_splits)
  have "calls_of c (world s1) = calls_of c (world st) \<and> (pending st c \<longrightarrow> callouts s1 c = callouts st c)"
  proof (cases "cc_drain (cc_exec_entity ?s True)")
    case None
    then show ?thesis using s1 by (auto simp: callout_simps)
  next
    case (Some drain)
    then have "call drain a ?t = Some (Inr s1)" using s1 by simp
    then show ?thesis using call_records [OF t] call_spares [OF t] curr by (auto simp: callout_simps)
  qed
  then show "calls_of c (world st') = calls_of c (world st)" "pending st c \<Longrightarrow> callouts st' c = callouts st c"
    using st' by (auto simp: callout_simps)
qed

text \<open>Firing a callout: the call is recorded, and another callout's firing leaves \<open>c\<close> as it is.\<close>

lemma fire_spares:
  assumes inv: "wheel_inv st" and fo: "fire_ok owned st" and x: "pending st x"
    and run: "softclock_call_cc call x True (taken cur x st) = Some (Inr st')"
  shows "calls_of c (world st') = calls_of c (world st)
      @ (if x = c then [(the (c_func (callouts st c)), c_arg (callouts st c))] else [])"
    and "x \<noteq> c \<Longrightarrow> pending st c \<Longrightarrow> callouts st' c = callouts st c"
    and "arms (fired x True (taken cur x st)) st'"
proof -
  let ?s = "taken cur x st" and ?f = "fired x True (taken cur x st)"
  have co: "client_ok (callouts ?s x)" "CALLOUT_LOCAL_ALLOC \<notin> c_iflags (callouts ?s x)"
    using fo x by (auto simp: fire_ok_def callout_simps client_ok_def)
  obtain f where f: "c_func (callouts ?s x) = Some f"
    using fo x by (auto simp: fire_ok_def callout_simps)
  note ff = wheel_inv_fired [OF inv, of x True cur] fire_ok_fired [OF fo, of x True cur]
  obtain s1 where s1: "call f (c_arg (callouts ?s x)) ?f = Some (Inr s1)" "api_ok ?f s1" "fire_ok owned s1"
    using call_ok [OF ff] by blast
  have w1: "wheel_inv s1" using s1(2) ff(1) by (simp add: api_ok_def)
  have skip: "softclock_skip call x True (c_arg (callouts ?s x)) (c_iflags (callouts ?s x)) s1 = Some (Inr st')"
    using run s1(1) by (simp add: softclock_call_cc_eq [OF co(1) f])
  have curr: "cc_curr (cc_exec_entity ?f True) = Some x" by (simp add: fired_def callout_simps)
  show "calls_of c (world st') = calls_of c (world st)
      @ (if x = c then [(the (c_func (callouts st c)), c_arg (callouts st c))] else [])"
    using skip_spares(1) [OF w1 s1(3) co(2) skip] call_records [OF ff s1(1)] f by (auto simp: curr callout_simps)
  show "callouts st' c = callouts st c" if "x \<noteq> c" "pending st c"
  proof -
    have "pending ?f c" "callouts ?f c = callouts st c" using that by (simp_all add: callout_simps)
    then have "callouts s1 c = callouts st c" using call_spares [OF ff s1(1)] that(1) curr by auto
    moreover from this have "pending s1 c" using that(2) by (simp add: pending_def)
    ultimately show ?thesis using skip_spares(2) [OF w1 s1(3) co(2) skip] by simp
  qed
  show "arms ?f st'"
  proof -
    obtain s2 where "softclock_call_cc call x True ?s = Some (Inr s2)" "api_ok ?f s2"
      using fire_one [OF inv fo x] by blast
    then show ?thesis using run ff(1) by (simp add: api_ok_def)
  qed
qed

text \<open>\<open>c\<close> before and after its firing: armed as \<open>co\<close> says and not called, or called once and not due again in this tick.\<close>

definition followed :: "callout \<Rightarrow> (nat \<times> nat) list \<Rightarrow> i32 \<Rightarrow> ('w \<times> call_log) cst \<Rightarrow> bool" where
  "followed co l cur st \<longleftrightarrow>
     pending st c \<and> callouts st c = co \<and> calls_of c (world st) = l
   \<or> c_time co = cur \<and> c \<notin> due cur st \<and> calls_of c (world st) = l @ [(the (c_func co), c_arg co)]"

lemma followed_step:
  assumes "wheel_inv s" "fire_ok owned s" "pending s x" "ctime s x = cur" "sint (cur - ticks s) < 0" "followed co l cur s"
    and run: "softclock_call_cc call x True (taken cur x s) = Some (Inr s')"
  shows "followed co l cur (s'\<lparr>cc_next := None\<rparr>)"
proof -
  note fire = fire_spares [OF assms(1-3) run]
  have "due cur s' \<subseteq> due cur s - {x}"
    using due_arms [OF fire(3), of cur] assms(5) by (simp add: due_fired callout_simps)
  moreover have "c \<in> due cur s \<longleftrightarrow> pending s c \<and> ctime s c = cur" by (simp add: due_def)
  ultimately have "followed co l cur s'"
    using assms(3,4,6) fire(1,2) unfolding followed_def by (cases "x = c") (auto simp: pending_def)
  then show ?thesis by (simp add: followed_def cc_next_irrelevant pending_def)
qed

lemma bucket_follows:
  assumes "wheel_inv st" "fire_ok owned st" "sweep cur p st" "sint (cur - ticks st) < 0" "pending st c"
  shows "\<exists>st'. softclock_bucket call cur p st = Some (Inr st') \<and> wheel_inv st' \<and> fire_ok owned st' \<and> same_ticks st st'
    \<and> (if ctime st c = cur
       then calls_of c (world st') = calls_of c (world st) @ [(the (c_func (callouts st c)), c_arg (callouts st c))]
       else callouts st' c = callouts st c \<and> calls_of c (world st') = calls_of c (world st))"
proof -
  let ?P = "followed (callouts st c) (calls_of c (world st)) cur"
  have "?P st" using assms(5) by (simp add: followed_def)
  then have "\<exists>st'. softclock_bucket call cur p st = Some (Inr st')
    \<and> wheel_inv st' \<and> fire_ok owned st' \<and> arms st st' \<and> same_ticks st st' \<and> due cur st' = {} \<and> ?P st'"
    by (rule softclock_bucket_inv [OF assms(1-4)]) (rule followed_step)
  then obtain st' where st': "softclock_bucket call cur p st = Some (Inr st')" "wheel_inv st'" "fire_ok owned st'"
      "same_ticks st st'" "due cur st' = {}" "?P st'" by blast
  have "if ctime st c = cur
       then calls_of c (world st') = calls_of c (world st) @ [(the (c_func (callouts st c)), c_arg (callouts st c))]
       else callouts st' c = callouts st c \<and> calls_of c (world st') = calls_of c (world st)"
    using st'(5,6) by (auto simp: followed_def due_def)
  then show ?thesis using st' by blast
qed

text \<open>One clock interrupt while the wheel is up to date.\<close>

lemma hardclock_follows:
  assumes inv: "wheel_inv st" "fire_ok owned st" and lag: "cc_softticks st = ticks st" and c: "pending st c"
  shows "\<exists>st'. lazybsd_hardclock hz (\<lambda>n. apfst (tt n)) (apfst cal) call st = Some (Inr st') \<and> wheel_inv st' \<and> fire_ok owned st'
    \<and> ticks st' = ticks st + 1 \<and> cc_softticks st' = ticks st + 1
    \<and> (if ctime st c = ticks st
       then calls_of c (world st') = calls_of c (world st) @ [(the (c_func (callouts st c)), c_arg (callouts st c))]
       else callouts st' c = callouts st c \<and> calls_of c (world st') = calls_of c (world st))"
proof -
  let ?s = "st\<lparr>ticks := ticks st + 1\<rparr>"
  let ?b = "?s\<lparr>cc_softticks := ticks st + 1\<rparr>"
  have s: "wheel_inv ?b" "fire_ok owned ?b" "pending ?b c"
    using inv c by (simp_all add: ticks_irrelevant softticks_irrelevant pending_def)
  have l: "lag ?s = 1" using lag by (simp add: lag_def)
  have "sweep (ticks st) (list_first (bucket ?b (ticks st))) ?b" by (rule sweep_first)
  then obtain st' where st': "softclock_bucket call (ticks st) (list_first (bucket ?b (ticks st))) ?b = Some (Inr st')"
      "wheel_inv st'" "fire_ok owned st'" "same_ticks ?b st'"
      "if ctime st c = ticks st
       then calls_of c (world st') = calls_of c (world st) @ [(the (c_func (callouts st c)), c_arg (callouts st c))]
       else callouts st' c = callouts st c \<and> calls_of c (world st') = calls_of c (world st)"
    using bucket_follows [OF s(1,2) _ _ s(3), of "ticks st" "list_first (bucket ?b (ticks st))"] by auto
  have tk: "ticks st' = ticks st + 1" "cc_softticks st' = ticks st + 1" using st'(4) by (simp_all add: same_ticks_def)
  have "softclock call ?s = softclock call st'"
    using st'(1) lag by (subst softclock.simps) (simp add: callout_get_bucket_def)
  also have "\<dots> = Some (Inr st')" using tk by (subst softclock.simps) simp
  finally have "callout_tick call ?s = Some (Inr st')"
    using callout_tick_softclock [of ?s call] l by simp
  then show ?thesis
    using st'(2,3,5) tk by (simp add: lazybsd_hardclock_def world_irrelevant)
qed

end

section \<open>The contract of functions with a record\<close>

lemma recorded_bystander:
  assumes "bystanders c owned h"
  shows "callout_bystander (recorded h) owned c"
proof unfold_locales
  fix st :: "('a \<times> call_log) cst" and f a
  assume st: "wheel_inv st" "fire_ok owned st"
  let ?s = "st\<lparr>world := (fst (world st), snd (world st) @ [(cc_curr (cc_exec_entity st True), f, a)])\<rparr>"
  have s: "wheel_inv ?s" "fire_ok owned ?s" "pending ?s = pending st"
    using st by (simp_all add: world_irrelevant pending_def fun_eq_iff)
  obtain st' where h: "h f a ?s = Some (Inr st')" "api_ok ?s st'" "fire_ok owned st'" "snd (world st') = snd (world ?s)"
      "cc_curr (cc_exec_entity st True) \<noteq> Some c \<Longrightarrow> pending st c \<Longrightarrow> callouts st' c = callouts st c"
    using assms s unfolding bystanders_def by fastforce
  have "api_ok st ?s" by (rule api_ok_neutral) (simp_all add: same_clock_def pending_def callout_migrating_def)
  then show "\<exists>st'. recorded h f a st = Some (Inr st') \<and> api_ok st st' \<and> fire_ok owned st'"
    using h(1-3) api_ok_trans [of st ?s st'] by (simp add: recorded_def)
  fix s' assume r: "recorded h f a st = Some (Inr s')"
  then have "s' = st'" using h(1) by (simp add: recorded_def)
  then show "calls_of c (world s') = calls_of c (world st) @ (if cc_curr (cc_exec_entity st True) = Some c then [(f, a)] else [])"
    "cc_curr (cc_exec_entity st True) \<noteq> Some c \<Longrightarrow> pending st c \<Longrightarrow> callouts s' c = callouts st c"
    using h(4,5) by (auto simp: calls_of_def)
qed

section \<open>Functions that run callout operations for their callout\<close>

text \<open>A function that knows the callout it runs for and performs callout operations, as \<open>client_call\<close>.\<close>

primrec op_target :: "client_op \<Rightarrow> nat" where
  "op_target (Reset c t f a) = c"
| "op_target (Stop c) = c"
| "op_target (Async_Drain c d) = c"

definition own_call :: "(nat \<Rightarrow> nat \<Rightarrow> nat \<Rightarrow> client_op list) \<Rightarrow> nat set \<Rightarrow> 'w callback" where
  "own_call prog owned f a st =
     client_ops owned (case cc_curr (cc_exec_entity st True) of Some x \<Rightarrow> prog x f a | None \<Rightarrow> []) st"

lemma reset_frame:
  assumes "wheel_inv st" "callout_reset_tick_on maxcpu x t (Some f) a (-1) {} st = Inr (r, st')"
  shows "world st' = world st" "c \<noteq> x \<Longrightarrow> callouts st' c = callouts st c"
proof -
  have np: "\<not> reset_panics maxcpu (-1) st" by (simp add: reset_panics_def)
  have m: "wheel_inv (reset_marked x {} st)" "world (reset_marked x {} st) = world st"
    using assms(1) reset_marked_simps(4) [of st x "{}"] by (auto simp: api_ok_def reset_marked_def callout_simps)
  show "world st' = world st" "c \<noteq> x \<Longrightarrow> callouts st' c = callouts st c"
    using assms(2) unfolding callout_reset_eq [OF np] Let_def
    by (auto simp: reset_marked_simps m callout_cc_add_simps callout_detach_simps split: if_splits)
qed

lemma stop_frame:
  assumes inv: "wheel_inv st" and ok: "client_ok (callouts st x)" and "callout_stop_safe x {} drain st = Some (Inr (r, st'))"
  shows "world st' = world st" "c \<noteq> x \<Longrightarrow> callouts st' c = callouts st c"
proof -
  let ?d = "CALLOUT_DIRECT \<in> c_iflags (callouts st x)"
  have tail: "world (snd (callout_stop_tail x d False r s)) = world s \<and>
      (c \<noteq> x \<longrightarrow> callouts (snd (callout_stop_tail x d False r s)) c = callouts s c)"
    if "wheel_inv s" for d r and s :: "'a cst"
    using that by (simp add: stop_tail_eq callout_cc_del_def Let_def callout_detach_simps callout_simps)
  obtain ul where again: "callout_stop_again x {} drain ul ?d False st = Some (r, st')"
    using assms(3) ok by (auto simp: callout_stop_safe_def Let_def client_ok_def split: option.splits if_splits)
  let ?act = "set_drain ?d drain (clear_active x st)"
  have act: "wheel_inv ?act" "world ?act = world st" "c \<noteq> x \<longrightarrow> callouts ?act c = callouts st c"
    using inv api_ok_trans [OF api_ok_clear_active api_ok_set_drain, of st]
    by (auto simp: api_ok_def set_drain_def clear_active_def callout_simps)
  have "world st' = world st \<and> (c \<noteq> x \<longrightarrow> callouts st' c = callouts st c)"
  proof (cases "cc_curr (cc_exec_entity st ?d) = Some x")
    case True
    then show ?thesis
      using again tail [OF act(1), of ?d "cexec {}"] act(2,3)
      by (auto simp: stop_running [OF inv True] clear_active_def callout_simps split: if_splits)
  next
    case False
    then show ?thesis using again tail [OF inv, of ?d 1] by (auto simp: stop_not_running [OF inv False])
  qed
  then show "world st' = world st" "c \<noteq> x \<Longrightarrow> callouts st' c = callouts st c" by simp_all
qed

lemma client_op_frame:
  assumes "wheel_inv st" "fire_ok owned st" "client_op_step owned p st = Some (Inr st')"
  shows "world st' = world st" "op_target p \<noteq> c \<Longrightarrow> callouts st' c = callouts st c"
proof -
  have ok: "client_ok (callouts st x)" if "x \<in> owned" for x using assms(2) that by (simp add: fire_ok_def)
  have "world st' = world st \<and> (op_target p \<noteq> c \<longrightarrow> callouts st' c = callouts st c)"
  proof (cases "op_target p \<in> owned")
    case False
    then show ?thesis using assms(3) by (cases p) auto
  next
    case own: True
    show ?thesis
    proof (cases p)
      case (Reset x t f a)
      then obtain r where "callout_reset_tick_on 1 x t (Some f) a (-1) {} st = Inr (r, st')"
        using assms(3) own by (auto split: sum.splits)
      then show ?thesis using reset_frame [OF assms(1)] Reset by (metis op_target.simps(1))
    next
      case (Stop x)
      then obtain r where "callout_stop_safe x {} None st = Some (Inr (r, st'))"
        using assms(3) own by (auto split: sum.splits option.splits)
      then show ?thesis using stop_frame [OF assms(1) ok] own Stop by (metis op_target.simps(2))
    next
      case (Async_Drain x d)
      then obtain r where "callout_stop_safe x {} (Some d) st = Some (Inr (r, st'))"
        using assms(3) own by (auto split: sum.splits option.splits)
      then show ?thesis using stop_frame [OF assms(1) ok] own Async_Drain by (metis op_target.simps(3))
    qed
  qed
  then show "world st' = world st" "op_target p \<noteq> c \<Longrightarrow> callouts st' c = callouts st c" by simp_all
qed

lemma client_ops_frame:
  assumes "wheel_inv st" "fire_ok owned st" "client_ops owned ps st = Some (Inr st')"
  shows "world st' = world st \<and> (c \<notin> op_target ` set ps \<longrightarrow> callouts st' c = callouts st c)"
  using assms
proof (induction ps arbitrary: st)
  case (Cons p ps)
  obtain s where s: "client_op_step owned p st = Some (Inr s)" "api_ok st s" "fire_ok owned s"
    using client_op_ok [OF Cons.prems(1,2)] by blast
  then have "wheel_inv s" using Cons.prems(1) by (simp add: api_ok_def)
  then show ?case
    using Cons.IH [of s] s Cons.prems(3) client_op_frame [OF Cons.prems(1,2) s(1)] by auto
qed auto

lemma own_call_bystanders:
  assumes "\<And>x f a. x \<noteq> c \<Longrightarrow> c \<notin> op_target ` set (prog x f a)"
  shows "bystanders c owned (own_call prog owned)"
  unfolding bystanders_def
proof (intro allI impI)
  fix st :: "('a \<times> call_log) cst" and f a
  assume st: "wheel_inv st" "fire_ok owned st"
  let ?ps = "case cc_curr (cc_exec_entity st True) of Some x \<Rightarrow> prog x f a | None \<Rightarrow> []"
  obtain st' where st': "client_ops owned ?ps st = Some (Inr st')" "api_ok st st'" "fire_ok owned st'"
    using client_ops_ok [OF st] by blast
  have "cc_curr (cc_exec_entity st True) \<noteq> Some c \<Longrightarrow> c \<notin> op_target ` set ?ps"
    using assms by (cases "cc_curr (cc_exec_entity st True)") simp_all
  then show "\<exists>st'. own_call prog owned f a st = Some (Inr st') \<and> api_ok st st' \<and> fire_ok owned st'
      \<and> snd (world st') = snd (world st)
      \<and> (cc_curr (cc_exec_entity st True) \<noteq> Some c \<longrightarrow> pending st c \<longrightarrow> callouts st' c = callouts st c)"
    using st' client_ops_frame [OF st st'(1), of c] by (intro exI [of _ st']) (simp add: own_call_def)
qed

text \<open>Functions that re-arm their own callout, and functions that leave the wheel alone.\<close>

interpretation periodic: callout_bystander "recorded (own_call (\<lambda>x f a. [Reset x (t x) f a]) owned)" owned c for t owned c
  by (rule recorded_bystander [OF own_call_bystanders]) simp

lemma inert_bystanders: "bystanders c owned (inert (\<lambda>f a. apfst (g f a)))"
  unfolding bystanders_def
proof (intro allI impI)
  fix st :: "('a \<times> call_log) cst" and f a
  assume "wheel_inv st" "fire_ok owned st"
  then show "\<exists>st'. inert (\<lambda>f a. apfst (g f a)) f a st = Some (Inr st') \<and> api_ok st st' \<and> fire_ok owned st'
      \<and> snd (world st') = snd (world st)
      \<and> (cc_curr (cc_exec_entity st True) \<noteq> Some c \<longrightarrow> pending st c \<longrightarrow> callouts st' c = callouts st c)"
    using inert.call_ok [of st owned "\<lambda>f a. apfst (g f a)" f a] by (auto simp: inert_def)
qed

interpretation outside: callout_bystander "recorded (inert (\<lambda>f a. apfst (g f a)))" owned c for g owned c
  by (rule recorded_bystander [OF inert_bystanders])

end
