(* ===== verification/LB_Callout_Props.thy ===== *)
theory LB_Callout_Props
  imports LB_Bystander
begin

text \<open>
  The properties of the callout wheel (\<^verbatim>\<open>bsd/lib/lazybsd_kern_timeout.c\<close>), stated over the
  operations of \<open>LB_Callout\<close>, with a concrete wheel at the front on which the hypotheses hold.
\<close>

section \<open>A concrete wheel\<close>

definition blank_callout :: callout where
  "blank_callout = \<lparr>c_time = 0, c_arg = 0, c_func = None, c_lock = None, c_flags = {}, c_iflags = {},
     c_cpu = 0\<rparr>"

definition blank :: "'w \<Rightarrow> 'w cst" where
  "blank w = \<lparr>callouts = (\<lambda>_. blank_callout),
     cc_exec_entity = (\<lambda>_. \<lparr>cc_curr = None, cc_drain = None, cc_cancel = False, cc_waiting = False\<rparr>),
     cc_next = None, cc_callout = [], cc_callwheel = (\<lambda>_. []), cc_expireq = [], cc_callfree = [],
     cc_softticks = 0, cc_bucket = 0, cc_inited = False, callwheelsize = 0, callwheelmask = 0,
     ncallout = 0, timeout_cpu = 0, ticks = 0, world = w\<rparr>"

section \<open>Initialisation\<close>

definition unarmed :: "'w cst \<Rightarrow> bool" where
  "unarmed st \<longleftrightarrow> (\<forall>c. c_iflags (callouts st c)
     \<inter> {CALLOUT_PENDING, CALLOUT_PROCESSED, CALLOUT_DFRMIGRATION} = {})"

lemma unarmed_wheel_inv:
  assumes "unarmed st" "cc_callwheel st = (\<lambda>_. [])" "callwheelsize st = 2 ^ k" "callwheelmask st = 2 ^ k - 1"
    "k \<le> 31"
  shows "wheel_inv st"
  using assms by (auto simp: wheel_inv_def unarmed_def pending_def callout_migrating_def)

lemma init_callouts_fields:
  "cc_callwheel (init_callouts cs st) = cc_callwheel st"
  "callwheelsize (init_callouts cs st) = callwheelsize st"
  "callwheelmask (init_callouts cs st) = callwheelmask st"
  "ticks (init_callouts cs st) = ticks st" "cc_softticks (init_callouts cs st) = cc_softticks st"
  "ncallout (init_callouts cs st) = ncallout st" "cc_inited (init_callouts cs st) = cc_inited st"
  "cc_callfree (init_callouts cs st) = rev cs @ cc_callfree st"
  "cc_exec_entity (init_callouts cs st) = cc_exec_entity st" "world (init_callouts cs st) = world st"
  by (induction cs arbitrary: st) (simp_all add: Let_def callout_init_def upd_callout_def)

lemma init_callouts_other: "c \<notin> set cs \<Longrightarrow> callouts (init_callouts cs st) c = callouts st c"
  by (induction cs arbitrary: st) (simp_all add: Let_def callout_init_def upd_callout_def)

lemma init_callouts_unarmed: "unarmed st \<Longrightarrow> unarmed (init_callouts cs st)"
proof (induction cs arbitrary: st)
  case (Cons x cs)
  then have "unarmed (upd_callout x (\<lambda>co. co\<lparr>c_iflags := {CALLOUT_LOCAL_ALLOC}\<rparr>) (callout_init x False st)
      \<lparr>cc_callfree := x # cc_callfree st\<rparr>)"
    by (simp add: unarmed_def callout_init_def upd_callout_def)
  then show ?case using Cons.IH by (simp add: Let_def callout_init_def upd_callout_def)
qed simp

text \<open>The tunables \<open>callout_callwheel_init\<close> settles on.\<close>

definition tuned_ncallout :: "(string \<Rightarrow> i32 option) \<Rightarrow> i32 \<Rightarrow> i32 \<Rightarrow> i32" where
  "tuned_ncallout getenv_int maxproc maxfiles =
     (case getenv_int ''kern.ncallout'' of
        Some v \<Rightarrow> v
      | None \<Rightarrow> (if 16 + maxproc + maxfiles <s 18508 then 16 + maxproc + maxfiles else 18508))"

lemma callwheel_init_fields:
  assumes n_def: "n = tuned_ncallout getenv_int maxproc maxfiles"
    and st'_def: "st' = callout_callwheel_init getenv_int maxproc maxfiles base cpuid st"
  shows "cc_callwheel st' = (\<lambda>_. [])" "ncallout st' = n"
    "callwheelsize st' = push_bit (fls (unat n)) 1" "callwheelmask st' = push_bit (fls (unat n)) 1 - 1"
    "cc_callfree st' = rev (map (\<lambda>i. base + i) [0..<nat (sint n)])"
    "cc_inited st'" "ticks st' = ticks st" "cc_softticks st' = 0" "world st' = world st"
    "unarmed st \<Longrightarrow> unarmed st'"
    "c \<notin> set (map (\<lambda>i. base + i) [0..<nat (sint n)]) \<Longrightarrow> callouts st' c = callouts st c"
    "cc_curr (cc_exec_entity st' d) = None"
proof -
  have eq: "st' = callout_cpu_init (st
      \<lparr>cc_exec_entity := (\<lambda>_. \<lparr>cc_curr = None, cc_drain = None, cc_cancel = False, cc_waiting = False\<rparr>),
       cc_next := None, cc_callout := [], cc_callwheel := (\<lambda>_. []), cc_expireq := [],
       cc_callfree := [], cc_softticks := 0, cc_bucket := 0, cc_inited := False\<rparr>
      \<lparr>ncallout := n, callwheelsize := push_bit (fls (unat n)) 1,
       callwheelmask := push_bit (fls (unat n)) 1 - 1, timeout_cpu := cpuid\<rparr>
      \<lparr>cc_callout := map (\<lambda>i. base + i) [0..<nat (sint n)]\<rparr>)" (is "st' = callout_cpu_init ?s")
    unfolding st'_def n_def callout_callwheel_init_def Let_def tuned_ncallout_def by (rule refl)
  have s: "callouts ?s = callouts st" "ncallout ?s = n" "ticks ?s = ticks st" "world ?s = world st"
    "callwheelsize ?s = push_bit (fls (unat n)) 1" "callwheelmask ?s = push_bit (fls (unat n)) 1 - 1"
    "cc_softticks ?s = 0" "cc_callout ?s = map (\<lambda>i. base + i) [0..<nat (sint n)]" by simp_all
  note defs = callout_cpu_init_def Let_def cc_cce_cleanup_def callout_simps
  show "cc_callwheel st' = (\<lambda>_. [])" "ncallout st' = n"
    "callwheelsize st' = push_bit (fls (unat n)) 1" "callwheelmask st' = push_bit (fls (unat n)) 1 - 1"
    "cc_callfree st' = rev (map (\<lambda>i. base + i) [0..<nat (sint n)])"
    "cc_inited st'" "ticks st' = ticks st" "cc_softticks st' = 0" "world st' = world st"
    "cc_curr (cc_exec_entity st' d) = None"
    unfolding eq using s
    by (simp_all add: defs init_callouts_fields upd_exec_def)
  show "unarmed st \<Longrightarrow> unarmed st'"
    unfolding eq defs by (rule init_callouts_unarmed) (simp add: unarmed_def upd_exec_def)
  show "c \<notin> set (map (\<lambda>i. base + i) [0..<nat (sint n)]) \<Longrightarrow> callouts st' c = callouts st c"
    unfolding eq defs by (subst init_callouts_other) (simp_all add: upd_exec_def)
qed

lemma unat_nonneg_i32:
  assumes "0 \<le> sint (n :: i32)"
  shows "unat n = nat (sint n)" "unat n < 2 ^ 31"
proof -
  have lt: "uint n < 2 ^ 31" using assms sint_neg_i32 [of n] by linarith
  then have "sint n = uint n"
    unfolding sint_uint by (intro signed_take_bit_int_eq_self order_trans [OF _ uint_ge_0]) simp_all
  then show "unat n = nat (sint n)" by simp
  show "unat n < 2 ^ 31" using lt of_nat_less_iff [where 'a = int, of "unat n" "2 ^ 31"] by simp
qed

lemma callwheel_init_wheel:
  assumes "unarmed st" "0 < sint (tuned_ncallout getenv_int maxproc maxfiles)"
    and "st' = callout_callwheel_init getenv_int maxproc maxfiles base cpuid st"
  shows "wheel_inv st' \<and> cc_callwheel st' = (\<lambda>_. [])
    \<and> (\<exists>k\<le>31. unat (callwheelsize st') = 2 ^ k \<and> callwheelmask st' = callwheelsize st' - 1)
    \<and> nat (sint (ncallout st')) < unat (callwheelsize st')
    \<and> unat (callwheelsize st') \<le> 2 * nat (sint (ncallout st'))
    \<and> length (cc_callfree st') = nat (sint (ncallout st')) \<and> distinct (cc_callfree st')"
proof -
  define n where "n = tuned_ncallout getenv_int maxproc maxfiles"
  note init = callwheel_init_fields [OF n_def assms(3)]
  note n = unat_nonneg_i32 [of n]
  have k: "fls (unat n) \<le> 31" using n assms(2) by (intro fls_le) (simp add: n_def)
  have size: "callwheelsize st' = 2 ^ fls (unat n)" "callwheelmask st' = 2 ^ fls (unat n) - 1"
    using init(3,4) by (simp_all add: push_bit_eq_mult)
  then have "wheel_inv st'" using unarmed_wheel_inv [OF init(10) [OF assms(1)] init(1) _ _ k] by simp
  moreover have "unat (callwheelsize st') = 2 ^ fls (unat n)"
    using k by (simp add: size unat_two_power)
  moreover have "0 < unat n" using assms(2) n(1) by (simp add: n_def)
  ultimately show ?thesis
    using init(1,2,5) size k fls_upper [of "unat n"] fls_lower [of "unat n"] n(1) assms(2)
    by (auto simp: n_def distinct_map)
qed

text \<open>\<open>callout_callwheel_init\<close> on a wheel nothing is armed on yet establishes the wheel
  invariant: the size is the power of two above \<open>ncallout\<close> and at most twice it, every bucket
  is empty, and the \<open>ncallout\<close> preallocated callouts are on the free list, each once.\<close>

theorem callwheel_init_ok:
  assumes "unarmed st" "0 < sint (tuned_ncallout getenv_int maxproc maxfiles)"
    and "st' = callout_callwheel_init getenv_int maxproc maxfiles base cpuid st"
  shows "wheel_inv st' \<and> cc_callwheel st' = (\<lambda>_. [])
    \<and> (\<exists>k\<le>31. unat (callwheelsize st') = 2 ^ k \<and> callwheelmask st' = callwheelsize st' - 1)
    \<and> nat (sint (ncallout st')) < unat (callwheelsize st')
    \<and> unat (callwheelsize st') \<le> 2 * nat (sint (ncallout st'))
    \<and> length (cc_callfree st') = nat (sint (ncallout st')) \<and> distinct (cc_callfree st')"
  using assms by (rule callwheel_init_wheel)

text \<open>The wheel the other examples use: callout 2 initialised as MP safe, then armed 3 ticks ahead.\<close>

definition demo :: "'w \<Rightarrow> 'w cst" where
  "demo w = callout_init 2 True (callout_callwheel_init (\<lambda>_. None) 0 0 100 0 (blank w))"

definition demo_armed :: "'w \<Rightarrow> 'w cst" where
  "demo_armed w = callout_cc_add 2 3 (Some 7) 9 (-1) {} (demo w)"

lemma unarmed_blank: "unarmed (blank w)"
  by (simp add: unarmed_def blank_def blank_callout_def)

lemma tuned_demo: "tuned_ncallout (\<lambda>_. None) 0 0 = 16"
  by (simp add: tuned_ncallout_def)

theorem callwheel_init_ok_witness:
  "let st' = callout_callwheel_init (\<lambda>_. None) 0 0 100 0 (blank ())
   in wheel_inv st' \<and> length (cc_callfree st') = 16 \<and> 16 < unat (callwheelsize st')"
proof -
  have n: "0 < sint (tuned_ncallout (\<lambda>_. None) 0 0)" by (simp add: tuned_demo)
  have "ncallout (callout_callwheel_init (\<lambda>_. None) 0 0 100 0 (blank ())) = 16"
    using callwheel_init_fields(2) [OF refl refl, of "\<lambda>_. None" 0 0 100 0 "blank ()"] by (simp add: tuned_demo)
  then show ?thesis
    using callwheel_init_ok [OF unarmed_blank n refl, of 100 0 "()"] by (simp add: Let_def)
qed

lemma wheel_inv_callout_init:
  assumes "wheel_inv st" "\<not> pending st c"
  shows "wheel_inv (callout_init c mpsafe st)"
proof -
  have "wheel_inv (callout_init c mpsafe st) \<longleftrightarrow> wheel_inv st"
    using assms wheel_inv_flags [OF assms(1), of c]
    by (intro wheel_inv_cong) (auto simp: callout_init_def pending_def callout_migrating_def)
  then show ?thesis using assms(1) by simp
qed

lemma demo_fields:
  "callouts (demo w) 2 = \<lparr>c_time = 0, c_arg = 0, c_func = None, c_lock = None, c_flags = {},
     c_iflags = {CALLOUT_RETURNUNLOCKED}, c_cpu = timeout_cpu (demo w)\<rparr>"
  "ticks (demo w) = 0" "cc_softticks (demo w) = 0" "cc_callwheel (demo w) = (\<lambda>_. [])"
  "cc_curr (cc_exec_entity (demo w) d) = None" "world (demo w) = w" "wheel_inv (demo w)"
  "\<not> pending (demo w) c"
proof -
  note init = callwheel_init_fields [OF refl refl, where getenv_int = "\<lambda>_. None" and maxproc = 0
    and maxfiles = 0 and base = 100 and cpuid = 0 and st = "blank w"]
  let ?i = "callout_callwheel_init (\<lambda>_. None) 0 0 100 0 (blank w)"
  have np: "\<not> pending ?i c" for c
    using init(10) [OF unarmed_blank] by (simp add: unarmed_def pending_def)
  have "wheel_inv ?i"
    using callwheel_init_wheel [OF unarmed_blank _ refl, of "\<lambda>_. None" 0 0 100 0 w] by (simp add: tuned_demo)
  then show "wheel_inv (demo w)" unfolding demo_def using np by (rule wheel_inv_callout_init)
  show "callouts (demo w) 2 = \<lparr>c_time = 0, c_arg = 0, c_func = None, c_lock = None, c_flags = {},
     c_iflags = {CALLOUT_RETURNUNLOCKED}, c_cpu = timeout_cpu (demo w)\<rparr>"
    "ticks (demo w) = 0" "cc_softticks (demo w) = 0" "cc_callwheel (demo w) = (\<lambda>_. [])"
    "cc_curr (cc_exec_entity (demo w) d) = None" "world (demo w) = w"
    using init(1,7,8,9,12) by (simp_all add: demo_def callout_init_def blank_def)
  show "\<not> pending (demo w) c"
    using np [of c] by (simp add: demo_def callout_init_def pending_def)
qed

lemma demo_fire_ok: "fire_ok {2} (demo w)" "fire_ok {2} (demo_armed w)"
proof -
  show "fire_ok {2} (demo w)"
    using demo_fields(1,8) [of w] by (simp add: fire_ok_def client_ok_def)
  then show "fire_ok {2} (demo_armed w)" unfolding demo_armed_def by (rule fire_ok_cc_add) simp
qed

lemma demo_armed_fields:
  "wheel_inv (demo_armed w)" "pending (demo_armed w) c \<longleftrightarrow> c = 2" "ctime (demo_armed w) 2 = 3"
  "c_func (callouts (demo_armed w) 2) = Some 7" "c_arg (callouts (demo_armed w) 2) = 9"
  "lag (demo_armed w) = 0" "ticks (demo_armed w) = 0" "cc_softticks (demo_armed w) = 0"
  "world (demo_armed w) = w" "cc_curr (cc_exec_entity (demo_armed w) d) = None"
  using demo_fields [of w] same_clock_cc_add [of "demo w" 2 3 "Some 7" 9 "-1" "{}"]
  by (simp_all add: demo_armed_def wheel_inv_cc_add pending_cc_add callout_cc_add_simps callout_simps
      same_clock_def lag_def)

section \<open>The sweep\<close>

text \<open>C2: when every function registered on the wheel is a sequence of callout operations on its
  own callouts (arming, stopping, asynchronous draining, in any order and on any callout,
  itself included), \<open>softclock\<close> returns: it catches up with \<open>ticks\<close>, keeps the wheel invariant,
  leaves no callout of an elapsed tick behind, and what is pending afterwards was pending
  before at the same tick or was armed by a function at a tick after \<open>ticks\<close>.\<close>

theorem softclock_complete:
  assumes "wheel_inv st" "fire_ok owned st" "lag st \<le> 2 ^ 31"
  shows "\<exists>st'. softclock (client_call prog owned) st = Some (Inr st') \<and> wheel_inv st' \<and> fire_ok owned st'
    \<and> ticks st' = ticks st \<and> cc_softticks st' = ticks st
    \<and> (\<forall>c. pending st' c \<longrightarrow>
          pending st c \<and> ctime st' c = ctime st c \<and> lag st \<le> unat (ctime st c - cc_softticks st)
          \<or> (\<exists>d. 0 < sint d \<and> ctime st' c = ticks st + d))"
proof -
  obtain st' where st': "softclock (client_call prog owned) st = Some (Inr st')" "wheel_inv st'"
      "fire_ok owned st'" "ticks st' = ticks st" "cc_softticks st' = ticks st" "arms st st'"
      "\<forall>k < lag st. due (cc_softticks st + of_nat k) st' = {}"
    using cl.softclock_ok [OF assms] by blast
  have "lag st \<le> unat (ctime st' c - cc_softticks st)" if "pending st' c" for c
  proof (rule ccontr)
    assume "\<not> lag st \<le> unat (ctime st' c - cc_softticks st)"
    then have "due (cc_softticks st + of_nat (unat (ctime st' c - cc_softticks st))) st' = {}"
      using st'(7) by (metis not_le)
    then show False using that by (auto simp: due_def)
  qed
  with st' show ?thesis unfolding arms_def by metis
qed

theorem softclock_complete_witness:
  "\<exists>st'. softclock (client_call (\<lambda>f a. [Reset 2 5 f a]) {2}) (demo_armed ()\<lparr>ticks := 4\<rparr>) = Some (Inr st')
     \<and> cc_softticks st' = 4 \<and> wheel_inv st'"
proof -
  have "lag (demo_armed ()\<lparr>ticks := 4\<rparr>) \<le> 2 ^ 31"
    by (simp add: lag_def demo_armed_fields)
  then show ?thesis
    using softclock_complete [of "demo_armed ()\<lparr>ticks := 4\<rparr>" "{2}" "\<lambda>f a. [Reset 2 5 f a]"]
    by (auto simp: ticks_irrelevant demo_armed_fields demo_fire_ok)
qed

text \<open>C8: with functions that leave the wheel alone, \<open>softclock\<close> calls exactly the functions of the
  callouts due in the elapsed ticks, each once, tick after tick and within a tick in the
  order of the bucket, each with the argument it was armed with; those callouts and no
  others come off the wheel.\<close>

theorem softclock_runs_due:
  assumes "wheel_inv st" "fire_ok owned st"
  shows "\<exists>st'. softclock (inert g) st = Some (Inr st') \<and> cc_softticks st' = ticks st
    \<and> world st' = fold (\<lambda>c. g (the (c_func (callouts st c))) (c_arg (callouts st c))) (due_list st) (world st)
    \<and> distinct (due_list st)
    \<and> set (due_list st) = {c. pending st c \<and> unat (ctime st c - cc_softticks st) < lag st}
    \<and> (\<forall>c. pending st' c \<longleftrightarrow> pending st c \<and> c \<notin> set (due_list st))"
  using inert_softclock [OF assms, of g] set_due_list [OF assms(1)] pending_swept
  by (fastforce simp: call_of_def [abs_def])

theorem softclock_runs_due_witness:
  "\<exists>st'. softclock (inert (\<lambda>f a w. w @ [(f, a)])) (demo_armed []\<lparr>ticks := 4\<rparr>) = Some (Inr st')
     \<and> set (due_list (demo_armed ([] :: (nat \<times> nat) list)\<lparr>ticks := 4\<rparr>)) = {2}
     \<and> \<not> pending st' 2"
  using softclock_runs_due [of "demo_armed []\<lparr>ticks := 4\<rparr>" "{2}" "\<lambda>f a w. w @ [(f, a)]"]
  by (auto simp: ticks_irrelevant demo_armed_fields demo_fire_ok lag_def)

text \<open>C5: \<open>callout_tick\<close> is \<open>softclock\<close>: the empty buckets its scan skips are buckets the sweep
  would find nothing in, so the shortcut of not running the sweep loses no callout.\<close>

theorem callout_tick_is_softclock:
  assumes "lag st \<le> 2 ^ 31"
  shows "callout_tick call st = softclock call st"
  using assms by (rule callout_tick_softclock)

theorem callout_tick_is_softclock_witness:
  "callout_tick (inert (\<lambda>f a w. w + a)) (demo_armed 0\<lparr>ticks := 4\<rparr>)
     = softclock (inert (\<lambda>f a w. w + a)) (demo_armed 0\<lparr>ticks := 4\<rparr>)"
  by (rule callout_tick_is_softclock) (simp add: lag_def demo_armed_fields)

section \<open>Arming and stopping\<close>

lemma callout_reset_armed_at:
  assumes inv: "wheel_inv st" and np: "\<not> reset_panics maxcpu cpu st" and nr: "\<not> reset_refused c fl st"
    and d: "d = (if t \<le>s 0 then 1 else t)"
  shows "\<exists>st'. callout_reset_tick_on maxcpu c t f a cpu fl st
      = Inr (if pending st c \<or> reset_cancels c fl st then 1 else 0, st')
    \<and> wheel_inv st' \<and> pending st' c \<and> ctime st' c = ticks st + d \<and> 0 < sint d
    \<and> c_func (callouts st' c) = f \<and> c_arg (callouts st' c) = a
    \<and> bucket st' (ticks st + d) = c # remove1 c (bucket st (ticks st + d))
    \<and> (\<forall>x. x \<noteq> c \<longrightarrow> callouts st' x = callouts st x)"
proof -
  let ?m = "reset_marked c fl st"
  let ?s = "if pending st c then callout_detach c ?m else ?m"
  let ?st = "callout_cc_add c d f a cpu fl ?s"
  have inv1: "wheel_inv ?m" using inv reset_marked_simps(4) [of st c fl] by (simp add: api_ok_def)
  have m: "cc_callwheel ?m = cc_callwheel st" "callwheelmask ?m = callwheelmask st"
    by (simp_all add: reset_marked_def callout_simps)
  have s: "ticks ?s = ticks st" "\<And>t. bucket ?s t = remove1 c (bucket st t)"
      "\<And>x. x \<noteq> c \<Longrightarrow> callouts ?s x = callouts st x"
    using wheel_inv_mem [OF inv, of c]
    by (auto simp: callout_detach_simps [OF inv1] reset_marked_simps m callout_get_bucket_def remove1_idem)
  have reset: "callout_reset_tick_on maxcpu c t f a cpu fl st
      = Inr (if pending st c \<or> reset_cancels c fl st then 1 else 0, ?st)"
    unfolding callout_reset_eq [OF np] Let_def d using nr by simp
  have "wheel_inv ?st"
    using callout_reset_api_ok [OF reset] inv by (simp add: api_ok_def)
  moreover have "ctime ?st c = ticks st + d" "c_func (callouts ?st c) = f" "c_arg (callouts ?st c) = a"
      "\<forall>x. x \<noteq> c \<longrightarrow> callouts ?st x = callouts st x"
    using s by (simp_all add: callout_cc_add_simps callout_simps)
  moreover have "bucket ?st (ticks st + d) = c # remove1 c (bucket st (ticks st + d))"
    using s(2) [of "ticks st + d"]
    by (simp add: callout_cc_add_simps same_clock_bucket [OF same_clock_cc_add] s(1) Let_def)
  ultimately show ?thesis
    using reset sint_reset_ticks [of t] by (intro exI [of _ ?st]) (simp add: pending_cc_add d)
qed

text \<open>\<open>callout_reset_tick_on\<close>, when it does not panic and no one is waiting for the running
  instance, moves the callout to \<open>ticks\<close> plus the requested number of ticks, at least one, with
  the given function and argument, at the head of its bucket, and touches no other callout;
  it returns 1 exactly when it took a pending callout off the wheel or cancelled a running one.\<close>

theorem callout_reset_arms:
  assumes inv: "wheel_inv st" and np: "\<not> reset_panics maxcpu cpu st" and nr: "\<not> reset_refused c fl st"
    and d: "d = (if t \<le>s 0 then 1 else t)"
  shows "\<exists>st'. callout_reset_tick_on maxcpu c t f a cpu fl st
      = Inr (if pending st c \<or> reset_cancels c fl st then 1 else 0, st')
    \<and> wheel_inv st' \<and> pending st' c \<and> ctime st' c = ticks st + d \<and> 0 < sint d
    \<and> c_func (callouts st' c) = f \<and> c_arg (callouts st' c) = a
    \<and> bucket st' (ticks st + d) = c # remove1 c (bucket st (ticks st + d))
    \<and> (\<forall>x. x \<noteq> c \<longrightarrow> callouts st' x = callouts st x)"
  using assms by (rule callout_reset_armed_at)

theorem callout_reset_arms_witness:
  "\<exists>st'. callout_reset_tick_on 1 2 10 (Some 7) 9 (-1) {} (demo_armed ()) = Inr (1, st')
     \<and> pending st' 2 \<and> ctime st' 2 = 10"
proof -
  have "\<not> reset_panics 1 (-1) (demo_armed ())" "\<not> reset_refused 2 {} (demo_armed ())"
    by (simp_all add: reset_panics_def reset_refused_def demo_armed_fields)
  from callout_reset_arms [OF demo_armed_fields(1) this refl, of 10 "Some 7" 9] show ?thesis
    by (auto simp: demo_armed_fields word_sle_eq split: if_splits)
qed

lemma callout_stop_not_running:
  assumes inv: "wheel_inv st" and co: "client_ok (callouts st c)"
    and idle: "cc_curr (cc_exec_entity st (CALLOUT_DIRECT \<in> c_iflags (callouts st c))) \<noteq> Some c"
  shows "\<exists>st'. callout_stop_safe c flags drain st = Some (Inr (if pending st c then 1 else -1, st'))
    \<and> wheel_inv st' \<and> \<not> pending st' c \<and> cc_callwheel st' = (\<lambda>b. remove1 c (cc_callwheel st b))
    \<and> (\<forall>x. x \<noteq> c \<longrightarrow> callouts st' x = callouts st x)"
proof -
  let ?d = "CALLOUT_DIRECT \<in> c_iflags (callouts st c)"
  let ?st = "snd (callout_stop_tail c ?d False 1 st)"
  have "callout_stop_safe c flags drain st = Some (Inr (callout_stop_tail c ?d False 1 st))"
    using co stop_not_running [OF inv idle]
    by (auto simp: callout_stop_safe_def Let_def client_ok_def split: option.splits)
  then have stop: "callout_stop_safe c flags drain st = Some (Inr (if pending st c then 1 else -1, ?st))"
    using idle by (simp add: stop_tail_eq)
  have "client_ok (callouts (callout_detach c st) c)" using co by (simp add: callout_detach_simps [OF inv])
  then have "\<not> pending ?st c \<and> cc_callwheel ?st = (\<lambda>b. remove1 c (cc_callwheel st b))
      \<and> (\<forall>x. x \<noteq> c \<longrightarrow> callouts ?st x = callouts st x)"
    using wheel_inv_mem [OF inv, of c]
    by (simp add: stop_tail_eq cc_del_client pending_detach [OF inv] callout_detach_simps [OF inv] remove1_idem)
  then show ?thesis using stop callout_stop_api_ok [OF inv stop] inv by (auto simp: api_ok_def)
qed

text \<open>Stopping (or draining) a callout that its execution entity is not running returns 1 if it
  was pending and -1 if not; afterwards it is off the wheel, and no other callout is touched.\<close>

theorem callout_stop_idle:
  assumes inv: "wheel_inv st" and co: "client_ok (callouts st c)"
    and idle: "cc_curr (cc_exec_entity st (CALLOUT_DIRECT \<in> c_iflags (callouts st c))) \<noteq> Some c"
  shows "\<exists>st'. callout_stop_safe c flags drain st = Some (Inr (if pending st c then 1 else -1, st'))
    \<and> wheel_inv st' \<and> \<not> pending st' c \<and> cc_callwheel st' = (\<lambda>b. remove1 c (cc_callwheel st b))
    \<and> (\<forall>x. x \<noteq> c \<longrightarrow> callouts st' x = callouts st x)"
  using assms by (rule callout_stop_not_running)

theorem callout_stop_idle_witness:
  "\<exists>st'. callout_stop_safe 2 {CS_DRAIN} None (demo_armed ()) = Some (Inr (1, st')) \<and> \<not> pending st' 2"
proof -
  have "client_ok (callouts (demo_armed ()) 2)"
    using demo_fire_ok(2) [of "()"] by (simp add: fire_ok_def)
  then show ?thesis
    using callout_stop_idle [of "demo_armed ()" 2 "{CS_DRAIN}" None] by (auto simp: demo_armed_fields)
qed

section \<open>Arming to firing\<close>

text \<open>\<open>n\<close> interrupts of the hardware clock.\<close>

fun hardclocks ::
    "int \<Rightarrow> (int \<Rightarrow> 'w \<Rightarrow> 'w) \<Rightarrow> ('w \<Rightarrow> 'w) \<Rightarrow> 'w callback \<Rightarrow> nat \<Rightarrow> 'w cst \<Rightarrow> 'w outcome" where
  "hardclocks hz tt cal call 0 st = Some (Inr st)"
| "hardclocks hz tt cal call (Suc n) st =
     (case hardclocks hz tt cal call n st of
        None \<Rightarrow> None
      | Some (Inl p) \<Rightarrow> Some (Inl p)
      | Some (Inr st') \<Rightarrow> lazybsd_hardclock hz tt cal call st')"

lemma hardclock_inert:
  assumes inv: "wheel_inv st" "fire_ok owned st" and lag: "cc_softticks st = ticks st"
  shows "\<exists>st'. lazybsd_hardclock hz tt cal (inert g) st = Some (Inr st') \<and> wheel_inv st' \<and> fire_ok owned st'
    \<and> ticks st' = ticks st + 1 \<and> cc_softticks st' = ticks st + 1
    \<and> (\<forall>c. ctime st' c = ctime st c) \<and> (\<forall>c. pending st' c \<longleftrightarrow> pending st c \<and> ctime st c \<noteq> ticks st)"
proof -
  let ?s = "st\<lparr>ticks := ticks st + 1\<rparr>"
  have s: "wheel_inv ?s" "fire_ok owned ?s" using inv by (simp_all add: ticks_irrelevant)
  have l: "lag ?s = 1" using lag by (simp add: lag_def)
  obtain st' where st': "softclock (inert g) ?s = Some (Inr st')" "swept (set (due_list ?s)) ?s st'"
      "cc_softticks st' = ticks ?s" "wheel_inv st'" "fire_ok owned st'"
    using inert_softclock [OF s, of g] by blast
  have "unat (ctime st c - ticks st) = 0 \<longleftrightarrow> ctime st c = ticks st" for c
    unfolding unat_eq_zero by auto
  then have "c \<in> set (due_list ?s) \<longleftrightarrow> pending st c \<and> ctime st c = ticks st" for c
    using lag by (simp add: set_due_list [OF s(1)] l ticks_irrelevant)
  then have "pending st' c \<longleftrightarrow> pending st c \<and> ctime st c \<noteq> ticks st" for c
    using pending_swept [OF st'(2), of c] by (auto simp: ticks_irrelevant)
  moreover have "callout_tick (inert g) ?s = Some (Inr st')"
    using callout_tick_softclock [of ?s "inert g"] l st'(1) by simp
  moreover have "ctime st' c = ctime st c" for c using ctime_swept [OF st'(2), of c] by simp
  moreover have "ticks st' = ticks st + 1" using st'(2) by (simp add: swept_def)
  ultimately show ?thesis
    using st'(3,4,5) by (simp add: lazybsd_hardclock_def world_irrelevant pending_def)
qed

lemma hardclocks_inert:
  assumes "wheel_inv st" "fire_ok owned st" "cc_softticks st = ticks st" "n < 2 ^ 32"
  shows "\<exists>st'. hardclocks hz tt cal (inert g) n st = Some (Inr st') \<and> wheel_inv st' \<and> fire_ok owned st'
    \<and> ticks st' = ticks st + of_nat n \<and> cc_softticks st' = ticks st + of_nat n
    \<and> (\<forall>c. ctime st' c = ctime st c)
    \<and> (\<forall>c. pending st' c \<longleftrightarrow> pending st c \<and> n \<le> unat (ctime st c - ticks st))"
  using assms(4)
proof (induction n)
  case 0
  then show ?case using assms by simp
next
  case (Suc n)
  then obtain s where s: "hardclocks hz tt cal (inert g) n st = Some (Inr s)" "wheel_inv s" "fire_ok owned s"
      "ticks s = ticks st + of_nat n" "cc_softticks s = ticks st + of_nat n" "\<forall>c. ctime s c = ctime st c"
      "\<forall>c. pending s c \<longleftrightarrow> pending st c \<and> n \<le> unat (ctime st c - ticks st)" by auto
  have "ctime st c \<noteq> ticks st + of_nat n \<longleftrightarrow> unat (ctime st c - ticks st) \<noteq> n" for c
  proof -
    have "ctime st c = ticks st + of_nat n \<longleftrightarrow> ctime st c - ticks st = of_nat n"
      by (metis add_diff_cancel_left' add.commute diff_add_cancel)
    also have "\<dots> \<longleftrightarrow> unat (ctime st c - ticks st) = n"
      using Suc.prems by (auto simp: unat_of_nat)
    finally show ?thesis by simp
  qed
  then have "pending s c \<and> ctime s c \<noteq> ticks s
      \<longleftrightarrow> pending st c \<and> Suc n \<le> unat (ctime st c - ticks st)" for c
    using s(4,6,7) by auto
  then show ?case
    using hardclock_inert [OF s(2,3), of hz tt cal g] s(1,4,5,6) by (auto simp: algebra_simps)
qed

text \<open>With functions that leave the wheel alone, every callout runs at its own tick and stays off the wheel.\<close>

lemma inert_schedule:
  assumes inv: "wheel_inv st" "fire_ok owned st" and lag: "cc_softticks st = ticks st"
    and c: "c \<in> owned" and t: "0 < sint t" and nr: "\<not> reset_refused c {} st" and n: "n < 2 ^ 32"
  shows "\<exists>r st1 st'. callout_reset_tick_on maxcpu c t (Some f) a (-1) {} st = Inr (r, st1)
    \<and> hardclocks hz tt cal (inert g) n st1 = Some (Inr st') \<and> wheel_inv st'
    \<and> (pending st' c \<longleftrightarrow> n \<le> nat (sint t))
    \<and> (\<forall>x. x \<noteq> c \<longrightarrow> (pending st' x \<longleftrightarrow> pending st x \<and> n \<le> unat (ctime st x - ticks st)))"
proof -
  have np: "\<not> reset_panics maxcpu (-1) st" by (simp add: reset_panics_def)
  have d: "t = (if t \<le>s 0 then 1 else t)" using t by (simp add: word_sle_eq)
  obtain r st1 where st1: "callout_reset_tick_on maxcpu c t (Some f) a (-1) {} st = Inr (r, st1)"
      "pending st1 c" "ctime st1 c = ticks st + t" "\<forall>x. x \<noteq> c \<longrightarrow> callouts st1 x = callouts st x"
    using callout_reset_armed_at [OF inv(1) np nr d, of "Some f" a] by blast
  have ok: "api_ok st st1" "fire_ok owned st1"
    using reset_client_ok [OF inv c np, of t f a "{}"] st1(1) by auto
  then have inv1: "wheel_inv st1" "ticks st1 = ticks st" "cc_softticks st1 = ticks st1"
    using inv lag by (auto simp: api_ok_def same_clock_def)
  have "nat (sint t) = unat t" using unat_nonneg_i32(1) [of t] t by simp
  then show ?thesis
    using hardclocks_inert [OF inv1(1) ok(2) inv1(3) n, of hz tt cal g] st1 inv1(2)
    by (fastforce simp: pending_def)
qed

text \<open>One callout followed through \<open>n\<close> interrupts, whatever the functions of the others do to the wheel.\<close>

context callout_bystander
begin

lemma hardclocks_follow:
  assumes st: "wheel_inv st" "fire_ok owned st" "cc_softticks st = ticks st" and c: "pending st c"
    and "n \<le> unat (ctime st c - ticks st) + 1"
  shows "\<exists>st'. hardclocks hz (\<lambda>k. apfst (tt k)) (apfst cal) call n st = Some (Inr st') \<and> wheel_inv st' \<and> fire_ok owned st'
    \<and> ticks st' = ticks st + of_nat n \<and> cc_softticks st' = ticks st + of_nat n
    \<and> (if n \<le> unat (ctime st c - ticks st)
       then callouts st' c = callouts st c \<and> calls_of c (world st') = calls_of c (world st)
       else calls_of c (world st') = calls_of c (world st) @ [(the (c_func (callouts st c)), c_arg (callouts st c))])"
  using assms(5)
proof (induction n)
  case 0
  then show ?case using st by simp
next
  case (Suc n)
  then obtain s where s: "hardclocks hz (\<lambda>k. apfst (tt k)) (apfst cal) call n st = Some (Inr s)" "wheel_inv s" "fire_ok owned s"
      "ticks s = ticks st + of_nat n" "cc_softticks s = ticks st + of_nat n" "callouts s c = callouts st c"
      "calls_of c (world s) = calls_of c (world st)" by auto
  have "unat (ctime st c - ticks st) < 2 ^ 32"
    using unsigned_less [of "ctime st c - ticks st"] by simp
  then have n: "n < 2 ^ 32" using Suc.prems by simp
  have "ctime st c = ticks st + of_nat n \<longleftrightarrow> ctime st c - ticks st = of_nat n"
    by (metis add_diff_cancel_left' add.commute diff_add_cancel)
  also have "\<dots> \<longleftrightarrow> unat (ctime st c - ticks st) = n"
    using n by (auto simp: unat_of_nat)
  also have "\<dots> \<longleftrightarrow> \<not> Suc n \<le> unat (ctime st c - ticks st)"
    using Suc.prems by auto
  finally have due: "ctime s c = ticks s \<longleftrightarrow> \<not> Suc n \<le> unat (ctime st c - ticks st)" by (simp add: s(4,6))
  have ps: "pending s c" using c s(6) by (simp add: pending_def)
  then show ?case
    using hardclock_follows [OF s(2,3) _ ps, of hz tt cal] s(1,4-7) due by (auto simp: algebra_simps)
qed

end

text \<open>C3: a callout armed \<open>t\<close> ticks ahead while the wheel is up to date stays on the wheel, and its function is not called for it,
  through \<open>t\<close> clock interrupts; during interrupt \<open>t + 1\<close> its function is called for it exactly once, with the argument it was armed
  with.  The wheel is a well-formed one (\<open>wheel_inv\<close>), its callouts were initialised, those pending have a function, and their locks, where they have one, are of a class with
  all its methods (\<open>fire_ok\<close>); \<open>t\<close> is positive, and nobody is waiting for the callout to finish while it runs (\<open>reset_refused\<close>).  The functions registered on the wheel may act on the rest of the kernel and arm, stop and drain callouts as they like, as long
  as they return and do not, running for another callout, touch this one while it is pending (\<open>bystanders\<close>); its own function may do
  anything to it, re-arming included.  The calls are read off a record made at every call, of the callout it was made for, the function
  and the argument.\<close>

theorem callout_fires_on_time:
  assumes inv: "wheel_inv st" "fire_ok owned st" and lag: "cc_softticks st = ticks st"
    and c: "c \<in> owned" and t: "0 < sint t" and nr: "\<not> reset_refused c {} st"
    and others: "bystanders c owned h" and n: "n \<le> nat (sint t) + 1"
  shows "\<exists>r st1 st'. callout_reset_tick_on maxcpu c t (Some f) a (-1) {} st = Inr (r, st1)
    \<and> hardclocks hz (\<lambda>k. apfst (tt k)) (apfst cal) (recorded h) n st1 = Some (Inr st') \<and> wheel_inv st'
    \<and> (if n \<le> nat (sint t)
       then pending st' c \<and> calls_of c (world st') = calls_of c (world st)
       else calls_of c (world st') = calls_of c (world st) @ [(f, a)])"
proof -
  have np: "\<not> reset_panics maxcpu (-1) st" by (simp add: reset_panics_def)
  have d: "t = (if t \<le>s 0 then 1 else t)" using t by (simp add: word_sle_eq)
  obtain r st1 where st1: "callout_reset_tick_on maxcpu c t (Some f) a (-1) {} st = Inr (r, st1)"
      "pending st1 c" "ctime st1 c = ticks st + t" "c_func (callouts st1 c) = Some f" "c_arg (callouts st1 c) = a"
    using callout_reset_armed_at [OF inv(1) np nr d, of "Some f" a] by blast
  have same: "world st1 = world st" by (rule reset_frame(1) [OF inv(1) st1(1)])
  have ok: "api_ok st st1" "fire_ok owned st1"
    using reset_client_ok [OF inv c np, of t f a "{}"] st1(1) by auto
  then have inv1: "wheel_inv st1" "ticks st1 = ticks st" "cc_softticks st1 = ticks st1"
    using inv lag by (auto simp: api_ok_def same_clock_def)
  have ahead: "unat (ctime st1 c - ticks st1) = nat (sint t)"
    using unat_nonneg_i32(1) [of t] t st1(3) inv1(2) by simp
  then have n': "n \<le> unat (ctime st1 c - ticks st1) + 1" using n by simp
  show ?thesis
    using callout_bystander.hardclocks_follow [OF recorded_bystander [OF others] inv1(1) ok(2) inv1(3) st1(2) n', of hz tt cal]
      st1 same ahead by (fastforce simp: pending_def)
qed

text \<open>A callout armed three ticks ahead whose function re-arms it: called at the fourth interrupt, and not before.\<close>

theorem callout_fires_on_time_witness:
  "(\<exists>r st1 st'. callout_reset_tick_on 1 2 3 (Some 7) 9 (-1) {} (demo ((), [])) = Inr (r, st1)
      \<and> hardclocks 1000 (\<lambda>_. apfst id) (apfst id) (recorded (own_call (\<lambda>x f a. [Reset x 5 f a]) {2})) 3 st1 = Some (Inr st')
      \<and> calls_of 2 (world st') = [])
   \<and> (\<exists>r st1 st'. callout_reset_tick_on 1 2 3 (Some 7) 9 (-1) {} (demo ((), [])) = Inr (r, st1)
      \<and> hardclocks 1000 (\<lambda>_. apfst id) (apfst id) (recorded (own_call (\<lambda>x f a. [Reset x 5 f a]) {2})) 4 st1 = Some (Inr st')
      \<and> calls_of 2 (world st') = [(7, 9)])"
proof -
  have nr: "\<not> reset_refused 2 {} (demo ((), []))" by (simp add: reset_refused_def demo_fields)
  have others: "bystanders 2 {2} (own_call (\<lambda>x f a. [Reset x 5 f a]) {2})" by (rule own_call_bystanders) simp
  have none: "calls_of 2 (world (demo ((), []))) = []" by (simp add: demo_fields calls_of_def)
  note fires = callout_fires_on_time [OF demo_fields(7) demo_fire_ok(1) _ _ _ nr others, of 3 _ 1 7 9 1000 "\<lambda>_. id" id]
  show ?thesis using fires [of 3] fires [of 4] by (auto simp: demo_fields(2,3) none)
qed

section \<open>What the port lost\<close>

text \<open>C39: draining a callout from its own function, when it was armed with \<open>C_DIRECT_EXEC\<close>, never
  returns: the sleep between two looks at \<open>cc_curr\<close> is a no-op in this port, so the loop that
  waits for the callout to finish spins on the thread that would have to finish it.\<close>

theorem drain_running_direct_diverges:
  assumes "CALLOUT_DIRECT \<in> c_iflags (callouts st c)" "CS_DRAIN \<in> flags"
  shows "callout_stop_safe c flags drain (fired c True st) = None"
  using assms stop_drain_running [of flags "fired c True st" True c drain False False]
  by (simp add: callout_stop_safe_def Let_def fired_def callout_simps)

theorem drain_running_direct_diverges_witness:
  "callout_stop_safe 2 {CS_DRAIN} None (fired 2 True (callout_cc_add 2 3 (Some 7) 9 0 {C_DIRECT_EXEC} (demo ())))
     = None"
  by (rule drain_running_direct_diverges) (simp_all add: callout_cc_add_simps callout_armed_def)

text \<open>\<open>softclock\<close> runs every callout in the direct execution entity, while \<open>_callout_stop_safe\<close>
  looks for a callout armed without \<open>C_DIRECT_EXEC\<close> in the other one.  So stopping or draining such a
  callout from its own function reports -1, \<open>not running\<close>, and records neither a cancellation nor a
  waiter.\<close>

theorem stop_running_reports_idle:
  assumes inv: "wheel_inv st" and x: "fire_ok owned st" "pending st c"
    and nd: "CALLOUT_DIRECT \<notin> c_iflags (callouts st c)"
    and other: "cc_curr (cc_exec_entity st False) \<noteq> Some c"
  shows "let run = fired c True (taken cur c st)
         in cc_curr (cc_exec_entity run True) = Some c
          \<and> (\<exists>st'. callout_stop_safe c flags drain run = Some (Inr (-1, st'))
                \<and> cc_exec_entity st' = cc_exec_entity run)"
proof -
  let ?run = "fired c True (taken cur c st)"
  have co: "client_ok (callouts ?run c)" "\<not> pending ?run c"
    using x by (auto simp: fire_ok_def callout_simps)
  have ex: "cc_exec_entity ?run False = cc_exec_entity st False" "CALLOUT_DIRECT \<notin> c_iflags (callouts ?run c)"
    "cc_curr (cc_exec_entity ?run True) = Some c"
    using nd by (simp_all add: fired_def taken_def callout_simps LIST_REMOVE_def)
  have "callout_stop_safe c flags drain ?run = Some (Inr (-1, ?run))"
    using co ex stop_not_running [OF wheel_inv_fired [OF inv, of c True cur], of False c flags drain] other
    by (auto simp: callout_stop_safe_def Let_def client_ok_def stop_tail_eq split: option.splits)
  then show ?thesis using ex by (simp add: Let_def)
qed

theorem stop_running_reports_idle_witness:
  "\<exists>st'. callout_stop_safe 2 {CS_DRAIN} None (fired 2 True (taken 3 2 (demo_armed ()))) = Some (Inr (-1, st'))"
proof -
  have "CALLOUT_DIRECT \<notin> c_iflags (callouts (demo_armed ()) 2)"
    by (simp add: demo_armed_def callout_cc_add_simps callout_armed_def demo_fields)
  from stop_running_reports_idle [OF demo_armed_fields(1) demo_fire_ok(2) _ this, of 3 "{CS_DRAIN}" None]
  show ?thesis by (auto simp: demo_armed_fields Let_def)
qed

text \<open>\<open>_callout_init_lock\<close> takes a read-mostly lock, and its assertions, were they compiled in,
  would let it pass; but the class \<open>lock_class_rm\<close> of this port has no lock method: when such a
  callout comes due, \<open>softclock_call_cc\<close> calls through a NULL pointer.\<close>

theorem rm_lock_callout_crashes:
  assumes "lo_class l = RM"
  shows "init_lock_asserts (Some l) {} \<and> softclock_call_cc call c direct
      (callout_cc_add c t (Some f) a cpu fl (callout_init_lock c (Some l) {} st)) = null_deref"
  using assms by (simp add: init_lock_asserts_def callout_init_lock_def softclock_call_cc_def Let_def
      callout_cc_add_simps callout_simps LOCK_CLASS_def lock_class_defs)

theorem rm_lock_callout_crashes_witness:
  "softclock_call_cc (inert (\<lambda>f a w. w)) 2 True (callout_cc_add 2 3 (Some 7) 9 0 {}
     (callout_init_lock 2 (Some \<lparr>lo_addr = 1, lo_class = RM\<rparr>) {} (demo ()))) = null_deref"
  by (rule rm_lock_callout_crashes [THEN conjunct2]) simp

end
