(* ===== verification/LB_Errno.thy ===== *)
theory LB_Errno
  imports LB_Prelude
begin

text \<open>
  \<^verbatim>\<open>src/lazybsd_errno.h\<close> and \<^verbatim>\<open>src/lazybsd_errno.c\<close>: the FreeBSD error numbers the stack
  returns, and \<open>lazybsd_os_errno\<close>, which stores the host's number for one of them in the
  thread-local \<open>lazybsd_errno\<close>.  The macros of the header are abbreviations (as \<^verbatim>\<open>#define\<close> is);
  the host's \<^verbatim>\<open>errno.h\<close> is the C library of Linux on x86-64 and is given by its values.
\<close>

section \<open>FreeBSD error numbers\<close>

abbreviation (input) LAZYBSD_EPERM :: int where "LAZYBSD_EPERM \<equiv> 1"
abbreviation (input) LAZYBSD_ENOENT :: int where "LAZYBSD_ENOENT \<equiv> 2"
abbreviation (input) LAZYBSD_ESRCH :: int where "LAZYBSD_ESRCH \<equiv> 3"
abbreviation (input) LAZYBSD_EINTR :: int where "LAZYBSD_EINTR \<equiv> 4"
abbreviation (input) LAZYBSD_EIO :: int where "LAZYBSD_EIO \<equiv> 5"
abbreviation (input) LAZYBSD_ENXIO :: int where "LAZYBSD_ENXIO \<equiv> 6"
abbreviation (input) LAZYBSD_E2BIG :: int where "LAZYBSD_E2BIG \<equiv> 7"
abbreviation (input) LAZYBSD_ENOEXEC :: int where "LAZYBSD_ENOEXEC \<equiv> 8"
abbreviation (input) LAZYBSD_EBADF :: int where "LAZYBSD_EBADF \<equiv> 9"
abbreviation (input) LAZYBSD_ECHILD :: int where "LAZYBSD_ECHILD \<equiv> 10"
abbreviation (input) LAZYBSD_EDEADLK :: int where "LAZYBSD_EDEADLK \<equiv> 11"
abbreviation (input) LAZYBSD_ENOMEM :: int where "LAZYBSD_ENOMEM \<equiv> 12"
abbreviation (input) LAZYBSD_EACCES :: int where "LAZYBSD_EACCES \<equiv> 13"
abbreviation (input) LAZYBSD_EFAULT :: int where "LAZYBSD_EFAULT \<equiv> 14"
abbreviation (input) LAZYBSD_ENOTBLK :: int where "LAZYBSD_ENOTBLK \<equiv> 15"
abbreviation (input) LAZYBSD_EBUSY :: int where "LAZYBSD_EBUSY \<equiv> 16"
abbreviation (input) LAZYBSD_EEXIST :: int where "LAZYBSD_EEXIST \<equiv> 17"
abbreviation (input) LAZYBSD_EXDEV :: int where "LAZYBSD_EXDEV \<equiv> 18"
abbreviation (input) LAZYBSD_ENODEV :: int where "LAZYBSD_ENODEV \<equiv> 19"
abbreviation (input) LAZYBSD_ENOTDIR :: int where "LAZYBSD_ENOTDIR \<equiv> 20"
abbreviation (input) LAZYBSD_EISDIR :: int where "LAZYBSD_EISDIR \<equiv> 21"
abbreviation (input) LAZYBSD_EINVAL :: int where "LAZYBSD_EINVAL \<equiv> 22"
abbreviation (input) LAZYBSD_ENFILE :: int where "LAZYBSD_ENFILE \<equiv> 23"
abbreviation (input) LAZYBSD_EMFILE :: int where "LAZYBSD_EMFILE \<equiv> 24"
abbreviation (input) LAZYBSD_ENOTTY :: int where "LAZYBSD_ENOTTY \<equiv> 25"
abbreviation (input) LAZYBSD_ETXTBSY :: int where "LAZYBSD_ETXTBSY \<equiv> 26"
abbreviation (input) LAZYBSD_EFBIG :: int where "LAZYBSD_EFBIG \<equiv> 27"
abbreviation (input) LAZYBSD_ENOSPC :: int where "LAZYBSD_ENOSPC \<equiv> 28"
abbreviation (input) LAZYBSD_ESPIPE :: int where "LAZYBSD_ESPIPE \<equiv> 29"
abbreviation (input) LAZYBSD_EROFS :: int where "LAZYBSD_EROFS \<equiv> 30"
abbreviation (input) LAZYBSD_EMLINK :: int where "LAZYBSD_EMLINK \<equiv> 31"
abbreviation (input) LAZYBSD_EPIPE :: int where "LAZYBSD_EPIPE \<equiv> 32"
abbreviation (input) LAZYBSD_EDOM :: int where "LAZYBSD_EDOM \<equiv> 33"
abbreviation (input) LAZYBSD_ERANGE :: int where "LAZYBSD_ERANGE \<equiv> 34"
abbreviation (input) LAZYBSD_EAGAIN :: int where "LAZYBSD_EAGAIN \<equiv> 35"
abbreviation (input) LAZYBSD_EWOULDBLOCK :: int where "LAZYBSD_EWOULDBLOCK \<equiv> LAZYBSD_EAGAIN"
abbreviation (input) LAZYBSD_EINPROGRESS :: int where "LAZYBSD_EINPROGRESS \<equiv> 36"
abbreviation (input) LAZYBSD_EALREADY :: int where "LAZYBSD_EALREADY \<equiv> 37"
abbreviation (input) LAZYBSD_ENOTSOCK :: int where "LAZYBSD_ENOTSOCK \<equiv> 38"
abbreviation (input) LAZYBSD_EDESTADDRREQ :: int where "LAZYBSD_EDESTADDRREQ \<equiv> 39"
abbreviation (input) LAZYBSD_EMSGSIZE :: int where "LAZYBSD_EMSGSIZE \<equiv> 40"
abbreviation (input) LAZYBSD_EPROTOTYPE :: int where "LAZYBSD_EPROTOTYPE \<equiv> 41"
abbreviation (input) LAZYBSD_ENOPROTOOPT :: int where "LAZYBSD_ENOPROTOOPT \<equiv> 42"
abbreviation (input) LAZYBSD_EPROTONOSUPPORT :: int where "LAZYBSD_EPROTONOSUPPORT \<equiv> 43"
abbreviation (input) LAZYBSD_ESOCKTNOSUPPORT :: int where "LAZYBSD_ESOCKTNOSUPPORT \<equiv> 44"
abbreviation (input) LAZYBSD_EOPNOTSUPP :: int where "LAZYBSD_EOPNOTSUPP \<equiv> 45"
abbreviation (input) LAZYBSD_ENOTSUP :: int where "LAZYBSD_ENOTSUP \<equiv> LAZYBSD_EOPNOTSUPP"
abbreviation (input) LAZYBSD_EPFNOSUPPORT :: int where "LAZYBSD_EPFNOSUPPORT \<equiv> 46"
abbreviation (input) LAZYBSD_EAFNOSUPPORT :: int where "LAZYBSD_EAFNOSUPPORT \<equiv> 47"
abbreviation (input) LAZYBSD_EADDRINUSE :: int where "LAZYBSD_EADDRINUSE \<equiv> 48"
abbreviation (input) LAZYBSD_EADDRNOTAVAIL :: int where "LAZYBSD_EADDRNOTAVAIL \<equiv> 49"
abbreviation (input) LAZYBSD_ENETDOWN :: int where "LAZYBSD_ENETDOWN \<equiv> 50"
abbreviation (input) LAZYBSD_ENETUNREACH :: int where "LAZYBSD_ENETUNREACH \<equiv> 51"
abbreviation (input) LAZYBSD_ENETRESET :: int where "LAZYBSD_ENETRESET \<equiv> 52"
abbreviation (input) LAZYBSD_ECONNABORTED :: int where "LAZYBSD_ECONNABORTED \<equiv> 53"
abbreviation (input) LAZYBSD_ECONNRESET :: int where "LAZYBSD_ECONNRESET \<equiv> 54"
abbreviation (input) LAZYBSD_ENOBUFS :: int where "LAZYBSD_ENOBUFS \<equiv> 55"
abbreviation (input) LAZYBSD_EISCONN :: int where "LAZYBSD_EISCONN \<equiv> 56"
abbreviation (input) LAZYBSD_ENOTCONN :: int where "LAZYBSD_ENOTCONN \<equiv> 57"
abbreviation (input) LAZYBSD_ESHUTDOWN :: int where "LAZYBSD_ESHUTDOWN \<equiv> 58"
abbreviation (input) LAZYBSD_ETOOMANYREFS :: int where "LAZYBSD_ETOOMANYREFS \<equiv> 59"
abbreviation (input) LAZYBSD_ETIMEDOUT :: int where "LAZYBSD_ETIMEDOUT \<equiv> 60"
abbreviation (input) LAZYBSD_ECONNREFUSED :: int where "LAZYBSD_ECONNREFUSED \<equiv> 61"
abbreviation (input) LAZYBSD_ELOOP :: int where "LAZYBSD_ELOOP \<equiv> 62"
abbreviation (input) LAZYBSD_ENAMETOOLONG :: int where "LAZYBSD_ENAMETOOLONG \<equiv> 63"
abbreviation (input) LAZYBSD_EHOSTDOWN :: int where "LAZYBSD_EHOSTDOWN \<equiv> 64"
abbreviation (input) LAZYBSD_EHOSTUNREACH :: int where "LAZYBSD_EHOSTUNREACH \<equiv> 65"
abbreviation (input) LAZYBSD_ENOTEMPTY :: int where "LAZYBSD_ENOTEMPTY \<equiv> 66"
abbreviation (input) LAZYBSD_EPROCLIM :: int where "LAZYBSD_EPROCLIM \<equiv> 67"
abbreviation (input) LAZYBSD_EUSERS :: int where "LAZYBSD_EUSERS \<equiv> 68"
abbreviation (input) LAZYBSD_EDQUOT :: int where "LAZYBSD_EDQUOT \<equiv> 69"
abbreviation (input) LAZYBSD_ESTALE :: int where "LAZYBSD_ESTALE \<equiv> 70"
abbreviation (input) LAZYBSD_EREMOTE :: int where "LAZYBSD_EREMOTE \<equiv> 71"
abbreviation (input) LAZYBSD_EBADRPC :: int where "LAZYBSD_EBADRPC \<equiv> 72"
abbreviation (input) LAZYBSD_ERPCMISMATCH :: int where "LAZYBSD_ERPCMISMATCH \<equiv> 73"
abbreviation (input) LAZYBSD_EPROGUNAVAIL :: int where "LAZYBSD_EPROGUNAVAIL \<equiv> 74"
abbreviation (input) LAZYBSD_EPROGMISMATCH :: int where "LAZYBSD_EPROGMISMATCH \<equiv> 75"
abbreviation (input) LAZYBSD_EPROCUNAVAIL :: int where "LAZYBSD_EPROCUNAVAIL \<equiv> 76"
abbreviation (input) LAZYBSD_ENOLCK :: int where "LAZYBSD_ENOLCK \<equiv> 77"
abbreviation (input) LAZYBSD_ENOSYS :: int where "LAZYBSD_ENOSYS \<equiv> 78"
abbreviation (input) LAZYBSD_EFTYPE :: int where "LAZYBSD_EFTYPE \<equiv> 79"
abbreviation (input) LAZYBSD_EAUTH :: int where "LAZYBSD_EAUTH \<equiv> 80"
abbreviation (input) LAZYBSD_ENEEDAUTH :: int where "LAZYBSD_ENEEDAUTH \<equiv> 81"
abbreviation (input) LAZYBSD_EIDRM :: int where "LAZYBSD_EIDRM \<equiv> 82"
abbreviation (input) LAZYBSD_ENOMSG :: int where "LAZYBSD_ENOMSG \<equiv> 83"
abbreviation (input) LAZYBSD_EOVERFLOW :: int where "LAZYBSD_EOVERFLOW \<equiv> 84"
abbreviation (input) LAZYBSD_ECANCELED :: int where "LAZYBSD_ECANCELED \<equiv> 85"
abbreviation (input) LAZYBSD_EILSEQ :: int where "LAZYBSD_EILSEQ \<equiv> 86"
abbreviation (input) LAZYBSD_ENOATTR :: int where "LAZYBSD_ENOATTR \<equiv> 87"
abbreviation (input) LAZYBSD_EDOOFUS :: int where "LAZYBSD_EDOOFUS \<equiv> 88"
abbreviation (input) LAZYBSD_EBADMSG :: int where "LAZYBSD_EBADMSG \<equiv> 89"
abbreviation (input) LAZYBSD_EMULTIHOP :: int where "LAZYBSD_EMULTIHOP \<equiv> 90"
abbreviation (input) LAZYBSD_ENOLINK :: int where "LAZYBSD_ENOLINK \<equiv> 91"
abbreviation (input) LAZYBSD_EPROTO :: int where "LAZYBSD_EPROTO \<equiv> 92"
abbreviation (input) LAZYBSD_ENOTCAPABLE :: int where "LAZYBSD_ENOTCAPABLE \<equiv> 93"
abbreviation (input) LAZYBSD_ECAPMODE :: int where "LAZYBSD_ECAPMODE \<equiv> 94"
abbreviation (input) LAZYBSD_ENOTRECOVERABLE :: int where "LAZYBSD_ENOTRECOVERABLE \<equiv> 95"
abbreviation (input) LAZYBSD_EOWNERDEAD :: int where "LAZYBSD_EOWNERDEAD \<equiv> 96"

section \<open>Error numbers of the host C library\<close>

abbreviation (input) EPERM :: int where "EPERM \<equiv> 1"
abbreviation (input) ENOENT :: int where "ENOENT \<equiv> 2"
abbreviation (input) ESRCH :: int where "ESRCH \<equiv> 3"
abbreviation (input) EINTR :: int where "EINTR \<equiv> 4"
abbreviation (input) EIO :: int where "EIO \<equiv> 5"
abbreviation (input) ENXIO :: int where "ENXIO \<equiv> 6"
abbreviation (input) E2BIG :: int where "E2BIG \<equiv> 7"
abbreviation (input) ENOEXEC :: int where "ENOEXEC \<equiv> 8"
abbreviation (input) EBADF :: int where "EBADF \<equiv> 9"
abbreviation (input) ECHILD :: int where "ECHILD \<equiv> 10"
abbreviation (input) EDEADLK :: int where "EDEADLK \<equiv> 35"
abbreviation (input) ENOMEM :: int where "ENOMEM \<equiv> 12"
abbreviation (input) EACCES :: int where "EACCES \<equiv> 13"
abbreviation (input) EFAULT :: int where "EFAULT \<equiv> 14"
abbreviation (input) ENOTBLK :: int where "ENOTBLK \<equiv> 15"
abbreviation (input) EBUSY :: int where "EBUSY \<equiv> 16"
abbreviation (input) EEXIST :: int where "EEXIST \<equiv> 17"
abbreviation (input) EXDEV :: int where "EXDEV \<equiv> 18"
abbreviation (input) ENODEV :: int where "ENODEV \<equiv> 19"
abbreviation (input) ENOTDIR :: int where "ENOTDIR \<equiv> 20"
abbreviation (input) EISDIR :: int where "EISDIR \<equiv> 21"
abbreviation (input) EINVAL :: int where "EINVAL \<equiv> 22"
abbreviation (input) ENFILE :: int where "ENFILE \<equiv> 23"
abbreviation (input) EMFILE :: int where "EMFILE \<equiv> 24"
abbreviation (input) ENOTTY :: int where "ENOTTY \<equiv> 25"
abbreviation (input) ETXTBSY :: int where "ETXTBSY \<equiv> 26"
abbreviation (input) EFBIG :: int where "EFBIG \<equiv> 27"
abbreviation (input) ENOSPC :: int where "ENOSPC \<equiv> 28"
abbreviation (input) ESPIPE :: int where "ESPIPE \<equiv> 29"
abbreviation (input) EROFS :: int where "EROFS \<equiv> 30"
abbreviation (input) EMLINK :: int where "EMLINK \<equiv> 31"
abbreviation (input) EPIPE :: int where "EPIPE \<equiv> 32"
abbreviation (input) EDOM :: int where "EDOM \<equiv> 33"
abbreviation (input) ERANGE :: int where "ERANGE \<equiv> 34"
abbreviation (input) EWOULDBLOCK :: int where "EWOULDBLOCK \<equiv> 11"
abbreviation (input) EINPROGRESS :: int where "EINPROGRESS \<equiv> 115"
abbreviation (input) EALREADY :: int where "EALREADY \<equiv> 114"
abbreviation (input) ENOTSOCK :: int where "ENOTSOCK \<equiv> 88"
abbreviation (input) EDESTADDRREQ :: int where "EDESTADDRREQ \<equiv> 89"
abbreviation (input) EMSGSIZE :: int where "EMSGSIZE \<equiv> 90"
abbreviation (input) EPROTOTYPE :: int where "EPROTOTYPE \<equiv> 91"
abbreviation (input) ENOPROTOOPT :: int where "ENOPROTOOPT \<equiv> 92"
abbreviation (input) EPROTONOSUPPORT :: int where "EPROTONOSUPPORT \<equiv> 93"
abbreviation (input) ESOCKTNOSUPPORT :: int where "ESOCKTNOSUPPORT \<equiv> 94"
abbreviation (input) ENOTSUP :: int where "ENOTSUP \<equiv> 95"
abbreviation (input) EPFNOSUPPORT :: int where "EPFNOSUPPORT \<equiv> 96"
abbreviation (input) EAFNOSUPPORT :: int where "EAFNOSUPPORT \<equiv> 97"
abbreviation (input) EADDRINUSE :: int where "EADDRINUSE \<equiv> 98"
abbreviation (input) EADDRNOTAVAIL :: int where "EADDRNOTAVAIL \<equiv> 99"
abbreviation (input) ENETDOWN :: int where "ENETDOWN \<equiv> 100"
abbreviation (input) ENETUNREACH :: int where "ENETUNREACH \<equiv> 101"
abbreviation (input) ENETRESET :: int where "ENETRESET \<equiv> 102"
abbreviation (input) ECONNABORTED :: int where "ECONNABORTED \<equiv> 103"
abbreviation (input) ECONNRESET :: int where "ECONNRESET \<equiv> 104"
abbreviation (input) ENOBUFS :: int where "ENOBUFS \<equiv> 105"
abbreviation (input) EISCONN :: int where "EISCONN \<equiv> 106"
abbreviation (input) ENOTCONN :: int where "ENOTCONN \<equiv> 107"
abbreviation (input) ESHUTDOWN :: int where "ESHUTDOWN \<equiv> 108"
abbreviation (input) ETOOMANYREFS :: int where "ETOOMANYREFS \<equiv> 109"
abbreviation (input) ETIMEDOUT :: int where "ETIMEDOUT \<equiv> 110"
abbreviation (input) ECONNREFUSED :: int where "ECONNREFUSED \<equiv> 111"
abbreviation (input) ELOOP :: int where "ELOOP \<equiv> 40"
abbreviation (input) ENAMETOOLONG :: int where "ENAMETOOLONG \<equiv> 36"
abbreviation (input) EHOSTDOWN :: int where "EHOSTDOWN \<equiv> 112"
abbreviation (input) EHOSTUNREACH :: int where "EHOSTUNREACH \<equiv> 113"
abbreviation (input) ENOTEMPTY :: int where "ENOTEMPTY \<equiv> 39"
abbreviation (input) EUSERS :: int where "EUSERS \<equiv> 87"
abbreviation (input) EDQUOT :: int where "EDQUOT \<equiv> 122"
abbreviation (input) ESTALE :: int where "ESTALE \<equiv> 116"
abbreviation (input) EREMOTE :: int where "EREMOTE \<equiv> 66"
abbreviation (input) ENOLCK :: int where "ENOLCK \<equiv> 37"
abbreviation (input) ENOSYS :: int where "ENOSYS \<equiv> 38"
abbreviation (input) EIDRM :: int where "EIDRM \<equiv> 43"
abbreviation (input) ENOMSG :: int where "ENOMSG \<equiv> 42"
abbreviation (input) EOVERFLOW :: int where "EOVERFLOW \<equiv> 75"
abbreviation (input) ECANCELED :: int where "ECANCELED \<equiv> 125"
abbreviation (input) EILSEQ :: int where "EILSEQ \<equiv> 84"
abbreviation (input) EBADMSG :: int where "EBADMSG \<equiv> 74"
abbreviation (input) EMULTIHOP :: int where "EMULTIHOP \<equiv> 72"
abbreviation (input) ENOLINK :: int where "ENOLINK \<equiv> 67"
abbreviation (input) EPROTO :: int where "EPROTO \<equiv> 71"

section \<open>The translation\<close>

text \<open>The labels and assignments of the \<open>switch\<close>, in source order.\<close>

definition os_errno_cases :: "(int \<times> int) list" where
  "os_errno_cases =
    [(LAZYBSD_EPERM, EPERM),
     (LAZYBSD_ENOENT, ENOENT),
     (LAZYBSD_ESRCH, ESRCH),
     (LAZYBSD_EINTR, EINTR),
     (LAZYBSD_EIO, EIO),
     (LAZYBSD_ENXIO, ENXIO),
     (LAZYBSD_E2BIG, E2BIG),
     (LAZYBSD_ENOEXEC, ENOEXEC),
     (LAZYBSD_EBADF, EBADF),
     (LAZYBSD_ECHILD, ECHILD),
     (LAZYBSD_EDEADLK, EDEADLK),
     (LAZYBSD_ENOMEM, ENOMEM),
     (LAZYBSD_EACCES, EACCES),
     (LAZYBSD_EFAULT, EFAULT),
     (LAZYBSD_ENOTBLK, ENOTBLK),
     (LAZYBSD_EBUSY, EBUSY),
     (LAZYBSD_EEXIST, EEXIST),
     (LAZYBSD_EXDEV, EXDEV),
     (LAZYBSD_ENODEV, ENODEV),
     (LAZYBSD_ENOTDIR, ENOTDIR),
     (LAZYBSD_EISDIR, EISDIR),
     (LAZYBSD_EINVAL, EINVAL),
     (LAZYBSD_ENFILE, ENFILE),
     (LAZYBSD_EMFILE, EMFILE),
     (LAZYBSD_ENOTTY, ENOTTY),
     (LAZYBSD_ETXTBSY, ETXTBSY),
     (LAZYBSD_EFBIG, EFBIG),
     (LAZYBSD_ENOSPC, ENOSPC),
     (LAZYBSD_ESPIPE, ESPIPE),
     (LAZYBSD_EROFS, EROFS),
     (LAZYBSD_EMLINK, EMLINK),
     (LAZYBSD_EPIPE, EPIPE),
     (LAZYBSD_EDOM, EDOM),
     (LAZYBSD_ERANGE, ERANGE),
     (LAZYBSD_EWOULDBLOCK, EWOULDBLOCK),
     (LAZYBSD_EINPROGRESS, EINPROGRESS),
     (LAZYBSD_EALREADY, EALREADY),
     (LAZYBSD_ENOTSOCK, ENOTSOCK),
     (LAZYBSD_EDESTADDRREQ, EDESTADDRREQ),
     (LAZYBSD_EMSGSIZE, EMSGSIZE),
     (LAZYBSD_EPROTOTYPE, EPROTOTYPE),
     (LAZYBSD_ENOPROTOOPT, ENOPROTOOPT),
     (LAZYBSD_EPROTONOSUPPORT, EPROTONOSUPPORT),
     (LAZYBSD_ESOCKTNOSUPPORT, ESOCKTNOSUPPORT),
     (LAZYBSD_ENOTSUP, ENOTSUP),
     (LAZYBSD_EPFNOSUPPORT, EPFNOSUPPORT),
     (LAZYBSD_EAFNOSUPPORT, EAFNOSUPPORT),
     (LAZYBSD_EADDRINUSE, EADDRINUSE),
     (LAZYBSD_EADDRNOTAVAIL, EADDRNOTAVAIL),
     (LAZYBSD_ENETDOWN, ENETDOWN),
     (LAZYBSD_ENETUNREACH, ENETUNREACH),
     (LAZYBSD_ENETRESET, ENETRESET),
     (LAZYBSD_ECONNABORTED, ECONNABORTED),
     (LAZYBSD_ECONNRESET, ECONNRESET),
     (LAZYBSD_ENOBUFS, ENOBUFS),
     (LAZYBSD_EISCONN, EISCONN),
     (LAZYBSD_ENOTCONN, ENOTCONN),
     (LAZYBSD_ESHUTDOWN, ESHUTDOWN),
     (LAZYBSD_ETOOMANYREFS, ETOOMANYREFS),
     (LAZYBSD_ETIMEDOUT, ETIMEDOUT),
     (LAZYBSD_ECONNREFUSED, ECONNREFUSED),
     (LAZYBSD_ELOOP, ELOOP),
     (LAZYBSD_ENAMETOOLONG, ENAMETOOLONG),
     (LAZYBSD_EHOSTDOWN, EHOSTDOWN),
     (LAZYBSD_EHOSTUNREACH, EHOSTUNREACH),
     (LAZYBSD_ENOTEMPTY, ENOTEMPTY),
     (LAZYBSD_EUSERS, EUSERS),
     (LAZYBSD_EDQUOT, EDQUOT),
     (LAZYBSD_ESTALE, ESTALE),
     (LAZYBSD_EREMOTE, EREMOTE),
     (LAZYBSD_ENOLCK, ENOLCK),
     (LAZYBSD_ENOSYS, ENOSYS),
     (LAZYBSD_EIDRM, EIDRM),
     (LAZYBSD_ENOMSG, ENOMSG),
     (LAZYBSD_EOVERFLOW, EOVERFLOW),
     (LAZYBSD_ECANCELED, ECANCELED),
     (LAZYBSD_EILSEQ, EILSEQ),
     (LAZYBSD_EBADMSG, EBADMSG),
     (LAZYBSD_EMULTIHOP, EMULTIHOP),
     (LAZYBSD_ENOLINK, ENOLINK),
     (LAZYBSD_EPROTO, EPROTO)]"

definition os_errno :: "int \<Rightarrow> int" where
  "os_errno error = c_switch error os_errno_cases error"

text \<open>The thread-local cell and the store of \<open>lazybsd_os_errno\<close>.\<close>

record errno_tls =
  lazybsd_errno :: int

definition lazybsd_os_errno :: "int \<Rightarrow> 'a errno_tls_scheme \<Rightarrow> 'a errno_tls_scheme" where
  "lazybsd_os_errno error s = s\<lparr>lazybsd_errno := os_errno error\<rparr>"

lemma lazybsd_errno_os_errno [simp]:
  "lazybsd_errno (lazybsd_os_errno e s) = os_errno e"
  by (simp add: lazybsd_os_errno_def)

lemma os_errno_cases_distinct:
  "distinct (map fst os_errno_cases)" "distinct (map snd os_errno_cases)"
  by (simp_all add: os_errno_cases_def)

lemma os_errno_default: "e \<notin> fst ` set os_errno_cases \<Longrightarrow> os_errno e = e"
  by (simp add: os_errno_def c_switch_default)

lemma os_errno_label: "e \<in> fst ` set os_errno_cases \<Longrightarrow> os_errno e \<in> snd ` set os_errno_cases"
  by (simp add: os_errno_def c_switch_label)

lemma os_errno_cases_pos: "v \<in> snd ` set os_errno_cases \<Longrightarrow> 0 < v"
  by (auto simp: os_errno_cases_def)

lemma os_errno_zero_iff [simp]: "os_errno e = 0 \<longleftrightarrow> e = 0"
proof (cases "e \<in> fst ` set os_errno_cases")
  case True
  moreover have "e \<noteq> 0" using True by (auto simp: os_errno_cases_def)
  ultimately show ?thesis using os_errno_cases_pos [OF os_errno_label [OF True]] by simp
next
  case False
  then show ?thesis by (simp add: os_errno_default)
qed

section \<open>Properties\<close>

text \<open>Among the errors \<open>lazybsd_os_errno\<close> translates no two are conflated, and none becomes 0.\<close>

theorem os_errno_injective:
  assumes "x \<in> fst ` set os_errno_cases" "y \<in> fst ` set os_errno_cases" "os_errno x = os_errno y"
  shows "x = y \<and> 0 < os_errno x"
proof -
  have "c_switch x os_errno_cases 0 = c_switch y os_errno_cases 0"
    using assms(3) c_switch_any_default [OF assms(1)] c_switch_any_default [OF assms(2)]
    unfolding os_errno_def by metis
  then have "x = y" by (rule c_switch_inj [OF os_errno_cases_distinct(2) assms(1,2)])
  then show ?thesis using os_errno_cases_pos [OF os_errno_label [OF assms(1)]] by simp
qed

theorem os_errno_injective_witness: "os_errno LAZYBSD_EAGAIN \<noteq> os_errno LAZYBSD_EDEADLK"
proof
  assume "os_errno LAZYBSD_EAGAIN = os_errno LAZYBSD_EDEADLK"
  then have "LAZYBSD_EAGAIN = LAZYBSD_EDEADLK"
    using os_errno_injective [of LAZYBSD_EAGAIN LAZYBSD_EDEADLK] by (simp add: os_errno_cases_def)
  then show False by simp
qed

text \<open>An error the table does not have is stored as it is, and can then be mistaken for the host's
  number of another: \<open>LAZYBSD_EPROCLIM\<close> is stored as the host's \<open>ENOLINK\<close>.\<close>

theorem os_errno_untranslated_alias:
  "os_errno LAZYBSD_EPROCLIM = ENOLINK \<and> os_errno LAZYBSD_ENOLINK = ENOLINK
   \<and> LAZYBSD_EPROCLIM \<notin> fst ` set os_errno_cases"
  by (simp add: os_errno_def os_errno_cases_def)

end
