(* ===== verification/LB_Sockopt.thy ===== *)
theory LB_Sockopt
  imports LB_Errno
begin

text \<open>
  The option and request tables of \<^verbatim>\<open>bsd/lib/lazybsd_socket.c\<close>: the Linux numbers an application
  uses, and the functions that turn them into FreeBSD's.  The FreeBSD numbers come from the
  FreeBSD headers, which are not part of the repository: the parameter \<open>H\<close> gives
  the value of each by its name.
\<close>

section \<open>The Linux numbers\<close>

abbreviation (input) LINUX_SOL_SOCKET :: int where "LINUX_SOL_SOCKET \<equiv> 1"
abbreviation (input) LINUX_SO_DEBUG :: int where "LINUX_SO_DEBUG \<equiv> 1"
abbreviation (input) LINUX_SO_REUSEADDR :: int where "LINUX_SO_REUSEADDR \<equiv> 2"
abbreviation (input) LINUX_SO_ERROR :: int where "LINUX_SO_ERROR \<equiv> 4"
abbreviation (input) LINUX_SO_DONTROUTE :: int where "LINUX_SO_DONTROUTE \<equiv> 5"
abbreviation (input) LINUX_SO_BROADCAST :: int where "LINUX_SO_BROADCAST \<equiv> 6"
abbreviation (input) LINUX_SO_SNDBUF :: int where "LINUX_SO_SNDBUF \<equiv> 7"
abbreviation (input) LINUX_SO_RCVBUF :: int where "LINUX_SO_RCVBUF \<equiv> 8"
abbreviation (input) LINUX_SO_KEEPALIVE :: int where "LINUX_SO_KEEPALIVE \<equiv> 9"
abbreviation (input) LINUX_SO_OOBINLINE :: int where "LINUX_SO_OOBINLINE \<equiv> 10"
abbreviation (input) LINUX_SO_LINGER :: int where "LINUX_SO_LINGER \<equiv> 13"
abbreviation (input) LINUX_SO_REUSEPORT :: int where "LINUX_SO_REUSEPORT \<equiv> 15"
abbreviation (input) LINUX_SO_RCVLOWAT :: int where "LINUX_SO_RCVLOWAT \<equiv> 18"
abbreviation (input) LINUX_SO_SNDLOWAT :: int where "LINUX_SO_SNDLOWAT \<equiv> 19"
abbreviation (input) LINUX_SO_RCVTIMEO :: int where "LINUX_SO_RCVTIMEO \<equiv> 20"
abbreviation (input) LINUX_SO_SNDTIMEO :: int where "LINUX_SO_SNDTIMEO \<equiv> 21"
abbreviation (input) LINUX_SO_ACCEPTCONN :: int where "LINUX_SO_ACCEPTCONN \<equiv> 30"
abbreviation (input) LINUX_SO_PROTOCOL :: int where "LINUX_SO_PROTOCOL \<equiv> 38"
abbreviation (input) LINUX_IP_TOS :: int where "LINUX_IP_TOS \<equiv> 1"
abbreviation (input) LINUX_IP_TTL :: int where "LINUX_IP_TTL \<equiv> 2"
abbreviation (input) LINUX_IP_HDRINCL :: int where "LINUX_IP_HDRINCL \<equiv> 3"
abbreviation (input) LINUX_IP_OPTIONS :: int where "LINUX_IP_OPTIONS \<equiv> 4"
abbreviation (input) LINUX_IP_RECVTTL :: int where "LINUX_IP_RECVTTL \<equiv> 12"
abbreviation (input) LINUX_IP_RECVTOS :: int where "LINUX_IP_RECVTOS \<equiv> 13"
abbreviation (input) LINUX_IP_TRANSPARENT :: int where "LINUX_IP_TRANSPARENT \<equiv> 19"
abbreviation (input) LINUX_IP_MINTTL :: int where "LINUX_IP_MINTTL \<equiv> 21"
abbreviation (input) LINUX_IP_MULTICAST_IF :: int where "LINUX_IP_MULTICAST_IF \<equiv> 32"
abbreviation (input) LINUX_IP_MULTICAST_TTL :: int where "LINUX_IP_MULTICAST_TTL \<equiv> 33"
abbreviation (input) LINUX_IP_MULTICAST_LOOP :: int where "LINUX_IP_MULTICAST_LOOP \<equiv> 34"
abbreviation (input) LINUX_IP_ADD_MEMBERSHIP :: int where "LINUX_IP_ADD_MEMBERSHIP \<equiv> 35"
abbreviation (input) LINUX_IP_DROP_MEMBERSHIP :: int where "LINUX_IP_DROP_MEMBERSHIP \<equiv> 36"
abbreviation (input) LINUX_IPV6_V6ONLY :: int where "LINUX_IPV6_V6ONLY \<equiv> 26"
abbreviation (input) LINUX_IPV6_RECVPKTINFO :: int where "LINUX_IPV6_RECVPKTINFO \<equiv> 49"
abbreviation (input) LINUX_IPV6_TRANSPARENT :: int where "LINUX_IPV6_TRANSPARENT \<equiv> 75"
abbreviation (input) LINUX_TCP_NODELAY :: int where "LINUX_TCP_NODELAY \<equiv> 1"
abbreviation (input) LINUX_TCP_MAXSEG :: int where "LINUX_TCP_MAXSEG \<equiv> 2"
abbreviation (input) LINUX_TCP_KEEPIDLE :: int where "LINUX_TCP_KEEPIDLE \<equiv> 4"
abbreviation (input) LINUX_TCP_KEEPINTVL :: int where "LINUX_TCP_KEEPINTVL \<equiv> 5"
abbreviation (input) LINUX_TCP_KEEPCNT :: int where "LINUX_TCP_KEEPCNT \<equiv> 6"
abbreviation (input) LINUX_TCP_INFO :: int where "LINUX_TCP_INFO \<equiv> 11"
abbreviation (input) LINUX_TCP_MD5SIG :: int where "LINUX_TCP_MD5SIG \<equiv> 14"
abbreviation (input) LINUX_TIOCEXCL :: int where "LINUX_TIOCEXCL \<equiv> 0x540C"
abbreviation (input) LINUX_TIOCNXCL :: int where "LINUX_TIOCNXCL \<equiv> 0x540D"
abbreviation (input) LINUX_TIOCSCTTY :: int where "LINUX_TIOCSCTTY \<equiv> 0x540E"
abbreviation (input) LINUX_TIOCGPGRP :: int where "LINUX_TIOCGPGRP \<equiv> 0x540F"
abbreviation (input) LINUX_TIOCSPGRP :: int where "LINUX_TIOCSPGRP \<equiv> 0x5410"
abbreviation (input) LINUX_TIOCOUTQ :: int where "LINUX_TIOCOUTQ \<equiv> 0x5411"
abbreviation (input) LINUX_TIOCSTI :: int where "LINUX_TIOCSTI \<equiv> 0x5412"
abbreviation (input) LINUX_TIOCGWINSZ :: int where "LINUX_TIOCGWINSZ \<equiv> 0x5413"
abbreviation (input) LINUX_TIOCSWINSZ :: int where "LINUX_TIOCSWINSZ \<equiv> 0x5414"
abbreviation (input) LINUX_TIOCMGET :: int where "LINUX_TIOCMGET \<equiv> 0x5415"
abbreviation (input) LINUX_TIOCMBIS :: int where "LINUX_TIOCMBIS \<equiv> 0x5416"
abbreviation (input) LINUX_TIOCMBIC :: int where "LINUX_TIOCMBIC \<equiv> 0x5417"
abbreviation (input) LINUX_TIOCMSET :: int where "LINUX_TIOCMSET \<equiv> 0x5418"
abbreviation (input) LINUX_FIONREAD :: int where "LINUX_FIONREAD \<equiv> 0x541B"
abbreviation (input) LINUX_TIOCCONS :: int where "LINUX_TIOCCONS \<equiv> 0x541D"
abbreviation (input) LINUX_TIOCPKT :: int where "LINUX_TIOCPKT \<equiv> 0x5420"
abbreviation (input) LINUX_FIONBIO :: int where "LINUX_FIONBIO \<equiv> 0x5421"
abbreviation (input) LINUX_TIOCNOTTY :: int where "LINUX_TIOCNOTTY \<equiv> 0x5422"
abbreviation (input) LINUX_TIOCSETD :: int where "LINUX_TIOCSETD \<equiv> 0x5423"
abbreviation (input) LINUX_TIOCGETD :: int where "LINUX_TIOCGETD \<equiv> 0x5424"
abbreviation (input) LINUX_TIOCSBRK :: int where "LINUX_TIOCSBRK \<equiv> 0x5427"
abbreviation (input) LINUX_TIOCCBRK :: int where "LINUX_TIOCCBRK \<equiv> 0x5428"
abbreviation (input) LINUX_TIOCGSID :: int where "LINUX_TIOCGSID \<equiv> 0x5429"
abbreviation (input) LINUX_FIONCLEX :: int where "LINUX_FIONCLEX \<equiv> 0x5450"
abbreviation (input) LINUX_FIOCLEX :: int where "LINUX_FIOCLEX \<equiv> 0x5451"
abbreviation (input) LINUX_FIOASYNC :: int where "LINUX_FIOASYNC \<equiv> 0x5452"
abbreviation (input) LINUX_TIOCPKT_DATA :: int where "LINUX_TIOCPKT_DATA \<equiv> 0"
abbreviation (input) LINUX_TIOCPKT_FLUSHREAD :: int where "LINUX_TIOCPKT_FLUSHREAD \<equiv> 1"
abbreviation (input) LINUX_TIOCPKT_FLUSHWRITE :: int where "LINUX_TIOCPKT_FLUSHWRITE \<equiv> 2"
abbreviation (input) LINUX_TIOCPKT_STOP :: int where "LINUX_TIOCPKT_STOP \<equiv> 4"
abbreviation (input) LINUX_TIOCPKT_START :: int where "LINUX_TIOCPKT_START \<equiv> 8"
abbreviation (input) LINUX_TIOCPKT_NOSTOP :: int where "LINUX_TIOCPKT_NOSTOP \<equiv> 16"
abbreviation (input) LINUX_TIOCPKT_DOSTOP :: int where "LINUX_TIOCPKT_DOSTOP \<equiv> 32"
abbreviation (input) LINUX_TIOCPKT_IOCTL :: int where "LINUX_TIOCPKT_IOCTL \<equiv> 64"
abbreviation (input) LINUX_SIOCGIFCONF :: int where "LINUX_SIOCGIFCONF \<equiv> 0x8912"
abbreviation (input) LINUX_SIOCGIFFLAGS :: int where "LINUX_SIOCGIFFLAGS \<equiv> 0x8913"
abbreviation (input) LINUX_SIOCSIFFLAGS :: int where "LINUX_SIOCSIFFLAGS \<equiv> 0x8914"
abbreviation (input) LINUX_SIOCGIFADDR :: int where "LINUX_SIOCGIFADDR \<equiv> 0x8915"
abbreviation (input) LINUX_SIOCSIFADDR :: int where "LINUX_SIOCSIFADDR \<equiv> 0x8916"
abbreviation (input) LINUX_SIOCGIFDSTADDR :: int where "LINUX_SIOCGIFDSTADDR \<equiv> 0x8917"
abbreviation (input) LINUX_SIOCSIFDSTADDR :: int where "LINUX_SIOCSIFDSTADDR \<equiv> 0x8918"
abbreviation (input) LINUX_SIOCGIFBRDADDR :: int where "LINUX_SIOCGIFBRDADDR \<equiv> 0x8919"
abbreviation (input) LINUX_SIOCSIFBRDADDR :: int where "LINUX_SIOCSIFBRDADDR \<equiv> 0x891a"
abbreviation (input) LINUX_SIOCGIFNETMASK :: int where "LINUX_SIOCGIFNETMASK \<equiv> 0x891b"
abbreviation (input) LINUX_SIOCSIFNETMASK :: int where "LINUX_SIOCSIFNETMASK \<equiv> 0x891c"
abbreviation (input) LINUX_SIOCGIFMETRIC :: int where "LINUX_SIOCGIFMETRIC \<equiv> 0x891d"
abbreviation (input) LINUX_SIOCSIFMETRIC :: int where "LINUX_SIOCSIFMETRIC \<equiv> 0x891e"
abbreviation (input) LINUX_SIOCGIFMTU :: int where "LINUX_SIOCGIFMTU \<equiv> 0x8921"
abbreviation (input) LINUX_SIOCSIFMTU :: int where "LINUX_SIOCSIFMTU \<equiv> 0x8922"
abbreviation (input) LINUX_SIOCSIFNAME :: int where "LINUX_SIOCSIFNAME \<equiv> 0x8923"
abbreviation (input) LINUX_SIOCADDMULTI :: int where "LINUX_SIOCADDMULTI \<equiv> 0x8931"
abbreviation (input) LINUX_SIOCDELMULTI :: int where "LINUX_SIOCDELMULTI \<equiv> 0x8932"
abbreviation (input) LINUX_SIOCGIFINDEX :: int where "LINUX_SIOCGIFINDEX \<equiv> 0x8933"
abbreviation (input) LINUX_SIOCDIFADDR :: int where "LINUX_SIOCDIFADDR \<equiv> 0x8936"
type_synonym fbsd_headers = "string \<Rightarrow> int"

section \<open>The tables\<close>

definition linux2freebsd_ioctl_cases :: "(int \<times> string) list" where
  "linux2freebsd_ioctl_cases =
     [(LINUX_TIOCEXCL, ''TIOCEXCL''),
      (LINUX_TIOCNXCL, ''TIOCNXCL''),
      (LINUX_TIOCSCTTY, ''TIOCSCTTY''),
      (LINUX_TIOCGPGRP, ''TIOCGPGRP''),
      (LINUX_TIOCSPGRP, ''TIOCSPGRP''),
      (LINUX_TIOCOUTQ, ''TIOCOUTQ''),
      (LINUX_TIOCSTI, ''TIOCSTI''),
      (LINUX_TIOCGWINSZ, ''TIOCGWINSZ''),
      (LINUX_TIOCSWINSZ, ''TIOCSWINSZ''),
      (LINUX_TIOCMGET, ''TIOCMGET''),
      (LINUX_TIOCMBIS, ''TIOCMBIS''),
      (LINUX_TIOCMBIC, ''TIOCMBIC''),
      (LINUX_TIOCMSET, ''TIOCMSET''),
      (LINUX_FIONREAD, ''FIONREAD''),
      (LINUX_TIOCCONS, ''TIOCCONS''),
      (LINUX_TIOCPKT, ''TIOCPKT''),
      (LINUX_FIONBIO, ''FIONBIO''),
      (LINUX_TIOCNOTTY, ''TIOCNOTTY''),
      (LINUX_TIOCSETD, ''TIOCSETD''),
      (LINUX_TIOCGETD, ''TIOCGETD''),
      (LINUX_TIOCSBRK, ''TIOCSBRK''),
      (LINUX_TIOCCBRK, ''TIOCCBRK''),
      (LINUX_TIOCGSID, ''TIOCGSID''),
      (LINUX_FIONCLEX, ''FIONCLEX''),
      (LINUX_FIOCLEX, ''FIOCLEX''),
      (LINUX_FIOASYNC, ''FIOASYNC''),
      (LINUX_TIOCPKT_DATA, ''TIOCPKT_DATA''),
      (LINUX_TIOCPKT_FLUSHREAD, ''TIOCPKT_FLUSHREAD''),
      (LINUX_TIOCPKT_FLUSHWRITE, ''TIOCPKT_FLUSHWRITE''),
      (LINUX_TIOCPKT_STOP, ''TIOCPKT_STOP''),
      (LINUX_TIOCPKT_START, ''TIOCPKT_START''),
      (LINUX_TIOCPKT_NOSTOP, ''TIOCPKT_NOSTOP''),
      (LINUX_TIOCPKT_DOSTOP, ''TIOCPKT_DOSTOP''),
      (LINUX_TIOCPKT_IOCTL, ''TIOCPKT_IOCTL''),
      (LINUX_SIOCGIFCONF, ''SIOCGIFCONF''),
      (LINUX_SIOCGIFFLAGS, ''SIOCGIFFLAGS''),
      (LINUX_SIOCSIFFLAGS, ''SIOCSIFFLAGS''),
      (LINUX_SIOCGIFADDR, ''SIOCGIFADDR''),
      (LINUX_SIOCSIFADDR, ''SIOCSIFADDR''),
      (LINUX_SIOCGIFDSTADDR, ''SIOCGIFDSTADDR''),
      (LINUX_SIOCSIFDSTADDR, ''SIOCSIFDSTADDR''),
      (LINUX_SIOCGIFBRDADDR, ''SIOCGIFBRDADDR''),
      (LINUX_SIOCSIFBRDADDR, ''SIOCSIFBRDADDR''),
      (LINUX_SIOCGIFNETMASK, ''SIOCGIFNETMASK''),
      (LINUX_SIOCSIFNETMASK, ''SIOCSIFNETMASK''),
      (LINUX_SIOCGIFMETRIC, ''SIOCGIFMETRIC''),
      (LINUX_SIOCSIFMETRIC, ''SIOCSIFMETRIC''),
      (LINUX_SIOCGIFMTU, ''SIOCGIFMTU''),
      (LINUX_SIOCSIFMTU, ''SIOCSIFMTU''),
      (LINUX_SIOCSIFNAME, ''SIOCSIFNAME''),
      (LINUX_SIOCADDMULTI, ''SIOCADDMULTI''),
      (LINUX_SIOCDELMULTI, ''SIOCDELMULTI''),
      (LINUX_SIOCGIFINDEX, ''SIOCGIFINDEX''),
      (LINUX_SIOCDIFADDR, ''SIOCDIFADDR'')]"

definition so_opt_convert_cases :: "(int \<times> string) list" where
  "so_opt_convert_cases =
     [(LINUX_SO_DEBUG, ''SO_DEBUG''),
      (LINUX_SO_REUSEADDR, ''SO_REUSEADDR''),
      (LINUX_SO_ERROR, ''SO_ERROR''),
      (LINUX_SO_DONTROUTE, ''SO_DONTROUTE''),
      (LINUX_SO_BROADCAST, ''SO_BROADCAST''),
      (LINUX_SO_SNDBUF, ''SO_SNDBUF''),
      (LINUX_SO_RCVBUF, ''SO_RCVBUF''),
      (LINUX_SO_KEEPALIVE, ''SO_KEEPALIVE''),
      (LINUX_SO_OOBINLINE, ''SO_OOBINLINE''),
      (LINUX_SO_LINGER, ''SO_LINGER''),
      (LINUX_SO_REUSEPORT, ''SO_REUSEPORT''),
      (LINUX_SO_RCVLOWAT, ''SO_RCVLOWAT''),
      (LINUX_SO_SNDLOWAT, ''SO_SNDLOWAT''),
      (LINUX_SO_RCVTIMEO, ''SO_RCVTIMEO''),
      (LINUX_SO_SNDTIMEO, ''SO_SNDTIMEO''),
      (LINUX_SO_ACCEPTCONN, ''SO_ACCEPTCONN''),
      (LINUX_SO_PROTOCOL, ''SO_PROTOCOL'')]"

definition ip_opt_convert_cases :: "(int \<times> string) list" where
  "ip_opt_convert_cases =
     [(LINUX_IP_TOS, ''IP_TOS''),
      (LINUX_IP_TTL, ''IP_TTL''),
      (LINUX_IP_HDRINCL, ''IP_HDRINCL''),
      (LINUX_IP_OPTIONS, ''IP_OPTIONS''),
      (LINUX_IP_MULTICAST_IF, ''IP_MULTICAST_IF''),
      (LINUX_IP_MULTICAST_TTL, ''IP_MULTICAST_TTL''),
      (LINUX_IP_MULTICAST_LOOP, ''IP_MULTICAST_LOOP''),
      (LINUX_IP_ADD_MEMBERSHIP, ''IP_ADD_MEMBERSHIP''),
      (LINUX_IP_DROP_MEMBERSHIP, ''IP_DROP_MEMBERSHIP''),
      (LINUX_IP_RECVTTL, ''IP_RECVTTL''),
      (LINUX_IP_RECVTOS, ''IP_RECVTOS''),
      (LINUX_IP_TRANSPARENT, ''IP_BINDANY''),
      (LINUX_IP_MINTTL, ''IP_MINTTL'')]"

definition ip6_opt_convert_cases :: "(int \<times> string) list" where
  "ip6_opt_convert_cases =
     [(LINUX_IPV6_V6ONLY, ''IPV6_V6ONLY''),
      (LINUX_IPV6_RECVPKTINFO, ''IPV6_RECVPKTINFO''),
      (LINUX_IPV6_TRANSPARENT, ''IPV6_BINDANY'')]"

definition tcp_opt_convert_cases :: "(int \<times> string) list" where
  "tcp_opt_convert_cases =
     [(LINUX_TCP_NODELAY, ''TCP_NODELAY''),
      (LINUX_TCP_MAXSEG, ''TCP_MAXSEG''),
      (LINUX_TCP_KEEPIDLE, ''TCP_KEEPIDLE''),
      (LINUX_TCP_KEEPINTVL, ''TCP_KEEPINTVL''),
      (LINUX_TCP_KEEPCNT, ''TCP_KEEPCNT''),
      (LINUX_TCP_INFO, ''TCP_INFO''),
      (LINUX_TCP_MD5SIG, ''TCP_MD5SIG'')]"

text \<open>\<open>request\<close> is an \<open>unsigned long\<close>, the result a \<open>long\<close>.\<close>

definition linux2freebsd_ioctl :: "fbsd_headers \<Rightarrow> u64 \<Rightarrow> int" where
  "linux2freebsd_ioctl H request = c_switch (uint request) (map (apsnd H) linux2freebsd_ioctl_cases) (-1)"

definition so_opt_convert :: "fbsd_headers \<Rightarrow> int \<Rightarrow> int" where
  "so_opt_convert H optname = c_switch optname (map (apsnd H) so_opt_convert_cases) (-1)"

definition ip_opt_convert :: "fbsd_headers \<Rightarrow> int \<Rightarrow> int" where
  "ip_opt_convert H optname = c_switch optname (map (apsnd H) ip_opt_convert_cases) (optname)"

definition ip6_opt_convert :: "fbsd_headers \<Rightarrow> int \<Rightarrow> int" where
  "ip6_opt_convert H optname = c_switch optname (map (apsnd H) ip6_opt_convert_cases) (optname)"

definition tcp_opt_convert :: "fbsd_headers \<Rightarrow> int \<Rightarrow> int" where
  "tcp_opt_convert H optname = c_switch optname (map (apsnd H) tcp_opt_convert_cases) (-1)"

text \<open>The labels of the \<open>switch\<close> on the level are FreeBSD's numbers too.\<close>

definition linux2freebsd_opt :: "fbsd_headers \<Rightarrow> int \<Rightarrow> int \<Rightarrow> int" where
  "linux2freebsd_opt H level optname =
     (if level = H ''SOL_SOCKET'' then so_opt_convert H optname
      else if level = H ''IPPROTO_IP'' then ip_opt_convert H optname
      else if level = H ''IPPROTO_IPV6'' then ip6_opt_convert H optname
      else if level = H ''IPPROTO_TCP'' then tcp_opt_convert H optname
      else -1)"

lemmas sockopt_cases_defs = linux2freebsd_ioctl_cases_def
  so_opt_convert_cases_def
  ip_opt_convert_cases_def
  ip6_opt_convert_cases_def
  tcp_opt_convert_cases_def

end
