(* ===== verification/LB_Bytes.thy ===== *)
theory LB_Bytes
  imports LB_Prelude
begin

text \<open>
  Little-endian loads and stores on byte memory and blocks of bytes, as the C code makes them through pointers, with the lemmas that say what a store leaves alone.
\<close>

section \<open>Definitions\<close>

definition ld16 :: "mem \<Rightarrow> nat \<Rightarrow> u16" where
  "ld16 m p = ucast (m p) OR push_bit 8 (ucast (m (p + 1)))"

definition st16 :: "nat \<Rightarrow> u16 \<Rightarrow> mem \<Rightarrow> mem" where
  "st16 p v m = m(p := ucast v, p + 1 := ucast (drop_bit 8 v))"

definition st32 :: "nat \<Rightarrow> u32 \<Rightarrow> mem \<Rightarrow> mem" where
  "st32 p v m = (\<lambda>a. if p \<le> a \<and> a < p + 4 then ucast (drop_bit (8 * (a - p)) v) else m a)"

definition st64 :: "nat \<Rightarrow> u64 \<Rightarrow> mem \<Rightarrow> mem" where
  "st64 p v m = (\<lambda>a. if p \<le> a \<and> a < p + 8 then ucast (drop_bit (8 * (a - p)) v) else m a)"

definition ld32 :: "mem \<Rightarrow> nat \<Rightarrow> u32" where
  "ld32 m p = ucast (m p) OR push_bit 8 (ucast (m (p + 1))) OR push_bit 16 (ucast (m (p + 2)))
     OR push_bit 24 (ucast (m (p + 3)))"

definition ld64 :: "mem \<Rightarrow> nat \<Rightarrow> u64" where
  "ld64 m p = ucast (ld32 m p) OR push_bit 32 (ucast (ld32 m (p + 4)))"

definition mwrite :: "nat \<Rightarrow> u8 list \<Rightarrow> mem \<Rightarrow> mem" where
  "mwrite p bs m = (\<lambda>a. if p \<le> a \<and> a < p + length bs then bs ! (a - p) else m a)"

text \<open>The first \<open>n\<close> bytes of a number, the lowest first.\<close>

definition le_bytes :: "nat \<Rightarrow> u64 \<Rightarrow> u8 list" where
  "le_bytes n v = map (\<lambda>i. ucast (drop_bit (8 * i) v)) [0..<n]"

section \<open>Numbers\<close>

lemma length_le_bytes [simp]: "length (le_bytes n v) = n"
  by (simp add: le_bytes_def)

lemma nth_le_bytes [simp]: "i < n \<Longrightarrow> le_bytes n v ! i = ucast (drop_bit (8 * i) v)"
  by (simp add: le_bytes_def)

lemma ld16_st16 [mem_simps]: "ld16 (st16 p v m) p = v"
proof (rule bit_word_eqI)
  fix n assume "n < LENGTH(16)"
  then show "bit (ld16 (st16 p v m) p) n = bit v n"
    by (auto simp: ld16_def st16_def bit_simps not_less not_le intro: arg_cong [where f = "bit v"])
qed

lemma ld16_small:
  assumes "ld16 m p = ucast (k :: u8)"
  shows "m p = k" "m (p + 1) = 0"
proof -
  have b: "bit (ld16 m p) n = bit (ucast k :: u16) n" for n using assms by simp
  show "m p = k"
  proof (rule bit_word_eqI)
    fix n assume "n < LENGTH(8)"
    then show "bit (m p) n = bit k n" using b [of n] by (simp add: ld16_def bit_simps)
  qed
  show "m (p + 1) = 0"
  proof (rule bit_word_eqI)
    fix n assume "n < LENGTH(8)"
    then show "bit (m (p + 1)) n = bit 0 n" using b [of "n + 8"] by (auto simp: ld16_def bit_simps dest: bit_imp_le_length)
  qed
qed

lemma div8_cases: "n < 32 \<Longrightarrow> n div 8 = 0 \<and> n < 8 \<or> n div 8 = 1 \<and> 8 \<le> n \<and> n < 16 \<or> n div 8 = 2 \<and> 16 \<le> n \<and> n < 24 \<or>
    n div 8 = 3 \<and> 24 \<le> (n :: nat)"
  by auto

lemma bit_ld32: "n < 32 \<Longrightarrow> bit (ld32 m p) n = bit (m (p + n div 8)) (n mod 8)"
  using div8_cases [of n]
  by (auto simp: ld32_def bit_simps modulo_nat_def dest: bit_imp_le_length)

lemma bit_ld64: "n < 64 \<Longrightarrow> bit (ld64 m p) n = bit (m (p + n div 8)) (n mod 8)"
proof (cases "n < 32")
  case False
  assume "n < 64"
  then have "bit (ld64 m p) n = bit (ld32 m (p + 4)) (n - 32)" using False by (auto simp: ld64_def bit_simps dest: bit_imp_le_length)
  moreover obtain k where "n = 32 + k" using False le_Suc_ex [of 32 n] by auto
  moreover have "(32 + k) div 8 = 4 + k div 8" "(32 + k) mod 8 = k mod 8" by presburger+
  ultimately show ?thesis using \<open>n < 64\<close> by (simp add: bit_ld32 add.assoc)
qed (auto simp: ld64_def bit_simps bit_ld32)

lemma ld32_cong: "(\<And>i. i < 4 \<Longrightarrow> m (p + i) = m' (p + i)) \<Longrightarrow> ld32 m p = ld32 m' p"
  by (rule bit_word_eqI) (simp add: bit_ld32)

lemma ld64_cong: "(\<And>i. i < 8 \<Longrightarrow> m (p + i) = m' (p + i)) \<Longrightarrow> ld64 m p = ld64 m' p"
  by (rule bit_word_eqI) (simp add: bit_ld64)

lemma st_frame [mem_simps]:
  "a < p \<or> p + 4 \<le> a \<Longrightarrow> st32 p v m a = m a" "a < p \<or> p + 8 \<le> a \<Longrightarrow> st64 p w m a = m a"
  by (auto simp: st32_def st64_def)

lemma ld32_st32 [mem_simps]: "ld32 (st32 p v m) p = v"
  by (rule bit_word_eqI) (simp add: bit_ld32 st32_def bit_simps less_mult_imp_div_less)

lemma ld64_st64 [mem_simps]: "ld64 (st64 p v m) p = v"
  by (rule bit_word_eqI) (simp add: bit_ld64 st64_def bit_simps less_mult_imp_div_less)

lemma ld32_st64 [mem_simps]: "ld32 (st64 p v m) p = ucast v"
  by (rule bit_word_eqI) (simp add: bit_ld32 st64_def bit_simps less_mult_imp_div_less)

lemma ld_frame [mem_simps]:
  "p + 4 \<le> q \<or> q + 4 \<le> p \<Longrightarrow> ld32 (st32 q v m) p = ld32 m p"
  "p + 4 \<le> q \<or> q + 8 \<le> p \<Longrightarrow> ld32 (st64 q w m) p = ld32 m p"
  "p + 8 \<le> q \<or> q + 4 \<le> p \<Longrightarrow> ld64 (st32 q v m) p = ld64 m p"
  by (auto intro!: ld32_cong ld64_cong st_frame)

lemma ld_frame_upd [mem_simps]:
  "a < p \<or> p + 4 \<le> a \<Longrightarrow> ld32 (m(a := b)) p = ld32 m p"
  "a < p \<or> p + 8 \<le> a \<Longrightarrow> ld64 (m(a := b)) p = ld64 m p"
  by (auto intro!: ld32_cong ld64_cong)

lemma ld_frame_bcopy [mem_simps]:
  "p + 4 \<le> q \<or> q + n \<le> p \<Longrightarrow> ld32 (bcopy s q n m) p = ld32 m p"
  "p + 8 \<le> q \<or> q + n \<le> p \<Longrightarrow> ld64 (bcopy s q n m) p = ld64 m p"
  by (auto intro!: ld32_cong ld64_cong bcopy_outside)

lemma ucast_ld32 [mem_simps]: "(ucast (ld32 m p) :: u8) = m p"
  by (rule bit_word_eqI) (simp add: bit_simps bit_ld32)

lemma mread_one: "mread m p 1 = [m p]"
  by (simp add: mread_def)

lemma mread_st32: "mread (st32 p (ucast (b :: u8)) m) p (Suc (Suc (Suc (Suc 0)))) = [b, 0, 0, 0]"
proof -
  have "(ucast (drop_bit (8 * i) (ucast b :: u32)) :: u8) = (if i = 0 then b else 0)" for i
    by (rule bit_word_eqI) (auto simp: bit_simps dest: bit_imp_le_length)
  then have "\<forall>i<4. st32 p (ucast b) m (p + i) = (if i = 0 then b else 0)" by (simp add: st32_def)
  then have "mread (st32 p (ucast b) m) p 4 = map (\<lambda>i. if i = 0 then b else 0) [0..<4]" by (simp add: mread_def)
  moreover have "Suc (Suc (Suc (Suc 0))) = 4" by simp
  ultimately show ?thesis by (simp only:) (simp add: upt_rec)
qed

section \<open>Blocks\<close>

lemma mwrite_outside [mem_simps]: "a < p \<or> p + length bs \<le> a \<Longrightarrow> mwrite p bs m a = m a"
  by (auto simp: mwrite_def)

lemma mwrite_inside [mem_simps]: "i < length bs \<Longrightarrow> mwrite p bs m (p + i) = bs ! i"
  by (simp add: mwrite_def)

lemma mread_mwrite [mem_simps]: "mread (mwrite p bs m) p (length bs) = bs"
  by (rule nth_equalityI) (auto simp: mem_simps)

lemma mwrite_Nil [simp]: "mwrite p [] m = m"
  by (rule ext) (auto simp: mwrite_def)

lemma mwrite_append: "mwrite (p + length a) b (mwrite p a m) = mwrite p (a @ b) m"
  by (rule ext) (auto simp: mwrite_def nth_append)

lemma mread_mwrite_outside: "q + n \<le> p \<or> p + length bs \<le> q \<Longrightarrow> mread (mwrite p bs m) q n = mread m q n"
  by (rule mread_cong) (auto simp: mem_simps)

lemma mread_append: "mread m p (a + b) = mread m p a @ mread m (p + a) b"
  by (rule nth_equalityI) (auto simp: nth_append)

lemma mwrite_middle: "length ys = length b \<Longrightarrow> mwrite (p + length xs) b (mwrite p (xs @ ys @ zs) m) = mwrite p (xs @ b @ zs) m"
  by (rule ext) (auto simp: mwrite_def nth_append)

lemma mwrite_comm: "p + length a \<le> q \<or> q + length b \<le> p \<Longrightarrow> mwrite p a (mwrite q b m) = mwrite q b (mwrite p a m)"
  by (rule ext) (auto simp: mwrite_def)

lemma apart_ivl: "{a..<a + n} \<inter> {b..<b + l} = {} \<Longrightarrow> 0 < n \<Longrightarrow> 0 < l \<Longrightarrow> a + n \<le> b \<or> b + l \<le> (a :: nat)"
proof (rule ccontr)
  assume d: "{a..<a + n} \<inter> {b..<b + l} = {}" "0 < n" "0 < l" and "\<not> (a + n \<le> b \<or> b + l \<le> a)"
  then have "max a b \<in> {a..<a + n} \<inter> {b..<b + l}" by auto
  then show False using d(1) by blast
qed

section \<open>What a store changes\<close>

text \<open>The bytes in which two memories differ lie in \<open>W\<close>.\<close>

definition changes :: "nat set \<Rightarrow> mem \<Rightarrow> mem \<Rightarrow> bool" where
  "changes W m m' \<longleftrightarrow> (\<forall>a. m' a \<noteq> m a \<longrightarrow> a \<in> W)"

lemma changes_refl [simp, intro]: "changes W m m"
  by (simp add: changes_def)

lemma changes_trans: "changes W m m' \<Longrightarrow> changes W m' m'' \<Longrightarrow> changes W m m''"
  unfolding changes_def by metis

lemma changes_mono: "changes W m m' \<Longrightarrow> W \<subseteq> W' \<Longrightarrow> changes W' m m'"
  unfolding changes_def by blast

lemma changes_stores [intro]:
  "{p..<p + length bs} \<subseteq> W \<Longrightarrow> changes W m (mwrite p bs m)"
  "{p..<p + 2} \<subseteq> W \<Longrightarrow> changes W m (st16 p u m)"
  "{p..<p + 4} \<subseteq> W \<Longrightarrow> changes W m (st32 p v m)"
  "{p..<p + 8} \<subseteq> W \<Longrightarrow> changes W m (st64 p w m)"
  "{p..<p + n} \<subseteq> W \<Longrightarrow> changes W m (bcopy s p n m)"
  by (auto simp: changes_def mwrite_def st16_def st32_def st64_def bcopy_def split: if_splits)

lemma changes_steps:
  "changes W m x \<Longrightarrow> {p..<p + length bs} \<subseteq> W \<Longrightarrow> changes W m (mwrite p bs x)"
  "changes W m x \<Longrightarrow> {p..<p + 2} \<subseteq> W \<Longrightarrow> changes W m (st16 p u x)"
  "changes W m x \<Longrightarrow> {p..<p + 4} \<subseteq> W \<Longrightarrow> changes W m (st32 p v x)"
  "changes W m x \<Longrightarrow> {p..<p + 8} \<subseteq> W \<Longrightarrow> changes W m (st64 p w x)"
  by (blast intro: changes_trans changes_stores)+

lemma changes_ld16: "changes W m m' \<Longrightarrow> p \<notin> W \<Longrightarrow> p + 1 \<notin> W \<Longrightarrow> ld16 m' p = ld16 m p"
  unfolding changes_def ld16_def by metis

end
