(* ===== verification/LB_Sockaddr.thy ===== *)
theory LB_Sockaddr
  imports LB_Bytes
begin

text \<open>
  \<open>linux2freebsd_sockaddr\<close> and \<open>freebsd2linux_sockaddr\<close> of \<^verbatim>\<open>bsd/lib/lazybsd_socket.c\<close>, on byte
  memory: the two structures may lie at the same address, and callers rely on it.  Linux's
  \<open>sa_family\<close> is a little-endian \<open>short\<close> at offset 0; FreeBSD's structure has \<open>sa_len\<close> at 0 and
  \<open>sa_family\<close> at 1, each one byte; both have \<open>sa_data\<close> at offset 2.
\<close>

abbreviation (input) LINUX_AF_INET6 :: u16 where "LINUX_AF_INET6 \<equiv> 10"

text \<open>\<open>AF_INET6_FREEBSD\<close> of \<^verbatim>\<open>lazybsd_socket.h\<close>, FreeBSD's \<open>AF_INET6\<close>.\<close>

abbreviation (input) AF_INET6 :: u8 where "AF_INET6 \<equiv> 28"

definition linux_sa_family :: "mem \<Rightarrow> nat \<Rightarrow> u16" where
  "linux_sa_family m p = ld16 m p"

definition freebsd_sa_len :: "mem \<Rightarrow> nat \<Rightarrow> u8" where
  "freebsd_sa_len m p = m p"

definition freebsd_sa_family :: "mem \<Rightarrow> nat \<Rightarrow> u8" where
  "freebsd_sa_family m p = m (p + 1)"

text \<open>\<open>addrlen - sizeof(linux_addr->sa_family)\<close> is computed in \<open>size_t\<close>.\<close>

definition sa_data_len :: "u32 \<Rightarrow> nat" where
  "sa_data_len addrlen = unat ((ucast addrlen :: u64) - 2)"

definition linux2freebsd_sockaddr :: "nat option \<Rightarrow> u32 \<Rightarrow> nat option \<Rightarrow> mem \<Rightarrow> mem" where
  "linux2freebsd_sockaddr linux_addr addrlen freebsd_addr m =
     (case (linux_addr, freebsd_addr) of
        (Some l, Some f) \<Rightarrow>
          (let fam = (if linux_sa_family m l = LINUX_AF_INET6 then AF_INET6
                      else ucast (linux_sa_family m l));
               m = m(f + 1 := fam);
               m = m(f := ucast addrlen)
           in if l + 2 \<noteq> f + 2 then bcopy (l + 2) (f + 2) (sa_data_len addrlen) m else m)
      | _ \<Rightarrow> m)"

definition freebsd2linux_sockaddr :: "nat option \<Rightarrow> nat option \<Rightarrow> mem \<Rightarrow> mem" where
  "freebsd2linux_sockaddr linux_addr freebsd_addr m =
     (case (linux_addr, freebsd_addr) of
        (Some l, Some f) \<Rightarrow>
          (let m = (if l + 2 \<noteq> f + 2
                    then bcopy (f + 2) (l + 2) (sa_data_len (ucast (freebsd_sa_len m f))) m
                    else m);
               fam = freebsd_sa_family m f
           in st16 l (if fam = AF_INET6 then LINUX_AF_INET6 else ucast fam) m)
      | _ \<Rightarrow> m)"

section \<open>Lemmas\<close>

lemma sa_data_len_eq [mem_simps]: "2 \<le> unat addrlen \<Longrightarrow> sa_data_len addrlen = unat addrlen - 2"
proof -
  assume len: "2 \<le> unat addrlen"
  have u: "unat (ucast addrlen :: u64) = unat addrlen" by (rule unat_ucast_up) simp
  then have "(2 :: u64) \<le> ucast addrlen" using len by (simp add: word_le_nat_alt)
  then show ?thesis unfolding sa_data_len_def by (subst unat_sub) (simp_all add: u)
qed

text \<open>The two byte ranges are the same or do not overlap.\<close>

definition apart :: "nat \<Rightarrow> nat \<Rightarrow> nat \<Rightarrow> bool" where
  "apart p q n \<longleftrightarrow> p + n \<le> q \<or> q + n \<le> p"

lemma linux2freebsd_fields:
  assumes len: "2 \<le> unat addrlen" and pq: "l = f \<or> apart l f (unat addrlen)"
    and m1: "m1 = linux2freebsd_sockaddr (Some l) addrlen (Some f) m"
  shows "freebsd_sa_len m1 f = ucast addrlen"
    "freebsd_sa_family m1 f = (if linux_sa_family m l = LINUX_AF_INET6 then AF_INET6
                               else ucast (linux_sa_family m l))"
    "mread m1 (f + 2) (unat addrlen - 2) = mread m (l + 2) (unat addrlen - 2)"
    "a < f \<or> f + unat addrlen \<le> a \<Longrightarrow> m1 a = m a"
proof -
  let ?n = "unat addrlen - 2"
  show "freebsd_sa_len m1 f = ucast addrlen"
    "freebsd_sa_family m1 f = (if linux_sa_family m l = LINUX_AF_INET6 then AF_INET6
                               else ucast (linux_sa_family m l))"
    using len by (simp_all add: m1 linux2freebsd_sockaddr_def freebsd_sa_len_def freebsd_sa_family_def
        Let_def bcopy_def)
  have "l + 2 + i \<noteq> f + 1 \<and> l + 2 + i \<noteq> f \<and> f + i < f + unat addrlen - 2" if "i < ?n" for i
    using that pq len by (auto simp: apart_def)
  then show "mread m1 (f + 2) ?n = mread m (l + 2) ?n"
    using len by (intro mread_cong)
      (auto simp: m1 linux2freebsd_sockaddr_def Let_def bcopy_def sa_data_len_eq)
  show "m1 a = m a" if "a < f \<or> f + unat addrlen \<le> a"
    using that len by (auto simp: m1 linux2freebsd_sockaddr_def Let_def bcopy_def sa_data_len_eq)
qed

lemma freebsd2linux_fields:
  assumes len: "2 \<le> unat (freebsd_sa_len m f)" and pq: "l = f \<or> apart f l (unat (freebsd_sa_len m f))"
    and m1: "m1 = freebsd2linux_sockaddr (Some l) (Some f) m"
  shows "linux_sa_family m1 l = (if freebsd_sa_family m f = AF_INET6 then LINUX_AF_INET6
                                 else ucast (freebsd_sa_family m f))"
    "mread m1 (l + 2) (unat (freebsd_sa_len m f) - 2) = mread m (f + 2) (unat (freebsd_sa_len m f) - 2)"
    "a < l \<or> l + unat (freebsd_sa_len m f) \<le> a \<Longrightarrow> m1 a = m a"
proof -
  let ?n = "unat (freebsd_sa_len m f) - 2"
  have u: "unat (ucast (freebsd_sa_len m f) :: u32) = unat (freebsd_sa_len m f)" by (rule unat_ucast_up) simp
  then have n: "sa_data_len (ucast (freebsd_sa_len m f)) = ?n" using len by (simp add: sa_data_len_eq)
  have "f + 1 < l + 2 \<or> l + 2 + ?n \<le> f + 1 \<or> l = f" using pq len by (auto simp: apart_def)
  then have fam: "(if l + 2 \<noteq> f + 2 then bcopy (f + 2) (l + 2) ?n m else m) (f + 1) = m (f + 1)"
    by (auto simp: bcopy_def)
  show "linux_sa_family m1 l = (if freebsd_sa_family m f = AF_INET6 then LINUX_AF_INET6
                                 else ucast (freebsd_sa_family m f))"
    unfolding m1 freebsd2linux_sockaddr_def prod.case option.case Let_def n freebsd_sa_family_def
      linux_sa_family_def ld16_st16 fam by (rule refl)
  show "mread m1 (l + 2) ?n = mread m (f + 2) ?n"
    by (rule mread_cong) (auto simp: m1 freebsd2linux_sockaddr_def Let_def n bcopy_def st16_def)
  show "m1 a = m a" if "a < l \<or> l + unat (freebsd_sa_len m f) \<le> a"
    using that len by (auto simp: m1 freebsd2linux_sockaddr_def Let_def n bcopy_def st16_def)
qed

section \<open>Properties\<close>

text \<open>C29: converting an address to FreeBSD's form and back gives the Linux address again, family
  and data, for every family that fits a byte other than 28 and every length from 2 to 255,
  whether the conversions are done in place or between separate buffers.\<close>

theorem sockaddr_round_trip:
  assumes fam: "linux_sa_family m l = ucast (k :: u8)" "k \<noteq> AF_INET6"
    and len: "2 \<le> unat addrlen" "unat addrlen \<le> 255"
    and lf: "l = f \<or> apart l f (unat addrlen)" and fr: "r = f \<or> apart f r (unat addrlen)"
    and m1: "m1 = linux2freebsd_sockaddr (Some l) addrlen (Some f) m"
    and m2: "m2 = freebsd2linux_sockaddr (Some r) (Some f) m1"
  shows "linux_sa_family m2 r = linux_sa_family m l
    \<and> mread m2 (r + 2) (unat addrlen - 2) = mread m (l + 2) (unat addrlen - 2)"
proof -
  note to = linux2freebsd_fields [OF len(1) lf m1]
  have l1: "unat (freebsd_sa_len m1 f) = unat addrlen"
    using len by (simp add: to(1) unsigned_ucast_eq take_bit_nat_eq_self_iff)
  have "(ucast k :: u16) = LINUX_AF_INET6 \<longleftrightarrow> k = 10"
    unfolding word_unat_eq_iff using unat_ucast_up [of k, where 'b = 16] by simp
  moreover have "(ucast (ucast k :: u16) :: u8) = k"
    by (rule bit_word_eqI) (simp add: bit_simps)
  ultimately have "freebsd_sa_family m1 f = (if k = 10 then AF_INET6 else k)"
    using to(2) fam(1) by simp
  then have "linux_sa_family m2 r = ucast k"
    using freebsd2linux_fields(1) [of m1 f r m2] fam(2) len(1) fr m2 l1 by simp
  moreover have "mread m2 (r + 2) (unat addrlen - 2) = mread m1 (f + 2) (unat addrlen - 2)"
    using freebsd2linux_fields(2) [of m1 f r m2] len(1) fr m2 l1 by simp
  ultimately show ?thesis using to(3) fam(1) by simp
qed

definition demo_mem :: mem where
  "demo_mem = (\<lambda>a. if a = 100 then 2 else if a = 102 then 31 else if a = 103 then 144 else 0)"

theorem sockaddr_round_trip_witness:
  "let m1 = linux2freebsd_sockaddr (Some 100) 16 (Some 200) demo_mem;
       m2 = freebsd2linux_sockaddr (Some 200) (Some 200) m1
   in linux_sa_family m2 200 = linux_sa_family demo_mem 100
    \<and> mread m2 202 14 = mread demo_mem 102 14"
proof -
  have "linux_sa_family demo_mem 100 = ucast (2 :: u8)"
    by (simp add: linux_sa_family_def ld16_def demo_mem_def)
  from sockaddr_round_trip [OF this, of 16 200 200] show ?thesis
    by (simp add: apart_def Let_def)
qed

text \<open>The conversion copies every data byte of the source up to \<open>addrlen\<close>, whatever the size of the
  destination: a caller's length above 128 makes \<open>lazybsd_bind\<close>, \<open>lazybsd_connect\<close> and \<open>lazybsd_sendto\<close> write past
  the \<open>struct sockaddr_storage\<close> they convert into, with the caller's bytes.\<close>

theorem sockaddr_overflow:
  assumes "2 \<le> unat addrlen" "apart l f (unat addrlen)" "i < unat addrlen" "2 \<le> i"
  shows "linux2freebsd_sockaddr (Some l) addrlen (Some f) m (f + i) = m (l + i)"
proof -
  let ?m1 = "linux2freebsd_sockaddr (Some l) addrlen (Some f) m"
  obtain j where i: "i = 2 + j" using assms(4) le_Suc_ex by blast
  have "mread ?m1 (f + 2) (unat addrlen - 2) ! (i - 2) = mread m (l + 2) (unat addrlen - 2) ! (i - 2)"
    using linux2freebsd_fields(3) [OF assms(1) _ refl, of l f m] assms(2) by simp
  moreover have "i - 2 < unat addrlen - 2" using assms by simp
  ultimately show ?thesis using i by simp
qed

theorem sockaddr_overflow_witness:
  "linux2freebsd_sockaddr (Some 1000) 200 (Some 5000) (\<lambda>a. if a = 1128 then 65 else 0) (5000 + 128) = 65"
  using sockaddr_overflow [of 200 1000 5000 128 "\<lambda>a. if a = 1128 then 65 else 0"]
  by (simp add: apart_def)

text \<open>A length below 2 wraps around in \<open>addrlen - sizeof(sa_family)\<close>: the copy is asked for almost
  the whole address space.\<close>

theorem sockaddr_short_length_wraps:
  assumes "unat addrlen < 2"
  shows "sa_data_len addrlen = 2 ^ 64 - 2 + unat addrlen"
proof -
  have "addrlen = 0 \<or> addrlen = 1"
    using assms by (auto simp: word_unat_eq_iff less_2_cases_iff)
  then show ?thesis by (auto simp: sa_data_len_def unsigned_minus_1_eq_mask mask_eq_exp_minus_1)
qed

theorem sockaddr_short_length_wraps_witness: "sa_data_len 0 = 2 ^ 64 - 2"
  using sockaddr_short_length_wraps [of 0] by simp

end
