(* ===== verification/LB_Socket.thy ===== *)
theory LB_Socket
  imports LB_Sockopt LB_Sockaddr
begin

text \<open>
  The socket calls of \<^verbatim>\<open>bsd/lib/lazybsd_socket.c\<close>.  Each call hands its arguments to a function of
  the FreeBSD kernel, which is not part of the repository: the record \<open>kern_if\<close> is the interface
  the file uses, and every definition takes one as its parameter \<open>K\<close>.  The state has the thread's
  \<open>td_retval[0]\<close>, the memory the pointers point into, the thread-local \<open>lazybsd_errno\<close>, and whatever
  else the kernel keeps.  A \<open>struct sockaddr_storage\<close> on the stack is given by its address.
\<close>

section \<open>State and kernel interface\<close>

record 'k sock = errno_tls +
  td_retval :: i64
  umem :: mem
  kern :: 'k

type_synonym 'k kcall = "'k sock \<Rightarrow> int \<times> 'k sock"

record iovec =
  iov_base :: nat
  iov_len :: u64

record uio =
  uio_iov :: "iovec list"
  uio_iovcnt :: i32
  uio_resid :: i64

record msghdr =
  msg_name :: "nat option"
  msg_namelen :: u32
  msg_iov :: "iovec list"
  msg_iovlen :: i32
  msg_control :: "nat option"

record rt_addrinfo =
  rti_flags :: int
  rti_gateway :: "nat option"
  rti_dst :: "nat option"
  rti_netmask :: "nat option"

record 'k kern_if =
  sys_socket :: "int \<Rightarrow> int \<Rightarrow> int \<Rightarrow> 'k kcall"
  kern_getsockopt :: "int \<Rightarrow> int \<Rightarrow> int \<Rightarrow> nat option \<Rightarrow> nat option \<Rightarrow> 'k kcall"
  kern_setsockopt :: "int \<Rightarrow> int \<Rightarrow> int \<Rightarrow> nat option \<Rightarrow> u32 \<Rightarrow> 'k kcall"
  kern_ioctl :: "int \<Rightarrow> int \<Rightarrow> nat option \<Rightarrow> 'k kcall"
  kern_close :: "int \<Rightarrow> 'k kcall"
  kern_readv :: "int \<Rightarrow> uio \<Rightarrow> 'k kcall"
  kern_writev :: "int \<Rightarrow> uio \<Rightarrow> 'k kcall"
  sendit :: "int \<Rightarrow> msghdr \<Rightarrow> int \<Rightarrow> 'k kcall"
  kern_recvit :: "int \<Rightarrow> msghdr \<Rightarrow> int \<Rightarrow> 'k sock \<Rightarrow> int \<times> u32 \<times> 'k sock"
  kern_fcntl :: "int \<Rightarrow> int \<Rightarrow> u64 \<Rightarrow> 'k kcall"
  kern_accept :: "int \<Rightarrow> 'k sock \<Rightarrow> int \<times> nat option \<times> nat \<times> 'k sock"
  fdrop :: "nat \<Rightarrow> 'k sock \<Rightarrow> 'k sock"
  kfree :: "nat \<Rightarrow> 'k sock \<Rightarrow> 'k sock"
  sys_listen :: "int \<Rightarrow> int \<Rightarrow> 'k kcall"
  kern_bindat :: "int \<Rightarrow> nat \<Rightarrow> 'k kcall"
  kern_connectat :: "int \<Rightarrow> nat \<Rightarrow> 'k kcall"
  kern_getpeername :: "int \<Rightarrow> nat option \<Rightarrow> 'k sock \<Rightarrow> int \<times> nat option \<times> 'k sock"
  kern_getsockname :: "int \<Rightarrow> nat option \<Rightarrow> 'k sock \<Rightarrow> int \<times> nat option \<times> 'k sock"
  sys_shutdown :: "int \<Rightarrow> int \<Rightarrow> 'k kcall"
  userland_sysctl :: "int list \<Rightarrow> u32 \<Rightarrow> nat option \<Rightarrow> nat option \<Rightarrow> nat option \<Rightarrow> u64
      \<Rightarrow> 'k sock \<Rightarrow> int \<times> u64 \<times> 'k sock"
  kern_select :: "int \<Rightarrow> nat option \<Rightarrow> nat option \<Rightarrow> nat option \<Rightarrow> nat option \<Rightarrow> int \<Rightarrow> 'k kcall"
  kern_poll :: "nat \<Rightarrow> u32 \<Rightarrow> int \<times> int \<Rightarrow> 'k kcall"
  sys_dup :: "int \<Rightarrow> 'k kcall"
  sys_dup2 :: "int \<Rightarrow> int \<Rightarrow> 'k kcall"
  rib_action :: "int \<Rightarrow> rt_addrinfo \<Rightarrow> 'k kcall"

section \<open>The two ways a call ends\<close>

text \<open>The label \<open>kern_fail\<close> of every call, and its two normal ends: \<open>return (rc)\<close> with \<open>rc\<close> zero, and
  \<open>return curthread->td_retval[0]\<close>, truncated to \<open>int\<close>.\<close>

definition kern_fail :: "int \<Rightarrow> 'k sock \<Rightarrow> int \<times> 'k sock" where
  "kern_fail rc st = (-1, lazybsd_os_errno rc st)"

definition retval :: "'k sock \<Rightarrow> int" where
  "retval st = sint (ucast (td_retval st) :: i32)"

definition end_rc :: "int \<times> 'k sock \<Rightarrow> int \<times> 'k sock" where
  "end_rc r = (case r of (rc, st) \<Rightarrow> if rc \<noteq> 0 then kern_fail rc st else (rc, st))"

definition end_retval :: "int \<times> 'k sock \<Rightarrow> int \<times> 'k sock" where
  "end_retval r = (case r of (rc, st) \<Rightarrow> if rc \<noteq> 0 then kern_fail rc st else (retval st, st))"

section \<open>The calls\<close>

definition lazybsd_socket :: "'k kern_if \<Rightarrow> int \<Rightarrow> int \<Rightarrow> int \<Rightarrow> 'k sock \<Rightarrow> int \<times> 'k sock" where
  "lazybsd_socket K domain typ protocol st =
     end_retval (sys_socket K (if domain = uint LINUX_AF_INET6 then uint AF_INET6 else domain)
                   typ protocol st)"

definition lazybsd_getsockopt ::
    "fbsd_headers \<Rightarrow> 'k kern_if \<Rightarrow> int \<Rightarrow> int \<Rightarrow> int \<Rightarrow> nat option \<Rightarrow> nat option \<Rightarrow> 'k sock \<Rightarrow> int \<times> 'k sock" where
  "lazybsd_getsockopt H K s level optname optval optlen st =
     (let level = (if level = LINUX_SOL_SOCKET then H ''SOL_SOCKET'' else level);
          optname = linux2freebsd_opt H level optname
      in if optname < 0 then kern_fail LAZYBSD_EINVAL st
         else end_rc (kern_getsockopt K s level optname optval optlen st))"

definition lazybsd_getsockopt_freebsd ::
    "'k kern_if \<Rightarrow> int \<Rightarrow> int \<Rightarrow> int \<Rightarrow> nat option \<Rightarrow> nat option \<Rightarrow> 'k sock \<Rightarrow> int \<times> 'k sock" where
  "lazybsd_getsockopt_freebsd K s level optname optval optlen st =
     end_rc (kern_getsockopt K s level optname optval optlen st)"

definition lazybsd_setsockopt ::
    "fbsd_headers \<Rightarrow> 'k kern_if \<Rightarrow> int \<Rightarrow> int \<Rightarrow> int \<Rightarrow> nat option \<Rightarrow> u32 \<Rightarrow> 'k sock \<Rightarrow> int \<times> 'k sock" where
  "lazybsd_setsockopt H K s level optname optval optlen st =
     (let level = (if level = LINUX_SOL_SOCKET then H ''SOL_SOCKET'' else level);
          optname = linux2freebsd_opt H level optname
      in if optname < 0 then kern_fail LAZYBSD_EINVAL st
         else end_rc (kern_setsockopt K s level optname optval optlen st))"

definition lazybsd_setsockopt_freebsd ::
    "'k kern_if \<Rightarrow> int \<Rightarrow> int \<Rightarrow> int \<Rightarrow> nat option \<Rightarrow> u32 \<Rightarrow> 'k sock \<Rightarrow> int \<times> 'k sock" where
  "lazybsd_setsockopt_freebsd K s level optname optval optlen st =
     end_rc (kern_setsockopt K s level optname optval optlen st)"

definition lazybsd_ioctl ::
    "fbsd_headers \<Rightarrow> 'k kern_if \<Rightarrow> int \<Rightarrow> u64 \<Rightarrow> nat option \<Rightarrow> 'k sock \<Rightarrow> int \<times> 'k sock" where
  "lazybsd_ioctl H K fd request argp st =
     (let req = linux2freebsd_ioctl H request
      in if req < 0 then kern_fail LAZYBSD_EINVAL st
         else end_rc (kern_ioctl K fd req argp st))"

definition lazybsd_ioctl_freebsd ::
    "'k kern_if \<Rightarrow> int \<Rightarrow> u64 \<Rightarrow> nat option \<Rightarrow> 'k sock \<Rightarrow> int \<times> 'k sock" where
  "lazybsd_ioctl_freebsd K fd request argp st = end_rc (kern_ioctl K fd (uint request) argp st)"

definition lazybsd_close :: "'k kern_if \<Rightarrow> int \<Rightarrow> 'k sock \<Rightarrow> int \<times> 'k sock" where
  "lazybsd_close K fd st = end_rc (kern_close K fd st)"

definition lazybsd_read :: "'k kern_if \<Rightarrow> int \<Rightarrow> nat \<Rightarrow> u64 \<Rightarrow> 'k sock \<Rightarrow> int \<times> 'k sock" where
  "lazybsd_read K fd buf nbytes st =
     (if uint nbytes > INT_MAX then kern_fail LAZYBSD_EINVAL st
      else end_retval (kern_readv K fd
             \<lparr>uio_iov = [\<lparr>iov_base = buf, iov_len = nbytes\<rparr>], uio_iovcnt = 1, uio_resid = nbytes\<rparr> st))"

text \<open>\<open>len\<close> is an \<open>int\<close>: each addition of a \<open>size_t\<close> is truncated to it; \<open>uio_resid\<close> sign-extends it.\<close>

fun iov_total :: "i32 \<Rightarrow> iovec list \<Rightarrow> i32" where
  "iov_total len [] = len"
| "iov_total len (v # vs) = iov_total (ucast ((scast len :: u64) + iov_len v)) vs"

definition lazybsd_readv :: "'k kern_if \<Rightarrow> int \<Rightarrow> iovec list \<Rightarrow> i32 \<Rightarrow> 'k sock \<Rightarrow> int \<times> 'k sock" where
  "lazybsd_readv K fd iov iovcnt st =
     end_retval (kern_readv K fd
       \<lparr>uio_iov = iov, uio_iovcnt = iovcnt,
        uio_resid = scast (iov_total 0 (take (nat (sint iovcnt)) iov))\<rparr> st)"

definition lazybsd_write :: "'k kern_if \<Rightarrow> int \<Rightarrow> nat \<Rightarrow> u64 \<Rightarrow> 'k sock \<Rightarrow> int \<times> 'k sock" where
  "lazybsd_write K fd buf nbytes st =
     (if uint nbytes > INT_MAX then kern_fail LAZYBSD_EINVAL st
      else end_retval (kern_writev K fd
             \<lparr>uio_iov = [\<lparr>iov_base = buf, iov_len = nbytes\<rparr>], uio_iovcnt = 1, uio_resid = nbytes\<rparr> st))"

definition lazybsd_writev :: "'k kern_if \<Rightarrow> int \<Rightarrow> iovec list \<Rightarrow> i32 \<Rightarrow> 'k sock \<Rightarrow> int \<times> 'k sock" where
  "lazybsd_writev K fd iov iovcnt st =
     end_retval (kern_writev K fd
       \<lparr>uio_iov = iov, uio_iovcnt = iovcnt,
        uio_resid = scast (iov_total 0 (take (nat (sint iovcnt)) iov))\<rparr> st)"

definition lazybsd_sendto ::
    "'k kern_if \<Rightarrow> nat \<Rightarrow> int \<Rightarrow> nat \<Rightarrow> u64 \<Rightarrow> int \<Rightarrow> nat option \<Rightarrow> u32 \<Rightarrow> 'k sock \<Rightarrow> int \<times> 'k sock" where
  "lazybsd_sendto K bsdaddr s buf len flags to tolen st =
     (let st = (if to \<noteq> None
                then st\<lparr>umem := linux2freebsd_sockaddr to tolen (Some bsdaddr) (umem st)\<rparr> else st);
          pf = (if to \<noteq> None then Some bsdaddr else None)
      in end_retval (sendit K s
           \<lparr>msg_name = pf, msg_namelen = tolen, msg_iov = [\<lparr>iov_base = buf, iov_len = len\<rparr>],
            msg_iovlen = 1, msg_control = None\<rparr> flags st))"

definition lazybsd_send ::
    "'k kern_if \<Rightarrow> nat \<Rightarrow> int \<Rightarrow> nat \<Rightarrow> u64 \<Rightarrow> int \<Rightarrow> 'k sock \<Rightarrow> int \<times> 'k sock" where
  "lazybsd_send K bsdaddr s buf len flags = lazybsd_sendto K bsdaddr s buf len flags None 0"

definition lazybsd_recvfrom ::
    "'k kern_if \<Rightarrow> nat \<Rightarrow> int \<Rightarrow> nat \<Rightarrow> u64 \<Rightarrow> int \<Rightarrow> nat option \<Rightarrow> nat option \<Rightarrow> 'k sock \<Rightarrow> int \<times> 'k sock" where
  "lazybsd_recvfrom K bsdaddr s buf len flags from fromlen st =
     (let namelen = (case fromlen of Some p \<Rightarrow> ld32 (umem st) p | None \<Rightarrow> 0)
      in case kern_recvit K s
           \<lparr>msg_name = Some bsdaddr, msg_namelen = namelen, msg_iov = [\<lparr>iov_base = buf, iov_len = len\<rparr>],
            msg_iovlen = 1, msg_control = None\<rparr> flags st of
         (rc, namelen, st) \<Rightarrow>
           (if rc \<noteq> 0 then kern_fail rc st
            else
              let rv = retval st;
                  st = (case fromlen of
                          Some p \<Rightarrow> st\<lparr>umem := st32 p namelen (umem st)\<rparr>
                        | None \<Rightarrow> st);
                  st = (if from \<noteq> None \<and> namelen \<noteq> 0
                        then st\<lparr>umem := freebsd2linux_sockaddr from (Some bsdaddr) (umem st)\<rparr> else st)
              in (rv, st)))"

definition lazybsd_recv ::
    "'k kern_if \<Rightarrow> nat \<Rightarrow> int \<Rightarrow> nat \<Rightarrow> u64 \<Rightarrow> int \<Rightarrow> 'k sock \<Rightarrow> int \<times> 'k sock" where
  "lazybsd_recv K bsdaddr s buf len flags = lazybsd_recvfrom K bsdaddr s buf len flags None None"

definition lazybsd_fcntl :: "'k kern_if \<Rightarrow> int \<Rightarrow> int \<Rightarrow> u64 \<Rightarrow> 'k sock \<Rightarrow> int \<times> 'k sock" where
  "lazybsd_fcntl K fd cmd argp st = end_retval (kern_fcntl K fd cmd argp st)"

definition free_sockaddr :: "'k kern_if \<Rightarrow> nat option \<Rightarrow> 'k sock \<Rightarrow> 'k sock" where
  "free_sockaddr K pf st = (case pf of Some p \<Rightarrow> kfree K p st | None \<Rightarrow> st)"

text \<open>With \<open>addrlen\<close> given and no address returned, \<open>pf->sa_len\<close> is read through a NULL pointer.\<close>

definition lazybsd_accept ::
    "'k kern_if \<Rightarrow> int \<Rightarrow> nat option \<Rightarrow> nat option \<Rightarrow> 'k sock \<Rightarrow> (int \<times> 'k sock) kresult" where
  "lazybsd_accept K s addr addrlen st =
     (case kern_accept K s st of
        (rc, pf, fp, st) \<Rightarrow>
          (if rc \<noteq> 0 then Inr (kern_fail rc (free_sockaddr K pf st))
           else
             let rv = retval st;
                 st = fdrop K fp st;
                 st = (if addr \<noteq> None \<and> pf \<noteq> None
                       then st\<lparr>umem := freebsd2linux_sockaddr addr pf (umem st)\<rparr> else st)
             in case (addrlen, pf) of
                  (Some p, None) \<Rightarrow> Inl (Panic ''null pointer'')
                | (Some p, Some f) \<Rightarrow>
                    Inr (rv, free_sockaddr K pf
                               (st\<lparr>umem := st32 p (ucast (freebsd_sa_len (umem st) f)) (umem st)\<rparr>))
                | (None, _) \<Rightarrow> Inr (rv, free_sockaddr K pf st)))"

definition lazybsd_listen :: "'k kern_if \<Rightarrow> int \<Rightarrow> int \<Rightarrow> 'k sock \<Rightarrow> int \<times> 'k sock" where
  "lazybsd_listen K s backlog st = end_rc (sys_listen K s backlog st)"

definition lazybsd_bind :: "'k kern_if \<Rightarrow> nat \<Rightarrow> int \<Rightarrow> nat option \<Rightarrow> u32 \<Rightarrow> 'k sock \<Rightarrow> int \<times> 'k sock" where
  "lazybsd_bind K bsdaddr s addr addrlen st =
     end_rc (kern_bindat K s bsdaddr
       (st\<lparr>umem := linux2freebsd_sockaddr addr addrlen (Some bsdaddr) (umem st)\<rparr>))"

definition lazybsd_connect :: "'k kern_if \<Rightarrow> nat \<Rightarrow> int \<Rightarrow> nat option \<Rightarrow> u32 \<Rightarrow> 'k sock \<Rightarrow> int \<times> 'k sock" where
  "lazybsd_connect K bsdaddr s name namelen st =
     end_rc (kern_connectat K s bsdaddr
       (st\<lparr>umem := linux2freebsd_sockaddr name namelen (Some bsdaddr) (umem st)\<rparr>))"

definition lazybsd_getpeername ::
    "'k kern_if \<Rightarrow> int \<Rightarrow> nat option \<Rightarrow> nat option \<Rightarrow> 'k sock \<Rightarrow> int \<times> 'k sock" where
  "lazybsd_getpeername K s name namelen st =
     (case kern_getpeername K s namelen st of
        (rc, pf, st) \<Rightarrow>
          (if rc \<noteq> 0 then kern_fail rc (free_sockaddr K pf st)
           else
             let st = (if name \<noteq> None \<and> pf \<noteq> None
                       then st\<lparr>umem := freebsd2linux_sockaddr name pf (umem st)\<rparr> else st)
             in (rc, free_sockaddr K pf st)))"

definition lazybsd_getsockname ::
    "'k kern_if \<Rightarrow> int \<Rightarrow> nat option \<Rightarrow> nat option \<Rightarrow> 'k sock \<Rightarrow> int \<times> 'k sock" where
  "lazybsd_getsockname K s name namelen st =
     (case kern_getsockname K s namelen st of
        (rc, pf, st) \<Rightarrow>
          (if rc \<noteq> 0 then kern_fail rc (free_sockaddr K pf st)
           else
             let st = (if name \<noteq> None \<and> pf \<noteq> None
                       then st\<lparr>umem := freebsd2linux_sockaddr name pf (umem st)\<rparr> else st)
             in (rc, free_sockaddr K pf st)))"

definition lazybsd_shutdown :: "'k kern_if \<Rightarrow> int \<Rightarrow> int \<Rightarrow> 'k sock \<Rightarrow> int \<times> 'k sock" where
  "lazybsd_shutdown K s how st = end_rc (sys_shutdown K s how st)"

definition lazybsd_sysctl ::
    "'k kern_if \<Rightarrow> int list \<Rightarrow> u32 \<Rightarrow> nat option \<Rightarrow> nat option \<Rightarrow> nat option \<Rightarrow> u64 \<Rightarrow> 'k sock
     \<Rightarrow> int \<times> 'k sock" where
  "lazybsd_sysctl K name namelen oldp oldlenp newp newlen st =
     (case userland_sysctl K name namelen oldp oldlenp newp newlen st of
        (rc, rv, st) \<Rightarrow>
          (if rc \<noteq> 0 then kern_fail rc st
           else (0, case oldlenp of Some p \<Rightarrow> st\<lparr>umem := st64 p rv (umem st)\<rparr> | None \<Rightarrow> st)))"

definition lazybsd_select ::
    "'k kern_if \<Rightarrow> int \<Rightarrow> nat option \<Rightarrow> nat option \<Rightarrow> nat option \<Rightarrow> nat option \<Rightarrow> 'k sock \<Rightarrow> int \<times> 'k sock" where
  "lazybsd_select K nfds readfds writefds exceptfds timeout st =
     end_retval (kern_select K nfds readfds writefds exceptfds timeout 64 st)"

text \<open>The \<open>timeout\<close> argument is not used: the kernel is always given a zero \<open>struct timespec\<close>.\<close>

definition lazybsd_poll :: "'k kern_if \<Rightarrow> nat \<Rightarrow> u32 \<Rightarrow> int \<Rightarrow> 'k sock \<Rightarrow> int \<times> 'k sock" where
  "lazybsd_poll K fds nfds timeout st = end_retval (kern_poll K fds nfds (0, 0) st)"

definition lazybsd_dup :: "'k kern_if \<Rightarrow> int \<Rightarrow> 'k sock \<Rightarrow> int \<times> 'k sock" where
  "lazybsd_dup K oldfd st = end_retval (sys_dup K oldfd st)"

definition lazybsd_dup2 :: "'k kern_if \<Rightarrow> int \<Rightarrow> int \<Rightarrow> 'k sock \<Rightarrow> int \<times> 'k sock" where
  "lazybsd_dup2 K oldfd newfd st = end_retval (sys_dup2 K oldfd newfd st)"

text \<open>\<open>lazybsd_gettimeofday\<close> stores seconds and microseconds; the clock is \<open>lazybsd_get_current_time\<close>
  of the host layer.\<close>

definition lazybsd_gettimeofday :: "int \<times> int \<Rightarrow> int \<times> (int \<times> int)" where
  "lazybsd_gettimeofday now = (case now of (sec, nsec) \<Rightarrow> (0, (sec, nsec div 1000)))"

datatype route_ctl = LAZYBSD_ROUTE_ADD | LAZYBSD_ROUTE_DEL | LAZYBSD_ROUTE_CHANGE | Other_route_ctl int
datatype route_flag = LAZYBSD_RTF_HOST | LAZYBSD_RTF_GATEWAY | Other_route_flag int

text \<open>\<open>sizeof(*dst)\<close> is 16, the size of a \<open>struct linux_sockaddr\<close>, whatever the address family.  The
  addresses of \<open>sa_gw\<close>, \<open>sa_dst\<close> and \<open>sa_nm\<close> on the stack are parameters.\<close>

definition lazybsd_route_ctl ::
    "fbsd_headers \<Rightarrow> 'k kern_if \<Rightarrow> nat \<Rightarrow> nat \<Rightarrow> nat \<Rightarrow> route_ctl \<Rightarrow> route_flag \<Rightarrow> nat option \<Rightarrow> nat option
     \<Rightarrow> nat option \<Rightarrow> 'k sock \<Rightarrow> int \<times> 'k sock" where
  "lazybsd_route_ctl H K sa_gw sa_dst sa_nm req flag dst gw netmask st =
     (let rtreq = (case req of
                     LAZYBSD_ROUTE_ADD \<Rightarrow> Some (H ''RTM_ADD'')
                   | LAZYBSD_ROUTE_DEL \<Rightarrow> Some (H ''RTM_DELETE'')
                   | LAZYBSD_ROUTE_CHANGE \<Rightarrow> Some (H ''RTM_CHANGE'')
                   | Other_route_ctl _ \<Rightarrow> None);
          rtflag = (case flag of
                      LAZYBSD_RTF_HOST \<Rightarrow> Some (H ''RTF_HOST'')
                    | LAZYBSD_RTF_GATEWAY \<Rightarrow> Some (H ''RTF_GATEWAY'')
                    | Other_route_flag _ \<Rightarrow> None)
      in case (rtreq, rtflag) of
           (Some rtreq, Some rtflag) \<Rightarrow>
             (let m = umem st;
                  m = linux2freebsd_sockaddr gw 16 (Some sa_gw) m;
                  m = linux2freebsd_sockaddr dst 16 (Some sa_dst) m;
                  m = linux2freebsd_sockaddr netmask 16 (Some sa_nm) m
              in end_rc (rib_action K rtreq
                   \<lparr>rti_flags = rtflag, rti_gateway = map_option (\<lambda>_. sa_gw) gw,
                    rti_dst = map_option (\<lambda>_. sa_dst) dst, rti_netmask = map_option (\<lambda>_. sa_nm) netmask\<rparr>
                   (st\<lparr>umem := m\<rparr>)))
         | _ \<Rightarrow> kern_fail LAZYBSD_EINVAL st)"

end
