(* ===== verification/LB_Socket_Props.thy ===== *)
theory LB_Socket_Props
  imports LB_Socket
begin

text \<open>
  Properties of the socket calls: the options and requests that reach the kernel, the lengths of vectors, reading and writing, and the
  addresses that come out of the kernel.
\<close>

section \<open>How a call ends\<close>

lemma end_rc_eq:
  "end_rc r = (case r of (rc, s) \<Rightarrow> if rc \<noteq> 0 then (-1, lazybsd_os_errno rc s) else (0, s))"
  by (auto simp: end_rc_def kern_fail_def split: prod.split)

lemma end_retval_eq:
  "end_retval r = (case r of (rc, s) \<Rightarrow> if rc \<noteq> 0 then (-1, lazybsd_os_errno rc s) else (retval s, s))"
  by (auto simp: end_retval_def kern_fail_def split: prod.split)

lemmas end_eqs = end_rc_eq end_retval_eq

lemma linux2freebsd_None [simp]: "linux2freebsd_sockaddr None n f m = m"
  by (simp add: linux2freebsd_sockaddr_def)

section \<open>A kernel for the examples\<close>

definition ok :: "unit kcall" where
  "ok st = (0, st)"

definition stub_kern :: "unit kern_if" where
  "stub_kern = \<lparr>sys_socket = (\<lambda>_ _ _. ok), kern_getsockopt = (\<lambda>_ _ _ _ _. ok),
     kern_setsockopt = (\<lambda>_ _ _ _ _. ok), kern_ioctl = (\<lambda>_ _ _. ok), kern_close = (\<lambda>_. ok),
     kern_readv = (\<lambda>_ _. ok), kern_writev = (\<lambda>_ _. ok), sendit = (\<lambda>_ _ _. ok),
     kern_recvit = (\<lambda>_ msg _ st. (0, 4, st\<lparr>umem := (\<lambda>a. if a = 5000 then 16 else if a = 5010 then 77 else umem st a)\<rparr>)),
     kern_fcntl = (\<lambda>_ _ _. ok), kern_accept = (\<lambda>_ st. (0, None, 7, st)), fdrop = (\<lambda>_ st. st),
     kfree = (\<lambda>_ st. st), sys_listen = (\<lambda>_ _. ok), kern_bindat = (\<lambda>_ _. ok), kern_connectat = (\<lambda>_ _. ok),
     kern_getpeername = (\<lambda>_ _ st. (0, None, st)), kern_getsockname = (\<lambda>_ _ st. (0, None, st)),
     sys_shutdown = (\<lambda>_ _. ok), userland_sysctl = (\<lambda>_ _ _ _ _ _ st. (0, 0, st)),
     kern_select = (\<lambda>_ _ _ _ _ _. ok), kern_poll = (\<lambda>_ _ _. ok), sys_dup = (\<lambda>_. ok),
     sys_dup2 = (\<lambda>_ _. ok), rib_action = (\<lambda>_ _. ok)\<rparr>"

definition stub_st :: "unit sock" where
  "stub_st = \<lparr>lazybsd_errno = 0, td_retval = 3, umem = (\<lambda>_. 0), kern = ()\<rparr>"

text \<open>Header values: the position of the name in the request table, FreeBSD's own for two others.\<close>

definition stub_headers :: fbsd_headers where
  "stub_headers n =
     (if n = ''SOL_SOCKET'' then 65535 else if n = ''IP_MULTICAST_LOOP'' then 11
      else int (length (takeWhile (\<lambda>e. snd e \<noteq> n) linux2freebsd_ioctl_cases)))"

section \<open>Options and requests\<close>

lemma einval: "os_errno LAZYBSD_EINVAL = 22"
  by (simp add: os_errno_def os_errno_cases_def)

lemma fst_map_apsnd: "fst ` set (map (apsnd f) cs) = fst ` set cs"
  by (induction cs) auto

lemma c_switch_entry:
  "distinct (map fst cs) \<Longrightarrow> (k, n) \<in> set cs \<Longrightarrow> c_switch k (map (apsnd f) cs) d = f n"
  by (induction cs) (auto simp: rev_image_eqI)

lemma sockopt_tables_distinct:
  "distinct (map fst so_opt_convert_cases)" "distinct (map fst linux2freebsd_ioctl_cases)"
  "distinct (map fst ip_opt_convert_cases)"
  by (simp_all add: sockopt_cases_defs)

text \<open>A \<open>SOL_SOCKET\<close> option that has no FreeBSD counterpart, and a request that has none, are
  refused with EINVAL before the kernel sees them.\<close>

theorem unknown_option_refused:
  assumes "optname \<notin> fst ` set so_opt_convert_cases" "uint request \<notin> fst ` set linux2freebsd_ioctl_cases"
  shows "lazybsd_getsockopt H K s LINUX_SOL_SOCKET optname v lenp st = (-1, st\<lparr>lazybsd_errno := 22\<rparr>)
    \<and> lazybsd_setsockopt H K s LINUX_SOL_SOCKET optname v len st = (-1, st\<lparr>lazybsd_errno := 22\<rparr>)
    \<and> lazybsd_ioctl H K s request v st = (-1, st\<lparr>lazybsd_errno := 22\<rparr>)"
proof -
  have "so_opt_convert H optname = -1" "linux2freebsd_ioctl H request = -1"
    using assms by (simp_all add: so_opt_convert_def linux2freebsd_ioctl_def c_switch_default fst_map_apsnd
        del: set_map)
  then show ?thesis
    by (simp add: lazybsd_getsockopt_def lazybsd_setsockopt_def lazybsd_ioctl_def linux2freebsd_opt_def
        Let_def kern_fail_def lazybsd_os_errno_def einval)
qed

theorem unknown_option_refused_witness:
  "lazybsd_getsockopt stub_headers stub_kern 3 1 99 None None stub_st = (-1, stub_st\<lparr>lazybsd_errno := 22\<rparr>)"
  using unknown_option_refused [of 99 "0x9999", where H = stub_headers and K = stub_kern and s = 3 and v = None
      and lenp = None and st = stub_st]
  by (simp add: sockopt_cases_defs)

text \<open>An option or request of the tables reaches the kernel as the FreeBSD constant of the same
  name, and the call ends with what the kernel function returned.\<close>

theorem known_option_translated:
  assumes "(optname, n) \<in> set so_opt_convert_cases" "0 \<le> H n"
    "(uint request, r) \<in> set linux2freebsd_ioctl_cases" "0 \<le> H r"
  shows "lazybsd_setsockopt H K s LINUX_SOL_SOCKET optname v len st
      = end_rc (kern_setsockopt K s (H ''SOL_SOCKET'') (H n) v len st)
    \<and> lazybsd_getsockopt H K s LINUX_SOL_SOCKET optname v lenp st
      = end_rc (kern_getsockopt K s (H ''SOL_SOCKET'') (H n) v lenp st)
    \<and> lazybsd_ioctl H K s request v st = end_rc (kern_ioctl K s (H r) v st)"
proof -
  have "so_opt_convert H optname = H n" "linux2freebsd_ioctl H request = H r"
    using assms sockopt_tables_distinct by (simp_all add: so_opt_convert_def linux2freebsd_ioctl_def c_switch_entry)
  then show ?thesis
    using assms(2,4) by (simp add: lazybsd_getsockopt_def lazybsd_setsockopt_def lazybsd_ioctl_def
        linux2freebsd_opt_def Let_def)
qed

theorem known_option_translated_witness:
  "lazybsd_setsockopt stub_headers stub_kern 3 1 2 (Some 8) 4 stub_st = (0, stub_st)"
proof -
  have "(2, ''SO_REUSEADDR'') \<in> set so_opt_convert_cases" "0 \<le> stub_headers ''SO_REUSEADDR''"
    "(uint (0x541B :: u64), ''FIONREAD'') \<in> set linux2freebsd_ioctl_cases" "0 \<le> stub_headers ''FIONREAD''"
    by (simp_all add: sockopt_cases_defs stub_headers_def)
  from known_option_translated [OF this, of stub_kern 3 "Some 8" 4 stub_st]
  show ?thesis by (simp add: stub_kern_def ok_def end_eqs)
qed

text \<open>No two requests of the \<open>ioctl\<close> table are conflated, provided the FreeBSD numbers are distinct.\<close>

theorem ioctl_injective:
  assumes "distinct (map (H \<circ> snd) linux2freebsd_ioctl_cases)"
    and "uint x \<in> fst ` set linux2freebsd_ioctl_cases" "uint y \<in> fst ` set linux2freebsd_ioctl_cases"
    and "linux2freebsd_ioctl H x = linux2freebsd_ioctl H y"
  shows "x = y"
proof -
  have "uint x = uint y"
    by (rule c_switch_inj [of "map (apsnd H) linux2freebsd_ioctl_cases" _ _ "-1"])
      (use assms in \<open>simp_all add: linux2freebsd_ioctl_def fst_map_apsnd comp_def del: set_map\<close>)
  then show ?thesis by (rule unsigned_word_eqI)
qed

lemma takeWhile_positions:
  "distinct (map snd cs)
   \<Longrightarrow> map (\<lambda>n. length (takeWhile (\<lambda>e. snd e \<noteq> n) cs)) (map snd cs) = [0..<length cs]"
proof (induction cs)
  case (Cons c cs)
  then have "length (takeWhile (\<lambda>e. snd e \<noteq> n) (c # cs)) = Suc (length (takeWhile (\<lambda>e. snd e \<noteq> n) cs))"
    if "n \<in> set (map snd cs)" for n using that by auto
  then have "map (\<lambda>n. length (takeWhile (\<lambda>e. snd e \<noteq> n) (c # cs))) (map snd cs)
      = map (\<lambda>n. Suc (length (takeWhile (\<lambda>e. snd e \<noteq> n) cs))) (map snd cs)"
    by (intro map_cong refl)
  also have "\<dots> = map Suc (map (\<lambda>n. length (takeWhile (\<lambda>e. snd e \<noteq> n) cs)) (map snd cs))" by simp
  also have "map (\<lambda>n. length (takeWhile (\<lambda>e. snd e \<noteq> n) cs)) (map snd cs) = [0..<length cs]"
    using Cons by simp
  finally show ?case by (simp add: map_Suc_upt upt_conv_Cons comp_def del: upt_Suc)
qed simp

lemma ioctl_names_distinct: "distinct (map snd linux2freebsd_ioctl_cases)"
  by (simp add: linux2freebsd_ioctl_cases_def)

definition position :: fbsd_headers where
  "position n = int (length (takeWhile (\<lambda>e. snd e \<noteq> n) linux2freebsd_ioctl_cases))"

theorem ioctl_injective_witness:
  "linux2freebsd_ioctl position 0x541B \<noteq> linux2freebsd_ioctl position 0x5421"
proof
  assume eq: "linux2freebsd_ioctl position 0x541B = linux2freebsd_ioctl position 0x5421"
  have "map (position \<circ> snd) linux2freebsd_ioctl_cases = map int [0..<length linux2freebsd_ioctl_cases]"
    unfolding takeWhile_positions [OF ioctl_names_distinct, symmetric] by (simp add: position_def)
  then have "distinct (map (position \<circ> snd) linux2freebsd_ioctl_cases)" by (simp only: distinct_map) simp
  moreover have "uint (0x541B :: u64) \<in> fst ` set linux2freebsd_ioctl_cases"
    "uint (0x5421 :: u64) \<in> fst ` set linux2freebsd_ioctl_cases"
    by (simp_all add: linux2freebsd_ioctl_cases_def)
  ultimately have "(0x541B :: u64) = 0x5421" using eq by (rule ioctl_injective)
  then show False by simp
qed

text \<open>An \<open>IPPROTO_IP\<close> option the table does not have is passed to the kernel with its Linux number,
  so it sets whatever FreeBSD option has that number: it becomes indistinguishable from the
  Linux option \<open>k\<close> the table maps there.\<close>

theorem ip_option_alias:
  assumes "optname \<notin> fst ` set ip_opt_convert_cases" "(k, n) \<in> set ip_opt_convert_cases" "H n = optname"
  shows "ip_opt_convert H optname = ip_opt_convert H k \<and> optname \<noteq> k"
  using assms sockopt_tables_distinct(3)
  by (auto simp: ip_opt_convert_def c_switch_default c_switch_entry fst_map_apsnd simp del: set_map
      intro: rev_image_eqI)

theorem ip_option_alias_witness:
  "ip_opt_convert stub_headers 11 = ip_opt_convert stub_headers 34"
  using ip_option_alias [of 11 34 "''IP_MULTICAST_LOOP''" stub_headers]
  by (simp add: sockopt_cases_defs stub_headers_def)

section \<open>Lengths\<close>

lemma ucast_add_down: "(ucast (a + b :: u64) :: u32) = ucast a + ucast b"
proof -
  have "of_int (uint (a + b)) = (of_int (uint a + uint b) :: u32)"
    by (rule word_of_int_eq_iff [THEN iffD2]) (simp add: uint_word_ariths take_bit_eq_mod mod_mod_cancel)
  then show ?thesis by simp
qed

lemma iov_total_sum: "iov_total len iov = len + word_of_int (\<Sum>v\<leftarrow>iov. uint (iov_len v))"
proof (induction iov arbitrary: len)
  case (Cons v iov)
  have "(ucast (scast len :: u64) :: i32) = len"
    by (rule bit_word_eqI) (simp add: bit_simps)
  then show ?case using Cons [of "ucast ((scast len :: u64) + iov_len v)"] by (simp add: ucast_add_down)
qed simp

text \<open>The byte count \<open>lazybsd_readv\<close> and \<open>lazybsd_writev\<close> compute for \<open>uio_resid\<close> is the sum of the
  vector's lengths exactly when that sum fits an \<open>int\<close>; neither call checks that it does, as
  \<open>lazybsd_read\<close> and \<open>lazybsd_write\<close> do for theirs.\<close>

theorem readv_length_exact:
  "sint (iov_total 0 iov) = (\<Sum>v\<leftarrow>iov. uint (iov_len v)) \<longleftrightarrow> (\<Sum>v\<leftarrow>iov. uint (iov_len v)) \<le> INT_MAX"
proof -
  have "0 \<le> (\<Sum>v\<leftarrow>iov. uint (iov_len v))" by (rule sum_list_nonneg) auto
  then show ?thesis
    by (simp add: iov_total_sum signed_of_int signed_take_bit_int_eq_self_iff) linarith
qed

text \<open>\<open>lazybsd_read\<close> and \<open>lazybsd_write\<close> with a count above \<open>INT_MAX\<close> fail with EINVAL and do not call
  the kernel; otherwise the kernel gets one buffer of exactly the count, and an error is
  translated.\<close>

theorem read_write_contract:
  "lazybsd_read K fd buf n st =
     (if INT_MAX < uint n then (-1, st\<lparr>lazybsd_errno := 22\<rparr>)
      else let (rc, s) = kern_readv K fd
                 \<lparr>uio_iov = [\<lparr>iov_base = buf, iov_len = n\<rparr>], uio_iovcnt = 1, uio_resid = n\<rparr> st
           in if rc = 0 then (retval s, s) else (-1, s\<lparr>lazybsd_errno := os_errno rc\<rparr>))
   \<and> lazybsd_write K fd buf n st =
     (if INT_MAX < uint n then (-1, st\<lparr>lazybsd_errno := 22\<rparr>)
      else let (rc, s) = kern_writev K fd
                 \<lparr>uio_iov = [\<lparr>iov_base = buf, iov_len = n\<rparr>], uio_iovcnt = 1, uio_resid = n\<rparr> st
           in if rc = 0 then (retval s, s) else (-1, s\<lparr>lazybsd_errno := os_errno rc\<rparr>))"
  by (auto simp: lazybsd_read_def lazybsd_write_def end_eqs kern_fail_def lazybsd_os_errno_def einval
      split: prod.split)

section \<open>Addresses out of the kernel\<close>

text \<open>\<open>lazybsd_accept\<close> fails as the kernel fails, with the returned address freed; but when the
  connection was gone before its address could be read (\<open>kern_accept\<close> succeeds and returns no
  address) a caller that passes \<open>addrlen\<close> makes it read through a NULL pointer.\<close>

theorem accept_no_address:
  assumes "kern_accept K s st = (0, None, fp, s1)"
  shows "lazybsd_accept K s addr (Some p) st = Inl (Panic ''null pointer'')
    \<and> lazybsd_accept K s addr None st = Inr (retval s1, fdrop K fp s1)"
  using assms by (simp add: lazybsd_accept_def Let_def free_sockaddr_def)

theorem accept_no_address_witness:
  "lazybsd_accept stub_kern 3 None (Some 40) stub_st = Inl (Panic ''null pointer'')"
  using accept_no_address [of stub_kern 3 stub_st 7 stub_st None 40] by (simp add: stub_kern_def)

text \<open>\<open>lazybsd_recvfrom\<close> copies the whole address the kernel stored, \<open>sa_len\<close> bytes, to the caller's
  buffer, whatever length the caller gave for it in \<open>*fromlen\<close>.\<close>

theorem recvfrom_ignores_fromlen:
  assumes recv: "kern_recvit K s
        \<lparr>msg_name = Some bsdaddr, msg_namelen = ld32 (umem st) p, msg_iov = [\<lparr>iov_base = buf, iov_len = len\<rparr>],
         msg_iovlen = 1, msg_control = None\<rparr> flags st = (0, namelen, sk)"
    and nl: "namelen \<noteq> 0" and n: "n = unat (freebsd_sa_len (umem sk) bsdaddr)" "2 \<le> n"
    and ap: "apart bsdaddr dst n" "p + 4 \<le> bsdaddr \<or> bsdaddr + n \<le> p"
    and i: "2 \<le> i" "i < n"
  shows "umem (snd (lazybsd_recvfrom K bsdaddr s buf len flags (Some dst) (Some p) st)) (dst + i)
    = umem sk (bsdaddr + i)"
proof -
  let ?m = "st32 p namelen (umem sk)"
  have same: "?m (bsdaddr + j) = umem sk (bsdaddr + j)" if "j < n" for j
    using ap(2) that by (auto simp: st32_def)
  have len: "freebsd_sa_len ?m bsdaddr = freebsd_sa_len (umem sk) bsdaddr"
    using same [of 0] n(2) by (simp add: freebsd_sa_len_def)
  have pre: "2 \<le> unat (freebsd_sa_len ?m bsdaddr)" "dst = bsdaddr \<or> apart bsdaddr dst (unat (freebsd_sa_len ?m bsdaddr))"
    using n ap(1) by (simp_all add: len)
  obtain j where j: "i = 2 + j" using i(1) le_Suc_ex by blast
  have "mread (freebsd2linux_sockaddr (Some dst) (Some bsdaddr) ?m) (dst + 2) (n - 2) ! j
      = mread ?m (bsdaddr + 2) (n - 2) ! j"
    using freebsd2linux_fields(2) [OF pre refl] by (simp add: len n(1))
  moreover have "j < n - 2" using i(2) j by simp
  ultimately show ?thesis
    using recv nl same [OF i(2)] j by (simp add: lazybsd_recvfrom_def Let_def)
qed

theorem recvfrom_ignores_fromlen_witness:
  "umem (snd (lazybsd_recvfrom stub_kern 5000 3 100 8 0 (Some 200) (Some 300) stub_st)) 210 = 77"
proof -
  let ?sk = "stub_st\<lparr>umem := (\<lambda>a. if a = 5000 then 16 else if a = 5010 then 77 else umem stub_st a)\<rparr>"
  have recv: "kern_recvit stub_kern 3
        \<lparr>msg_name = Some 5000, msg_namelen = ld32 (umem stub_st) 300, msg_iov = [\<lparr>iov_base = 100, iov_len = 8\<rparr>],
         msg_iovlen = 1, msg_control = None\<rparr> 0 stub_st = (0, 4, ?sk)"
    by (simp add: stub_kern_def)
  have n: "16 = unat (freebsd_sa_len (umem ?sk) 5000)" by (simp add: freebsd_sa_len_def)
  have "umem (snd (lazybsd_recvfrom stub_kern 5000 3 100 8 0 (Some 200) (Some 300) stub_st)) (200 + 10)
      = umem ?sk (5000 + 10)"
    by (rule recvfrom_ignores_fromlen [OF recv _ n]) (simp_all add: apart_def)
  then show ?thesis by simp
qed

end
