(* ===== verification/LB_Startup.thy ===== *)
theory LB_Startup
  imports LB_Prelude
begin

text \<open>
  \<^verbatim>\<open>bsd/lib/lazybsd_main.c\<close>: the table of initialisation tasks and \<open>mi_startup\<close>, which sorts it and
  runs it.  The table is a list of pointers to \<open>struct sysinit\<close> objects; a task may install more with
  \<open>sysinit_add\<close>, after which the merged table is sorted and run again.  What a task's function does
  is the parameter \<open>call\<close>; \<open>None\<close> is \<open>does not return\<close>, \<open>Some (Inl p)\<close> a panic.
\<close>

section \<open>The table\<close>

record sysinit_task =
  subsystem :: u32
  si_order :: u32
  func :: nat
  udata :: nat

record 'w boot =
  tasks :: "nat \<Rightarrow> sysinit_task"
  sysinit :: "nat list option"
  newsysinit :: "nat list option"
  bworld :: 'w

type_synonym 'w task_call = "nat \<Rightarrow> nat \<Rightarrow> 'w boot \<Rightarrow> 'w boot kresult option"

text \<open>FreeBSD's \<open>SI_SUB_DUMMY\<close> and \<open>SI_SUB_DONE\<close>.\<close>

abbreviation (input) SI_SUB_DUMMY :: u32 where "SI_SUB_DUMMY \<equiv> 0"
abbreviation (input) SI_SUB_DONE :: u32 where "SI_SUB_DONE \<equiv> 1"

text \<open>\<open>sysinit_add\<close>; \<open>malloc_ok\<close> says whether the \<open>M_NOWAIT\<close> allocation succeeds.\<close>

definition sysinit_add :: "bool \<Rightarrow> nat list \<Rightarrow> 'w boot \<Rightarrow> 'w boot kresult" where
  "sysinit_add malloc_ok ps st =
     (if \<not> malloc_ok then Inl (Panic ''cannot malloc for sysinit'')
      else
        let base = (case newsysinit st of
                      Some new \<Rightarrow> new
                    | None \<Rightarrow> (case sysinit st of Some old \<Rightarrow> old | None \<Rightarrow> []))
        in Inr (st\<lparr>newsysinit := Some (base @ ps)\<rparr>))"

section \<open>The sort\<close>

definition task_le :: "(nat \<Rightarrow> sysinit_task) \<Rightarrow> nat \<Rightarrow> nat \<Rightarrow> bool" where
  "task_le ts a b \<longleftrightarrow> subsystem (ts a) < subsystem (ts b)
     \<or> subsystem (ts a) = subsystem (ts b) \<and> si_order (ts a) \<le> si_order (ts b)"

text \<open>The interior loop: \<open>*sipp\<close> against each later entry, exchanged when out of order.  The first
  component is the final \<open>*sipp\<close>, the second the entries after it.\<close>

fun sort_inner :: "('a \<Rightarrow> 'a \<Rightarrow> bool) \<Rightarrow> 'a \<Rightarrow> 'a list \<Rightarrow> 'a \<times> 'a list" where
  "sort_inner le s [] = (s, [])"
| "sort_inner le s (x # xs) =
     (if le s x then (case sort_inner le s xs of (s', xs') \<Rightarrow> (s', x # xs'))
      else (case sort_inner le x xs of (s', xs') \<Rightarrow> (s', s # xs')))"

lemma sort_inner_length: "length (snd (sort_inner le s xs)) = length xs"
  by (induction xs arbitrary: s) (auto split: prod.splits, (metis snd_conv)+)

function sysinit_sort :: "('a \<Rightarrow> 'a \<Rightarrow> bool) \<Rightarrow> 'a list \<Rightarrow> 'a list" where
  "sysinit_sort le [] = []"
| "sysinit_sort le (s # xs) =
     (case sort_inner le s xs of (s', xs') \<Rightarrow> s' # sysinit_sort le xs')"
  by pat_completeness auto
termination
  by (relation "measure (\<lambda>(le, xs). length xs)") (auto, metis sort_inner_length less_Suc_eq snd_conv)

section \<open>Running the table\<close>

text \<open>The second loop of \<open>mi_startup\<close>, over the entries left to visit: the flag says that a task
  installed more and the loop left for \<open>restart\<close>.\<close>

fun mi_traverse :: "'w task_call \<Rightarrow> nat list \<Rightarrow> 'w boot \<Rightarrow> (bool \<times> 'w boot) kresult option" where
  "mi_traverse call [] st = Some (Inr (False, st))"
| "mi_traverse call (p # ps) st =
     (if subsystem (tasks st p) = SI_SUB_DUMMY \<or> subsystem (tasks st p) = SI_SUB_DONE
      then mi_traverse call ps st
      else
        (case call (func (tasks st p)) (udata (tasks st p)) st of
           None \<Rightarrow> None
         | Some (Inl e) \<Rightarrow> Some (Inl e)
         | Some (Inr st) \<Rightarrow>
             let st = st\<lparr>tasks := (tasks st)(p := (tasks st p)\<lparr>subsystem := SI_SUB_DONE\<rparr>)\<rparr>
             in case newsysinit st of
                  Some new \<Rightarrow> Some (Inr (True, st\<lparr>sysinit := Some new, newsysinit := None\<rparr>))
                | None \<Rightarrow> mi_traverse call ps st))"

partial_function (option) mi_restart :: "'w task_call \<Rightarrow> 'w boot \<Rightarrow> 'w boot kresult option" where
  "mi_restart call st =
     (let table = sysinit_sort (task_le (tasks st)) (case sysinit st of Some ps \<Rightarrow> ps | None \<Rightarrow> [])
      in case mi_traverse call table (st\<lparr>sysinit := Some table\<rparr>) of
           None \<Rightarrow> None
         | Some (Inl e) \<Rightarrow> Some (Inl e)
         | Some (Inr (again, st)) \<Rightarrow> if again then mi_restart call st else Some (Inr st))"

text \<open>\<open>linker_set\<close> is what lies between \<open>SET_BEGIN(sysinit_set)\<close> and \<open>SET_LIMIT(sysinit_set)\<close>.\<close>

definition mi_startup :: "'w task_call \<Rightarrow> nat list \<Rightarrow> 'w boot \<Rightarrow> 'w boot kresult option" where
  "mi_startup call linker_set st =
     mi_restart call (if sysinit st = None then st\<lparr>sysinit := Some linker_set\<rparr> else st)"

section \<open>The sort is a sort\<close>

locale total_preorder =
  fixes le :: "'a \<Rightarrow> 'a \<Rightarrow> bool"
  assumes le_total: "le x y \<or> le y x" and le_trans: "le x y \<Longrightarrow> le y z \<Longrightarrow> le x z"
begin

lemma le_refl [simp]: "le x x"
  using le_total by blast

lemma sort_inner_mset: "sort_inner le s xs = (s', xs') \<Longrightarrow> mset (s' # xs') = mset (s # xs)"
proof (induction xs arbitrary: s s' xs')
  case (Cons x xs)
  define a b where "a = (if le s x then s else x)" and "b = (if le s x then x else s)"
  then obtain ys where "sort_inner le a xs = (s', ys)" "xs' = b # ys"
    using Cons.prems by (auto split: if_splits prod.splits)
  then show ?case using Cons.IH [of a s' ys] by (auto simp: a_def b_def add_mset_commute split: if_splits)
qed simp

lemma sort_inner_min: "sort_inner le s xs = (s', xs') \<Longrightarrow> le s' s \<and> (\<forall>x\<in>set xs'. le s' x)"
proof (induction xs arbitrary: s s' xs')
  case (Cons x xs)
  show ?case
  proof (cases "le s x")
    case True
    then obtain ys where "sort_inner le s xs = (s', ys)" "xs' = x # ys"
      using Cons.prems by (auto split: prod.splits)
    then show ?thesis using Cons.IH [of s s' ys] True le_trans by auto
  next
    case False
    then obtain ys where "sort_inner le x xs = (s', ys)" "xs' = s # ys"
      using Cons.prems by (auto split: prod.splits)
    moreover have "le x s" using False le_total by blast
    ultimately show ?thesis using Cons.IH [of x s' ys] le_trans by auto
  qed
qed simp

lemma sysinit_sort_mset: "mset (sysinit_sort le xs) = mset xs"
proof (induction "length xs" arbitrary: xs)
  case (Suc n)
  then obtain s ys where xs: "xs = s # ys" by (cases xs) auto
  obtain s' ys' where inner: "sort_inner le s ys = (s', ys')" by force
  then have "length ys' = n" using sort_inner_length [of le s ys] Suc(2) xs by simp
  then show ?case using Suc(1) [of ys'] sort_inner_mset [OF inner] by (simp add: xs inner)
qed simp

lemma sysinit_sort_sorted: "sorted_wrt le (sysinit_sort le xs)"
proof (induction "length xs" arbitrary: xs)
  case (Suc n)
  then obtain s ys where xs: "xs = s # ys" by (cases xs) auto
  obtain s' ys' where inner: "sort_inner le s ys = (s', ys')" by force
  then have "length ys' = n" using sort_inner_length [of le s ys] Suc(2) xs by simp
  moreover have "set (sysinit_sort le ys') = set ys'"
    using sysinit_sort_mset [of ys'] by (metis set_mset_mset)
  ultimately show ?case using Suc(1) [of ys'] sort_inner_min [OF inner] by (simp add: xs inner)
qed simp

lemma sysinit_sort_set [simp]: "set (sysinit_sort le xs) = set xs"
  using sysinit_sort_mset by (metis set_mset_mset)

lemma sysinit_sort_distinct [simp]: "distinct (sysinit_sort le xs) = distinct xs"
  using sysinit_sort_mset by (metis mset_eq_imp_distinct_iff)

end

interpretation task: total_preorder "task_le ts" for ts
  by unfold_locales (auto simp: task_le_def)

section \<open>Tasks that keep to the interface\<close>

definition runnable :: "'w boot \<Rightarrow> nat \<Rightarrow> bool" where
  "runnable st p \<longleftrightarrow> subsystem (tasks st p) \<noteq> SI_SUB_DUMMY \<and> subsystem (tasks st p) \<noteq> SI_SUB_DONE"

definition table :: "'w boot \<Rightarrow> nat list" where
  "table st = (case newsysinit st of Some new \<Rightarrow> new | None \<Rightarrow> (case sysinit st of Some ps \<Rightarrow> ps | None \<Rightarrow> []))"

text \<open>
  Tasks that install others, reduced to what the restarts depend on: a function returns, notes its argument in \<open>bworld\<close>, so that the runs
  can be counted, and may install the tasks \<open>installs f\<close>.
\<close>

definition logging_call :: "(nat \<Rightarrow> nat list) \<Rightarrow> nat list task_call" where
  "logging_call installs f a st =
     (let st = st\<lparr>bworld := bworld st @ [a]\<rparr>
      in if installs f = [] then Some (Inr st) else Some (sysinit_add True (installs f) st))"

text \<open>The invariant of the run: with every task's \<open>udata\<close> its own address, the log has no
  repetitions and has exactly the tasks of the table that were runnable at first and are done.\<close>

definition boot_inv :: "nat set \<Rightarrow> 'w boot \<Rightarrow> nat list boot \<Rightarrow> bool" where
  "boot_inv U st0 st \<longleftrightarrow> finite U \<and> set (table st) \<subseteq> U
     \<and> (\<forall>p. udata (tasks st p) = p)
     \<and> (\<forall>p. tasks st p = tasks st0 p \<or> runnable st0 p \<and> tasks st p = (tasks st0 p)\<lparr>subsystem := SI_SUB_DONE\<rparr>)
     \<and> distinct (bworld st) \<and> set (bworld st) = {p. runnable st0 p \<and> \<not> runnable st p}
     \<and> set (bworld st) \<subseteq> U"

lemma runnable_done:
  "runnable (st\<lparr>tasks := (tasks st)(p := (tasks st p)\<lparr>subsystem := SI_SUB_DONE\<rparr>)\<rparr>) q
   \<longleftrightarrow> runnable st q \<and> q \<noteq> p"
  by (auto simp: runnable_def)

text \<open>One task run: what the loop body does to a state of the invariant.\<close>

lemma traverse_run:
  assumes "runnable st p" "udata (tasks st p) = p" "newsysinit st = None" "sysinit st = Some T"
    and I: "I = installs (func (tasks st p))"
    and s: "s = st\<lparr>bworld := bworld st @ [p], tasks := (tasks st)(p := (tasks st p)\<lparr>subsystem := SI_SUB_DONE\<rparr>)\<rparr>"
  shows "mi_traverse (logging_call installs) (p # ps) st =
    (if I = [] then mi_traverse (logging_call installs) ps s
     else Some (Inr (True, s\<lparr>sysinit := Some (T @ I), newsysinit := None\<rparr>)))"
  using assms by (simp add: logging_call_def sysinit_add_def runnable_def Let_def)

lemma traverse_skip:
  "\<not> runnable st p \<Longrightarrow> mi_traverse call (p # ps) st = mi_traverse call ps st"
  by (auto simp: runnable_def)

declare mi_traverse.simps(2) [simp del]

lemma boot_inv_run:
  assumes inv: "boot_inv U st0 st" and p: "runnable st p" "p \<in> U" and T: "set (table s) \<subseteq> U"
    and s: "tasks s = (tasks st)(p := (tasks st p)\<lparr>subsystem := SI_SUB_DONE\<rparr>)" "bworld s = bworld st @ [p]"
  shows "boot_inv U st0 s" "{q \<in> U. runnable s q} = {q \<in> U. runnable st q} - {p}"
proof -
  have r: "runnable s q \<longleftrightarrow> runnable st q \<and> q \<noteq> p" for q
    by (auto simp: runnable_def s(1))
  have p0: "runnable st0 p" "tasks st p = tasks st0 p"
    using inv p(1) by (auto simp: boot_inv_def runnable_def, metis+)
  have t: "tasks s q = tasks st0 q \<or> runnable st0 q \<and> tasks s q = (tasks st0 q)\<lparr>subsystem := SI_SUB_DONE\<rparr>" for q
    using inv p0 by (cases "q = p") (auto simp: s(1) boot_inv_def)
  have b: "set (bworld st) = {p. runnable st0 p \<and> \<not> runnable st p}" using inv by (simp add: boot_inv_def)
  then have "set (bworld s) = {p. runnable st0 p \<and> \<not> runnable s p}" using p0 p(1) by (auto simp: s(2) r)
  moreover have "distinct (bworld s)" using inv b p(1) by (simp add: s(2) boot_inv_def)
  moreover have "\<forall>q. udata (tasks s q) = q" using inv by (simp add: boot_inv_def s(1))
  moreover have "set (bworld s) \<subseteq> U" using inv p(2) by (auto simp: boot_inv_def s(2))
  ultimately show "boot_inv U st0 s" using inv T t unfolding boot_inv_def by blast
  show "{q \<in> U. runnable s q} = {q \<in> U. runnable st q} - {p}" using r by auto
qed

lemma traverse_ok:
  assumes "boot_inv U st0 st" "newsysinit st = None" "sysinit st = Some T" "set ps \<subseteq> set T"
    and I: "\<And>f. set (installs f) \<subseteq> U"
  shows "\<exists>again s. mi_traverse (logging_call installs) ps st = Some (Inr (again, s))
    \<and> boot_inv U st0 s \<and> newsysinit s = None \<and> (\<exists>T'. sysinit s = Some T' \<and> set T \<subseteq> set T')
    \<and> {q \<in> U. runnable s q} \<subseteq> {q \<in> U. runnable st q}
    \<and> (if again then {q \<in> U. runnable s q} \<noteq> {q \<in> U. runnable st q}
       else sysinit s = Some T \<and> (\<forall>p \<in> set ps. \<not> runnable s p))"
  using assms(1-4)
proof (induction ps arbitrary: st)
  case Nil
  then show ?case by (intro exI [of _ False] exI [of _ st]) simp
next
  case (Cons p ps)
  show ?case
  proof (cases "runnable st p")
    case False
    obtain again s where s: "mi_traverse (logging_call installs) ps st = Some (Inr (again, s))"
        "boot_inv U st0 s" "newsysinit s = None" "\<exists>T'. sysinit s = Some T' \<and> set T \<subseteq> set T'"
        "{q \<in> U. runnable s q} \<subseteq> {q \<in> U. runnable st q}"
        "if again then {q \<in> U. runnable s q} \<noteq> {q \<in> U. runnable st q}
         else sysinit s = Some T \<and> (\<forall>p \<in> set ps. \<not> runnable s p)"
      using Cons.IH [OF Cons.prems(1-3)] Cons.prems(4) by auto
    have "p \<in> U" using Cons.prems by (auto simp: boot_inv_def table_def)
    then have "\<not> runnable s p" using s(5) False by blast
    then show ?thesis using s False
      by (intro exI [of _ again] exI [of _ s]) (simp add: traverse_skip)
  next
    case True
    let ?s = "st\<lparr>bworld := bworld st @ [p], tasks := (tasks st)(p := (tasks st p)\<lparr>subsystem := SI_SUB_DONE\<rparr>)\<rparr>"
    let ?I = "installs (func (tasks st p))"
    let ?n = "?s\<lparr>sysinit := Some (T @ ?I), newsysinit := None\<rparr>"
    have U: "p \<in> U" "udata (tasks st p) = p" "set T \<subseteq> U"
      using Cons.prems by (auto simp: boot_inv_def table_def)
    have tab: "set (table ?s) \<subseteq> U" "set (table ?n) \<subseteq> U"
      using U(3) I Cons.prems(2,3) by (auto simp: table_def)
    note run = traverse_run [OF True U(2) Cons.prems(2,3) refl refl, of installs ps]
    note inv_s = boot_inv_run [OF Cons.prems(1) True U(1) tab(1)]
    note inv_n = boot_inv_run [OF Cons.prems(1) True U(1) tab(2)]
    show ?thesis
    proof (cases "?I = []")
      case False
      have "boot_inv U st0 ?n" "{q \<in> U. runnable ?n q} = {q \<in> U. runnable st q} - {p}"
        by (rule inv_n; simp)+
      then show ?thesis
        using run False U(1) True by (intro exI [of _ True] exI [of _ ?n]) auto
    next
      case nil: True
      have s: "boot_inv U st0 ?s" "{q \<in> U. runnable ?s q} = {q \<in> U. runnable st q} - {p}"
        by (rule inv_s; simp)+
      obtain again s where s': "mi_traverse (logging_call installs) ps ?s = Some (Inr (again, s))"
          "boot_inv U st0 s" "newsysinit s = None" "\<exists>T'. sysinit s = Some T' \<and> set T \<subseteq> set T'"
          "{q \<in> U. runnable s q} \<subseteq> {q \<in> U. runnable ?s q}"
          "if again then {q \<in> U. runnable s q} \<noteq> {q \<in> U. runnable ?s q}
           else sysinit s = Some T \<and> (\<forall>p \<in> set ps. \<not> runnable s p)"
        using Cons.IH [OF s(1)] Cons.prems(2-4) by auto
      have "\<not> runnable s p" "{q \<in> U. runnable s q} \<noteq> {q \<in> U. runnable st q}"
        using s'(5) s(2) U(1) True by blast+
      then show ?thesis
        using run nil s' s(2) by (intro exI [of _ again] exI [of _ s]) auto
    qed
  qed
qed

lemma restart_ok:
  assumes "boot_inv U st0 st" "newsysinit st = None" "sysinit st = Some T"
    and I: "\<And>f. set (installs f) \<subseteq> U"
  shows "\<exists>s T'. mi_restart (logging_call installs) st = Some (Inr s) \<and> boot_inv U st0 s
    \<and> sysinit s = Some T' \<and> newsysinit s = None \<and> set T \<subseteq> set T' \<and> (\<forall>p \<in> set T'. \<not> runnable s p)"
  using assms(1-3)
proof (induction "card {q \<in> U. runnable st q}" arbitrary: st T rule: less_induct)
  case less
  let ?T = "sysinit_sort (task_le (tasks st)) T"
  let ?s = "st\<lparr>sysinit := Some ?T\<rparr>"
  have inv: "boot_inv U st0 ?s" "runnable ?s = runnable st"
    using less.prems by (auto simp: boot_inv_def runnable_def table_def fun_eq_iff)
  have pre: "newsysinit ?s = None" "sysinit ?s = Some ?T" using less.prems by simp_all
  obtain again s where s: "mi_traverse (logging_call installs) ?T ?s = Some (Inr (again, s))"
      "boot_inv U st0 s" "newsysinit s = None" "\<exists>T'. sysinit s = Some T' \<and> set ?T \<subseteq> set T'"
      "{q \<in> U. runnable s q} \<subseteq> {q \<in> U. runnable ?s q}"
      "if again then {q \<in> U. runnable s q} \<noteq> {q \<in> U. runnable ?s q}
       else sysinit s = Some ?T \<and> (\<forall>p \<in> set ?T. \<not> runnable s p)"
    using traverse_ok [where installs = installs, OF inv(1) pre subset_refl I] by blast
  have step: "mi_restart (logging_call installs) st
      = (if again then mi_restart (logging_call installs) s else Some (Inr s))"
    using s(1) less.prems(3) by (subst mi_restart.simps) (simp add: Let_def)
  show ?case
  proof (cases again)
    case False
    then show ?thesis using s step by (auto simp: task.sysinit_sort_set)
  next
    case True
    obtain T' where T': "sysinit s = Some T'" "set T \<subseteq> set T'" using s(4) by (auto simp: task.sysinit_sort_set)
    have "card {q \<in> U. runnable s q} < card {q \<in> U. runnable st q}"
      using s(2,5,6) True inv(2) by (intro psubset_card_mono) (auto simp: boot_inv_def)
    from less.hyps [OF this s(2,3) T'(1)] show ?thesis using step True T'(2) by auto
  qed
qed

section \<open>Tasks that install nothing\<close>

text \<open>Any functions that act on the rest of the kernel and leave the table alone: what such a function does to it is the parameter \<open>eff\<close>,
  by function and argument.  It may return, panic or, as the scheduler of FreeBSD, not return.\<close>

type_synonym 'w task_effect = "nat \<Rightarrow> nat \<Rightarrow> 'w \<Rightarrow> 'w kresult option"

definition kernel_task :: "'w task_effect \<Rightarrow> 'w task_call" where
  "kernel_task eff f a st = map_option (map_sum id (\<lambda>w. st\<lparr>bworld := w\<rparr>)) (eff f a (bworld st))"

text \<open>Functions called one after the other, up to the first that panics or does not return.\<close>

fun run_tasks :: "'w task_effect \<Rightarrow> (nat \<times> nat) list \<Rightarrow> 'w \<Rightarrow> 'w kresult option" where
  "run_tasks eff [] w = Some (Inr w)"
| "run_tasks eff ((f, a) # xs) w =
     (case eff f a w of None \<Rightarrow> None | Some (Inl e) \<Rightarrow> Some (Inl e) | Some (Inr w') \<Rightarrow> run_tasks eff xs w')"

text \<open>A task table after the tasks of \<open>ps\<close> have run.\<close>

definition tasks_done :: "'w boot \<Rightarrow> nat set \<Rightarrow> nat \<Rightarrow> sysinit_task" where
  "tasks_done st D p = (if p \<in> D \<and> runnable st p then (tasks st p)\<lparr>subsystem := SI_SUB_DONE\<rparr> else tasks st p)"

lemma traverse_kernel:
  assumes "newsysinit st = None" "distinct ps"
  shows "mi_traverse (kernel_task eff) ps st =
    map_option (map_sum id (\<lambda>w. (False, st\<lparr>tasks := tasks_done st (set ps), bworld := w\<rparr>)))
      (run_tasks eff (map (\<lambda>p. (func (tasks st p), udata (tasks st p))) (filter (runnable st) ps)) (bworld st))"
  using assms
proof (induction ps arbitrary: st)
  case Nil
  then show ?case by (simp add: tasks_done_def [abs_def])
next
  case (Cons p ps)
  show ?case
  proof (cases "runnable st p")
    case False
    then have "tasks_done st (set (p # ps)) = tasks_done st (set ps)" by (auto simp: tasks_done_def fun_eq_iff)
    then show ?thesis using Cons False by (simp add: traverse_skip)
  next
    case True
    let ?s = "\<lambda>w. st\<lparr>bworld := w, tasks := (tasks st)(p := (tasks st p)\<lparr>subsystem := SI_SUB_DONE\<rparr>)\<rparr>"
    have same: "map (\<lambda>q. (func (tasks (?s w) q), udata (tasks (?s w) q))) (filter (runnable (?s w)) ps)
        = map (\<lambda>q. (func (tasks st q), udata (tasks st q))) (filter (runnable st) ps)" for w
      using Cons.prems(2) by (intro map_cong filter_cong) (auto simp: runnable_def)
    have "tasks_done (?s w) (set ps) = tasks_done st (set (p # ps))" for w
      using True Cons.prems(2) by (auto simp: tasks_done_def runnable_def fun_eq_iff)
    note ih = Cons.IH [of "?s w" for w, unfolded same this]
    have "subsystem (tasks st p) \<noteq> SI_SUB_DUMMY" "subsystem (tasks st p) \<noteq> SI_SUB_DONE"
      using True by (auto simp: runnable_def)
    then show ?thesis
      using ih Cons.prems True
      by (auto simp: mi_traverse.simps(2) kernel_task_def split: option.splits sum.splits)
  qed
qed

section \<open>Properties\<close>

text \<open>C34: the exchange sort of \<open>mi_startup\<close> puts the table in order of subsystem and, within a
  subsystem, of order, and neither loses nor repeats an entry.\<close>

theorem sysinit_sort_correct:
  "sorted_wrt (task_le ts) (sysinit_sort (task_le ts) ps) \<and> mset (sysinit_sort (task_le ts) ps) = mset ps"
  by (simp add: task.sysinit_sort_sorted task.sysinit_sort_mset)

text \<open>C35: the order of the boot.  When the linker set has no entry twice and the tasks install nothing (\<open>kernel_task\<close>: a task's function
  has any effect \<open>eff\<close> on the rest of the kernel, but does not touch the table), \<open>mi_startup\<close> amounts to calling the functions of the
  tasks that are neither placeholders nor done, each once with its own argument, in the sorted order, up to the first that panics or
  does not return; when all return, as the port needs although the comment expects the last one, the scheduler, not to, \<open>mi_startup\<close>
  returns with those tasks marked as done.\<close>

theorem mi_startup_order:
  assumes "sysinit st = None" "newsysinit st = None" "distinct ps"
  shows "mi_startup (kernel_task eff) ps st =
    (let ordered = sysinit_sort (task_le (tasks st)) ps
     in case run_tasks eff (map (\<lambda>p. (func (tasks st p), udata (tasks st p))) (filter (runnable st) ordered)) (bworld st) of
          None \<Rightarrow> None
        | Some (Inl e) \<Rightarrow> Some (Inl e)
        | Some (Inr w) \<Rightarrow> Some (Inr (st\<lparr>sysinit := Some ordered, tasks := tasks_done st (set ps), bworld := w\<rparr>)))"
proof -
  let ?T = "sysinit_sort (task_le (tasks st)) ps"
  let ?s = "st\<lparr>sysinit := Some ?T\<rparr>"
  have "runnable ?s = runnable st" by (simp add: runnable_def fun_eq_iff)
  moreover from this have "tasks_done ?s = tasks_done st" by (simp add: tasks_done_def fun_eq_iff)
  moreover have "distinct ?T" "set ?T = set ps"
    using assms(3) by (simp_all add: task.sysinit_sort_distinct task.sysinit_sort_set)
  ultimately show ?thesis
    using traverse_kernel [of ?s ?T eff] assms(1,2)
    by (auto simp: mi_startup_def mi_restart.simps [of _ "st\<lparr>sysinit := Some ps\<rparr>"] Let_def split: option.splits sum.splits)
qed

definition demo_boot :: "nat list boot" where
  "demo_boot = \<lparr>tasks = (\<lambda>p. \<lparr>subsystem = (if p = 3 then 0 else 100 - of_nat p), si_order = 0, func = p, udata = p\<rparr>),
     sysinit = None, newsysinit = None, bworld = []\<rparr>"

text \<open>Functions that note their argument: the second task of the set runs last, and when the first to run does not return, nothing does.\<close>

theorem mi_startup_order_witness:
  "(\<exists>s. mi_startup (kernel_task (\<lambda>f a w. Some (Inr (w @ [a])))) [2, 3, 4] demo_boot = Some (Inr s) \<and> bworld s = [4, 2])
   \<and> mi_startup (kernel_task (\<lambda>f a w. if f = 4 then None else Some (Inr (w @ [a])))) [2, 3, 4] demo_boot = None"
proof -
  have pre: "sysinit demo_boot = None" "newsysinit demo_boot = None" "distinct [2, 3, 4 :: nat]" by (simp_all add: demo_boot_def)
  show ?thesis
    by (simp only: mi_startup_order [OF pre] Let_def) (simp add: demo_boot_def task_le_def runnable_def)
qed

text \<open>When tasks install more tasks, of which there are finitely many, \<open>mi_startup\<close> still returns:
  it sorts and restarts after each installation, and at the end every task of the table, the
  installed ones included, is a placeholder or done, and the tasks that were run were each run
  exactly once.\<close>

theorem mi_startup_once:
  assumes "sysinit st = None" "newsysinit st = None" "\<And>p. udata (tasks st p) = p" "bworld st = []"
    and "finite U" "set ps \<subseteq> U" "\<And>f. set (installs f) \<subseteq> U"
  shows "\<exists>s T. mi_startup (logging_call installs) ps st = Some (Inr s) \<and> sysinit s = Some T \<and> set ps \<subseteq> set T
    \<and> (\<forall>p \<in> set T. \<not> runnable s p)
    \<and> distinct (bworld s) \<and> set (bworld s) = {p. runnable st p \<and> \<not> runnable s p}"
proof -
  let ?s = "st\<lparr>sysinit := Some ps\<rparr>"
  have "boot_inv U st ?s" using assms by (auto simp: boot_inv_def table_def runnable_def)
  from restart_ok [where installs = installs, OF this _ _ assms(7), of ps] assms(1,2)
  obtain s T where "mi_restart (logging_call installs) ?s = Some (Inr s)" "boot_inv U st s"
      "sysinit s = Some T" "set ps \<subseteq> set T" "\<forall>p \<in> set T. \<not> runnable s p" by auto
  then show ?thesis using assms(1) unfolding boot_inv_def by (auto simp: mi_startup_def)
qed

theorem mi_startup_once_witness:
  "\<exists>s T. mi_startup (logging_call (\<lambda>f. if f = 4 then [5, 6] else [])) [2, 3, 4] demo_boot = Some (Inr s)
     \<and> sysinit s = Some T \<and> distinct (bworld s) \<and> (\<forall>p \<in> set T. \<not> runnable s p)"
proof -
  have pre: "sysinit demo_boot = None" "newsysinit demo_boot = None" "udata (tasks demo_boot p) = p"
    "bworld demo_boot = []" for p by (simp_all add: demo_boot_def)
  have I: "set (if f = 4 then [5, 6] else []) \<subseteq> {2..6 :: nat}" for f :: nat by auto
  have ps: "set [2, 3, 4] \<subseteq> {2..6 :: nat}" by simp
  show ?thesis
    using mi_startup_once [where installs = "\<lambda>f. if f = 4 then [5, 6] else []", OF pre finite_atLeastAtMost ps I]
    by blast
qed

end
