(* ===== verification/LB_Kenv.thy ===== *)
theory LB_Kenv
  imports LB_Prelude
begin

text \<open>
  \<^verbatim>\<open>bsd/lib/lazybsd_kern_environment.c\<close>: the kernel environment, where tunables come from.
  \<open>kern_getenv\<close> and \<open>kern_setenv\<close> go to the host's environment (\<^verbatim>\<open>lazybsd_host.c\<close>), a map;
  \<open>getenv_array\<close> looks in the static and dynamic environments of the file, lists of strings
  of the form \<open>name=value\<close>.  \<open>strtoq\<close> is FreeBSD's, a parameter: it returns the number and the
  rest of the string after it.
\<close>

section \<open>State and lookups\<close>

record kenv =
  host_env :: "string \<Rightarrow> string option"
  dynamic_kenv :: bool
  kenvp :: "string list"
  kern_envp :: "string list option"
  md_envp :: "string list option"

type_synonym strtoq = "string \<Rightarrow> i64 \<times> string"

definition kern_getenv :: "string \<Rightarrow> kenv \<Rightarrow> string option" where
  "kern_getenv name st = host_env st name"

text \<open>\<open>lazybsd_setenv\<close> calls \<open>setenv(name, value, 1)\<close>, which refuses an empty name or one with \<open>=\<close>.\<close>

definition kern_setenv :: "string \<Rightarrow> string \<Rightarrow> kenv \<Rightarrow> int \<times> kenv" where
  "kern_setenv name value st =
     (if name = [] \<or> CHR ''='' \<in> set name then (-1, st)
      else (0, st\<lparr>host_env := (host_env st)(name \<mapsto> value)\<rparr>))"

definition testenv :: "string \<Rightarrow> kenv \<Rightarrow> bool" where
  "testenv name st \<longleftrightarrow> kern_getenv name st \<noteq> None"

text \<open>\<open>strlcpy\<close> into a buffer of \<open>bufsize\<close> bytes; the result is the string left in \<open>data\<close>.\<close>

definition getenv_string :: "string \<Rightarrow> nat \<Rightarrow> string \<Rightarrow> kenv \<Rightarrow> int \<times> string" where
  "getenv_string name bufsize data st =
     (case kern_getenv name st of
        Some tmp \<Rightarrow> (1, if bufsize = 0 then data else take (bufsize - 1) tmp)
      | None \<Rightarrow> (0, data))"

section \<open>Numbers\<close>

text \<open>The cases of the suffix fall through: each multiplies by 1024 once more.\<close>

definition scale_suffix :: "i64 \<Rightarrow> string \<Rightarrow> i64 option" where
  "scale_suffix iv vtp =
     (case vtp of
        [] \<Rightarrow> Some iv
      | c # _ \<Rightarrow>
          if c \<in> {CHR ''t'', CHR ''T''} then Some (iv * 1024 * 1024 * 1024 * 1024)
          else if c \<in> {CHR ''g'', CHR ''G''} then Some (iv * 1024 * 1024 * 1024)
          else if c \<in> {CHR ''m'', CHR ''M''} then Some (iv * 1024 * 1024)
          else if c \<in> {CHR ''k'', CHR ''K''} then Some (iv * 1024)
          else None)"

definition getenv_quad :: "strtoq \<Rightarrow> string \<Rightarrow> kenv \<Rightarrow> i64 option" where
  "getenv_quad strtoq name st =
     (case kern_getenv name st of
        None \<Rightarrow> None
      | Some val \<Rightarrow>
          (let (iv, vtp) = strtoq val
           in if vtp = val \<or> 2 \<le> length vtp then None else scale_suffix iv vtp))"

definition getenv_int :: "strtoq \<Rightarrow> string \<Rightarrow> kenv \<Rightarrow> i32 option" where
  "getenv_int strtoq name st = map_option (\<lambda>tmp. ucast tmp) (getenv_quad strtoq name st)"

definition getenv_uint :: "strtoq \<Rightarrow> string \<Rightarrow> kenv \<Rightarrow> u32 option" where
  "getenv_uint strtoq name st = map_option (\<lambda>tmp. ucast tmp) (getenv_quad strtoq name st)"

definition getenv_long :: "strtoq \<Rightarrow> string \<Rightarrow> kenv \<Rightarrow> i64 option" where
  "getenv_long strtoq name st = getenv_quad strtoq name st"

definition getenv_ulong :: "strtoq \<Rightarrow> string \<Rightarrow> kenv \<Rightarrow> u64 option" where
  "getenv_ulong strtoq name st = getenv_quad strtoq name st"

section \<open>The static and dynamic environments\<close>

fun getenv_dynamic_locked :: "string list \<Rightarrow> string \<Rightarrow> (nat \<times> string) option" where
  "getenv_dynamic_locked [] name = None"
| "getenv_dynamic_locked (cp # cps) name =
     (if take (length name) cp = name \<and> length name < length cp \<and> cp ! length name = CHR ''=''
      then Some (0, drop (length name + 1) cp)
      else map_option (\<lambda>(i, v). (Suc i, v)) (getenv_dynamic_locked cps name))"

text \<open>The block of a static environment, cut into its strings.  \<open>kernenv_next\<close> moves to the next one;
  an empty string ends the block.\<close>

fun kernenv_next :: "string list \<Rightarrow> string list" where
  "kernenv_next [] = []"
| "kernenv_next (_ # cps) = (case cps of [] # _ \<Rightarrow> [] | _ \<Rightarrow> cps)"

lemma kernenv_next_length: "length (kernenv_next (cp # cps)) < Suc (length cps)"
  by (auto split: list.split)

function getenv_static_from :: "string list \<Rightarrow> string \<Rightarrow> string option" where
  "getenv_static_from [] name = None"
| "getenv_static_from (cp # cps) name =
     (let len = length (takeWhile (\<lambda>c. c \<noteq> CHR ''='') cp)
      in if len = length cp then getenv_static_from (kernenv_next (cp # cps)) name
         else if take len name = take len cp \<and> length name = len then Some (drop (len + 1) cp)
         else getenv_static_from (kernenv_next (cp # cps)) name)"
  by pat_completeness auto
termination
  by (relation "measure (\<lambda>(cps, _). length cps)")
    (simp_all add: kernenv_next_length del: kernenv_next.simps)

definition getenv_static :: "string \<Rightarrow> kenv \<Rightarrow> string option" where
  "getenv_static name st =
     (case getenv_static_from (case md_envp st of Some b \<Rightarrow> b | None \<Rightarrow> []) name of
        Some v \<Rightarrow> Some v
      | None \<Rightarrow> getenv_static_from (case kern_envp st of Some b \<Rightarrow> b | None \<Rightarrow> []) name)"

definition kenv_acquire :: "string \<Rightarrow> kenv \<Rightarrow> string option" where
  "kenv_acquire name st =
     (if dynamic_kenv st then map_option snd (getenv_dynamic_locked (kenvp st) name)
      else getenv_static name st)"

section \<open>Arrays of numbers\<close>

text \<open>The suffix of one number: the shift, and the string after the suffix and the separators.\<close>

definition array_suffix :: "string \<Rightarrow> (nat \<times> string) option" where
  "array_suffix endp =
     (case endp of
        [] \<Rightarrow> Some (0, [])
      | c # cs \<Rightarrow>
          if c \<in> {CHR ''t'', CHR ''T''} then Some (40, cs)
          else if c \<in> {CHR ''g'', CHR ''G''} then Some (30, cs)
          else if c \<in> {CHR ''m'', CHR ''M''} then Some (20, cs)
          else if c \<in> {CHR ''k'', CHR ''K''} then Some (10, cs)
          else if c \<in> {CHR '' '', CHR 0x09, CHR '',''} then Some (0, c # cs)
          else None)"

definition skip_separators :: "string \<Rightarrow> string" where
  "skip_separators = dropWhile (\<lambda>c. c = CHR 0x09 \<or> c = CHR '','' \<or> c = CHR '' '')"

lemma array_suffix_length: "array_suffix xs = Some (shift, ys) \<Longrightarrow> length ys \<le> length xs"
  by (cases xs) (simp_all add: array_suffix_def split: if_split_asm, metis length_Cons order_refl)

lemma skip_separators_length: "length (skip_separators xs) \<le> length xs"
  by (simp add: skip_separators_def length_dropWhile_le)

text \<open>The range check of each element size.\<close>

definition array_range_ok :: "int \<Rightarrow> bool \<Rightarrow> int \<Rightarrow> bool" where
  "array_range_ok type_size allow_signed val \<longleftrightarrow>
     (if type_size = 1 then (if allow_signed then -128 \<le> val \<and> val \<le> 127 else 0 \<le> val \<and> val \<le> 255)
      else if type_size = 2 then (if allow_signed then -32768 \<le> val \<and> val \<le> 32767 else 0 \<le> val \<and> val \<le> 65535)
      else if type_size = 4 then (if allow_signed then INT_MIN \<le> val \<and> val \<le> INT_MAX else val \<le> UINT_MAX)
      else type_size = 8)"

text \<open>The loop.  \<open>out\<close> is what has been stored in \<open>pdata\<close>, oldest first; the result says whether the
  loop ended normally.  \<open>strtoq\<close> returns a suffix of its argument, so \<open>ptr == end\<close> is
  that nothing was consumed, and every other round shortens the string.\<close>

function getenv_array_loop ::
    "strtoq \<Rightarrow> int \<Rightarrow> int \<Rightarrow> bool \<Rightarrow> i64 list \<Rightarrow> string \<Rightarrow> bool \<times> i64 list" where
  "getenv_array_loop strtoq maxn type_size allow_signed out ptr =
     (if ptr = [] then (True, out)
      else
        let (val, endp) = strtoq ptr
        in if sint val < 0 \<and> \<not> allow_signed then (False, out)
           else if \<not> length endp < length ptr then (False, out)
           else
             (case array_suffix endp of
                None \<Rightarrow> (False, out)
              | Some (shift, endp) \<Rightarrow>
                  let ptr' = skip_separators endp;
                      val' = push_bit shift val
                  in if signed_drop_bit shift val' \<noteq> val then (False, out)
                     else if \<not> int (length out) < maxn then (False, out)
                     else if \<not> array_range_ok type_size allow_signed (sint val') then (False, out)
                     else getenv_array_loop strtoq maxn type_size allow_signed (out @ [val']) ptr'))"
  by pat_completeness auto
termination
proof (relation "measure (\<lambda>(_, _, _, _, _, ptr). length ptr)", goal_cases)
  case (2 strtoq maxn type_size allow_signed out ptr r val endp s shift end' ptr' val')
  have "length ptr' \<le> length end'" using 2 by (simp add: skip_separators_length)
  also have "\<dots> \<le> length endp" using 2 array_suffix_length by fastforce
  finally show ?case using 2 by simp
qed simp

declare getenv_array_loop.simps [simp del]

text \<open>The result: the return code, what was stored, and \<open>*psize\<close> if it was set.  \<open>size\<close> and \<open>type_size\<close>
  are a buffer's and an element's size, so the division is of non-negative numbers.\<close>

definition getenv_array ::
    "strtoq \<Rightarrow> string \<Rightarrow> int \<Rightarrow> int \<Rightarrow> bool \<Rightarrow> kenv \<Rightarrow> int \<times> i64 list \<times> int option" where
  "getenv_array strtoq name bufsize type_size allow_signed st =
     (case kenv_acquire name st of
        None \<Rightarrow> (0, [], None)
      | Some buf \<Rightarrow>
          (case getenv_array_loop strtoq (bufsize div type_size) type_size allow_signed [] buf of
             (False, out) \<Rightarrow> (0, out, None)
           | (True, out) \<Rightarrow>
               (if out = [] then 0 else 1, out, Some (int (length out) * type_size))))"

section \<open>Tunables\<close>

text \<open>\<open>TUNABLE_INT_FETCH\<close> and its siblings call the reader and leave the variable alone when it fails.\<close>

definition tunable_int_init :: "strtoq \<Rightarrow> string \<Rightarrow> kenv \<Rightarrow> i32 \<Rightarrow> i32" where
  "tunable_int_init strtoq path st var = (case getenv_int strtoq path st of Some v \<Rightarrow> v | None \<Rightarrow> var)"

definition tunable_long_init :: "strtoq \<Rightarrow> string \<Rightarrow> kenv \<Rightarrow> i64 \<Rightarrow> i64" where
  "tunable_long_init strtoq path st var = (case getenv_long strtoq path st of Some v \<Rightarrow> v | None \<Rightarrow> var)"

definition tunable_ulong_init :: "strtoq \<Rightarrow> string \<Rightarrow> kenv \<Rightarrow> u64 \<Rightarrow> u64" where
  "tunable_ulong_init strtoq path st var = (case getenv_ulong strtoq path st of Some v \<Rightarrow> v | None \<Rightarrow> var)"

definition tunable_quad_init :: "strtoq \<Rightarrow> string \<Rightarrow> kenv \<Rightarrow> i64 \<Rightarrow> i64" where
  "tunable_quad_init strtoq path st var = (case getenv_quad strtoq path st of Some v \<Rightarrow> v | None \<Rightarrow> var)"

definition tunable_str_init :: "string \<Rightarrow> nat \<Rightarrow> kenv \<Rightarrow> string \<Rightarrow> string" where
  "tunable_str_init path bufsize st var = snd (getenv_string path bufsize var st)"

end
