(* ===== verification/LB_Digits.thy ===== *)
theory LB_Digits
  imports LB_Prelude
begin

text \<open>
  Numbers as digits, for the parts of the program that read and print them: the digits of a number
  in a base, most significant first, their value, and decimal strings.
\<close>

section \<open>Digits in a base\<close>

definition base_val :: "nat \<Rightarrow> nat list \<Rightarrow> nat" where
  "base_val b ds = foldl (\<lambda>a d. b * a + d) 0 ds"

lemma base_val_simps [simp]: "base_val b [] = 0" "base_val b (ds @ [d]) = b * base_val b ds + d"
  by (simp_all add: base_val_def)

lemma base_val_one [simp]: "base_val b [d] = d"
  by (simp add: base_val_def)

fun digits :: "nat \<Rightarrow> nat \<Rightarrow> nat list" where
  "digits b n = (if b < 2 \<or> n < b then [n] else digits b (n div b) @ [n mod b])"

declare digits.simps [simp del]

lemma digits_small: "n < b \<Longrightarrow> digits b n = [n]"
  by (simp add: digits.simps)

lemma digits_step: "2 \<le> b \<Longrightarrow> b \<le> n \<Longrightarrow> digits b n = digits b (n div b) @ [n mod b]"
  by (subst digits.simps) simp

lemma base_val_digits [simp]: "2 \<le> b \<Longrightarrow> base_val b (digits b n) = n"
proof (induction b n rule: digits.induct)
  case (1 b n)
  then show ?case
    by (cases "n < b") (simp_all add: digits_small digits_step)
qed

lemma digits_lt: "2 \<le> b \<Longrightarrow> d \<in> set (digits b n) \<Longrightarrow> d < b"
proof (induction b n rule: digits.induct)
  case (1 b n)
  then show ?case by (cases "n < b") (auto simp: digits_small digits_step)
qed

lemma digits_nonempty [simp]: "digits b n \<noteq> []"
  by (subst digits.simps) simp

lemma digits_leading: "2 \<le> b \<Longrightarrow> 0 < n \<Longrightarrow> hd (digits b n) \<noteq> 0"
proof (induction b n rule: digits.induct)
  case (1 b n)
  show ?case
  proof (cases "n < b")
    case False
    then have "0 < n div b" using 1 by (simp add: div_greater_zero_iff)
    with 1 False show ?thesis by (simp add: digits_step hd_append)
  qed (use 1 in \<open>simp add: digits_small\<close>)
qed

lemma digits_length: "2 \<le> b \<Longrightarrow> n < b ^ k \<Longrightarrow> 0 < k \<Longrightarrow> length (digits b n) \<le> k"
proof (induction b n arbitrary: k rule: digits.induct)
  case (1 b n)
  show ?case
  proof (cases "n < b")
    case False
    with 1 obtain j where k: "k = Suc j" "0 < j" by (cases k) (auto, metis gr0I power_0 mult.right_neutral)
    have "n div b < b ^ j" using 1 k by (simp add: less_mult_imp_div_less mult.commute)
    with 1 False k show ?thesis by (simp add: digits_step)
  qed (use 1 in \<open>simp add: digits_small\<close>)
qed

section \<open>Decimal strings\<close>

definition dec_digit :: "nat \<Rightarrow> char" where
  "dec_digit d = char_of (48 + d)"

definition is_dec :: "char \<Rightarrow> bool" where
  "is_dec c \<longleftrightarrow> 48 \<le> (of_char c :: nat) \<and> (of_char c :: nat) \<le> 57"

abbreviation dec_val :: "nat list \<Rightarrow> nat" where
  "dec_val \<equiv> base_val 10"

definition show_nat :: "nat \<Rightarrow> string" where
  "show_nat n = map dec_digit (digits 10 n)"

lemma is_dec_digit: "d < 10 \<Longrightarrow> is_dec (dec_digit d) \<and> of_char (dec_digit d) - 48 = d"
  by (simp add: is_dec_def dec_digit_def)

lemma show_nat_dec: "c \<in> set (show_nat n) \<Longrightarrow> is_dec c"
  using digits_lt [of 10 _ n] is_dec_digit by (auto simp: show_nat_def)

lemma show_nat_nonempty [simp]: "show_nat n \<noteq> []"
  by (simp add: show_nat_def)

lemma show_nat_values: "map (\<lambda>c. of_char c - 48) (show_nat n) = digits 10 n"
  using digits_lt [of 10 _ n] is_dec_digit by (auto simp: show_nat_def intro!: map_idI)

lemma takeWhile_show_nat:
  assumes "rest = [] \<or> \<not> is_dec (hd rest)"
  shows "takeWhile is_dec (show_nat n @ rest) = show_nat n" "dropWhile is_dec (show_nat n @ rest) = rest"
proof -
  have "takeWhile is_dec rest = []" "dropWhile is_dec rest = rest" using assms by (cases rest; auto)+
  then show "takeWhile is_dec (show_nat n @ rest) = show_nat n" "dropWhile is_dec (show_nat n @ rest) = rest"
    using show_nat_dec by auto
qed

end
