(* ===== verification/LB_Kenv_Props.thy ===== *)
theory LB_Kenv_Props
  imports LB_Kenv LB_Digits
begin

text \<open>
  Properties of the kernel environment: the two lookups against the map they implement, the
  bounds of \<open>getenv_array\<close>, the numbers \<open>getenv_quad\<close> reads, and what \<open>getenv_array\<close> cannot see.
\<close>

section \<open>Lookups\<close>

text \<open>The string of a variable.\<close>

definition env_string :: "string \<times> string \<Rightarrow> string" where
  "env_string nv = fst nv @ CHR ''='' # snd nv"

lemma takeWhile_env_string: "CHR ''='' \<notin> set n \<Longrightarrow> takeWhile (\<lambda>c. c \<noteq> CHR ''='') (env_string (n, v)) = n"
  by (auto simp: env_string_def takeWhile_append takeWhile_eq_all_conv)

lemma kernenv_next_env: "kernenv_next (cp # map env_string env) = map env_string env"
  by (cases env) (auto simp: env_string_def split: list.split)

text \<open>An entry matches in the dynamic list exactly when it is the variable's.\<close>

lemma env_string_match:
  assumes "CHR ''='' \<notin> set n" "CHR ''='' \<notin> set name"
  shows "take (length name) (env_string (n, v)) = name \<and> length name < length (env_string (n, v))
      \<and> env_string (n, v) ! length name = CHR ''='' \<longleftrightarrow> n = name"
proof
  assume m: "take (length name) (env_string (n, v)) = name \<and> length name < length (env_string (n, v))
      \<and> env_string (n, v) ! length name = CHR ''=''"
  then have eq: "env_string (n, v) = name @ CHR ''='' # drop (Suc (length name)) (env_string (n, v))"
    by (metis id_take_nth_drop)
  then have "takeWhile (\<lambda>c. c \<noteq> CHR ''='') (env_string (n, v)) = name"
    using assms(2) by (metis env_string_def fst_conv snd_conv takeWhile_env_string)
  then show "n = name" using assms(1) by (simp add: takeWhile_env_string)
qed (simp add: env_string_def nth_append)

text \<open>C36: on an environment of \<open>name=value\<close> strings whose names have no \<open>=\<close>, the static and the dynamic
  lookup both return the value of the first entry of that name, and nothing for a name that is
  not there.\<close>

theorem kenv_lookup:
  assumes "\<And>n v. (n, v) \<in> set env \<Longrightarrow> CHR ''='' \<notin> set n" "CHR ''='' \<notin> set name"
  shows "getenv_static_from (map env_string env) name = map_of env name
    \<and> map_option snd (getenv_dynamic_locked (map env_string env) name) = map_of env name"
proof
  show "getenv_static_from (map env_string env) name = map_of env name"
    using assms(1)
  proof (induction env)
    case (Cons nv env)
    obtain n v where nv: "nv = (n, v)" by force
    have n: "CHR ''='' \<notin> set n" using Cons.prems nv by auto
    have len: "length n \<noteq> length (env_string (n, v))" by (simp add: env_string_def)
    have "take (length n) (env_string (n, v)) = n" "drop (length n + 1) (env_string (n, v)) = v"
      by (simp_all add: env_string_def)
    then show ?case
      using Cons n len by (auto simp: nv Let_def takeWhile_env_string kernenv_next_env simp del: kernenv_next.simps)
  qed simp
  show "map_option snd (getenv_dynamic_locked (map env_string env) name) = map_of env name"
    using assms(1)
  proof (induction env)
    case (Cons nv env)
    obtain n v where nv: "nv = (n, v)" by force
    have n: "CHR ''='' \<notin> set n" using Cons.prems nv by auto
    have d: "drop (length n + 1) (env_string (n, v)) = v" by (simp add: env_string_def)
    have "map_option snd (map_option (\<lambda>(i, v). (Suc i, v)) x) = map_option snd x" for x :: "(nat \<times> string) option"
      by (cases x) auto
    then show ?case
      using Cons d env_string_match [OF n assms(2), of v] by (auto simp: nv)
  qed simp
qed

theorem kenv_lookup_witness:
  "getenv_static_from (map env_string [(''a'', ''1''), (''b'', ''2'')]) ''b'' = Some ''2''"
proof -
  have "getenv_static_from (map env_string [(''a'', ''1''), (''b'', ''2'')]) ''b''
      = map_of [(''a'', ''1''), (''b'', ''2'')] ''b''"
    by (rule kenv_lookup [THEN conjunct1]) auto
  also have "\<dots> = Some ''2''" by simp
  finally show ?thesis .
qed

section \<open>Arrays\<close>

text \<open>What an element of the given size may hold.\<close>

definition elem_fits :: "int \<Rightarrow> bool \<Rightarrow> i64 \<Rightarrow> bool" where
  "elem_fits type_size allow_signed v \<longleftrightarrow> type_size \<in> {1, 2, 4, 8} \<and>
     (if allow_signed then - (2 ^ (8 * nat type_size - 1)) \<le> sint v \<and> sint v < 2 ^ (8 * nat type_size - 1)
      else 0 \<le> sint v \<and> sint v < 2 ^ (8 * nat type_size))"

lemma shift_keeps_sign:
  assumes "signed_drop_bit n (w :: i64) = v" "0 \<le> sint v"
  shows "0 \<le> sint w"
  using assms by (auto simp: sint_signed_drop_bit_eq)

lemma array_range_fits:
  assumes "array_range_ok type_size allow_signed (sint v)" "\<not> allow_signed \<Longrightarrow> 0 \<le> sint v"
  shows "elem_fits type_size allow_signed v"
  using assms sint_range_size [of v] by (auto simp: array_range_ok_def elem_fits_def word_size split: if_splits)

text \<open>One round of the loop: it stops with what it has, or stores one more element.\<close>

lemma getenv_array_round:
  "(\<exists>b. getenv_array_loop strtoq maxn type_size allow_signed out ptr = (b, out))
   \<or> (\<exists>v ptr'. getenv_array_loop strtoq maxn type_size allow_signed out ptr
          = getenv_array_loop strtoq maxn type_size allow_signed (out @ [v]) ptr'
        \<and> length ptr' < length ptr \<and> int (length out) < maxn \<and> elem_fits type_size allow_signed v)"
proof -
  obtain val endp where st: "strtoq ptr = (val, endp)" by force
  let ?loop = "getenv_array_loop strtoq maxn type_size allow_signed"
  show ?thesis
  proof (cases "array_suffix endp")
    case None
    then have "?loop out ptr = (ptr = [], out)" by (subst getenv_array_loop.simps) (simp add: st)
    then show ?thesis by blast
  next
    case (Some p)
    then obtain shift end' where p: "array_suffix endp = Some (shift, end')" by (cases p) auto
    let ?ptr = "skip_separators end'" and ?v = "push_bit shift val"
    define stop where "stop \<longleftrightarrow> ptr = [] \<or> sint val < 0 \<and> \<not> allow_signed \<or> \<not> length endp < length ptr
      \<or> signed_drop_bit shift ?v \<noteq> val \<or> \<not> int (length out) < maxn \<or> \<not> array_range_ok type_size allow_signed (sint ?v)"
    show ?thesis
    proof (cases stop)
      case True
      then have "?loop out ptr = (ptr = [], out)"
        by (subst getenv_array_loop.simps) (auto simp: st p stop_def Let_def)
      then show ?thesis by blast
    next
      case False
      then have "?loop out ptr = ?loop (out @ [?v]) ?ptr"
        by (subst getenv_array_loop.simps) (auto simp: st p stop_def Let_def)
      moreover have "length ?ptr < length ptr"
        using False array_suffix_length [OF p] skip_separators_length [of end'] by (simp add: stop_def)
      moreover have "elem_fits type_size allow_signed ?v"
        using False shift_keeps_sign [of shift ?v val] by (intro array_range_fits) (auto simp: stop_def)
      ultimately show ?thesis using False by (auto simp: stop_def)
    qed
  qed
qed

lemma getenv_array_loop_ok:
  assumes "int (length out) \<le> max 0 maxn" "\<forall>v\<in>set out. elem_fits type_size allow_signed v"
    "getenv_array_loop strtoq maxn type_size allow_signed out ptr = (b, res)"
  shows "int (length res) \<le> max 0 maxn \<and> (\<forall>v\<in>set res. elem_fits type_size allow_signed v)"
  using assms
proof (induction "length ptr" arbitrary: ptr out rule: less_induct)
  case less
  from getenv_array_round [of strtoq maxn type_size allow_signed out ptr]
  consider "res = out" | v ptr' where "length ptr' < length ptr" "int (length out) < maxn"
      "elem_fits type_size allow_signed v"
      "getenv_array_loop strtoq maxn type_size allow_signed (out @ [v]) ptr' = (b, res)"
    using less.prems(3) by auto
  then show ?case
  proof cases
    case 1
    then show ?thesis using less.prems by simp
  next
    case (2 v ptr')
    show ?thesis
      by (rule less.hyps [OF 2(1) _ _ 2(4)]) (use 2 less.prems in auto)
  qed
qed

text \<open>\<open>getenv_array\<close> never stores more elements than the buffer holds, and each element it stores
  fits its size and signedness, whatever the environment's string and whatever \<open>strtoq\<close> makes of it;
  on success \<open>*psize\<close> is the bytes stored.\<close>

theorem getenv_array_in_bounds:
  assumes "0 \<le> bufsize" "0 < type_size"
    and "getenv_array strtoq name bufsize type_size allow_signed st = (rc, out, psize)"
  shows "int (length out) * type_size \<le> bufsize \<and> (\<forall>v \<in> set out. elem_fits type_size allow_signed v)
    \<and> (rc = 1 \<longrightarrow> psize = Some (int (length out) * type_size) \<and> out \<noteq> [])"
proof -
  have all: "int (length out) \<le> max 0 (bufsize div type_size) \<and> (\<forall>v \<in> set out. elem_fits type_size allow_signed v)
    \<and> (rc = 1 \<longrightarrow> psize = Some (int (length out) * type_size) \<and> out \<noteq> [])"
  proof (cases "kenv_acquire name st")
    case None
    then show ?thesis using assms(3) by (simp add: getenv_array_def)
  next
    case (Some buf)
    obtain b res where loop: "getenv_array_loop strtoq (bufsize div type_size) type_size allow_signed [] buf = (b, res)"
      by force
    note ok = getenv_array_loop_ok [OF _ _ loop]
    have "out = res" "rc = 1 \<longrightarrow> psize = Some (int (length out) * type_size) \<and> out \<noteq> []"
      using assms(3) by (auto simp: getenv_array_def Some loop split: bool.splits if_splits)
    then show ?thesis using ok by simp
  qed
  have "0 \<le> bufsize div type_size" using assms by (simp add: pos_imp_zdiv_nonneg_iff)
  then have n: "int (length out) \<le> bufsize div type_size" using all by simp
  have "int (length out) * type_size \<le> bufsize div type_size * type_size"
    using n assms(2) by (intro mult_right_mono) auto
  also have "\<dots> \<le> bufsize"
    using div_mult_mod_eq [of bufsize type_size] pos_mod_sign [OF assms(2), of bufsize] by linarith
  finally show ?thesis using all by blast
qed

section \<open>Decimal numbers\<close>

text \<open>What the documentation of \<open>strtoq\<close> says of a decimal number that does not start with 0 and fits
  a \<open>quad_t\<close>: it is read up to the first character that is not a digit.\<close>

definition strtoq_decimal :: "strtoq \<Rightarrow> bool" where
  "strtoq_decimal strtoq \<longleftrightarrow>
     (\<forall>ds rest. ds \<noteq> [] \<longrightarrow> hd ds \<noteq> 0 \<longrightarrow> (\<forall>d \<in> set ds. d < 10) \<longrightarrow> dec_val ds < 2 ^ 63
        \<longrightarrow> (rest = [] \<or> \<not> is_dec (hd rest))
        \<longrightarrow> strtoq (map dec_digit ds @ rest) = (of_nat (dec_val ds), rest))"

definition suffixes :: "(string \<times> nat) list" where
  "suffixes = [([], 0), (''k'', 1), (''K'', 1), (''m'', 2), (''M'', 2), (''g'', 3), (''G'', 3),
     (''t'', 4), (''T'', 4)]"

lemma suffixes_scale:
  "(suf, k) \<in> set suffixes \<Longrightarrow> scale_suffix iv suf = Some (iv * 1024 ^ k) \<and> length suf \<le> 1
     \<and> (suf = [] \<or> \<not> is_dec (hd suf))"
  by (auto simp: suffixes_def scale_suffix_def is_dec_def eval_nat_numeral)

text \<open>A tunable written as a decimal number with one of the suffixes k, m, g, t (either case) or none is
  read as that number times the power of 1024, in 64 bits; \<open>getenv_int\<close> and \<open>getenv_uint\<close> keep the low
  32 bits, without a check.\<close>

theorem getenv_quad_decimal:
  assumes "strtoq_decimal strtoq" "ds \<noteq> []" "hd ds \<noteq> 0" "\<And>d. d \<in> set ds \<Longrightarrow> d < 10" "dec_val ds < 2 ^ 63"
    and suf: "(suf, k) \<in> set suffixes" and env: "kern_getenv name st = Some (map dec_digit ds @ suf)"
  shows "getenv_quad strtoq name st = Some (of_nat (dec_val ds) * 1024 ^ k)
    \<and> getenv_int strtoq name st = Some (of_nat (dec_val ds * 1024 ^ k))
    \<and> getenv_uint strtoq name st = Some (of_nat (dec_val ds * 1024 ^ k))"
proof -
  note s = suffixes_scale [OF suf]
  have "strtoq (map dec_digit ds @ suf) = (of_nat (dec_val ds), suf)"
    using assms(1-5) s unfolding strtoq_decimal_def by blast
  then have q: "getenv_quad strtoq name st = Some (of_nat (dec_val ds) * 1024 ^ k)"
    using env s [of "of_nat (dec_val ds)"] assms(2) by (auto simp: getenv_quad_def)
  have "(ucast (of_nat n :: u64) :: u32) = of_nat n" for n
    by (rule bit_word_eqI) (simp add: bit_simps)
  from this [of "dec_val ds * 1024 ^ k"] show ?thesis
    using q by (simp add: getenv_int_def getenv_uint_def)
qed

definition simple_strtoq :: strtoq where
  "simple_strtoq s = (of_nat (dec_val (map (\<lambda>c. of_char c - 48) (takeWhile is_dec s))), dropWhile is_dec s)"

lemma simple_strtoq_decimal: "strtoq_decimal simple_strtoq"
  unfolding strtoq_decimal_def
proof (intro allI impI)
  fix ds :: "nat list" and rest assume ds: "\<forall>d \<in> set ds. d < 10" and rest: "rest = [] \<or> \<not> is_dec (hd rest)"
  have tw: "takeWhile is_dec rest = []" "dropWhile is_dec rest = rest" using rest by (cases rest; auto)+
  have all: "\<forall>c \<in> set (map dec_digit ds). is_dec c" using ds is_dec_digit by auto
  have "map (\<lambda>c. of_char c - 48) (map dec_digit ds) = ds"
    using ds is_dec_digit by (auto intro!: map_idI)
  then show "simple_strtoq (map dec_digit ds @ rest) = (of_nat (dec_val ds), rest)"
    using takeWhile_append2 [of "map dec_digit ds" is_dec rest] dropWhile_append2 [of "map dec_digit ds" is_dec rest]
      all tw by (simp add: simple_strtoq_def del: takeWhile_append2 dropWhile_append2)
qed

definition demo_kenv :: kenv where
  "demo_kenv = \<lparr>host_env = [''kern.ncallout'' \<mapsto> ''16k''], dynamic_kenv = False, kenvp = [],
     kern_envp = None, md_envp = Some [''hw.list=1,2k'']\<rparr>"

theorem getenv_quad_decimal_witness:
  "getenv_int simple_strtoq ''kern.ncallout'' demo_kenv = Some (16 * 1024)"
proof -
  have "kern_getenv ''kern.ncallout'' demo_kenv = Some (map dec_digit [1, 6] @ ''k'')"
    by (simp add: demo_kenv_def kern_getenv_def dec_digit_def) code_simp
  moreover have "d < 10" if "d \<in> set [1, 6]" for d :: nat using that by auto
  moreover have "(''k'', 1) \<in> set suffixes" "dec_val [1, 6] = 16" by (simp_all add: suffixes_def base_val_def)
  ultimately show ?thesis
    using getenv_quad_decimal [OF simple_strtoq_decimal, of "[1, 6]" "''k''" 1 "''kern.ncallout''" demo_kenv] by simp
qed

theorem getenv_array_in_bounds_witness:
  "\<exists>rc out psize. getenv_array simple_strtoq ''hw.list'' 8 4 True demo_kenv = (rc, out, psize)
     \<and> int (length out) * 4 \<le> 8"
proof -
  obtain rc out psize where "getenv_array simple_strtoq ''hw.list'' 8 4 True demo_kenv = (rc, out, psize)"
    using prod_cases3 by blast
  with getenv_array_in_bounds [OF _ _ this] show ?thesis by auto
qed

section \<open>What arrays do not see\<close>

text \<open>\<open>getenv_array\<close> does not look where \<open>kern_setenv\<close> and \<open>kern_getenv\<close> do: with the environments as the
  file initialises them (no static block, not dynamic) it finds no variable, also none that was
  just set.\<close>

theorem getenv_array_blind:
  assumes "dynamic_kenv st = False" "kern_envp st = None" "md_envp st = None"
  shows "getenv_array strtoq name' bufsize type_size allow_signed (snd (kern_setenv name val st)) = (0, [], None)"
  using assms by (auto simp: getenv_array_def kenv_acquire_def getenv_static_def kern_setenv_def)

theorem getenv_array_blind_witness:
  "getenv_array simple_strtoq ''a'' 8 4 True (snd (kern_setenv ''a'' ''1 2'' (demo_kenv\<lparr>md_envp := None\<rparr>)))
     = (0, [], None)"
  by (rule getenv_array_blind) (simp_all add: demo_kenv_def)

end
