(* ===== verification/LB_Patch.thy ===== *)
theory LB_Patch
  imports LB_Prelude
begin

text \<open>
  The parts of \<^verbatim>\<open>bsd/lib/lazybsd_patch.c\<close> that compute: interval timers and \<open>struct timeval\<close> arithmetic,
  rate limits, the conversion of a time to clock ticks, the per-user resource counters, the group
  search, string copies and allocation sizes.  \<open>tick\<close> (microseconds per clock tick), \<open>hz\<close> and the time
  of day are parameters.  The rest of the file are stubs that return a constant.
\<close>

section \<open>Timevals\<close>

text \<open>\<open>tv_sec\<close> and \<open>tv_usec\<close> are \<open>long\<close>; the functions of this section are used on times far from its
  limits, and the model's are integers.\<close>

record timeval =
  tv_sec :: int
  tv_usec :: int

record itimerval =
  it_interval :: timeval
  it_value :: timeval

definition timevalisset :: "timeval \<Rightarrow> bool" where
  "timevalisset tv \<longleftrightarrow> tv_sec tv \<noteq> 0 \<or> tv_usec tv \<noteq> 0"

text \<open>The return value and the timeval afterwards.\<close>

definition itimerfix :: "int \<Rightarrow> timeval \<Rightarrow> int \<times> timeval" where
  "itimerfix tick tv =
     (if tv_sec tv < 0 \<or> tv_usec tv < 0 \<or> tv_usec tv \<ge> 1000000 then (22, tv)
      else if tv_sec tv = 0 \<and> tv_usec tv \<noteq> 0 \<and> tv_usec tv < tick then (0, tv\<lparr>tv_usec := tick\<rparr>)
      else (0, tv))"

definition itimer_expire :: "itimerval \<Rightarrow> int \<Rightarrow> int \<times> itimerval" where
  "itimer_expire itp usec =
     (if timevalisset (it_interval itp) then
        let v = it_interval itp;
            v = v\<lparr>tv_usec := tv_usec v - usec\<rparr>;
            v = (if tv_usec v < 0 then v\<lparr>tv_usec := tv_usec v + 1000000, tv_sec := tv_sec v - 1\<rparr> else v)
        in (0, itp\<lparr>it_value := v\<rparr>)
      else (0, itp\<lparr>it_value := (it_value itp)\<lparr>tv_usec := 0\<rparr>\<rparr>))"

definition itimerdecr :: "itimerval \<Rightarrow> int \<Rightarrow> int \<times> itimerval" where
  "itimerdecr itp usec =
     (if tv_usec (it_value itp) < usec \<and> tv_sec (it_value itp) = 0
      then itimer_expire itp (usec - tv_usec (it_value itp))
      else
        let v = it_value itp;
            v = (if tv_usec v < usec then v\<lparr>tv_usec := tv_usec v + 1000000, tv_sec := tv_sec v - 1\<rparr> else v);
            v = v\<lparr>tv_usec := tv_usec v - usec\<rparr>;
            itp = itp\<lparr>it_value := v\<rparr>
        in if timevalisset v then (1, itp) else itimer_expire itp 0)"

definition timevalfix :: "timeval \<Rightarrow> timeval" where
  "timevalfix t =
     (let t = (if tv_usec t < 0 then t\<lparr>tv_sec := tv_sec t - 1, tv_usec := tv_usec t + 1000000\<rparr> else t)
      in if tv_usec t \<ge> 1000000 then t\<lparr>tv_sec := tv_sec t + 1, tv_usec := tv_usec t - 1000000\<rparr> else t)"

definition timevaladd :: "timeval \<Rightarrow> timeval \<Rightarrow> timeval" where
  "timevaladd t1 t2 = timevalfix \<lparr>tv_sec = tv_sec t1 + tv_sec t2, tv_usec = tv_usec t1 + tv_usec t2\<rparr>"

definition timevalsub :: "timeval \<Rightarrow> timeval \<Rightarrow> timeval" where
  "timevalsub t1 t2 = timevalfix \<lparr>tv_sec = tv_sec t1 - tv_sec t2, tv_usec = tv_usec t1 - tv_usec t2\<rparr>"

text \<open>\<open>timevalcmp(a, b, >=)\<close> of \<^verbatim>\<open>sys/time.h\<close>.\<close>

definition timeval_ge :: "timeval \<Rightarrow> timeval \<Rightarrow> bool" where
  "timeval_ge a b \<longleftrightarrow> (if tv_sec a = tv_sec b then tv_usec a \<ge> tv_usec b else tv_sec a \<ge> tv_sec b)"

text \<open>\<open>uptime\<close> is what \<open>getmicrouptime\<close> stores.  The result: the verdict and \<open>*lasttime\<close> afterwards.\<close>

definition ratecheck :: "timeval \<Rightarrow> timeval \<Rightarrow> timeval \<Rightarrow> int \<times> timeval" where
  "ratecheck uptime lasttime mininterval =
     (if timeval_ge (timevalsub uptime lasttime) mininterval \<or> tv_sec lasttime = 0 \<and> tv_usec lasttime = 0
      then (1, uptime) else (0, lasttime))"

text \<open>\<open>ppsratecheck\<close>: \<open>lasttime->tv_sec\<close> holds a tick count; \<open>now - lasttime->tv_sec\<close> is a \<open>long\<close>, cast to
  \<open>u_int\<close>.  The result: the verdict, \<open>lasttime->tv_sec\<close> and \<open>*curpps\<close>.\<close>

definition ppsratecheck :: "i32 \<Rightarrow> i32 \<Rightarrow> int \<Rightarrow> i32 \<Rightarrow> i32 \<Rightarrow> bool \<times> int \<times> i32" where
  "ppsratecheck ticks hz lasttime curpps maxpps =
     (let now = sint ticks
      in if lasttime = 0 \<or> hz \<le> (word_of_int (now - lasttime) :: u32)
         then (maxpps \<noteq> 0, now, 1)
         else let curpps = curpps + 1 in (maxpps <s 0 \<or> curpps <s maxpps, lasttime, curpps))"

section \<open>Time to ticks\<close>

text \<open>\<open>tvtohz\<close>; the arithmetic is that of \<open>unsigned long\<close>.\<close>

definition tvtohz :: "int \<Rightarrow> int \<Rightarrow> timeval \<Rightarrow> int" where
  "tvtohz tick hz tv =
     (let (sec, usec) = (if tv_usec tv < 0 then (tv_sec tv - 1, tv_usec tv + 1000000) else (tv_sec tv, tv_usec tv));
          ticks =
            (if sec < 0 then 1
             else if sec \<le> LONG_MAX div 1000000
             then (word_of_int (sec * 1000000) + word_of_int usec + word_of_int (tick - 1) :: u64)
                    div word_of_int tick + 1
             else if sec \<le> LONG_MAX div hz
             then word_of_int (sec * hz) + (word_of_int usec + word_of_int (tick - 1)) div word_of_int tick + 1
             else word_of_int LONG_MAX)
      in if uint ticks > INT_MAX then INT_MAX else uint ticks)"

section \<open>Resource counters\<close>

record uidinfo =
  ui_proccnt :: int
  ui_sbsize :: int
  ui_ptscnt :: int
  ui_kqcnt :: int
  ui_umtxcnt :: int

text \<open>\<open>chglimit\<close> on the counter's value: the verdict and the value afterwards.  The warning about a
  negative counter has no effect on it.\<close>

definition chglimit :: "int \<Rightarrow> int \<Rightarrow> int \<Rightarrow> int \<times> int" where
  "chglimit limit diff maxv =
     (if diff > 0 \<and> maxv \<noteq> 0
      then if limit + diff > maxv then (0, limit + diff - diff) else (1, limit + diff)
      else (1, limit + diff))"

definition chgproccnt :: "int \<Rightarrow> int \<Rightarrow> uidinfo \<Rightarrow> int \<times> uidinfo" where
  "chgproccnt diff maxv uip = (case chglimit (ui_proccnt uip) diff maxv of (rv, l) \<Rightarrow> (rv, uip\<lparr>ui_proccnt := l\<rparr>))"

text \<open>\<open>diff = to - *hiwat\<close> is computed in \<open>u_int\<close> and read as an \<open>int\<close>.  The result: the verdict,
  \<open>*hiwat\<close> and the user's record.\<close>

definition chgsbsize :: "u32 \<Rightarrow> u32 \<Rightarrow> int \<Rightarrow> uidinfo \<Rightarrow> int \<times> u32 \<times> uidinfo" where
  "chgsbsize hiwat to maxv uip =
     (let diff = sint (to - hiwat)
      in if diff > 0 \<and> maxv = 0 then (0, hiwat, uip)
         else (case chglimit (ui_sbsize uip) diff maxv of
                 (rv, l) \<Rightarrow> (rv, if rv \<noteq> 0 then to else hiwat, uip\<lparr>ui_sbsize := l\<rparr>)))"

definition chgptscnt :: "int \<Rightarrow> int \<Rightarrow> uidinfo \<Rightarrow> int \<times> uidinfo" where
  "chgptscnt diff maxv uip = (case chglimit (ui_ptscnt uip) diff maxv of (rv, l) \<Rightarrow> (rv, uip\<lparr>ui_ptscnt := l\<rparr>))"

definition chgkqcnt :: "int \<Rightarrow> int \<Rightarrow> uidinfo \<Rightarrow> int \<times> uidinfo" where
  "chgkqcnt diff maxv uip = (case chglimit (ui_kqcnt uip) diff maxv of (rv, l) \<Rightarrow> (rv, uip\<lparr>ui_kqcnt := l\<rparr>))"

definition chgumtxcnt :: "int \<Rightarrow> int \<Rightarrow> uidinfo \<Rightarrow> int \<times> uidinfo" where
  "chgumtxcnt diff maxv uip = (case chglimit (ui_umtxcnt uip) diff maxv of (rv, l) \<Rightarrow> (rv, uip\<lparr>ui_umtxcnt := l\<rparr>))"

section \<open>Groups\<close>

text \<open>The binary search of \<open>groupmember\<close> over \<open>cr_groups\<close>, the list of the credential's groups.\<close>

function group_search :: "u32 list \<Rightarrow> u32 \<Rightarrow> nat \<Rightarrow> nat \<Rightarrow> nat" where
  "group_search groups gid l h =
     (if l < h then
        let m = l + (h - l) div 2
        in if groups ! m < gid then group_search groups gid (m + 1) h
           else group_search groups gid l m
      else l)"
  by pat_completeness auto
termination
  by (relation "measure (\<lambda>(_, _, l, h). h - l)") auto

declare group_search.simps [simp del]

definition groupmember :: "u32 \<Rightarrow> u32 list \<Rightarrow> bool" where
  "groupmember gid groups \<longleftrightarrow>
     (if groups ! 0 = gid then True
      else let l = group_search groups gid 1 (length groups)
           in l < length groups \<and> groups ! l = gid)"

section \<open>References, strings and allocation sizes\<close>

text \<open>A credential's reference count; the flag says that the structure was
  freed.  The two \<open>KASSERT\<close>s of \<open>crfree\<close> are no code in this build.\<close>

definition crget :: u32 where
  "crget = 1"

definition crhold :: "u32 \<Rightarrow> u32" where
  "crhold cr_ref = cr_ref + 1"

definition crfree :: "u32 \<Rightarrow> bool \<times> u32" where
  "crfree cr_ref = (cr_ref - 1 = 0, cr_ref - 1)"

text \<open>\<open>copyinstr\<close>: \<open>strlcpy\<close> keeps \<open>len - 1\<close> characters; \<open>*done\<close> is the length of the source, as
  \<open>strlcpy\<close> returns it; the result is always 0.\<close>

definition copyinstr :: "string \<Rightarrow> nat \<Rightarrow> string \<Rightarrow> int \<times> string \<times> nat" where
  "copyinstr uaddr len kaddr = (0, if len = 0 then kaddr else take (len - 1) uaddr, length uaddr)"

text \<open>\<open>copyiniov\<close>: \<open>uio_maxiov\<close> is \<open>UIO_MAXIOV\<close>; the copy itself cannot fail here.\<close>

definition copyiniov :: "nat \<Rightarrow> 'a list \<Rightarrow> nat \<Rightarrow> int \<Rightarrow> int \<times> 'a list option" where
  "copyiniov uio_maxiov iovp iovcnt err =
     (if iovcnt > uio_maxiov then (err, None) else (0, Some (take iovcnt iovp)))"

text \<open>The bytes \<open>mallocarray\<close> asks for.\<close>

definition mallocarray_size :: "u64 \<Rightarrow> u64 \<Rightarrow> u64" where
  "mallocarray_size nmemb elsize = elsize * nmemb"

end
