(* ===== verification/LB_Patch_Props.thy ===== *)
theory LB_Patch_Props
  imports LB_Patch
begin

text \<open>
  Properties of the timers, rate limits, counters and searches of \<^verbatim>\<open>bsd/lib/lazybsd_patch.c\<close>, most of
  them as equations with the quantity a routine is meant to compute.
\<close>

section \<open>Timevals\<close>

definition usecs :: "timeval \<Rightarrow> int" where
  "usecs t = tv_sec t * 1000000 + tv_usec t"

definition normal :: "timeval \<Rightarrow> bool" where
  "normal t \<longleftrightarrow> 0 \<le> tv_usec t \<and> tv_usec t < 1000000"

text \<open>Adding and subtracting timevals in normal form is addition and subtraction of the times they
  stand for, and the results are in normal form.\<close>

theorem timeval_arith:
  assumes "normal a" "normal b"
  shows "usecs (timevaladd a b) = usecs a + usecs b \<and> normal (timevaladd a b)
    \<and> usecs (timevalsub a b) = usecs a - usecs b \<and> normal (timevalsub a b)"
  using assms by (auto simp: usecs_def normal_def timevaladd_def timevalsub_def timevalfix_def Let_def)

theorem timeval_arith_witness:
  "usecs (timevalsub \<lparr>tv_sec = 3, tv_usec = 5\<rparr> \<lparr>tv_sec = 1, tv_usec = 10\<rparr>) = 1999995"
  using timeval_arith [of "\<lparr>tv_sec = 3, tv_usec = 5\<rparr>" "\<lparr>tv_sec = 1, tv_usec = 10\<rparr>"]
  by (simp add: normal_def usecs_def)

lemma zero_time: "0 \<le> s \<Longrightarrow> 0 \<le> u \<Longrightarrow> s * 1000000 + u = 0 \<longleftrightarrow> \<not> (s \<noteq> 0 \<or> u \<noteq> (0 :: int))"
proof
  assume a: "0 \<le> s" "0 \<le> u" "s * 1000000 + u = 0"
  then have "s = 0" by linarith
  then show "\<not> (s \<noteq> 0 \<or> u \<noteq> 0)" using a by simp
qed simp

text \<open>\<open>itimerdecr\<close> by less than a second takes that long off a timer that has more to go; a timer
  that expires is reloaded with its interval less the time it is late by, so that periodic timers do
  not drift, and a one-shot timer is left at zero.\<close>

theorem itimerdecr_time:
  assumes "normal (it_value t)" "normal (it_interval t)" "0 \<le> tv_sec (it_value t)" "0 \<le> tv_sec (it_interval t)"
    "0 \<le> usec" "usec < 1000000" "(r, t') = itimerdecr t usec"
  shows "it_interval t' = it_interval t \<and> normal (it_value t') \<and>
    (if usec < usecs (it_value t) then r = 1 \<and> usecs (it_value t') = usecs (it_value t) - usec
     else r = 0 \<and> (if usecs (it_interval t) = 0 then usecs (it_value t') = 0
                   else usecs (it_value t') = usecs (it_interval t) - (usec - usecs (it_value t))))"
proof -
  have z: "usecs (it_interval t) = 0 \<longleftrightarrow> \<not> timevalisset (it_interval t)"
    using zero_time [of "tv_sec (it_interval t)" "tv_usec (it_interval t)"] assms(2,4)
    by (simp add: usecs_def normal_def timevalisset_def)
  show ?thesis
    unfolding z using assms
    by (auto simp: itimerdecr_def itimer_expire_def timevalisset_def usecs_def normal_def Let_def split: if_splits)
qed

theorem itimerdecr_time_witness:
  "let t = \<lparr>it_interval = \<lparr>tv_sec = 1, tv_usec = 0\<rparr>, it_value = \<lparr>tv_sec = 0, tv_usec = 300\<rparr>\<rparr>;
       (r, t') = itimerdecr t 1000
   in r = 0 \<and> usecs (it_value t') = 1000000 - 700"
proof -
  let ?t = "\<lparr>it_interval = \<lparr>tv_sec = 1, tv_usec = 0\<rparr>, it_value = \<lparr>tv_sec = 0, tv_usec = 300\<rparr>\<rparr>"
  obtain r t' where d: "(r, t') = itimerdecr ?t 1000" by (metis surj_pair)
  from itimerdecr_time [OF _ _ _ _ _ _ d] have "r = 0 \<and> usecs (it_value t') = 1000000 - 700"
    by (simp add: normal_def usecs_def)
  then show ?thesis by (simp add: Let_def flip: d)
qed

section \<open>Events per second\<close>

text \<open>\<open>n\<close> events at the same tick, from the state the counter is in.\<close>

fun pps_events :: "i32 \<Rightarrow> i32 \<Rightarrow> i32 \<Rightarrow> nat \<Rightarrow> int \<times> i32 \<Rightarrow> bool list" where
  "pps_events ticks hz maxpps 0 s = []"
| "pps_events ticks hz maxpps (Suc n) (lasttime, curpps) =
     (case ppsratecheck ticks hz lasttime curpps maxpps of
        (ok, lasttime', curpps') \<Rightarrow> ok # pps_events ticks hz maxpps n (lasttime', curpps'))"

lemma sint_of_nat_i32: "k < 2 ^ 31 \<Longrightarrow> sint (of_nat k :: i32) = int k"
  by (simp add: signed_of_nat signed_take_bit_int_eq_self_iff)

lemma pps_inside:
  assumes "ticks \<noteq> 0" "0 < hz" "0 < k" "k + n < 2 ^ 31"
  shows "length (filter id (pps_events ticks hz maxpps n (sint ticks, of_nat k)))
    = (if sint maxpps < 0 then n else min n (nat (sint maxpps) - 1 - k))"
  using assms(3,4)
proof (induction n arbitrary: k)
  case (Suc n)
  have "sint ticks \<noteq> 0" using assms(1) by (simp add: signed_eq_0_iff)
  moreover have "\<not> hz \<le> 0" using assms(2) by (simp add: not_le)
  moreover have "sint (of_nat (Suc k) :: i32) = int (Suc k)"
    using Suc.prems by (intro sint_of_nat_i32) simp
  ultimately have step: "ppsratecheck ticks hz (sint ticks) (of_nat k) maxpps
      = (sint maxpps < 0 \<or> int (Suc k) < sint maxpps, sint ticks, of_nat (Suc k))"
    by (simp add: ppsratecheck_def Let_def word_sless_alt add.commute)
  show ?case
  proof (cases "sint maxpps < 0")
    case True
    then show ?thesis using Suc.IH [of "Suc k"] Suc.prems by (simp add: step del: of_nat_Suc)
  next
    case False
    then obtain M where M: "sint maxpps = int M" by (metis nonneg_int_cases not_less)
    show ?thesis using Suc.IH [of "Suc k"] Suc.prems by (simp add: step M min_def del: of_nat_Suc) arith
  qed
qed simp

text \<open>Of \<open>n\<close> events at one tick \<open>ppsratecheck\<close> lets \<open>maxpps - 1\<close> through when the limit is 2 or more,
  one fewer than the limit; a limit of 1 lets one through, 0 none, and a negative limit all.\<close>

theorem ppsratecheck_count:
  assumes "ticks \<noteq> 0" "0 < hz" "0 < n" "n < 2 ^ 31"
  shows "length (filter id (pps_events ticks hz maxpps n (0, c)))
    = (if sint maxpps < 0 then n else if sint maxpps = 0 then 0 else min n (max 1 (nat (sint maxpps) - 1)))"
proof -
  obtain m where n: "n = Suc m" using assms(3) by (cases n) auto
  have "length (filter id (pps_events ticks hz maxpps m (sint ticks, of_nat 1)))
    = (if sint maxpps < 0 then m else min m (nat (sint maxpps) - 1 - 1))"
    using assms n by (intro pps_inside) auto
  moreover have "maxpps \<noteq> 0 \<longleftrightarrow> sint maxpps \<noteq> 0" by (simp add: signed_eq_0_iff)
  moreover have "sint maxpps < 0 \<or> (\<exists>M. sint maxpps = int M)" by (metis nonneg_int_cases not_less)
  ultimately show ?thesis
    by (auto simp: n ppsratecheck_def Let_def)
qed

theorem ppsratecheck_count_witness:
  "length (filter id (pps_events 5 100 10 20 (0, 0))) = 9"
  using ppsratecheck_count [of 5 100 20 10 0] by simp

section \<open>Searching groups\<close>

lemma group_search_bounds:
  assumes "l \<le> h" "h \<le> length groups" "sorted_wrt (\<le>) (drop l0 groups)" "l0 \<le> l"
    "\<And>i. l0 \<le> i \<Longrightarrow> i < l \<Longrightarrow> groups ! i < gid"
    "\<And>i. h \<le> i \<Longrightarrow> i < length groups \<Longrightarrow> gid \<le> groups ! i"
  shows "let r = group_search groups gid l h
         in l0 \<le> r \<and> r \<le> length groups \<and> (\<forall>i. l0 \<le> i \<longrightarrow> i < r \<longrightarrow> groups ! i < gid)
          \<and> (\<forall>i. r \<le> i \<longrightarrow> i < length groups \<longrightarrow> gid \<le> groups ! i)"
  using assms
proof (induction groups gid l h rule: group_search.induct)
  case (1 groups gid l h)
  have mono: "groups ! i \<le> groups ! j" if "l0 \<le> i" "i \<le> j" "j < length groups" for i j
  proof (cases "i = j")
    case False
    then show ?thesis
      using that sorted_wrt_nth_less [OF 1(5), of "i - l0" "j - l0"] by simp
  qed simp
  show ?case
  proof (cases "l < h")
    case False
    then show ?thesis using 1 by (subst group_search.simps) (auto simp: Let_def)
  next
    case True
    let ?m = "l + (h - l) div 2"
    have m: "l \<le> ?m" "?m < h" using True by auto
    show ?thesis
    proof (cases "groups ! ?m < gid")
      case lt: True
      have "groups ! i < gid" if "l0 \<le> i" "i < ?m + 1" for i
      proof -
        have "groups ! i \<le> groups ! ?m" using that m 1(4) by (intro mono) auto
        then show ?thesis using lt by simp
      qed
      then show ?thesis
        using 1(1) [OF True refl lt] 1(4-) m True lt by (subst group_search.simps) (simp add: Let_def)
    next
      case ge: False
      have "gid \<le> groups ! i" if "?m \<le> i" "i < length groups" for i
      proof -
        have "groups ! ?m \<le> groups ! i" using that m 1(6) by (intro mono) auto
        then show ?thesis using ge by simp
      qed
      then show ?thesis
        using 1(2) [OF True refl ge] 1(3-) m True ge by (subst group_search.simps) (simp add: Let_def)
    qed
  qed
qed

text \<open>C37: \<open>groupmember\<close> answers membership: its binary search over the supplementary groups, which are kept
  sorted, finds a group exactly when it is one of the credential's.\<close>

theorem groupmember_correct:
  assumes "groups \<noteq> []" "sorted_wrt (\<le>) (drop 1 groups)"
  shows "groupmember gid groups \<longleftrightarrow> gid \<in> set groups"
proof -
  let ?r = "group_search groups gid 1 (length groups)"
  have "1 \<le> length groups" using assms(1) by (simp add: Suc_le_eq)
  then have r: "1 \<le> ?r" "\<And>i. 1 \<le> i \<Longrightarrow> i < ?r \<Longrightarrow> groups ! i < gid"
      "\<And>i. ?r \<le> i \<Longrightarrow> i < length groups \<Longrightarrow> gid \<le> groups ! i"
    using group_search_bounds [of 1 "length groups" groups 1 gid] assms(2) by (auto simp: Let_def)
  have found: "?r < length groups \<and> groups ! ?r = gid" if i: "i < length groups" "1 \<le> i" "groups ! i = gid" for i
  proof -
    have le: "?r \<le> i" using r(2) [of i] i by (metis less_irrefl not_le)
    have "groups ! ?r \<le> groups ! i"
    proof (cases "?r = i")
      case False
      then show ?thesis using sorted_wrt_nth_less [OF assms(2), of "?r - 1" "i - 1"] r(1) le i by simp
    qed simp
    then show ?thesis using r(3) [of ?r] le i by simp
  qed
  show ?thesis
  proof
    assume "gid \<in> set groups"
    then obtain i where "i < length groups" "groups ! i = gid" by (auto simp: in_set_conv_nth)
    then show "groupmember gid groups"
      using found [of i] by (cases "i = 0") (auto simp: groupmember_def Let_def)
  next
    assume "groupmember gid groups"
    then show "gid \<in> set groups"
      using assms(1) nth_mem by (fastforce simp: groupmember_def Let_def split: if_splits)
  qed
qed

theorem groupmember_correct_witness: "groupmember 20 [0, 5, 12, 20, 31] \<and> \<not> groupmember 13 [0, 5, 12, 20, 31]"
  using groupmember_correct [of "[0, 5, 12, 20, 31]"] by simp

section \<open>Counters\<close>

text \<open>\<open>chgsbsize\<close> keeps a user's account of socket buffer space right: the account moves by what the
  buffer's high-water mark moves, a refused change changes nothing, growth is granted only within
  the limit, and shrinking is never refused.\<close>

theorem chgsbsize_accounts:
  assumes "\<bar>uint to - uint hiwat\<bar> < 2 ^ 31" and "(rv, hiwat', uip') = chgsbsize hiwat to maxv uip"
  shows "ui_sbsize uip' - uint hiwat' = ui_sbsize uip - uint hiwat
    \<and> (rv = 0 \<and> hiwat' = hiwat \<and> ui_sbsize uip' = ui_sbsize uip \<and> uint hiwat < uint to
       \<or> rv = 1 \<and> hiwat' = to \<and> (uint hiwat < uint to \<longrightarrow> ui_sbsize uip' \<le> maxv))"
proof -
  have "to - hiwat = word_of_int (uint to - uint hiwat)" by simp
  then have "sint (to - hiwat) = signed_take_bit 31 (uint to - uint hiwat)"
    by (simp only: signed_of_int) simp
  also have "\<dots> = uint to - uint hiwat"
    using assms(1) by (intro signed_take_bit_int_eq_self) auto
  finally show ?thesis
    using assms(2) by (auto simp: chgsbsize_def chglimit_def Let_def split: if_splits)
qed

theorem chgsbsize_accounts_witness:
  "let (rv, hiwat', uip') = chgsbsize 100 400 1000
         \<lparr>ui_proccnt = 0, ui_sbsize = 900, ui_ptscnt = 0, ui_kqcnt = 0, ui_umtxcnt = 0\<rparr>
   in rv = 0 \<and> hiwat' = 100 \<and> ui_sbsize uip' = 900"
proof -
  obtain rv hiwat' uip' where c: "(rv, hiwat', uip') = chgsbsize 100 400 1000
      \<lparr>ui_proccnt = 0, ui_sbsize = 900, ui_ptscnt = 0, ui_kqcnt = 0, ui_umtxcnt = 0\<rparr>"
    by (metis prod_cases3)
  from chgsbsize_accounts [OF _ c] show ?thesis by (auto simp flip: c)
qed

section \<open>Ticks\<close>

lemma uint_exact: "0 \<le> x \<Longrightarrow> x < 2 ^ 64 \<Longrightarrow> uint (word_of_int x :: u64) = x"
  by (simp add: uint_word_of_int_eq take_bit_int_eq_self)

text \<open>\<open>tvtohz\<close> of a time in normal form is the number of ticks that cover it, rounded up, plus one for
  the tick in progress, saturated at \<open>INT_MAX\<close>: none of its branches overflows.\<close>

theorem tvtohz_ceiling:
  assumes "normal tv" "0 \<le> tv_sec tv" "tv_sec tv \<le> LONG_MAX" "0 < tick" "tick \<le> 1000000" "0 < hz"
  shows "tvtohz tick hz tv = min INT_MAX ((usecs tv + tick - 1) div tick + 1)"
proof -
  let ?s = "tv_sec tv" and ?u = "tv_usec tv"
  have u: "0 \<le> ?u" "?u < 1000000" using assms(1) by (auto simp: normal_def)
  have t: "uint (word_of_int tick :: u64) = tick" using assms by (intro uint_exact) auto
  show ?thesis
  proof (cases "?s \<le> LONG_MAX div 1000000")
    case True
    let ?x = "?s * 1000000 + ?u + (tick - 1)"
    let ?w = "word_of_int (?s * 1000000) + word_of_int ?u + word_of_int (tick - 1) :: u64"
    have "?s * 1000000 \<le> LONG_MAX" using True by linarith
    then have x: "0 \<le> ?x" "?x < 2 ^ 63 + 2000000" using assms u by auto
    then have "?x div tick \<le> ?x" using zdiv_mono2 [of ?x 1 tick] assms(4) by simp
    moreover have "0 \<le> ?x div tick" using x(1) assms(4) by (simp add: pos_imp_zdiv_nonneg_iff)
    ultimately have d: "0 \<le> ?x div tick + 1" "?x div tick + 1 < 2 ^ 64" using x by auto
    have "uint ?w = ?x" using x uint_exact [of ?x] by simp
    then have "uint (?w div word_of_int tick) = ?x div tick" by (simp only: uint_div_distrib t)
    then have "?w div word_of_int tick + 1 = word_of_int (?x div tick + 1)"
      by (metis word_of_int_uint wi_hom_add word_1_wi)
    then have w: "uint (?w div word_of_int tick + 1) = ?x div tick + 1"
      using uint_exact [OF d] by simp
    have "usecs tv + tick - 1 = ?x" by (simp add: usecs_def)
    moreover have "tvtohz tick hz tv = (if uint (?w div word_of_int tick + 1) > INT_MAX then INT_MAX
        else uint (?w div word_of_int tick + 1))"
      using True u assms(2) by (simp add: tvtohz_def Let_def)
    ultimately show ?thesis by (simp only: w min_def) simp
  next
    case False
    then have big: "INT_MAX < ?s" by simp
    have "?s = ?s * 1000000 div 1000000" by simp
    also have "\<dots> \<le> (usecs tv + tick - 1) div 1000000"
      using u assms(4) by (intro zdiv_mono1) (simp_all add: usecs_def)
    also have "\<dots> \<le> (usecs tv + tick - 1) div tick"
      using u assms(2,4,5) by (intro zdiv_mono2) (auto simp: usecs_def)
    finally have rhs: "min INT_MAX ((usecs tv + tick - 1) div tick + 1) = INT_MAX" using big by simp
    show ?thesis
    proof (cases "?s \<le> LONG_MAX div hz")
      case True
      let ?y = "(?u + (tick - 1)) div tick"
      let ?w = "word_of_int (?s * hz) + (word_of_int ?u + word_of_int (tick - 1)) div word_of_int tick + 1 :: u64"
      have "?y \<le> ?u + (tick - 1)" using zdiv_mono2 [of "?u + (tick - 1)" 1 tick] u assms(4) by simp
      then have y: "0 \<le> ?y" "?y \<le> 2000000" using u assms(4,5) by (auto simp: pos_imp_zdiv_nonneg_iff)
      have "?s * hz \<le> LONG_MAX div hz * hz" using True assms(6) by (intro mult_right_mono) auto
      also have "\<dots> \<le> LONG_MAX"
        using div_mult_mod_eq [of LONG_MAX hz] pos_mod_sign [OF assms(6), of LONG_MAX] by linarith
      finally have sh: "?s * hz \<le> LONG_MAX" .
      have "?s * 1 \<le> ?s * hz" using assms(2,6) by (intro mult_left_mono) auto
      then have z: "INT_MAX < ?s * hz + ?y + 1" using big y by linarith
      have z2: "?s * hz + ?y + 1 < 2 ^ 64" using y sh by simp
      have "uint (word_of_int ?u + word_of_int (tick - 1) :: u64) = ?u + (tick - 1)"
        using uint_exact [of "?u + (tick - 1)"] u assms(4,5) by simp
      then have "uint ((word_of_int ?u + word_of_int (tick - 1) :: u64) div word_of_int tick) = ?y"
        by (simp only: uint_div_distrib t)
      then have "?w = word_of_int (?s * hz + ?y + 1)"
        by (metis word_of_int_uint wi_hom_add word_1_wi)
      then have "uint ?w = ?s * hz + ?y + 1"
        using uint_exact [OF _ z2] z by simp
      then show ?thesis
        unfolding rhs using False True u assms(2) z by (simp add: tvtohz_def Let_def)
    next
      case no: False
      then show ?thesis unfolding rhs using False u assms(2) by (simp add: tvtohz_def Let_def)
    qed
  qed
qed

theorem tvtohz_ceiling_witness:
  "tvtohz 10000 100 \<lparr>tv_sec = 1, tv_usec = 1\<rparr> = 102"
  using tvtohz_ceiling [of "\<lparr>tv_sec = 1, tv_usec = 1\<rparr>" 10000 100] by (simp add: normal_def usecs_def)

end
