(* ===== verification/LB_Memory.thy ===== *)
theory LB_Memory
  imports LB_Prelude
begin

text \<open>
  The page pool and the transmit ring of \<^verbatim>\<open>src/lazybsd_memory.cc\<close>.  The pool hands out the pages of one
  mapping from a stack of addresses; the ring remembers the stack's mbufs whose data the network card
  may still read, and frees one when its slot comes round again.

  A pointer to a \<open>StackList_t\<close> that may be NULL is an \<open>option\<close>; addresses are 64-bit words; an mbuf is its
  address, 0 for NULL.  \<open>rte_panic\<close> is \<open>Inl\<close>.
\<close>

section \<open>The stack of free pages\<close>

record StackList =
  ele :: "nat \<Rightarrow> u64"
  sl_size :: nat
  sl_top :: nat

text \<open>\<open>posix_memalign\<close> is the host's; \<open>alloc_ok\<close> says whether it succeeds.\<close>

definition stklist_init :: "bool \<Rightarrow> StackList option \<Rightarrow> int \<Rightarrow> int \<times> StackList option" where
  "stklist_init alloc_ok p n =
     (case p of
        None \<Rightarrow> (-1, None)
      | Some s \<Rightarrow>
          if n \<le> 0 then (-1, Some s)
          else let s = s\<lparr>sl_size := nat n, sl_top := 0\<rparr> in (if alloc_ok then 0 else -2, Some s))"

definition stklist_pop :: "StackList option \<Rightarrow> u64 \<times> StackList option" where
  "stklist_pop p =
     (case p of
        None \<Rightarrow> (0, None)
      | Some s \<Rightarrow>
          if sl_top s > 0 then (ele s (sl_top s - 1), Some (s\<lparr>sl_top := sl_top s - 1\<rparr>)) else (0, Some s))"

definition stklist_push :: "StackList option \<Rightarrow> u64 \<Rightarrow> int \<times> StackList option" where
  "stklist_push p val =
     (case p of
        None \<Rightarrow> (-1, None)
      | Some s \<Rightarrow>
          if sl_top s < sl_size s
          then (0, Some (s\<lparr>ele := (ele s)(sl_top s := val), sl_top := sl_top s + 1\<rparr>)) else (-1, Some s))"

section \<open>The transmit ring\<close>

abbreviation (input) TX_QUEUE_SIZE :: nat where "TX_QUEUE_SIZE \<equiv> 512"

record mbuf_txring =
  m_table :: "nat \<Rightarrow> nat"
  head :: u16

text \<open>\<open>Head_INC\<close> and \<open>Head_DEC\<close> on a \<open>uint16_t\<close>: a decrement is never below 0, it wraps around.\<close>

definition Head_INC :: "u16 \<Rightarrow> u16" where
  "Head_INC h = (let h = h + 1 in if unat h \<ge> TX_QUEUE_SIZE then 0 else h)"

definition Head_DEC :: "u16 \<Rightarrow> u16" where
  "Head_DEC h = (let h = h - 1 in if int (unat h) < 0 then of_nat (TX_QUEUE_SIZE - 1) else h)"

text \<open>One slot: the mbuf in it, if any, is freed, and the slot gets \<open>x\<close>; the second component are the
  mbufs freed.\<close>

definition txring_slot :: "nat \<Rightarrow> mbuf_txring \<Rightarrow> mbuf_txring \<times> nat list" where
  "txring_slot x q =
     (let h = unat (head q);
          old = m_table q h
      in (q\<lparr>m_table := (m_table q)(h := x), head := Head_INC (head q)\<rparr>, if old \<noteq> 0 then [old] else []))"

fun txring_skip :: "nat \<Rightarrow> mbuf_txring \<Rightarrow> mbuf_txring \<times> nat list" where
  "txring_skip 0 q = (q, [])"
| "txring_skip (Suc n) q =
     (case txring_slot 0 q of (q, f1) \<Rightarrow> case txring_skip n q of (q, f2) \<Rightarrow> (q, f1 @ f2))"

definition lazybsd_txring_enqueue :: "nat \<Rightarrow> int \<Rightarrow> mbuf_txring \<Rightarrow> mbuf_txring \<times> nat list" where
  "lazybsd_txring_enqueue p seg_num q =
     (case txring_skip (nat (seg_num - 1)) q of
        (q, f1) \<Rightarrow> case txring_slot p q of (q, f2) \<Rightarrow> (q, f1 @ f2))"

text \<open>\<open>lazybsd_txring_pop\<close>, from round \<open>i\<close> on; an index outside the table is a memory error.\<close>

fun txring_pop_from :: "nat \<Rightarrow> nat \<Rightarrow> mbuf_txring \<Rightarrow> (mbuf_txring \<times> nat list) kresult" where
  "txring_pop_from i 0 q = Inr (q, [])"
| "txring_pop_from i (Suc n) q =
     (let q = q\<lparr>head := Head_DEC (head q)\<rparr>; h = unat (head q)
      in if h \<ge> TX_QUEUE_SIZE then Inl (Panic ''index out of bounds'')
         else if i = 0 \<and> m_table q h = 0 \<or> i > 0 \<and> m_table q h \<noteq> 0
         then Inl (Panic ''lazybsd_txring_pop fatal error!'')
         else
           let f1 = (if m_table q h \<noteq> 0 then [m_table q h] else []);
               q = q\<lparr>m_table := (m_table q)(h := 0)\<rparr>
           in case txring_pop_from (i + 1) n q of
                Inl e \<Rightarrow> Inl e
              | Inr (q, f2) \<Rightarrow> Inr (q, f1 @ f2))"

definition lazybsd_txring_pop :: "int \<Rightarrow> mbuf_txring \<Rightarrow> (mbuf_txring \<times> nat list) kresult" where
  "lazybsd_txring_pop num q = txring_pop_from 0 (nat num) q"

text \<open>\<open>memset\<close> over the first \<open>num\<close> rings of an array of them.\<close>

definition lazybsd_txring_init :: "nat \<Rightarrow> (nat \<Rightarrow> mbuf_txring) \<Rightarrow> nat \<Rightarrow> mbuf_txring" where
  "lazybsd_txring_init num q = (\<lambda>i. if i < num then \<lparr>m_table = (\<lambda>_. 0), head = 0\<rparr> else q i)"

section \<open>The page pool\<close>

record pool =
  lazybsd_mpage_ctl :: StackList
  lazybsd_page_start :: u64
  lazybsd_page_end :: u64
  lazybsd_mpage_phy :: "nat \<Rightarrow> u64"
  nic_tx_ring :: "nat \<Rightarrow> mbuf_txring"

definition lazybsd_mem_get_page :: "pool \<Rightarrow> u64 \<times> pool" where
  "lazybsd_mem_get_page st =
     (case stklist_pop (Some (lazybsd_mpage_ctl st)) of
        (p, s) \<Rightarrow> (p, st\<lparr>lazybsd_mpage_ctl := the s\<rparr>))"

definition lazybsd_mem_free_addr :: "u64 \<Rightarrow> pool \<Rightarrow> int \<times> pool" where
  "lazybsd_mem_free_addr p st =
     (case stklist_push (Some (lazybsd_mpage_ctl st)) p of
        (_, s) \<Rightarrow> (0, st\<lparr>lazybsd_mpage_ctl := the s\<rparr>))"

text \<open>The loop of \<open>lazybsd_mmap_init\<close> over the pages from \<open>i\<close> on, \<open>n\<close> of them; \<open>PAGE_SIZE * i\<close> is a product of
  \<open>int\<close>s.  \<open>virt2phy\<close> is DPDK's, and \<open>RTE_BAD_IOVA\<close> all ones.\<close>

definition page_addr :: "u64 \<Rightarrow> nat \<Rightarrow> u64" where
  "page_addr start i = start + scast (4096 * of_nat i :: i32)"

fun mmap_init_pages :: "(u64 \<Rightarrow> u64) \<Rightarrow> nat \<Rightarrow> nat \<Rightarrow> pool \<Rightarrow> pool kresult" where
  "mmap_init_pages virt2phy i 0 st = Inr st"
| "mmap_init_pages virt2phy i (Suc n) st =
     (let virt_addr = page_addr (lazybsd_page_start st) i;
          st = st\<lparr>lazybsd_mpage_ctl := the (snd (stklist_push (Some (lazybsd_mpage_ctl st)) virt_addr))\<rparr>;
          st = st\<lparr>lazybsd_mpage_phy := (lazybsd_mpage_phy st)(i := virt2phy virt_addr)\<rparr>
      in if virt2phy virt_addr = - 1 then Inl (Panic ''rte_mem_virt2phy return invalid address.'')
         else mmap_init_pages virt2phy (i + 1) n st)"

text \<open>\<open>mem_size\<close> is the configured size in MB, an \<open>int\<close> shifted as one; \<open>mapped\<close> is what \<open>mmap\<close> returns.  The
  result of \<open>stklist_init\<close> is not looked at: when the stack's array could not be allocated, the first
  push writes through a null pointer.\<close>

definition lazybsd_mmap_init ::
    "nat \<Rightarrow> u64 \<Rightarrow> bool \<Rightarrow> bool \<Rightarrow> bool \<Rightarrow> (u64 \<Rightarrow> u64) \<Rightarrow> i32 \<Rightarrow> pool \<Rightarrow> (int \<times> pool) kresult" where
  "lazybsd_mmap_init max_ports mapped mlock_ok phy_ok stack_ok virt2phy mem_size st =
     (let bsd_memsz = scast (push_bit 20 mem_size) :: u64;
          st = st\<lparr>lazybsd_page_start := mapped\<rparr>
      in if mapped = - 1 then Inl (Panic ''lazybsd_mmap_init get lazybsd_page_start failed'')
         else if \<not> mlock_ok then Inl (Panic ''mlock failed'')
         else
           let st = st\<lparr>lazybsd_page_end := mapped + bsd_memsz\<rparr>;
               bsd_pagesz = (ucast (drop_bit 12 bsd_memsz) :: u32)
           in if \<not> phy_ok then Inl (Panic ''posix_memalign get lazybsd_mpage_phy failed'')
              else
                let (r, ctl) = stklist_init stack_ok (Some (lazybsd_mpage_ctl st)) (sint bsd_pagesz);
                    st = st\<lparr>lazybsd_mpage_ctl := the ctl\<rparr>
                in if r = -2 then Inl (Panic ''null pointer'')
                   else
                     case mmap_init_pages virt2phy 0 (unat bsd_pagesz) st of
                       Inl e \<Rightarrow> Inl e
                     | Inr st \<Rightarrow> Inr (0, st\<lparr>nic_tx_ring := lazybsd_txring_init max_ports (nic_tx_ring st)\<rparr>))"

definition lazybsd_chk_vma :: "u64 \<Rightarrow> pool \<Rightarrow> bool" where
  "lazybsd_chk_vma virtaddr st \<longleftrightarrow> virtaddr > lazybsd_page_start st \<and> virtaddr < lazybsd_page_end st"

definition lazybsd_mem_virt2phy :: "u64 \<Rightarrow> pool \<Rightarrow> u64 kresult" where
  "lazybsd_mem_virt2phy virtaddr st =
     (let pages = unat (ucast (drop_bit 12 (virtaddr - lazybsd_page_start st)) :: u32)
      in if pages \<ge> sl_size (lazybsd_mpage_ctl st) then Inl (Panic ''lazybsd_mbuf_virt2phy get invalid pages'')
         else Inr (lazybsd_mpage_phy st pages + (virtaddr AND 0xfff)))"

text \<open>The freed mbufs are the second component.\<close>

definition lazybsd_enq_tx_bsdmbuf :: "nat \<Rightarrow> nat \<Rightarrow> int \<Rightarrow> pool \<Rightarrow> pool \<times> nat list" where
  "lazybsd_enq_tx_bsdmbuf portid p_mbuf nb_segs st =
     (case lazybsd_txring_enqueue p_mbuf nb_segs (nic_tx_ring st portid) of
        (q, freed) \<Rightarrow> (st\<lparr>nic_tx_ring := (nic_tx_ring st)(portid := q)\<rparr>, freed))"

end
