(* ===== verification/LB_Filter.thy ===== *)
theory LB_Filter
  imports LB_Digits
begin

text \<open>
  The packet classifier of \<^verbatim>\<open>src/lazybsd_dpdk.cc\<close>: \<open>protocol_filter\<close> on an Ethernet frame, the IP
  filter below it with the IPv6 extension headers and IP in IP, and the port bitmaps of the
  exception path.  A frame is a range of byte memory: a pointer \<open>data\<close> and a length \<open>len\<close>, a
  \<open>uint16_t\<close> kept as a natural number; the subtractions that may wrap are written out modulo 2^16.

  The compile-time switches \<open>INET6\<close> and \<open>LAZYBSD_KNI\<close> and the run-time flag \<open>enable_kni\<close> are fields of
  the configuration record.
\<close>

section \<open>Configuration and verdicts\<close>

datatype FilterReturn = FILTER_UNKNOWN | FILTER_ARP | FILTER_KNI | FILTER_NDP

record filter_conf =
  INET6 :: bool
  LAZYBSD_KNI :: bool
  enable_kni :: bool
  tcp_port_bitmap :: "nat \<Rightarrow> u8"
  udp_port_bitmap :: "nat \<Rightarrow> u8"

text \<open>Protocol numbers and frame types of the host's and DPDK's headers.\<close>

abbreviation (input) IPPROTO_HOPOPTS :: u8 where "IPPROTO_HOPOPTS \<equiv> 0"
abbreviation (input) IPPROTO_IPIP :: u8 where "IPPROTO_IPIP \<equiv> 4"
abbreviation (input) IPPROTO_TCP :: u8 where "IPPROTO_TCP \<equiv> 6"
abbreviation (input) IPPROTO_UDP :: u8 where "IPPROTO_UDP \<equiv> 17"
abbreviation (input) IPPROTO_IPV6 :: u8 where "IPPROTO_IPV6 \<equiv> 41"
abbreviation (input) IPPROTO_ROUTING :: u8 where "IPPROTO_ROUTING \<equiv> 43"
abbreviation (input) IPPROTO_FRAGMENT :: u8 where "IPPROTO_FRAGMENT \<equiv> 44"
abbreviation (input) IPPROTO_AH :: u8 where "IPPROTO_AH \<equiv> 51"
abbreviation (input) IPPROTO_ICMPV6 :: u8 where "IPPROTO_ICMPV6 \<equiv> 58"
abbreviation (input) IPPROTO_DSTOPTS :: u8 where "IPPROTO_DSTOPTS \<equiv> 60"
abbreviation (input) IPPROTO_MH :: u8 where "IPPROTO_MH \<equiv> 135"
abbreviation (input) IPPROTO_HIP :: u8 where "IPPROTO_HIP \<equiv> 139"
abbreviation (input) IPPROTO_SHIM6 :: u8 where "IPPROTO_SHIM6 \<equiv> 140"
abbreviation (input) RTE_ETHER_TYPE_IPV4 :: u16 where "RTE_ETHER_TYPE_IPV4 \<equiv> 0x0800"
abbreviation (input) RTE_ETHER_TYPE_ARP :: u16 where "RTE_ETHER_TYPE_ARP \<equiv> 0x0806"
abbreviation (input) RTE_ETHER_TYPE_VLAN :: u16 where "RTE_ETHER_TYPE_VLAN \<equiv> 0x8100"
abbreviation (input) RTE_ETHER_TYPE_IPV6 :: u16 where "RTE_ETHER_TYPE_IPV6 \<equiv> 0x86DD"

section \<open>Port bitmaps\<close>

text \<open>\<open>htons\<close> and the load of a port field as the machine reads it: network order seen little-endian.\<close>

definition htons :: "u16 \<Rightarrow> u16" where
  "htons p = push_bit 8 p OR drop_bit 8 p"

definition raw16 :: "mem \<Rightarrow> nat \<Rightarrow> u16" where
  "raw16 m p = ucast (m p) OR push_bit 8 (ucast (m (p + 1)))"

definition be16 :: "mem \<Rightarrow> nat \<Rightarrow> u16" where
  "be16 m p = push_bit 8 (ucast (m p)) OR ucast (m (p + 1))"

definition magic_bits :: "nat \<Rightarrow> u8" where
  "magic_bits i = [0x80, 0x40, 0x20, 0x10, 0x8, 0x4, 0x2, 0x1] ! i"

definition set_bitmap :: "u16 \<Rightarrow> (nat \<Rightarrow> u8) \<Rightarrow> nat \<Rightarrow> u8" where
  "set_bitmap port bitmap =
     (let port = unat (htons port)
      in bitmap(port div 8 := bitmap (port div 8) OR magic_bits (port mod 8)))"

definition get_bitmap :: "u16 \<Rightarrow> (nat \<Rightarrow> u8) \<Rightarrow> bool" where
  "get_bitmap port bitmap \<longleftrightarrow> bitmap (unat port div 8) AND magic_bits (unat port mod 8) \<noteq> 0"

section \<open>Transport headers\<close>

definition protocol_filter_l4 :: "u16 \<Rightarrow> (nat \<Rightarrow> u8) \<Rightarrow> FilterReturn" where
  "protocol_filter_l4 port bitmap = (if get_bitmap port bitmap then FILTER_KNI else FILTER_UNKNOWN)"

definition protocol_filter_tcp :: "filter_conf \<Rightarrow> mem \<Rightarrow> nat \<Rightarrow> nat \<Rightarrow> FilterReturn" where
  "protocol_filter_tcp C m data len =
     (if len < 20 then FILTER_UNKNOWN else protocol_filter_l4 (raw16 m (data + 2)) (tcp_port_bitmap C))"

definition protocol_filter_udp :: "filter_conf \<Rightarrow> mem \<Rightarrow> nat \<Rightarrow> nat \<Rightarrow> FilterReturn" where
  "protocol_filter_udp C m data len =
     (if len < 8 then FILTER_UNKNOWN else protocol_filter_l4 (raw16 m (data + 2)) (udp_port_bitmap C))"

text \<open>\<open>ND_ROUTER_SOLICIT\<close> is 133 and \<open>ND_REDIRECT\<close> 137.\<close>

definition protocol_filter_icmp6 :: "mem \<Rightarrow> nat \<Rightarrow> nat \<Rightarrow> FilterReturn" where
  "protocol_filter_icmp6 m data len =
     (if len < 8 then FILTER_UNKNOWN
      else if 133 \<le> m data \<and> m data \<le> 137 then FILTER_NDP else FILTER_UNKNOWN)"

section \<open>IPv6 extension headers\<close>

text \<open>The first \<open>switch\<close>: the length of the extension header \<open>proto\<close> names, \<open>None\<close> when it names none.\<close>

definition ext_hdr_len :: "u8 \<Rightarrow> mem \<Rightarrow> nat \<Rightarrow> nat option" where
  "ext_hdr_len proto m data =
     (if proto \<in> {IPPROTO_HOPOPTS, IPPROTO_ROUTING, IPPROTO_DSTOPTS, IPPROTO_MH, IPPROTO_HIP, IPPROTO_SHIM6}
      then Some (unat (m (data + 1)) + 1)
      else if proto = IPPROTO_FRAGMENT then Some 8
      else if proto = IPPROTO_AH then Some ((unat (m (data + 1)) + 2) * 4)
      else None)"

lemma ext_hdr_len_pos: "ext_hdr_len proto m data = Some e \<Longrightarrow> 0 < e"
  by (auto simp: ext_hdr_len_def split: if_splits)

text \<open>The total length of the headers and \<open>*proto\<close> afterwards.\<close>

function get_ipv6_hdr_len :: "mem \<Rightarrow> u8 \<Rightarrow> nat \<Rightarrow> nat \<Rightarrow> nat \<times> u8" where
  "get_ipv6_hdr_len m proto data len =
     (case ext_hdr_len proto m data of
        None \<Rightarrow> (0, proto)
      | Some e \<Rightarrow>
          (if e \<ge> len then (len, proto)
           else case get_ipv6_hdr_len m (m data) (data + e) (len - e) of (n, proto') \<Rightarrow> (e + n, proto')))"
  by pat_completeness auto
termination
  by (relation "measure (\<lambda>(_, _, _, len). len)") (auto dest: ext_hdr_len_pos)

declare get_ipv6_hdr_len.simps [simp del]

section \<open>The IP filter\<close>

text \<open>
  One activation of \<open>protocol_filter_ip\<close>: a verdict, or the arguments of the call it ends with, for an
  IP packet inside an IP packet.
\<close>

datatype filter_step = Verdict FilterReturn | Descend nat nat u16

text \<open>\<open>(version_ihl & 0x0f) << 2\<close>.\<close>

definition ihl_bytes :: "u8 \<Rightarrow> nat" where
  "ihl_bytes version_ihl = unat (push_bit 2 (version_ihl AND 0x0f))"

text \<open>The header: \<open>None\<close> is one of the early returns, else the header length and the protocol.\<close>

definition filter_ip_header :: "filter_conf \<Rightarrow> mem \<Rightarrow> nat \<Rightarrow> nat \<Rightarrow> u16 \<Rightarrow> (nat \<times> u8) option" where
  "filter_ip_header C m data len eth_frame_type =
     (if eth_frame_type = RTE_ETHER_TYPE_IPV4 then
        (if len < 20 then None
         else let hdr_len = ihl_bytes (m data)
              in if len < hdr_len then None else Some (hdr_len, m (data + 9)))
      else if INET6 C \<and> eth_frame_type = RTE_ETHER_TYPE_IPV6 then
        (if len < 40 then None
         else case get_ipv6_hdr_len m (m (data + 6)) (data + 40) (len - 40) of
                (n, proto) \<Rightarrow> if len < 40 + n then None else Some (40 + n, proto))
      else None)"

text \<open>The final \<open>switch\<close> on the protocol.\<close>

definition filter_ip_proto :: "filter_conf \<Rightarrow> mem \<Rightarrow> u8 \<Rightarrow> nat \<Rightarrow> nat \<Rightarrow> filter_step" where
  "filter_ip_proto C m proto data len =
     (if proto = IPPROTO_TCP then
        Verdict (if LAZYBSD_KNI C \<and> enable_kni C then protocol_filter_tcp C m data len else FILTER_UNKNOWN)
      else if proto = IPPROTO_UDP then
        Verdict (if LAZYBSD_KNI C \<and> enable_kni C then protocol_filter_udp C m data len else FILTER_UNKNOWN)
      else if proto = IPPROTO_IPIP then Descend data len RTE_ETHER_TYPE_IPV4
      else if INET6 C \<and> proto = IPPROTO_IPV6 then Descend data len RTE_ETHER_TYPE_IPV6
      else if INET6 C \<and> proto = IPPROTO_ICMPV6 then Verdict (protocol_filter_icmp6 m data len)
      else Verdict FILTER_UNKNOWN)"

definition filter_ip_step :: "filter_conf \<Rightarrow> mem \<Rightarrow> nat \<Rightarrow> nat \<Rightarrow> u16 \<Rightarrow> filter_step" where
  "filter_ip_step C m data len ty =
     (case filter_ip_header C m data len ty of
        None \<Rightarrow> Verdict FILTER_UNKNOWN
      | Some (hdr_len, proto) \<Rightarrow> filter_ip_proto C m proto (data + hdr_len) (len - hdr_len))"

partial_function (option) protocol_filter_ip ::
    "filter_conf \<Rightarrow> mem \<Rightarrow> nat \<Rightarrow> nat \<Rightarrow> u16 \<Rightarrow> FilterReturn option" where
  "protocol_filter_ip C m data len ty =
     (case filter_ip_step C m data len ty of
        Verdict v \<Rightarrow> Some v
      | Descend data' len' ty' \<Rightarrow> protocol_filter_ip C m data' len' ty')"

definition lazybsd_kni_proto_filter ::
    "filter_conf \<Rightarrow> mem \<Rightarrow> nat \<Rightarrow> nat \<Rightarrow> u16 \<Rightarrow> FilterReturn option" where
  "lazybsd_kni_proto_filter C m data len ty = protocol_filter_ip C m data len ty"

section \<open>The frame filter\<close>

definition u16_sub :: "nat \<Rightarrow> nat \<Rightarrow> nat" where
  "u16_sub a b = (a + 65536 - b) mod 65536"

text \<open>\<open>RTE_ETHER_ADDR_LEN\<close> is 6, \<open>RTE_ETHER_HDR_LEN\<close> 14, a VLAN header 4 bytes.  The host is not FreeBSD.\<close>

definition protocol_filter :: "filter_conf \<Rightarrow> mem \<Rightarrow> nat \<Rightarrow> nat \<Rightarrow> FilterReturn option" where
  "protocol_filter C m data len =
     (if len < 6 then Some FILTER_UNKNOWN
      else
        let ether_type = be16 m (data + 12);
            data = data + 14; len = u16_sub len 14;
            (ether_type, data, len) =
              (if ether_type = RTE_ETHER_TYPE_VLAN then (be16 m (data + 2), data + 4, u16_sub len 4)
               else (ether_type, data, len))
        in if ether_type = RTE_ETHER_TYPE_ARP then Some FILTER_ARP
           else if INET6 C \<and> ether_type = RTE_ETHER_TYPE_IPV6
           then lazybsd_kni_proto_filter C m data len ether_type
           else if \<not> LAZYBSD_KNI C \<or> \<not> enable_kni C then Some FILTER_UNKNOWN
           else if ether_type \<noteq> RTE_ETHER_TYPE_IPV4 then Some FILTER_UNKNOWN
           else lazybsd_kni_proto_filter C m data len ether_type)"

section \<open>Port lists\<close>

text \<open>\<open>atoi\<close> of the C library: white space, a sign, digits.\<close>

definition digit_val :: "char \<Rightarrow> int" where
  "digit_val c = of_char c - 48"

definition is_space :: "char \<Rightarrow> bool" where
  "is_space c \<longleftrightarrow> c = CHR '' '' \<or> 9 \<le> (of_char c :: nat) \<and> (of_char c :: nat) \<le> 13"

definition digits_val :: "string \<Rightarrow> int" where
  "digits_val s = foldl (\<lambda>n c. n * 10 + digit_val c) 0 (takeWhile is_dec s)"

definition atoi :: "string \<Rightarrow> int" where
  "atoi s =
     (case dropWhile is_space s of
        [] \<Rightarrow> 0
      | c # cs \<Rightarrow> if c = CHR ''-'' then - digits_val cs
                  else if c = CHR ''+'' then digits_val cs else digits_val (c # cs))"

text \<open>\<open>strstr\<close> for a needle of one character: the index of its first occurrence.\<close>

definition strchr :: "char \<Rightarrow> string \<Rightarrow> nat option" where
  "strchr c s = (if c \<in> set s then Some (length (takeWhile (\<lambda>x. x \<noteq> c) s)) else None)"

lemma strchr_nonempty: "strchr c s = Some n \<Longrightarrow> s \<noteq> []"
  by (auto simp: strchr_def split: if_splits)

definition set_ports :: "int list \<Rightarrow> (nat \<Rightarrow> u8) \<Rightarrow> nat \<Rightarrow> u8" where
  "set_ports ps bitmap = fold (\<lambda>p. set_bitmap (word_of_int p)) ps bitmap"

text \<open>One item: a range when a \<open>-\<close> stands before the \<open>,\<close>, and not right before it; the loop over a
  range runs over \<open>int\<close>s.\<close>

definition item_ports :: "string \<Rightarrow> int list" where
  "item_ports head =
     (case strchr CHR ''-'' head of
        Some dash \<Rightarrow>
          (if (case strchr CHR '','' head of None \<Rightarrow> True | Some tail \<Rightarrow> int dash < int tail - 1)
           then [atoi head..atoi (drop (dash + 1) head)] else [atoi head])
      | None \<Rightarrow> [atoi head])"

function kni_set_bitmap_from :: "string \<Rightarrow> (nat \<Rightarrow> u8) \<Rightarrow> nat \<Rightarrow> u8" where
  "kni_set_bitmap_from head bitmap =
     (let bitmap = set_ports (item_ports head) bitmap
      in case strchr CHR '','' head of
           None \<Rightarrow> bitmap
         | Some tail \<Rightarrow> kni_set_bitmap_from (drop (tail + 1) head) bitmap)"
  by pat_completeness auto
termination
  by (relation "measure (\<lambda>(head, _). length head)")
    (auto dest!: strchr_nonempty simp: neq_Nil_conv)

declare kni_set_bitmap_from.simps [simp del]

definition kni_set_bitmap :: "string option \<Rightarrow> (nat \<Rightarrow> u8) \<Rightarrow> nat \<Rightarrow> u8" where
  "kni_set_bitmap p bitmap = (case p of None \<Rightarrow> bitmap | Some head \<Rightarrow> kni_set_bitmap_from head bitmap)"

text \<open>The part of \<open>lazybsd_kni_init\<close> that fills the bitmaps; the allocations are DPDK's.\<close>

definition lazybsd_kni_init :: "string option \<Rightarrow> string option \<Rightarrow> filter_conf \<Rightarrow> filter_conf" where
  "lazybsd_kni_init tcp_ports udp_ports C =
     C\<lparr>tcp_port_bitmap := kni_set_bitmap tcp_ports (\<lambda>_. 0),
       udp_port_bitmap := kni_set_bitmap udp_ports (\<lambda>_. 0)\<rparr>"

end
