(* ===== verification/LB_Tx.thy ===== *)
theory LB_Tx
  imports LB_Memory LB_Filter
begin

text \<open>
  The transmit half of the packet path: the per-port tables of packets waiting for a burst
  (\<^verbatim>\<open>send_burst\<close>, \<^verbatim>\<open>send_single_packet\<close> of \<^verbatim>\<open>src/lazybsd_dpdk.cc\<close>), and the stack's output
  \<^verbatim>\<open>lazybsd_dpdk_if_send\<close> with the zero-copy path of \<^verbatim>\<open>src/lazybsd_memory.cc\<close>, as built with
  \<open>LAZYBSD_USE_PAGE_ARRAY\<close>.

  A packet is its list of segments, the head first.  What happens to the buffers is a trace of
  events: every call that takes a buffer from a pool or gives one away appends one.  What DPDK and the
  FreeBSD mbuf allocator answer is the parameter \<open>env\<close>, indexed by a count of the calls made.  Packet
  capture writes a file and is left out.
\<close>

section \<open>Buffers\<close>

datatype ol_flag =
  RX_VLAN_STRIPPED | RX_IP_CKSUM_BAD | RX_L4_CKSUM_BAD |
  TX_IPV4 | TX_IP_CKSUM | TX_TCP_CKSUM | TX_UDP_CKSUM | TX_TCP_SEG

record rte_mbuf =
  addr :: nat
  buf_addr :: nat
  buf_iova :: u64
  data_off :: nat
  data_len :: nat
  pkt_len :: u32
  nb_segs :: nat
  ol_flags :: "ol_flag set"
  vlan_tci :: u16
  l2_len :: nat
  l3_len :: nat
  l4_len :: nat
  tso_segsz :: nat

type_synonym packet = "rte_mbuf list"

definition rte_pktmbuf_mtod :: "rte_mbuf \<Rightarrow> nat" where
  "rte_pktmbuf_mtod m = buf_addr m + data_off m"

text \<open>A packet of the stack: the first mbuf of its chain, with the packet header, and the others.  \<open>ext_rte\<close> is
  the address \<open>lazybsd_rte_frm_extcl\<close> finds, that of the received buffer the mbuf's data lies in.\<close>

datatype csum_flag = CSUM_IP | CSUM_TCP | CSUM_UDP | CSUM_SCTP | CSUM_TSO

record bsd_mbuf =
  m_data :: u64
  m_len :: nat
  csum_flags :: "csum_flag set"
  m_tso_segsz :: nat
  ext_rte :: "nat option"

datatype mpool = Pktmbuf nat | Ref nat

datatype event =
  Alloc nat | Free_pkt packet | Free_seg nat | To_nic nat packet | To_ring nat nat packet |
  To_kni nat packet | To_stack packet | Bsd_free nat

record env =
  rte_pktmbuf_alloc :: "nat \<Rightarrow> mpool \<Rightarrow> rte_mbuf option"
  rte_pktmbuf_clone :: "nat \<Rightarrow> nat \<Rightarrow> packet option"
  rte_eth_tx_burst :: "nat \<Rightarrow> nat \<Rightarrow> packet list \<Rightarrow> nat"
  rte_ring_accepts :: "nat \<Rightarrow> bool"
  rte_ipv4_phdr_cksum :: "mem \<Rightarrow> nat \<Rightarrow> u16"
  m_gethdr_ok :: "nat \<Rightarrow> bool"
  m_get_ok :: "nat \<Rightarrow> bool"
  packet_dispatcher :: "(mem \<Rightarrow> nat \<Rightarrow> nat \<Rightarrow> nat \<Rightarrow> nat \<Rightarrow> int \<times> nat \<times> mem) option"
  bsd :: "nat \<Rightarrow> bsd_mbuf \<times> bsd_mbuf list"

section \<open>State\<close>

text \<open>\<open>struct mbuf_table\<close>.\<close>

record mbuf_table =
  tx_len :: nat
  tx_m_table :: "nat \<Rightarrow> packet"
  bsd_m_table :: "nat \<Rightarrow> nat"

record lcore =
  memory :: mem
  tx_mbufs :: "nat \<Rightarrow> mbuf_table"
  bsd_pool :: pool
  rx_packets :: u64
  rx_bytes :: u64
  tx_packets :: u64
  tx_bytes :: u64
  calls :: nat
  trace :: "event list"

abbreviation (input) MAX_PKT_BURST :: nat where "MAX_PKT_BURST \<equiv> 32"

definition emit :: "event list \<Rightarrow> lcore \<Rightarrow> lcore" where
  "emit es s = s\<lparr>trace := trace s @ es\<rparr>"

definition tick_calls :: "lcore \<Rightarrow> lcore" where
  "tick_calls s = s\<lparr>calls := calls s + 1\<rparr>"

definition set_tx :: "nat \<Rightarrow> (mbuf_table \<Rightarrow> mbuf_table) \<Rightarrow> lcore \<Rightarrow> lcore" where
  "set_tx port f s = s\<lparr>tx_mbufs := (tx_mbufs s)(port := f (tx_mbufs s port))\<rparr>"

definition pktmbuf_alloc :: "env \<Rightarrow> mpool \<Rightarrow> lcore \<Rightarrow> rte_mbuf option \<times> lcore" where
  "pktmbuf_alloc E p s =
     (case rte_pktmbuf_alloc E (calls s) p of
        None \<Rightarrow> (None, tick_calls s)
      | Some m \<Rightarrow> (Some m, emit [Alloc (addr m)] (tick_calls s)))"

section \<open>Bursts\<close>

text \<open>The two loops of \<open>send_burst\<close>, over the packets sent and over those the card did not take.\<close>

definition sent_one :: "nat \<Rightarrow> nat \<Rightarrow> lcore \<Rightarrow> lcore" where
  "sent_one port i s =
     (let t = tx_mbufs s port;
          s = s\<lparr>tx_bytes := tx_bytes s + ucast (pkt_len (hd (tx_m_table t i)))\<rparr>
      in if bsd_m_table t i \<noteq> 0
         then case lazybsd_enq_tx_bsdmbuf port (bsd_m_table t i) (int (nb_segs (hd (tx_m_table t i)))) (bsd_pool s) of
                (p, freed) \<Rightarrow> emit (map Bsd_free freed) (s\<lparr>bsd_pool := p\<rparr>)
         else s)"

definition unsent_one :: "nat \<Rightarrow> nat \<Rightarrow> lcore \<Rightarrow> lcore" where
  "unsent_one port i s =
     (let t = tx_mbufs s port;
          s = emit [Free_pkt (tx_m_table t i)] s
      in if bsd_m_table t i \<noteq> 0 then emit [Bsd_free (bsd_m_table t i)] s else s)"

definition send_burst :: "env \<Rightarrow> nat \<Rightarrow> nat \<Rightarrow> lcore \<Rightarrow> lcore" where
  "send_burst E n port s =
     (let pkts = map (tx_m_table (tx_mbufs s port)) [0..<n];
          ret = rte_eth_tx_burst E (calls s) port pkts;
          s = emit (map (To_nic port) (take ret pkts)) (tick_calls s);
          s = s\<lparr>tx_packets := tx_packets s + of_nat ret\<rparr>;
          s = fold (sent_one port) [0..<ret] s
      in fold (unsent_one port) [ret..<n] s)"

definition send_single_packet :: "env \<Rightarrow> packet \<Rightarrow> nat \<Rightarrow> lcore \<Rightarrow> lcore" where
  "send_single_packet E m port s =
     (let len = tx_len (tx_mbufs s port);
          s = set_tx port (\<lambda>t. t\<lparr>tx_m_table := (tx_m_table t)(len := m)\<rparr>) s;
          len = len + 1;
          (len, s) = (if len = MAX_PKT_BURST then (0, send_burst E MAX_PKT_BURST port s) else (len, s))
      in set_tx port (\<lambda>t. t\<lparr>tx_len := len\<rparr>) s)"

text \<open>The drain of \<open>main_loop\<close>, over the ports of the core.\<close>

definition tx_drain_port :: "env \<Rightarrow> nat \<Rightarrow> lcore \<Rightarrow> lcore" where
  "tx_drain_port E port s =
     (if tx_len (tx_mbufs s port) = 0 then s
      else set_tx port (\<lambda>t. t\<lparr>tx_len := 0\<rparr>) (send_burst E (tx_len (tx_mbufs s port)) port s))"

definition tx_drain :: "env \<Rightarrow> nat list \<Rightarrow> lcore \<Rightarrow> lcore" where
  "tx_drain E ports s = fold (tx_drain_port E) ports s"

section \<open>Output of the stack\<close>

record lazybsd_tx_offload =
  ip_csum :: bool
  tcp_csum :: bool
  udp_csum :: bool
  sctp_csum :: bool
  tso_seg_size :: nat

definition lazybsd_mbuf_tx_offload :: "bsd_mbuf \<Rightarrow> lazybsd_tx_offload" where
  "lazybsd_mbuf_tx_offload mb =
     \<lparr>ip_csum = CSUM_IP \<in> csum_flags mb, tcp_csum = CSUM_TCP \<in> csum_flags mb,
      udp_csum = CSUM_UDP \<in> csum_flags mb, sctp_csum = CSUM_SCTP \<in> csum_flags mb,
      tso_seg_size = (if CSUM_TSO \<in> csum_flags mb then m_tso_segsz mb else 0)\<rparr>"

text \<open>A 16-bit store, little-endian.\<close>

definition store16 :: "nat \<Rightarrow> u16 \<Rightarrow> mem \<Rightarrow> mem" where
  "store16 p v m = m(p := ucast v, p + 1 := ucast (drop_bit 8 v))"

definition lazybsd_offload_set :: "env \<Rightarrow> bool \<Rightarrow> bsd_mbuf \<Rightarrow> rte_mbuf \<Rightarrow> lcore \<Rightarrow> rte_mbuf \<times> lcore" where
  "lazybsd_offload_set E tx_csum_l4 mb h s =
     (let offload = lazybsd_mbuf_tx_offload mb;
          iph = rte_pktmbuf_mtod h + 14;
          iph_len = ihl_bytes (memory s iph);
          h = (if ip_csum offload
                then h\<lparr>ol_flags := ol_flags h \<union> {TX_TCP_CKSUM, TX_IPV4}, l2_len := 14, l3_len := iph_len\<rparr>
                else h)
      in if \<not> tx_csum_l4 then (h, s)
         else
           let h = (if tcp_csum offload
                     then h\<lparr>ol_flags := ol_flags h \<union> {TX_TCP_CKSUM}, l2_len := 14, l3_len := iph_len\<rparr>
                     else h);
               (h, s) =
                 (if tso_seg_size offload \<noteq> 0
                  then let tcph = iph + iph_len;
                           tcph_len = unat (drop_bit 2 (memory s (tcph + 12) AND 0xf0));
                           s = s\<lparr>memory := store16 (tcph + 16) (rte_ipv4_phdr_cksum E (memory s) iph) (memory s)\<rparr>
                       in (h\<lparr>ol_flags := ol_flags h \<union> {TX_TCP_SEG}, l4_len := tcph_len,
                             tso_segsz := tso_seg_size offload\<rparr>, s)
                  else (h, s));
               h = (if udp_csum offload
                     then h\<lparr>ol_flags := ol_flags h \<union> {TX_TCP_CKSUM}, l2_len := 14, l3_len := iph_len\<rparr>
                     else h)
           in (h, s))"

definition lazybsd_extcl_to_rte :: "env \<Rightarrow> bsd_mbuf \<Rightarrow> lcore \<Rightarrow> packet option \<times> lcore" where
  "lazybsd_extcl_to_rte E mb s =
     (case ext_rte mb of
        None \<Rightarrow> (None, s)
      | Some src \<Rightarrow>
          (case rte_pktmbuf_clone E (calls s) src of
             None \<Rightarrow> (None, tick_calls s)
           | Some p \<Rightarrow> (Some p, emit (map (\<lambda>m. Alloc (addr m)) p) (tick_calls s))))"

text \<open>The loop of \<open>lazybsd_bsd_to_rte\<close>: \<open>chain\<close> are the segments linked so far, \<open>cur\<close> the buffer in hand.\<close>

fun bsd_to_rte_segs ::
    "env \<Rightarrow> nat \<Rightarrow> bsd_mbuf list \<Rightarrow> packet \<Rightarrow> rte_mbuf option \<Rightarrow> lcore \<Rightarrow> (packet option \<times> lcore) kresult" where
  "bsd_to_rte_segs E sk [] chain cur s = Inr (Some chain, s)"
| "bsd_to_rte_segs E sk (b # bs) chain cur s =
     (case (case cur of Some c \<Rightarrow> (Some c, s) | None \<Rightarrow> pktmbuf_alloc E (Ref sk) s) of
        (None, s) \<Rightarrow> Inr (None, emit [Free_pkt chain] s)
      | (Some c, s) \<Rightarrow>
          (case lazybsd_mem_virt2phy (m_data b) (bsd_pool s) of
             Inl e \<Rightarrow> Inl e
           | Inr iova \<Rightarrow>
               bsd_to_rte_segs E sk bs
                 (chain @ [c\<lparr>buf_addr := unat (m_data b), buf_iova := iova, data_off := 0, data_len := m_len b\<rparr>])
                 None s))"

text \<open>The count of segments is a \<open>uint16_t\<close>.\<close>

definition lazybsd_bsd_to_rte ::
    "env \<Rightarrow> nat \<Rightarrow> bsd_mbuf \<times> bsd_mbuf list \<Rightarrow> u32 \<Rightarrow> lcore \<Rightarrow> (packet option \<times> lcore) kresult" where
  "lazybsd_bsd_to_rte E sk m total_len s =
     (case pktmbuf_alloc E (Ref sk) s of
        (None, s) \<Rightarrow> Inr (None, s)
      | (Some p_head, s) \<Rightarrow>
          (case bsd_to_rte_segs E sk (fst m # snd m) [] (Some (p_head\<lparr>pkt_len := total_len\<rparr>)) s of
             Inl e \<Rightarrow> Inl e
           | Inr (None, s) \<Rightarrow> Inr (None, s)
           | Inr (Some p, s) \<Rightarrow> Inr (Some ((hd p)\<lparr>nb_segs := length p mod 65536\<rparr> # tl p), s)))"

text \<open>\<open>struct lazybsd_dpdk_if_context\<close>; \<open>if_socket\<close> is \<open>lcore_conf.socket_id\<close>.\<close>

record if_context =
  port_id :: nat
  tx_csum_l4 :: bool
  rx_csum :: bool
  if_socket :: nat

definition lazybsd_if_send_onepkt :: "env \<Rightarrow> if_context \<Rightarrow> nat \<Rightarrow> u32 \<Rightarrow> lcore \<Rightarrow> (nat \<times> lcore) kresult" where
  "lazybsd_if_send_onepkt E ctx m total_len s =
     (if m = 0 then Inr (0, s)
      else
        let mb = fst (bsd E m);
            r = (if lazybsd_chk_vma (m_data mb) (bsd_pool s)
                 then lazybsd_bsd_to_rte E (if_socket ctx) (bsd E m) total_len s
                 else case lazybsd_extcl_to_rte E mb s of
                        (None, s) \<Rightarrow> Inl (Panic ''data address is out of page bound'')
                      | (Some p, s) \<Rightarrow> Inr (Some p, s))
        in case r of
             Inl e \<Rightarrow> Inl e
           | Inr (None, s) \<Rightarrow> Inr (0, emit [Bsd_free m] s)
           | Inr (Some p, s) \<Rightarrow>
               (case lazybsd_offload_set E (tx_csum_l4 ctx) mb (hd p) s of
                  (h, s) \<Rightarrow>
                    let port = port_id ctx;
                        len = tx_len (tx_mbufs s port);
                        s = set_tx port (\<lambda>t. t\<lparr>tx_m_table := (tx_m_table t)(len := h # tl p),
                                              bsd_m_table := (bsd_m_table t)(len := m)\<rparr>) s
                    in Inr (len + 1, s)))"

definition lazybsd_dpdk_if_send :: "env \<Rightarrow> if_context \<Rightarrow> nat \<Rightarrow> u32 \<Rightarrow> lcore \<Rightarrow> (int \<times> lcore) kresult" where
  "lazybsd_dpdk_if_send E ctx m total_len s =
     (case lazybsd_if_send_onepkt E ctx m total_len s of
        Inl e \<Rightarrow> Inl e
      | Inr (len, s) \<Rightarrow>
          let (len, s) = (if len = MAX_PKT_BURST then (0, send_burst E MAX_PKT_BURST (port_id ctx) s) else (len, s))
          in Inr (0, set_tx (port_id ctx) (\<lambda>t. t\<lparr>tx_len := len\<rparr>) s))"

end
