(* ===== verification/LB_Rx.thy ===== *)
theory LB_Rx
  imports LB_Tx
begin

text \<open>
  The receive half of the packet path of \<^verbatim>\<open>src/lazybsd_dpdk.cc\<close>: what \<open>process_packets\<close> does with every
  packet of a burst (the user's dispatcher, the classifier, the copies for the other queues and for the
  exception path), the delivery to the stack with the mbuf constructors of
  \<^verbatim>\<open>bsd/lib/lazybsd_veth.c\<close>, the dispatch rings and the exception path.  Events, environment and state are
  those of the transmit half.
\<close>

section \<open>Configuration\<close>

datatype knictl_action = ACTION_DEFAULT | ACTION_ALL_TO_KNI | ACTION_ALL_TO_FF | ACTION_OTHER

record rx_conf =
  fconf :: filter_conf
  kni_accept :: bool
  knictl_action :: knictl_action
  proc_primary :: bool
  nb_queue_list :: "nat \<Rightarrow> nat"
  numa_on :: bool
  socket_id :: nat
  queue_socket :: "nat \<Rightarrow> nat \<Rightarrow> nat"

section \<open>Delivery to the stack\<close>

text \<open>\<open>lazybsd_mbuf_gethdr\<close> and \<open>lazybsd_mbuf_get\<close> attach the segment's data to a new mbuf; only whether one could be
  had matters here.\<close>

definition lazybsd_mbuf_gethdr :: "env \<Rightarrow> lcore \<Rightarrow> bool \<times> lcore" where
  "lazybsd_mbuf_gethdr E s = (m_gethdr_ok E (calls s), tick_calls s)"

definition lazybsd_mbuf_get :: "env \<Rightarrow> lcore \<Rightarrow> bool \<times> lcore" where
  "lazybsd_mbuf_get E s = (m_get_ok E (calls s), tick_calls s)"

text \<open>The loop over the further segments: the number of segments attached, and whether all were.  Freeing the
  chain of mbufs gives every attached segment back through \<open>lazybsd_mbuf_ext_free\<close>.\<close>

fun veth_attach :: "env \<Rightarrow> packet \<Rightarrow> lcore \<Rightarrow> nat \<times> bool \<times> lcore" where
  "veth_attach E [] s = (0, True, s)"
| "veth_attach E (pn # pns) s =
     (case lazybsd_mbuf_get E s of
        (False, s) \<Rightarrow> (0, False, s)
      | (True, s) \<Rightarrow> (case veth_attach E pns s of (k, ok, s) \<Rightarrow> (k + 1, ok, s)))"

definition lazybsd_veth_input :: "env \<Rightarrow> if_context \<Rightarrow> packet \<Rightarrow> lcore \<Rightarrow> lcore" where
  "lazybsd_veth_input E ctx pkt s =
     (if rx_csum ctx \<and> (RX_IP_CKSUM_BAD \<in> ol_flags (hd pkt) \<or> RX_L4_CKSUM_BAD \<in> ol_flags (hd pkt))
      then emit [Free_pkt pkt] s
      else
        case lazybsd_mbuf_gethdr E s of
          (False, s) \<Rightarrow> emit [Free_pkt pkt] s
        | (True, s) \<Rightarrow>
            (case veth_attach E (tl pkt) s of
               (k, True, s) \<Rightarrow> emit [To_stack pkt] s
             | (k, False, s) \<Rightarrow>
                 emit (map (\<lambda>m. Free_seg (addr m)) (take (k + 1) pkt) @ [Free_pkt pkt]) s))"

section \<open>Copies\<close>

definition pktmbuf_deep_attach :: "rte_mbuf \<Rightarrow> rte_mbuf \<Rightarrow> lcore \<Rightarrow> rte_mbuf \<times> lcore" where
  "pktmbuf_deep_attach mi m s =
     (mi\<lparr>data_len := data_len m, vlan_tci := vlan_tci m, l2_len := l2_len m, l3_len := l3_len m,
         l4_len := l4_len m, tso_segsz := tso_segsz m, ol_flags := ol_flags m\<rparr>,
      s\<lparr>memory := bcopy (rte_pktmbuf_mtod m) (rte_pktmbuf_mtod mi) (data_len m) (memory s)\<rparr>)"

text \<open>The loop of \<open>pktmbuf_deep_clone\<close>: the segments copied and whether a buffer was found for each.\<close>

fun clone_segs :: "env \<Rightarrow> mpool \<Rightarrow> packet \<Rightarrow> lcore \<Rightarrow> packet \<times> bool \<times> lcore" where
  "clone_segs E mp [] s = ([], True, s)"
| "clone_segs E mp (md # mds) s =
     (case pktmbuf_alloc E mp s of
        (None, s) \<Rightarrow> ([], False, s)
      | (Some mi, s) \<Rightarrow>
          (case pktmbuf_deep_attach mi md s of
             (mi, s) \<Rightarrow> (case clone_segs E mp mds s of (mc, ok, s) \<Rightarrow> (mi # mc, ok, s))))"

definition pktmbuf_deep_clone :: "env \<Rightarrow> mpool \<Rightarrow> packet \<Rightarrow> lcore \<Rightarrow> packet option \<times> lcore" where
  "pktmbuf_deep_clone E mp md s =
     (case clone_segs E mp md s of
        ([], ok, s) \<Rightarrow> (None, s)
      | (mc # mcs, ok, s) \<Rightarrow>
          let mc = mc\<lparr>nb_segs := length (mc # mcs) mod 256, pkt_len := pkt_len (hd md)\<rparr>
          in if \<not> ok then (None, emit [Free_pkt (mc # mcs)] s) else (Some (mc # mcs), s))"

text \<open>\<open>rte_pktmbuf_prepend\<close> fails when there is less headroom than asked for; else the data start earlier.\<close>

definition store16_be :: "nat \<Rightarrow> u16 \<Rightarrow> mem \<Rightarrow> mem" where
  "store16_be p v m = m(p := ucast (drop_bit 8 v), p + 1 := ucast v)"

definition add_vlan_bytes :: "nat \<Rightarrow> u16 \<Rightarrow> mem \<Rightarrow> mem" where
  "add_vlan_bytes data tci m =
     (let m = bcopy (data + 4) data 14 m;
          m = store16_be (data + 14) tci m;
          m = m(data + 16 := m (data + 12), data + 17 := m (data + 13))
      in store16_be (data + 12) RTE_ETHER_TYPE_VLAN m)"

definition lazybsd_add_vlan_tag :: "packet \<Rightarrow> lcore \<Rightarrow> packet \<times> lcore" where
  "lazybsd_add_vlan_tag rtem s =
     (let h = hd rtem
      in if RX_VLAN_STRIPPED \<in> ol_flags h \<and> data_off h \<ge> 4
         then let h' = h\<lparr>data_off := data_off h - 4, data_len := (data_len h + 4) mod 65536, pkt_len := pkt_len h + 4\<rparr>
              in (h' # tl rtem, s\<lparr>memory := add_vlan_bytes (rte_pktmbuf_mtod h') (vlan_tci h) (memory s)\<rparr>)
         else (rtem, s))"

section \<open>Rings\<close>

definition ring_enqueue :: "env \<Rightarrow> event \<Rightarrow> packet \<Rightarrow> lcore \<Rightarrow> lcore" where
  "ring_enqueue E e pkt s =
     (let ok = rte_ring_accepts E (calls s); s = tick_calls s
      in emit [if ok then e else Free_pkt pkt] s)"

definition dispatch_enqueue :: "env \<Rightarrow> nat \<Rightarrow> nat \<Rightarrow> packet \<Rightarrow> lcore \<Rightarrow> lcore" where
  "dispatch_enqueue E port queue pkt s = ring_enqueue E (To_ring port queue pkt) pkt s"

definition lazybsd_kni_enqueue :: "env \<Rightarrow> nat \<Rightarrow> packet \<Rightarrow> lcore \<Rightarrow> lcore" where
  "lazybsd_kni_enqueue E port pkt s = ring_enqueue E (To_kni port pkt) pkt s"

section \<open>A received packet\<close>

text \<open>A broadcast packet is copied for every other queue of the port.\<close>

definition broadcast_one :: "env \<Rightarrow> rx_conf \<Rightarrow> nat \<Rightarrow> nat \<Rightarrow> packet \<Rightarrow> nat \<Rightarrow> lcore \<Rightarrow> lcore" where
  "broadcast_one E C port queue rtem j s =
     (if j = queue then s
      else case pktmbuf_deep_clone E (Pktmbuf (if numa_on C then queue_socket C port j else 0)) rtem s of
             (None, s) \<Rightarrow> s
           | (Some mc, s) \<Rightarrow> dispatch_enqueue E port j mc s)"

definition kni_copy :: "env \<Rightarrow> rx_conf \<Rightarrow> nat \<Rightarrow> packet \<Rightarrow> lcore \<Rightarrow> lcore" where
  "kni_copy E C port rtem s =
     (case pktmbuf_deep_clone E (Pktmbuf (socket_id C)) rtem s of
        (None, s) \<Rightarrow> s
      | (Some mc, s) \<Rightarrow>
          (case lazybsd_add_vlan_tag mc s of (mc, s) \<Rightarrow> lazybsd_kni_enqueue E port mc s))"

definition to_kni :: "env \<Rightarrow> nat \<Rightarrow> packet \<Rightarrow> lcore \<Rightarrow> lcore" where
  "to_kni E port rtem s =
     (case lazybsd_add_vlan_tag rtem s of (rtem, s) \<Rightarrow> lazybsd_kni_enqueue E port rtem s)"

text \<open>The packet once classified.\<close>

definition process_filtered ::
    "env \<Rightarrow> rx_conf \<Rightarrow> if_context \<Rightarrow> nat \<Rightarrow> nat \<Rightarrow> bool \<Rightarrow> FilterReturn \<Rightarrow> packet \<Rightarrow> lcore \<Rightarrow> lcore" where
  "process_filtered E C ctx port queue from_ring verdict rtem s =
     (if verdict = FILTER_ARP \<or> INET6 (fconf C) \<and> verdict = FILTER_NDP then
        let s = (if from_ring then s else fold (broadcast_one E C port queue rtem) [0..<nb_queue_list C port] s);
            s = (if LAZYBSD_KNI (fconf C) \<and> enable_kni (fconf C) \<and> proc_primary C then kni_copy E C port rtem s else s)
        in lazybsd_veth_input E ctx rtem s
      else if LAZYBSD_KNI (fconf C) \<and> enable_kni (fconf C) then
        (case knictl_action C of
           ACTION_ALL_TO_KNI \<Rightarrow> to_kni E port rtem s
         | ACTION_ALL_TO_FF \<Rightarrow> lazybsd_veth_input E ctx rtem s
         | ACTION_DEFAULT \<Rightarrow>
             if verdict = FILTER_KNI \<and> kni_accept C \<or> verdict = FILTER_UNKNOWN \<and> \<not> kni_accept C
             then to_kni E port rtem s else lazybsd_veth_input E ctx rtem s
         | ACTION_OTHER \<Rightarrow> lazybsd_veth_input E ctx rtem s)
      else lazybsd_veth_input E ctx rtem s)"

text \<open>The dispatcher's answer: the packet is disposed of, or goes on with the length it left.  An answer below
  -2 is an index before the array of rings.\<close>

datatype dispatched = Done lcore | Go_on nat lcore

definition process_dispatch ::
    "env \<Rightarrow> rx_conf \<Rightarrow> nat \<Rightarrow> nat \<Rightarrow> packet \<Rightarrow> lcore \<Rightarrow> dispatched kresult" where
  "process_dispatch E C port queue rtem s =
     (case packet_dispatcher E of
        None \<Rightarrow> Inr (Go_on (data_len (hd rtem)) s)
      | Some f \<Rightarrow>
          (case f (memory s) (rte_pktmbuf_mtod (hd rtem)) (data_len (hd rtem)) queue (nb_queue_list C port) of
             (ret, len, mem') \<Rightarrow>
               let s = s\<lparr>memory := mem'\<rparr>
               in if ret = -2 then
                    (case lazybsd_add_vlan_tag ((hd rtem)\<lparr>pkt_len := of_nat len, data_len := len\<rparr> # tl rtem) s of
                       (rtem, s) \<Rightarrow> Inr (Done (send_single_packet E rtem port s)))
                  else if ret = -1 \<or> ret \<ge> int (nb_queue_list C port) then Inr (Done (emit [Free_pkt rtem] s))
                  else if ret \<noteq> int queue then
                    (if ret < 0 then Inl (Panic ''index out of bounds'')
                     else Inr (Done (dispatch_enqueue E port (nat ret) rtem s)))
                  else Inr (Go_on len s)))"

definition process_packet ::
    "env \<Rightarrow> rx_conf \<Rightarrow> if_context \<Rightarrow> nat \<Rightarrow> nat \<Rightarrow> bool \<Rightarrow> packet \<Rightarrow> lcore \<Rightarrow> lcore kresult" where
  "process_packet E C ctx port queue from_ring rtem s =
     (let s = (if from_ring then s
               else s\<lparr>rx_packets := rx_packets s + of_nat (nb_segs (hd rtem)),
                      rx_bytes := rx_bytes s + ucast (pkt_len (hd rtem))\<rparr>)
      in case (if from_ring then Inr (Go_on (data_len (hd rtem)) s) else process_dispatch E C port queue rtem s) of
           Inl e \<Rightarrow> Inl e
         | Inr (Done s) \<Rightarrow> Inr s
         | Inr (Go_on len s) \<Rightarrow>
             (case protocol_filter (fconf C) (memory s) (rte_pktmbuf_mtod (hd rtem)) len of
                None \<Rightarrow> Inl (Panic ''infinite recursion'')
              | Some verdict \<Rightarrow> Inr (process_filtered E C ctx port queue from_ring verdict rtem s)))"

fun process_packets ::
    "env \<Rightarrow> rx_conf \<Rightarrow> if_context \<Rightarrow> nat \<Rightarrow> nat \<Rightarrow> bool \<Rightarrow> packet list \<Rightarrow> lcore \<Rightarrow> lcore kresult" where
  "process_packets E C ctx port queue from_ring [] s = Inr s"
| "process_packets E C ctx port queue from_ring (rtem # bufs) s =
     (case process_packet E C ctx port queue from_ring rtem s of
        Inl e \<Rightarrow> Inl e
      | Inr s \<Rightarrow> process_packets E C ctx port queue from_ring bufs s)"

section \<open>The exception path\<close>

record kni_interface_stats =
  kni_rx_packets :: u64
  kni_rx_dropped :: u64
  kni_tx_packets :: u64
  kni_tx_dropped :: u64

text \<open>Packets of the ring go to the kernel's interface, packets of the interface to the port; what the far
  side does not take is freed and counted.\<close>

definition kni_process_tx ::
    "env \<Rightarrow> nat \<Rightarrow> packet list \<Rightarrow> kni_interface_stats \<Rightarrow> lcore \<Rightarrow> kni_interface_stats \<times> lcore" where
  "kni_process_tx E kni_port pkts st s =
     (let nb_tx = length pkts;
          nb_kni_tx = rte_eth_tx_burst E (calls s) kni_port pkts;
          s = emit (map (To_nic kni_port) (take nb_kni_tx pkts)) (tick_calls s);
          (st, s) = (if nb_kni_tx < nb_tx
                     then (st\<lparr>kni_rx_dropped := kni_rx_dropped st + of_nat (nb_tx - nb_kni_tx)\<rparr>,
                           emit (map Free_pkt (drop nb_kni_tx pkts)) s)
                     else (st, s))
      in (st\<lparr>kni_rx_packets := kni_rx_packets st + of_nat nb_kni_tx\<rparr>, s))"

definition kni_process_rx ::
    "env \<Rightarrow> nat \<Rightarrow> packet list \<Rightarrow> kni_interface_stats \<Rightarrow> lcore \<Rightarrow> kni_interface_stats \<times> lcore" where
  "kni_process_rx E port pkts st s =
     (let nb_kni_rx = length pkts
      in if nb_kni_rx = 0 then (st, s)
         else
           let nb_rx = rte_eth_tx_burst E (calls s) port pkts;
               s = emit (map (To_nic port) (take nb_rx pkts)) (tick_calls s);
               (st, s) = (if nb_rx < nb_kni_rx
                          then (st\<lparr>kni_tx_dropped := kni_tx_dropped st + of_nat (nb_kni_rx - nb_rx)\<rparr>,
                                emit (map Free_pkt (drop nb_rx pkts)) s)
                          else (st, s))
           in (st\<lparr>kni_tx_packets := kni_tx_packets st + of_nat nb_rx\<rparr>, s))"

text \<open>\<open>from_ring\<close> are the packets the ring delivers, \<open>from_kni\<close> those of the interface.\<close>

definition lazybsd_kni_process ::
    "env \<Rightarrow> nat \<Rightarrow> nat \<Rightarrow> packet list \<Rightarrow> packet list \<Rightarrow> kni_interface_stats \<Rightarrow> lcore \<Rightarrow> kni_interface_stats \<times> lcore" where
  "lazybsd_kni_process E port kni_port from_ring from_kni st s =
     (case kni_process_tx E kni_port from_ring st s of
        (st, s) \<Rightarrow> kni_process_rx E port from_kni st s)"

section \<open>A round of the main loop\<close>

definition process_dispatch_ring ::
    "env \<Rightarrow> rx_conf \<Rightarrow> if_context \<Rightarrow> nat \<Rightarrow> nat \<Rightarrow> packet list \<Rightarrow> lcore \<Rightarrow> (nat \<times> lcore) kresult" where
  "process_dispatch_ring E C ctx port queue pkts s =
     (case (if length pkts > 0 then process_packets E C ctx port queue True pkts s else Inr s) of
        Inl e \<Rightarrow> Inl e
      | Inr s \<Rightarrow> Inr (length pkts, s))"

text \<open>What the rings and the card deliver for one receive queue in a round.\<close>

record rx_input =
  in_port :: nat
  in_queue :: nat
  in_kni_ring :: "packet list"
  in_kni :: "packet list"
  in_dispatch :: "packet list"
  in_burst :: "packet list"

record loop_state =
  idle :: bool
  prev_tsc :: u64
  kni_stat :: "nat \<Rightarrow> kni_interface_stats"
  core :: lcore

definition main_loop_queue ::
    "env \<Rightarrow> rx_conf \<Rightarrow> (nat \<Rightarrow> if_context) \<Rightarrow> (nat \<Rightarrow> nat) \<Rightarrow> rx_input \<Rightarrow> loop_state \<Rightarrow> loop_state kresult" where
  "main_loop_queue E C veth_ctx kni_port inp L =
     (let port = in_port inp; queue = in_queue inp; ctx = veth_ctx port;
          L = (if LAZYBSD_KNI (fconf C) \<and> enable_kni (fconf C) \<and> proc_primary C
               then case lazybsd_kni_process E port (kni_port port) (in_kni_ring inp) (in_kni inp)
                           (kni_stat L port) (core L) of
                      (st, s) \<Rightarrow> L\<lparr>kni_stat := (kni_stat L)(port := st), core := s\<rparr>
               else L)
      in case process_dispatch_ring E C ctx port queue (in_dispatch inp) (core L) of
           Inl e \<Rightarrow> Inl e
         | Inr (n, s) \<Rightarrow>
             let L = L\<lparr>idle := idle L \<and> n = 0, core := s\<rparr>
             in if in_burst inp = [] then Inr L
                else
                  case process_packets E C ctx port queue False (in_burst inp) (core L) of
                    Inl e \<Rightarrow> Inl e
                  | Inr s \<Rightarrow> Inr (L\<lparr>idle := False, core := s\<rparr>))"

fun main_loop_rx ::
    "env \<Rightarrow> rx_conf \<Rightarrow> (nat \<Rightarrow> if_context) \<Rightarrow> (nat \<Rightarrow> nat) \<Rightarrow> rx_input list \<Rightarrow> loop_state \<Rightarrow> loop_state kresult" where
  "main_loop_rx E C veth_ctx kni_port [] L = Inr L"
| "main_loop_rx E C veth_ctx kni_port (inp # inps) L =
     (case main_loop_queue E C veth_ctx kni_port inp L of
        Inl e \<Rightarrow> Inl e
      | Inr L \<Rightarrow> main_loop_rx E C veth_ctx kni_port inps L)"

text \<open>The drain, when \<open>drain_tsc\<close> cycles have passed since the last one; then the receive queues.\<close>

definition main_loop_packets ::
    "env \<Rightarrow> rx_conf \<Rightarrow> (nat \<Rightarrow> if_context) \<Rightarrow> (nat \<Rightarrow> nat) \<Rightarrow> nat list \<Rightarrow> u64 \<Rightarrow> u64 \<Rightarrow> rx_input list \<Rightarrow> loop_state
      \<Rightarrow> loop_state kresult" where
  "main_loop_packets E C veth_ctx kni_port tx_ports drain_tsc cur_tsc inps L =
     (let L = L\<lparr>idle := True\<rparr>;
          L = (if cur_tsc - prev_tsc L \<ge> drain_tsc
               then L\<lparr>idle := (\<forall>p \<in> set tx_ports. tx_len (tx_mbufs (core L) p) = 0),
                      core := tx_drain E tx_ports (core L), prev_tsc := cur_tsc\<rparr>
               else L)
      in main_loop_rx E C veth_ctx kni_port inps L)"

end
