(* ===== verification/LB_Memory_Props.thy ===== *)
theory LB_Memory_Props
  imports LB_Memory
begin

text \<open>
  Properties of the transmit ring and of the page pool.  The ring is a delay line: what enters it
  leaves it, in order, 512 slots later.  The pool is an allocator: a page is at any time either free or
  in use, never both and never twice.  Both contracts are locales, interpreted on the model.
\<close>

section \<open>A delay line\<close>

locale delay_line =
  fixes put :: "'a \<Rightarrow> 's \<Rightarrow> 's \<times> 'a list"
    and view :: "'s \<Rightarrow> 'a list"
    and wf :: "'s \<Rightarrow> bool"
    and empty :: 'a
  assumes view_put: "wf s \<Longrightarrow> view (fst (put x s)) = tl (view s) @ [x]"
    and out_put: "wf s \<Longrightarrow> snd (put x s) = filter (\<lambda>y. y \<noteq> empty) [hd (view s)]"
    and wf_put: "wf s \<Longrightarrow> wf (fst (put x s))"
    and view_nonempty: "wf s \<Longrightarrow> view s \<noteq> []"
begin

primrec puts :: "'a list \<Rightarrow> 's \<Rightarrow> 's \<times> 'a list" where
  "puts [] s = (s, [])"
| "puts (x # xs) s = (case put x s of (s, out) \<Rightarrow> case puts xs s of (s, out') \<Rightarrow> (s, out @ out'))"

lemma puts_append:
  "puts (xs @ ys) s = (case puts xs s of (s, out) \<Rightarrow> case puts ys s of (s, out') \<Rightarrow> (s, out @ out'))"
  by (induction xs arbitrary: s) (simp_all split: prod.splits)

lemma puts_wf: "wf s \<Longrightarrow> wf (fst (puts xs s))"
proof (induction xs arbitrary: s)
  case (Cons x xs)
  show ?case
    using Cons.IH [OF wf_put [OF Cons.prems, of x]] by (simp add: case_prod_beta)
qed simp

lemma puts_delay:
  "wf s \<Longrightarrow> view (fst (puts xs s)) = drop (length xs) (view s @ xs) \<and>
     snd (puts xs s) = filter (\<lambda>y. y \<noteq> empty) (take (length xs) (view s @ xs))"
proof (induction xs arbitrary: s)
  case (Cons x xs)
  obtain y ys where v: "view s = y # ys"
    using view_nonempty [OF Cons.prems] by (cases "view s") auto
  have IH: "view (fst (puts xs (fst (put x s)))) = drop (length xs) (ys @ x # xs)"
    "snd (puts xs (fst (put x s))) = filter (\<lambda>y. y \<noteq> empty) (take (length xs) (ys @ x # xs))"
    using Cons.IH [OF wf_put [OF Cons.prems, of x]] view_put [OF Cons.prems, of x] v by simp_all
  show ?case
    using IH out_put [OF Cons.prems, of x] v by (simp add: case_prod_beta)
qed simp

end

section \<open>The transmit ring is a delay line of 512 slots\<close>

definition txring_view :: "mbuf_txring \<Rightarrow> nat list" where
  "txring_view q = map (\<lambda>i. m_table q ((unat (head q) + i) mod 512)) [0..<512]"

definition txring_wf :: "mbuf_txring \<Rightarrow> bool" where
  "txring_wf q \<longleftrightarrow> unat (head q) < 512"

lemma Head_INC_unat: "unat h < 512 \<Longrightarrow> unat (Head_INC h) = (unat h + 1) mod 512"
  by (auto simp: Head_INC_def Let_def unat_word_ariths mod_if)

lemma txring_view_slot:
  assumes "txring_wf q"
  shows "txring_view (fst (txring_slot x q)) = tl (txring_view q) @ [x]"
proof (rule nth_equalityI)
  show "length (txring_view (fst (txring_slot x q))) = length (tl (txring_view q) @ [x])"
    by (simp add: txring_view_def)
next
  fix i
  assume "i < length (txring_view (fst (txring_slot x q)))"
  then have i: "i < 512" by (simp add: txring_view_def)
  define h where "h = unat (head q)"
  have h: "h < 512" "unat (Head_INC (head q)) = (h + 1) mod 512"
    using assms Head_INC_unat by (simp_all add: h_def txring_wf_def)
  have at: "((h + 1) mod 512 + i) mod 512 = (h + Suc i) mod 512"
    by (simp add: mod_simps)
  have own: "(h + Suc i) mod 512 = h \<longleftrightarrow> i = 511"
    using i h(1) by (auto simp: mod_if)
  show "txring_view (fst (txring_slot x q)) ! i = (tl (txring_view q) @ [x]) ! i"
    using i at own h
    by (auto simp: txring_view_def txring_slot_def Let_def h_def [symmetric] nth_append nth_tl)
qed

interpretation ring: delay_line txring_slot txring_view txring_wf 0
proof unfold_locales
  fix q x
  assume wf: "txring_wf q"
  show "txring_view (fst (txring_slot x q)) = tl (txring_view q) @ [x]"
    using wf by (rule txring_view_slot)
  have "hd (txring_view q) = m_table q (unat (head q))"
    using wf by (simp add: txring_view_def txring_wf_def hd_map)
  then show "snd (txring_slot x q) = filter (\<lambda>y. y \<noteq> 0) [hd (txring_view q)]"
    by (simp add: txring_slot_def Let_def)
  show "txring_wf (fst (txring_slot x q))"
    using wf Head_INC_unat by (simp add: txring_wf_def txring_slot_def Let_def)
  show "txring_view q \<noteq> []"
    by (simp add: txring_view_def)
qed

lemma txring_skip_puts: "txring_skip n q = ring.puts (replicate n 0) q"
  by (induction n arbitrary: q) simp_all

definition tx_slots :: "nat \<Rightarrow> int \<Rightarrow> nat list" where
  "tx_slots p seg_num = replicate (nat (seg_num - 1)) 0 @ [p]"

lemma txring_enqueue_puts: "lazybsd_txring_enqueue p n q = ring.puts (tx_slots p n) q"
  by (simp add: lazybsd_txring_enqueue_def tx_slots_def txring_skip_puts ring.puts_append split: prod.splits)

text \<open>A sequence of packets transmitted on one port.\<close>

fun txring_enqueue_all :: "(nat \<times> int) list \<Rightarrow> mbuf_txring \<Rightarrow> mbuf_txring \<times> nat list" where
  "txring_enqueue_all [] q = (q, [])"
| "txring_enqueue_all ((p, n) # ps) q =
     (case lazybsd_txring_enqueue p n q of (q, f1) \<Rightarrow> case txring_enqueue_all ps q of (q, f2) \<Rightarrow> (q, f1 @ f2))"

lemma txring_enqueue_all_puts:
  "txring_enqueue_all ps q = ring.puts (concat (map (case_prod tx_slots) ps)) q"
  by (induction ps arbitrary: q rule: list.induct)
    (auto simp: txring_enqueue_puts ring.puts_append split: prod.splits)

lemma txring_empty_view: "i < num \<Longrightarrow> txring_view (lazybsd_txring_init num r i) = replicate 512 0"
  by (simp add: lazybsd_txring_init_def txring_view_def map_replicate_const)

lemma txring_init_wf: "i < num \<Longrightarrow> txring_wf (lazybsd_txring_init num r i)"
  by (simp add: lazybsd_txring_init_def txring_wf_def)

lemma filter_tx_slots:
  "0 \<notin> fst ` set ps \<Longrightarrow> filter (\<lambda>x. x \<noteq> 0) (concat (map (case_prod tx_slots) ps)) = map fst ps"
  by (induction ps) (auto simp: tx_slots_def)

text \<open>C10: the transmit ring keeps every mbuf for 512 descriptors and loses none.  Starting from a zeroed
  ring, for any sequence of packets (an mbuf and its number of segments): the mbufs freed so far are
  exactly those whose descriptor is at least 512 descriptors old, in the order of transmission, and
  the freed ones followed by the ones still in the ring are all the mbufs transmitted, each once.\<close>

theorem txring_frees_after_512:
  assumes "i < num" and "0 \<notin> fst ` set ps"
  defines "slots \<equiv> concat (map (case_prod tx_slots) ps)"
  shows "snd (txring_enqueue_all ps (lazybsd_txring_init num r i))
           = filter (\<lambda>x. x \<noteq> 0) (take (length slots - 512) slots) \<and>
         snd (txring_enqueue_all ps (lazybsd_txring_init num r i)) @
           filter (\<lambda>x. x \<noteq> 0) (txring_view (fst (txring_enqueue_all ps (lazybsd_txring_init num r i))))
           = map fst ps"
proof -
  let ?q = "lazybsd_txring_init num r i"
  let ?f = "filter (\<lambda>x::nat. x \<noteq> 0)"
  note d = ring.puts_delay [OF txring_init_wf [OF assms(1)], of slots r]
  have out: "snd (ring.puts slots ?q) = ?f (take (length slots) (replicate 512 0 @ slots))"
    and left: "txring_view (fst (ring.puts slots ?q)) = drop (length slots) (replicate 512 0 @ slots)"
    using d txring_empty_view [OF assms(1), of r] by simp_all
  have "snd (ring.puts slots ?q) @ ?f (txring_view (fst (ring.puts slots ?q)))
          = ?f (replicate 512 0 @ slots)"
    unfolding out left by (metis append_take_drop_id filter_append)
  also have "\<dots> = map fst ps"
    using filter_tx_slots [OF assms(2)] by (simp add: slots_def)
  finally show ?thesis
    using out by (simp add: txring_enqueue_all_puts slots_def)
qed

theorem txring_frees_after_512_witness:
  "snd (txring_enqueue_all [(7, 2), (9, 1)] (lazybsd_txring_init 1 (\<lambda>_. undefined) 0)) = []"
  using txring_frees_after_512 [of 0 1 "[(7, 2), (9, 1)]" "\<lambda>_. undefined"] by (simp add: tx_slots_def)

text \<open>\<open>Head_DEC\<close> decrements an unsigned integer, so that its test for a negative value never holds: from
  head 0 the ring is indexed at 65535.\<close>

lemma txring_pop_wraps: "head q = 0 \<Longrightarrow> n > 0 \<Longrightarrow> lazybsd_txring_pop n q = Inl (Panic ''index out of bounds'')"
proof -
  assume h: "head q = 0" and "n > 0"
  then obtain k where "nat n = Suc k" by (metis gr0_implies_Suc zero_less_nat_eq)
  moreover have "unat (- 1 :: u16) = 65535" by (simp add: unsigned_minus_1_eq_mask mask_eq_exp_minus_1)
  ultimately show ?thesis
    using h by (simp add: lazybsd_txring_pop_def Head_DEC_def Let_def)
qed

section \<open>A page allocator\<close>

text \<open>\<open>avail s\<close> are the pages that can still be handed out, \<open>cap s\<close> how many the allocator has room for, and
  \<open>null\<close> what a refused request gets.\<close>

locale page_allocator =
  fixes get :: "'s \<Rightarrow> 'p \<times> 's"
    and free :: "'p \<Rightarrow> 's \<Rightarrow> 's"
    and avail :: "'s \<Rightarrow> 'p multiset"
    and cap :: "'s \<Rightarrow> nat"
    and null :: 'p
  assumes get_empty: "avail s = {#} \<Longrightarrow> get s = (null, s)"
    and get_page: "avail s \<noteq> {#} \<Longrightarrow> avail s = add_mset (fst (get s)) (avail (snd (get s)))"
    and free_page: "size (avail s) < cap s \<Longrightarrow> avail (free p s) = add_mset p (avail s)"
    and cap_get: "cap (snd (get s)) = cap s"
    and cap_free: "cap (free p s) = cap s"
begin

text \<open>The clients' side: \<open>reach s0 s used\<close> when the pool got from \<open>s0\<close> to \<open>s\<close> by requests and by releases of pages
  in use, and the pages of \<open>used\<close> are out.\<close>

inductive reach :: "'s \<Rightarrow> 's \<Rightarrow> 'p multiset \<Rightarrow> bool" for s0 where
  init: "reach s0 s0 {#}"
| get_some: "reach s0 s used \<Longrightarrow> fst (get s) \<noteq> null \<Longrightarrow> reach s0 (snd (get s)) (add_mset (fst (get s)) used)"
| get_none: "reach s0 s used \<Longrightarrow> fst (get s) = null \<Longrightarrow> reach s0 (snd (get s)) used"
| free_used: "reach s0 s (add_mset p used) \<Longrightarrow> reach s0 (free p s) used"

lemma reach_conserves:
  assumes "reach s0 s used" and "size (avail s0) \<le> cap s0" and "null \<notin># avail s0"
  shows "avail s + used = avail s0 \<and> cap s = cap s0"
  using assms
proof (induction rule: reach.induct)
  case (get_some s used)
  then have "avail s \<noteq> {#}" using get_empty by fastforce
  then show ?case using get_some get_page [of s] cap_get [of s] by (metis union_mset_add_mset_left union_mset_add_mset_right)
next
  case (get_none s used)
  have "avail s = {#}"
  proof (rule ccontr)
    assume "avail s \<noteq> {#}"
    then have "null \<in># avail s" using get_page [of s] get_none.hyps(2) by (metis union_single_eq_member)
    then show False using get_none by (metis union_iff)
  qed
  then show ?case using get_none get_empty [of s] by simp
next
  case (free_used s p used)
  then have "avail s + add_mset p used = avail s0" "cap s = cap s0" by blast+
  moreover from this have "size (avail s) < cap s"
    using free_used.prems(1) by (metis add_Suc_right less_add_Suc1 order_less_le_trans size_add_mset size_union)
  ultimately show ?case using free_page [of s p] cap_free [of p s] by simp
qed simp

end

section \<open>The page pool is an allocator\<close>

definition free_pages :: "pool \<Rightarrow> u64 multiset" where
  "free_pages st = image_mset (ele (lazybsd_mpage_ctl st)) (mset_set {0..<sl_top (lazybsd_mpage_ctl st)})"

definition pool_free :: "u64 \<Rightarrow> pool \<Rightarrow> pool" where
  "pool_free p st = snd (lazybsd_mem_free_addr p st)"

definition pool_cap :: "pool \<Rightarrow> nat" where
  "pool_cap st = sl_size (lazybsd_mpage_ctl st)"

lemmas pool_defs = free_pages_def pool_free_def pool_cap_def lazybsd_mem_get_page_def
  lazybsd_mem_free_addr_def stklist_pop_def stklist_push_def

lemma free_pages_push:
  "image_mset (f(n := v)) (mset_set {0..<Suc n}) = add_mset v (image_mset f (mset_set {0..<n}))"
proof -
  have "image_mset (f(n := v)) (mset_set {0..<n}) = image_mset f (mset_set {0..<n})"
    by (rule image_mset_cong) simp
  then show ?thesis by (simp add: atLeast0_lessThan_Suc)
qed

lemma size_free_pages: "size (free_pages st) = sl_top (lazybsd_mpage_ctl st)"
  by (simp add: free_pages_def)

interpretation pages: page_allocator lazybsd_mem_get_page pool_free free_pages pool_cap 0
proof unfold_locales
  fix s :: pool and p
  show "lazybsd_mem_get_page s = (0, s)" if "free_pages s = {#}"
    using that size_free_pages [of s] by (simp add: pool_defs)
  show "free_pages s = add_mset (fst (lazybsd_mem_get_page s)) (free_pages (snd (lazybsd_mem_get_page s)))"
    if ne: "free_pages s \<noteq> {#}"
  proof -
    from ne obtain k where "sl_top (lazybsd_mpage_ctl s) = Suc k"
      by (metis not0_implies_Suc size_eq_0_iff_empty size_free_pages)
    then show ?thesis by (simp add: pool_defs atLeast0_lessThan_Suc)
  qed
  show "free_pages (pool_free p s) = add_mset p (free_pages s)" if "size (free_pages s) < pool_cap s"
    using that by (simp add: size_free_pages) (simp add: pool_defs free_pages_push del: fun_upd_apply)
  show "pool_cap (snd (lazybsd_mem_get_page s)) = pool_cap s"
    by (simp add: pool_defs)
  show "pool_cap (pool_free p s) = pool_cap s"
    by (simp add: pool_defs)
qed

text \<open>What the loop of \<open>lazybsd_mmap_init\<close> leaves.\<close>

lemma mmap_init_pages_ok:
  assumes "mmap_init_pages v2p i n st = Inr st'" and "sl_top (lazybsd_mpage_ctl st) = i"
    and "i + n \<le> pool_cap st"
  shows "free_pages st' = free_pages st + image_mset (page_addr (lazybsd_page_start st)) (mset_set {i..<i + n}) \<and>
    lazybsd_mpage_phy st' =
      (\<lambda>j. if i \<le> j \<and> j < i + n then v2p (page_addr (lazybsd_page_start st) j) else lazybsd_mpage_phy st j) \<and>
    lazybsd_page_start st' = lazybsd_page_start st \<and> lazybsd_page_end st' = lazybsd_page_end st \<and>
    pool_cap st' = pool_cap st"
  using assms
proof (induction n arbitrary: i st)
  case (Suc n)
  define a where "a = page_addr (lazybsd_page_start st) i"
  define st1 where "st1 = (pool_free a st)\<lparr>lazybsd_mpage_phy := (lazybsd_mpage_phy st)(i := v2p a)\<rparr>"
  have room: "size (free_pages st) < pool_cap st"
    using Suc.prems by (simp add: size_free_pages)
  have st1: "free_pages st1 = add_mset a (free_pages st)" "pool_cap st1 = pool_cap st"
    "lazybsd_mpage_phy st1 = (lazybsd_mpage_phy st)(i := v2p a)"
    "lazybsd_page_start st1 = lazybsd_page_start st" "lazybsd_page_end st1 = lazybsd_page_end st"
    using pages.free_page [OF room, of a] pages.cap_free [of a st]
    by (simp_all add: st1_def free_pages_def pool_cap_def pool_free_def lazybsd_mem_free_addr_def split: prod.splits)
  have top: "sl_top (lazybsd_mpage_ctl st1) = i + 1"
    using arg_cong [OF st1(1), of size] Suc.prems by (simp add: size_free_pages)
  have st1_eq: "st1 = st\<lparr>lazybsd_mpage_ctl := the (snd (stklist_push (Some (lazybsd_mpage_ctl st)) a)),
      lazybsd_mpage_phy := (lazybsd_mpage_phy st)(i := v2p a)\<rparr>"
    by (simp add: st1_def pool_free_def lazybsd_mem_free_addr_def split: prod.splits)
  have rest: "mmap_init_pages v2p (i + 1) n st1 = Inr st'"
    using Suc.prems(1) by (simp add: Let_def a_def [symmetric] st1_eq split: if_splits)
  have ivl: "mset_set {i..<i + Suc n} = add_mset i (mset_set {i + 1..<i + 1 + n})"
  proof -
    have "{i..<i + Suc n} = insert i {i + 1..<i + 1 + n}" by auto
    then show ?thesis by simp
  qed
  show ?case
    using Suc.IH [OF rest top] Suc.prems(3) unfolding st1 ivl by (auto simp: a_def fun_eq_iff)
qed (auto simp: fun_eq_iff)

lemma scast_of_nat: "n < 2 ^ 31 \<Longrightarrow> (scast (of_nat n :: i32) :: u64) = of_nat n"
  by (simp add: signed_of_nat signed_take_bit_int_eq_self)

lemma unat_u64: "n < 2 ^ 31 \<Longrightarrow> unat (of_nat n :: u64) = n"
  by (simp add: unat_of_nat)

lemma page_addr_nat: "i < 2 ^ 19 \<Longrightarrow> page_addr s i = s + of_nat (4096 * i)"
  using scast_of_nat [of "4096 * i"] by (simp add: page_addr_def)

lemma memsz_nat:
  assumes "n < 2048"
  shows "(scast (push_bit 20 (of_nat n) :: i32) :: u64) = of_nat (n * 2 ^ 20)"
    and "(ucast (drop_bit 12 (of_nat (n * 2 ^ 20) :: u64)) :: u32) = of_nat (n * 256)"
    and "sint (of_nat (n * 256) :: u32) = int (n * 256)"
    and "unat (of_nat (n * 256) :: u32) = n * 256"
proof -
  show "(scast (push_bit 20 (of_nat n) :: i32) :: u64) = of_nat (n * 2 ^ 20)"
    using scast_of_nat [of "n * 2 ^ 20"] assms by (simp add: push_bit_eq_mult mult.commute)
  have "unat (drop_bit 12 (of_nat (n * 2 ^ 20) :: u64)) = unat (of_nat (n * 256) :: u64)"
    unfolding unat_drop_bit_eq using unat_u64 [of "n * 2 ^ 20"] unat_u64 [of "n * 256"] assms
    by (simp only: drop_bit_eq_div) simp
  then have "drop_bit 12 (of_nat (n * 2 ^ 20) :: u64) = of_nat (n * 256)"
    by (simp only: word_unat_eq_iff)
  moreover have "(ucast (of_nat k :: u64) :: u32) = of_nat k" if "k < 2 ^ 31" for k
    using that by (simp add: unsigned_of_nat take_bit_nat_eq_self)
  ultimately show "(ucast (drop_bit 12 (of_nat (n * 2 ^ 20) :: u64)) :: u32) = of_nat (n * 256)"
    using assms by (simp del: of_nat_mult)
  show "sint (of_nat (n * 256) :: u32) = int (n * 256)"
    using assms by (simp add: signed_of_nat signed_take_bit_int_eq_self del: of_nat_mult)
  show "unat (of_nat (n * 256) :: u32) = n * 256"
    using assms by (simp add: unat_of_nat del: of_nat_mult)
qed

lemma mmap_init_ok:
  assumes init: "lazybsd_mmap_init ports mapped m k t v2p (of_nat n) st = Inr (r, st0)"
    and n: "0 < n" "n < 2048"
  shows "free_pages st0 = image_mset (page_addr mapped) (mset_set {0..<n * 256}) \<and>
    lazybsd_mpage_phy st0 =
      (\<lambda>j. if j < n * 256 then v2p (page_addr mapped j) else lazybsd_mpage_phy st j) \<and>
    lazybsd_page_start st0 = mapped \<and> lazybsd_page_end st0 = mapped + of_nat (n * 2 ^ 20) \<and>
    pool_cap st0 = n * 256 \<and> r = 0"
proof -
  define ctl where "ctl = (lazybsd_mpage_ctl st)\<lparr>sl_size := n * 256, sl_top := 0\<rparr>"
  define st1 where "st1 = st\<lparr>lazybsd_page_start := mapped, lazybsd_page_end := mapped + of_nat (n * 2 ^ 20),
      lazybsd_mpage_ctl := ctl\<rparr>"
  have nat: "nat (int n * 256) = n * 256" by linarith
  obtain st2 where loop: "mmap_init_pages v2p 0 (n * 256) st1 = Inr st2"
    and st0: "st0 = st2\<lparr>nic_tx_ring := lazybsd_txring_init ports (nic_tx_ring st2)\<rparr>" and "r = 0"
    using init n(1) nat unfolding lazybsd_mmap_init_def memsz_nat [OF n(2)] Let_def
    by (auto simp: stklist_init_def Let_def memsz_nat [OF n(2), simplified] st1_def ctl_def split: if_splits sum.splits)
  show ?thesis
    using mmap_init_pages_ok [OF loop] \<open>r = 0\<close> unfolding st0
    by (auto simp: st1_def ctl_def pool_cap_def free_pages_def fun_eq_iff)
qed

lemma page_addr_inj: "inj_on (page_addr s) {0..<2 ^ 19}"
proof (rule inj_onI)
  fix i j :: nat
  assume ij: "i \<in> {0..<2 ^ 19}" "j \<in> {0..<2 ^ 19}" and "page_addr s i = page_addr s j"
  then have "(of_nat (4096 * i) :: u64) = of_nat (4096 * j)"
    by (simp add: page_addr_nat del: of_nat_mult)
  then have "unat (of_nat (4096 * i) :: u64) = unat (of_nat (4096 * j) :: u64)" by simp
  then show "i = j"
    using ij by (subst (asm) (1 2) unat_u64) auto
qed

text \<open>A pool in use: \<open>st\<close> is reached from the initialised pool by requests and releases, \<open>used\<close> are the pages out.\<close>

definition pool_reach :: "pool \<Rightarrow> pool \<Rightarrow> u64 multiset \<Rightarrow> bool" where
  "pool_reach st0 st used \<longleftrightarrow> pages.reach st0 st used"

lemma pool_reach_conserves:
  assumes "lazybsd_mmap_init ports mapped m k t v2p (of_nat n) st = Inr (r, st0)" and "0 < n" "n < 2048"
    and "0 \<notin> page_addr mapped ` {0..<n * 256}" and "pool_reach st0 st' used"
  shows "free_pages st' + used = mset_set (page_addr mapped ` {0..<n * 256})"
proof -
  note i = mmap_init_ok [OF assms(1-3)]
  have inj: "inj_on (page_addr mapped) {0..<n * 256}"
    using page_addr_inj by (rule inj_on_subset) (use assms(3) in auto)
  have "0 \<notin># free_pages st0" "size (free_pages st0) \<le> pool_cap st0"
    using i assms(4) by auto
  then have "free_pages st' + used = free_pages st0"
    using pages.reach_conserves assms(5) unfolding pool_reach_def by blast
  then show ?thesis
    using i image_mset_mset_set [OF inj] by simp
qed

lemma page_addr_nonzero:
  assumes "mapped \<noteq> 0" and "unat mapped + n * 2 ^ 20 \<le> 2 ^ 64" and "n < 2048"
  shows "0 \<notin> page_addr mapped ` {0..<n * 256}"
proof
  assume "0 \<in> page_addr mapped ` {0..<n * 256}"
  then obtain i where i: "i < n * 256" "mapped + of_nat (4096 * i) = 0"
    using assms(3) by (auto simp: page_addr_nat simp del: of_nat_mult)
  have "unat (mapped + of_nat (4096 * i)) = unat mapped + 4096 * i"
    using i(1) assms(2,3) unat_u64 [of "4096 * i"] by (subst unat_plus_if') (simp del: of_nat_mult)
  then show False
    using i(2) assms(1) by (simp add: unat_eq_zero)
qed

lemma get_page_null: "0 \<notin># free_pages st \<Longrightarrow> fst (lazybsd_mem_get_page st) = 0 \<longleftrightarrow> free_pages st = {#}"
  using pages.get_empty [of st] pages.get_page [of st] by (metis fst_conv union_single_eq_member)

text \<open>C9: the page pool never hands out a page twice.  Once the pool is initialised with \<open>n\<close> MB (below 2048)
  at an address \<open>mmap\<close> may return, and whatever sequence of requests and of releases of pages in use has
  happened since: no page is out twice nor both out and free; a request is refused only when all
  \<open>256 * n\<close> pages are out; and a page handed out is not in use and lies on a page of the mapping.\<close>

theorem pool_pages_exclusive:
  assumes "lazybsd_mmap_init ports mapped m k t v2p (of_nat n) st = Inr (r, st0)" and "0 < n" "n < 2048"
    and "mapped \<noteq> 0" and "unat mapped + n * 2 ^ 20 \<le> 2 ^ 64" and "pool_reach st0 st' used"
  shows "(\<forall>p. count (free_pages st' + used) p \<le> 1) \<and>
    (fst (lazybsd_mem_get_page st') = 0 \<longleftrightarrow> size used = n * 256) \<and>
    (fst (lazybsd_mem_get_page st') \<noteq> 0 \<longrightarrow>
       fst (lazybsd_mem_get_page st') \<notin># used \<and>
       (\<exists>i < n * 256. fst (lazybsd_mem_get_page st') = mapped + of_nat (4096 * i)))"
proof -
  let ?A = "page_addr mapped ` {0..<n * 256}" and ?p = "fst (lazybsd_mem_get_page st')"
  note nz = page_addr_nonzero [OF assms(4,5,3)]
  have inj: "inj_on (page_addr mapped) {0..<n * 256}"
    using page_addr_inj by (rule inj_on_subset) (use assms(3) in auto)
  have all: "free_pages st' + used = mset_set ?A"
    by (rule pool_reach_conserves [OF assms(1-3) nz assms(6)])
  have once: "count (free_pages st' + used) p \<le> 1" for p
    unfolding all by (simp add: count_mset_set')
  have "size (free_pages st') + size used = n * 256"
    using arg_cong [OF all, of size] card_image [OF inj] by simp
  moreover have "0 \<notin># free_pages st'"
    using nz all by (metis finite_atLeastLessThan finite_imageI finite_set_mset_mset_set union_iff)
  ultimately have null: "?p = 0 \<longleftrightarrow> size used = n * 256"
    using get_page_null by (metis add_cancel_left_left size_eq_0_iff_empty)
  have "?p \<notin># used \<and> (\<exists>i < n * 256. ?p = mapped + of_nat (4096 * i))" if "?p \<noteq> 0"
  proof -
    have "free_pages st' \<noteq> {#}" using that pages.get_empty [of st'] by auto
    then have mem: "?p \<in># free_pages st'"
      using pages.get_page [of st'] by (metis union_single_eq_member)
    then have "?p \<in># mset_set ?A" using all by (metis union_iff)
    then obtain i where "i < n * 256" "?p = page_addr mapped i" by auto
    moreover have "?p \<notin># used"
    proof -
      have "1 \<le> count (free_pages st') ?p" using mem by simp
      then have "count used ?p = 0" using once [of ?p] unfolding count_union by linarith
      then show ?thesis by (simp add: not_in_iff)
    qed
    ultimately show ?thesis
      using assms(3) page_addr_nat [of i mapped] by auto
  qed
  then show ?thesis
    using once null by blast
qed

lemma mmap_init_pages_total: "\<forall>a. v2p a \<noteq> - 1 \<Longrightarrow> \<exists>st'. mmap_init_pages v2p i n st = Inr st'"
  by (induction n arbitrary: i st) (auto simp: Let_def)

lemma mmap_init_total:
  assumes "mapped \<noteq> - 1" and "\<forall>a. v2p a \<noteq> - 1"
  shows "\<exists>st0. lazybsd_mmap_init ports mapped True True True v2p mem_size st = Inr (0, st0)"
proof -
  have "fst (stklist_init True (Some s) n) \<noteq> -2" for s n
    by (simp add: stklist_init_def Let_def)
  moreover obtain f where "\<forall>i n st. mmap_init_pages v2p i n st = Inr (f i n st)"
    using mmap_init_pages_total [OF assms(2)] by metis
  ultimately show ?thesis
    using assms(1) by (simp add: lazybsd_mmap_init_def Let_def case_prod_beta)
qed

text \<open>The smallest pool, one megabyte at 64 KB, with physical equal to virtual addresses below 4 GB.\<close>

definition v2p_example :: "u64 \<Rightarrow> u64" where
  "v2p_example a = a AND 0xffffffff"

lemma v2p_example_ok: "v2p_example a \<noteq> - 1"
proof
  assume "v2p_example a = - 1"
  then have "bit (v2p_example a) 40" by simp
  then show False by (simp add: v2p_example_def bit_and_iff bit_numeral_rec)
qed

lemma pool_example:
  obtains st0 where "lazybsd_mmap_init 1 0x10000 True True True v2p_example (of_nat 1) undefined = Inr (0, st0)"
    and "pool_reach st0 st0 {#}"
proof -
  have "(0x10000 :: u64) \<noteq> - 1" by simp
  from mmap_init_total [OF this, of v2p_example 1 "of_nat 1" undefined] v2p_example_ok that
  show thesis unfolding pool_reach_def using pages.init by blast
qed

theorem pool_pages_exclusive_witness:
  "\<exists>st0. lazybsd_mmap_init 1 0x10000 True True True v2p_example (of_nat 1) undefined = Inr (0, st0) \<and>
     fst (lazybsd_mem_get_page st0) \<noteq> 0 \<and>
     (\<exists>i < 1 * 256. fst (lazybsd_mem_get_page st0) = 0x10000 + of_nat (4096 * i))"
proof -
  obtain st0 where i: "lazybsd_mmap_init 1 0x10000 True True True v2p_example (of_nat 1) undefined = Inr (0, st0)"
    and r: "pool_reach st0 st0 {#}" by (rule pool_example)
  show ?thesis
    using pool_pages_exclusive [OF i _ _ _ _ r] i by auto
qed

text \<open>Requests and releases leave the bounds of the pool and the table of physical pages alone.\<close>

lemma pool_reach_static:
  assumes "pool_reach st0 st used"
  shows "lazybsd_mpage_phy st = lazybsd_mpage_phy st0 \<and> lazybsd_page_start st = lazybsd_page_start st0 \<and>
    lazybsd_page_end st = lazybsd_page_end st0 \<and> pool_cap st = pool_cap st0"
  using assms unfolding pool_reach_def
  by (induction rule: pages.reach.induct)
    (simp_all add: pages.cap_get pages.cap_free,
      simp_all add: lazybsd_mem_get_page_def pool_free_def lazybsd_mem_free_addr_def split: prod.splits)

lemma take_bit_word_add: "take_bit 12 (a + b :: u64) = take_bit 12 (take_bit 12 a + take_bit 12 b)"
  unfolding word_uint_eq_iff unsigned_take_bit_eq uint_word_ariths(1)
  by (simp add: take_bit_eq_mod mod_mod_cancel mod_simps)

lemma page_offset:
  assumes "take_bit 12 mapped = (0 :: u64)" and "off < 2 ^ 31"
  shows "(mapped + of_nat off) AND 0xfff = of_nat (off mod 4096)"
proof -
  have "(mapped + of_nat off) AND 0xfff = take_bit 12 (mapped + of_nat off)"
    by (simp add: take_bit_eq_mask mask_eq_exp_minus_1)
  also have "\<dots> = take_bit 12 (take_bit 12 mapped + take_bit 12 (of_nat off))"
    by (rule take_bit_word_add)
  also have "\<dots> = of_nat (take_bit 12 off)"
    using assms(1) by (simp add: take_bit_of_nat)
  finally show ?thesis by (simp add: take_bit_eq_mod)
qed

lemma page_number: "off < 2 ^ 31 \<Longrightarrow> unat (ucast (drop_bit 12 (of_nat off :: u64)) :: u32) = off div 4096"
  unfolding unsigned_ucast_eq unat_drop_bit_eq using unat_u64 [of off]
  by (simp only: drop_bit_eq_div) (simp add: take_bit_nat_eq_self)

text \<open>C27: translating an address of the pool gives its physical address.  With the pool at a page
  boundary, in every state it reaches, the byte at offset \<open>off\<close> of the mapping translates to the physical
  address DPDK reported for its page plus the offset within the page, and the check on the number of
  pages never fails.\<close>

theorem virt2phy_correct:
  assumes "lazybsd_mmap_init ports mapped m k t v2p (of_nat n) st = Inr (r, st0)" and "0 < n" "n < 2048"
    and "take_bit 12 mapped = 0" and "pool_reach st0 st' used" and "off < n * 2 ^ 20"
  shows "lazybsd_mem_virt2phy (mapped + of_nat off) st' =
    Inr (v2p (mapped + of_nat (4096 * (off div 4096))) + of_nat (off mod 4096))"
proof -
  have small: "off < 2 ^ 31" and page: "off div 4096 < n * 256" and page': "off div 4096 < 2 ^ 19"
    using assms(3,6) by auto
  show ?thesis
    using mmap_init_ok [OF assms(1-3)] pool_reach_static [OF assms(5)] page
    unfolding lazybsd_mem_virt2phy_def Let_def page_offset [OF assms(4) small]
    by (simp add: page_number [OF small] pool_cap_def page_addr_nat [OF page'] del: of_nat_mult)
qed

theorem virt2phy_correct_witness:
  "\<exists>st0. lazybsd_mmap_init 1 0x10000 True True True v2p_example (of_nat 1) undefined = Inr (0, st0) \<and>
     lazybsd_mem_virt2phy (0x10000 + of_nat 8200) st0 = Inr 0x12008"
proof -
  obtain st0 where i: "lazybsd_mmap_init 1 0x10000 True True True v2p_example (of_nat 1) undefined = Inr (0, st0)"
    and r: "pool_reach st0 st0 {#}" by (rule pool_example)
  have "take_bit 12 (0x10000 :: u64) = 0" by (simp add: take_bit_eq_mod)
  from virt2phy_correct [OF i _ _ this r, of 8200] i show ?thesis
    by (simp add: v2p_example_def)
qed

text \<open>The first byte of the pool is not taken for one of it: \<open>lazybsd_chk_vma\<close> asks for an address strictly
  above the start.\<close>

lemma chk_vma_misses_start: "\<not> lazybsd_chk_vma (lazybsd_page_start st) st"
  by (simp add: lazybsd_chk_vma_def)

end
