(* ===== verification/LB_Tx_Props.thy ===== *)
theory LB_Tx_Props
  imports LB_Tx LB_Memory_Props
begin

text \<open>
  Ownership on the transmit path.  From the trace of events and the tables of waiting packets two
  ledgers are read off: one for the packet buffers of DPDK, one for the mbufs of the stack.  Every
  operation keeps the ledgers balanced, save for the two the last sections exhibit.
\<close>

named_theorems path_simps

section \<open>The ledgers\<close>

fun event_given :: "event \<Rightarrow> nat multiset" where
  "event_given (Alloc a) = {#}"
| "event_given (Free_pkt p) = mset (map addr p)"
| "event_given (Free_seg a) = {#a#}"
| "event_given (To_nic _ p) = mset (map addr p)"
| "event_given (To_ring _ _ p) = mset (map addr p)"
| "event_given (To_kni _ p) = mset (map addr p)"
| "event_given (To_stack p) = mset (map addr p)"
| "event_given (Bsd_free _) = {#}"

fun event_taken :: "event \<Rightarrow> nat multiset" where
  "event_taken (Alloc a) = {#a#}"
| "event_taken _ = {#}"

fun event_bsd :: "event \<Rightarrow> nat multiset" where
  "event_bsd (Bsd_free a) = {#a#}"
| "event_bsd _ = {#}"

text \<open>Buffers given away, taken from a pool, and mbufs of the stack freed.\<close>

definition given :: "lcore \<Rightarrow> nat multiset" where
  "given s = sum_list (map event_given (trace s))"

definition taken :: "lcore \<Rightarrow> nat multiset" where
  "taken s = sum_list (map event_taken (trace s))"

definition bsd_freed :: "lcore \<Rightarrow> nat multiset" where
  "bsd_freed s = sum_list (map event_bsd (trace s))"

text \<open>The buffers and the mbufs in the table of a port, and the mbufs of its transmit ring.\<close>

definition slot_segs :: "mbuf_table \<Rightarrow> nat \<Rightarrow> nat multiset" where
  "slot_segs t i = mset (map addr (tx_m_table t i))"

definition slot_bsd :: "mbuf_table \<Rightarrow> nat \<Rightarrow> nat multiset" where
  "slot_bsd t i = filter_mset (\<lambda>a. a \<noteq> 0) {#bsd_m_table t i#}"

definition held :: "nat \<Rightarrow> lcore \<Rightarrow> nat multiset" where
  "held port s =
     (\<Sum>i = 0..<tx_len (tx_mbufs s port). slot_segs (tx_mbufs s port) i)"

definition bsd_waiting :: "nat \<Rightarrow> lcore \<Rightarrow> nat multiset" where
  "bsd_waiting port s =
     (\<Sum>i = 0..<tx_len (tx_mbufs s port). slot_bsd (tx_mbufs s port) i)"

definition in_ring :: "nat \<Rightarrow> lcore \<Rightarrow> nat multiset" where
  "in_ring port s = filter_mset (\<lambda>a. a \<noteq> 0) (mset (txring_view (nic_tx_ring (bsd_pool s) port)))"

lemma given_simps [path_simps]:
  "given (emit es s) = given s + sum_list (map event_given es)"
  "given (tick_calls s) = given s"
  "given (set_tx p f s) = given s"
  "given (s\<lparr>bsd_pool := b\<rparr>) = given s"
  "given (s\<lparr>tx_packets := x\<rparr>) = given s"
  "given (s\<lparr>tx_bytes := x\<rparr>) = given s"
  "given (s\<lparr>memory := x'\<rparr>) = given s"
  by (simp_all add: given_def emit_def tick_calls_def set_tx_def)

lemma taken_simps [path_simps]:
  "taken (emit es s) = taken s + sum_list (map event_taken es)"
  "taken (tick_calls s) = taken s"
  "taken (set_tx p f s) = taken s"
  "taken (s\<lparr>bsd_pool := b\<rparr>) = taken s"
  "taken (s\<lparr>tx_packets := x\<rparr>) = taken s"
  "taken (s\<lparr>tx_bytes := x\<rparr>) = taken s"
  "taken (s\<lparr>memory := x'\<rparr>) = taken s"
  by (simp_all add: taken_def emit_def tick_calls_def set_tx_def)

lemma bsd_freed_simps [path_simps]:
  "bsd_freed (emit es s) = bsd_freed s + sum_list (map event_bsd es)"
  "bsd_freed (tick_calls s) = bsd_freed s"
  "bsd_freed (set_tx p f s) = bsd_freed s"
  "bsd_freed (s\<lparr>bsd_pool := b\<rparr>) = bsd_freed s"
  "bsd_freed (s\<lparr>tx_packets := x\<rparr>) = bsd_freed s"
  "bsd_freed (s\<lparr>tx_bytes := x\<rparr>) = bsd_freed s"
  "bsd_freed (s\<lparr>memory := x'\<rparr>) = bsd_freed s"
  by (simp_all add: bsd_freed_def emit_def tick_calls_def set_tx_def)

lemma trace_set_tx [path_simps]: "trace (set_tx p f s) = trace s"
  by (simp add: set_tx_def)

lemma tx_mbufs_simps [path_simps]:
  "tx_mbufs (emit es s) = tx_mbufs s"
  "tx_mbufs (tick_calls s) = tx_mbufs s"
  "tx_mbufs (set_tx p f s) = (tx_mbufs s)(p := f (tx_mbufs s p))"
  by (simp_all add: emit_def tick_calls_def set_tx_def)

lemma bsd_pool_simps [path_simps]:
  "bsd_pool (emit es s) = bsd_pool s"
  "bsd_pool (tick_calls s) = bsd_pool s"
  "bsd_pool (set_tx p f s) = bsd_pool s"
  by (simp_all add: emit_def tick_calls_def set_tx_def)

lemma sum_map_Bsd_free [path_simps]:
  "sum_list (map (event_given \<circ> Bsd_free) xs) = {#}"
  "sum_list (map (event_taken \<circ> Bsd_free) xs) = {#}"
  "sum_list (map (event_bsd \<circ> Bsd_free) xs) = mset xs"
  by (induction xs) auto

section \<open>The burst\<close>

text \<open>One slot of the ring takes an mbuf in and gives the one it held away.\<close>

lemma txring_enqueue_ledger:
  assumes "txring_wf q" and "p \<noteq> 0" and "lazybsd_txring_enqueue p n q = (q', freed)"
  shows "mset freed + filter_mset (\<lambda>a. a \<noteq> 0) (mset (txring_view q')) =
      add_mset p (filter_mset (\<lambda>a. a \<noteq> 0) (mset (txring_view q))) \<and> txring_wf q'"
proof -
  let ?f = "filter (\<lambda>a::nat. a \<noteq> 0)" and ?xs = "tx_slots p n"
  have q': "q' = fst (ring.puts ?xs q)" and f: "freed = snd (ring.puts ?xs q)"
    using assms(3) by (simp_all add: txring_enqueue_puts)
  have "freed @ ?f (txring_view q') = ?f (txring_view q @ ?xs)"
    using ring.puts_delay [OF assms(1), of ?xs] unfolding q' f
    by (metis append_take_drop_id filter_append)
  then have "mset (freed @ ?f (txring_view q')) = mset (?f (txring_view q @ ?xs))" by simp
  moreover have "mset (?f ?xs) = {#p#}"
    using assms(2) by (simp add: tx_slots_def)
  ultimately show ?thesis
    using ring.puts_wf [OF assms(1), of ?xs] q' by simp
qed

definition rings_wf :: "nat \<Rightarrow> lcore \<Rightarrow> bool" where
  "rings_wf port s \<longleftrightarrow> txring_wf (nic_tx_ring (bsd_pool s) port)"

lemma sent_one_frame:
  "tx_mbufs (sent_one port i s) = tx_mbufs s" "given (sent_one port i s) = given s"
  "taken (sent_one port i s) = taken s"
  by (simp_all add: sent_one_def Let_def path_simps split: prod.splits)

lemma sent_one_bsd:
  assumes "rings_wf port s"
  shows "rings_wf port (sent_one port i s) \<and>
    bsd_freed (sent_one port i s) + in_ring port (sent_one port i s) =
      bsd_freed s + in_ring port s + slot_bsd (tx_mbufs s port) i"
proof (cases "bsd_m_table (tx_mbufs s port) i = 0")
  case True
  then show ?thesis
    using assms by (simp add: sent_one_def Let_def rings_wf_def in_ring_def slot_bsd_def path_simps)
next
  case False
  obtain q freed where e: "lazybsd_txring_enqueue (bsd_m_table (tx_mbufs s port) i)
      (int (nb_segs (hd (tx_m_table (tx_mbufs s port) i)))) (nic_tx_ring (bsd_pool s) port) = (q, freed)"
    by force
  show ?thesis
    using txring_enqueue_ledger [OF _ False e] assms False
    by (simp add: sent_one_def Let_def rings_wf_def in_ring_def lazybsd_enq_tx_bsdmbuf_def slot_bsd_def e path_simps)
qed

lemma unsent_one_frame:
  "tx_mbufs (unsent_one port i s) = tx_mbufs s" "taken (unsent_one port i s) = taken s"
  "bsd_pool (unsent_one port i s) = bsd_pool s"
  "given (unsent_one port i s) = given s + slot_segs (tx_mbufs s port) i"
  "bsd_freed (unsent_one port i s) = bsd_freed s + slot_bsd (tx_mbufs s port) i"
  by (simp_all add: unsent_one_def slot_segs_def slot_bsd_def Let_def path_simps)

lemma fold_sent_frame:
  "tx_mbufs (fold (sent_one port) is s) = tx_mbufs s" "given (fold (sent_one port) is s) = given s"
  "taken (fold (sent_one port) is s) = taken s"
  by (induction "is" arbitrary: s) (simp_all add: sent_one_frame)

lemma fold_sent_bsd:
  "rings_wf port s \<Longrightarrow>
    rings_wf port (fold (sent_one port) is s) \<and>
    bsd_freed (fold (sent_one port) is s) + in_ring port (fold (sent_one port) is s) =
      bsd_freed s + in_ring port s +
      sum_list (map (\<lambda>i. slot_bsd (tx_mbufs s port) i) is)"
proof (induction "is" arbitrary: s)
  case (Cons i "is")
  note 1 = sent_one_bsd [OF Cons.prems, of i]
  from 1 have wf: "rings_wf port (sent_one port i s)" by blast
  show ?case
    using Cons.IH [OF wf] 1 by (simp add: sent_one_frame ac_simps)
qed simp

lemma fold_unsent_frame:
  "tx_mbufs (fold (unsent_one port) is s) = tx_mbufs s" "taken (fold (unsent_one port) is s) = taken s"
  "bsd_pool (fold (unsent_one port) is s) = bsd_pool s"
  "given (fold (unsent_one port) is s) =
     given s + sum_list (map (\<lambda>i. slot_segs (tx_mbufs s port) i) is)"
  "bsd_freed (fold (unsent_one port) is s) =
     bsd_freed s + sum_list (map (\<lambda>i. slot_bsd (tx_mbufs s port) i) is)"
  by (induction "is" arbitrary: s) (simp_all add: unsent_one_frame ac_simps)

text \<open>\<open>rte_eth_tx_burst\<close> reports how many of the packets it was given it took.\<close>

definition burst_law :: "env \<Rightarrow> bool" where
  "burst_law E \<longleftrightarrow> (\<forall>t port pkts. rte_eth_tx_burst E t port pkts \<le> length pkts)"

lemma sum_list_To_nic [path_simps]:
  "sum_list (map (event_given \<circ> To_nic port) ps) = sum_list (map (\<lambda>p. mset (map addr p)) ps)"
  "sum_list (map (event_taken \<circ> To_nic port) ps) = {#}"
  "sum_list (map (event_bsd \<circ> To_nic port) ps) = {#}"
  by (induction ps) auto

lemma sum_split: "r \<le> n \<Longrightarrow> sum_list (map f [0..<r]) + sum_list (map f [r..<n]) = (\<Sum>i = 0..<n. (f i :: 'a multiset))"
proof -
  assume "r \<le> n"
  then have "[0..<n] = [0..<r] @ [r..<n]"
    by (metis le_add_diff_inverse le0 upt_add_eq_append)
  moreover have "(\<Sum>i = 0..<n. f i) = sum_list (map f [0..<n])"
    by (simp add: interv_sum_list_conv_sum_set_nat)
  ultimately show ?thesis by simp
qed

lemma send_burst_ledger:
  assumes "burst_law E"
  shows "tx_mbufs (send_burst E n port s) = tx_mbufs s \<and> taken (send_burst E n port s) = taken s \<and>
    given (send_burst E n port s) = given s + (\<Sum>i = 0..<n. slot_segs (tx_mbufs s port) i) \<and>
    (rings_wf port s \<longrightarrow> rings_wf port (send_burst E n port s) \<and>
      bsd_freed (send_burst E n port s) + in_ring port (send_burst E n port s) =
      bsd_freed s + in_ring port s +
        (\<Sum>i = 0..<n. slot_bsd (tx_mbufs s port) i))"
proof -
  let ?pkts = "map (tx_m_table (tx_mbufs s port)) [0..<n]"
  define r where "r = rte_eth_tx_burst E (calls s) port ?pkts"
  define s1 where "s1 = (emit (map (To_nic port) (take r ?pkts)) (tick_calls s))
      \<lparr>tx_packets := tx_packets (emit (map (To_nic port) (take r ?pkts)) (tick_calls s)) + of_nat r\<rparr>"
  define s2 where "s2 = fold (sent_one port) [0..<r] s1"
  have r: "r \<le> n" using assms by (metis burst_law_def length_map length_upt minus_nat.diff_0 r_def)
  have eq: "send_burst E n port s = fold (unsent_one port) [r..<n] s2"
    by (simp add: send_burst_def Let_def r_def s1_def s2_def)
  have taken_pkts: "take r ?pkts = map (tx_m_table (tx_mbufs s port)) [0..<r]"
    using r by (simp add: take_map)
  have s1: "tx_mbufs s1 = tx_mbufs s" "taken s1 = taken s" "bsd_freed s1 = bsd_freed s" "bsd_pool s1 = bsd_pool s"
    "given s1 = given s + sum_list (map (\<lambda>i. slot_segs (tx_mbufs s port) i) [0..<r])"
    unfolding s1_def taken_pkts by (simp_all add: path_simps comp_def slot_segs_def)
  have bsd: "rings_wf port s1 \<longleftrightarrow> rings_wf port s" "in_ring port s1 = in_ring port s"
    by (simp_all add: rings_wf_def in_ring_def s1)
  have ring: "rings_wf port (fold (unsent_one port) [r..<n] s2) \<longleftrightarrow> rings_wf port s2"
    "in_ring port (fold (unsent_one port) [r..<n] s2) = in_ring port s2"
    by (simp_all add: rings_wf_def in_ring_def fold_unsent_frame)
  have burst: "rings_wf port s \<longrightarrow> rings_wf port s2 \<and> bsd_freed s2 + in_ring port s2 =
      bsd_freed s + in_ring port s + sum_list (map (slot_bsd (tx_mbufs s port)) [0..<r])"
    using fold_sent_bsd [of port s1 "[0..<r]"] unfolding s2_def s1 bsd by simp
  have s2: "tx_mbufs s2 = tx_mbufs s" "taken s2 = taken s"
    "given s2 = given s + sum_list (map (slot_segs (tx_mbufs s port)) [0..<r])"
    unfolding s2_def fold_sent_frame s1 by simp_all
  show ?thesis
    unfolding eq ring fold_unsent_frame s2 sum_split [OF r, symmetric]
    using burst by (simp add: ac_simps)
qed

section \<open>The stack's output\<close>

text \<open>From \<open>s\<close> to \<open>s'\<close> the buffers \<open>ins\<close> came in from outside and \<open>outs\<close> are in the caller's hands.\<close>

definition balanced :: "lcore \<Rightarrow> lcore \<Rightarrow> nat multiset \<Rightarrow> nat multiset \<Rightarrow> bool" where
  "balanced s s' ins outs \<longleftrightarrow> given s' + outs + taken s = given s + taken s' + ins"

lemma balanced_refl: "balanced s s X X"
  by (simp add: balanced_def)

lemma balanced_frame: "balanced s s' X Y \<Longrightarrow> balanced s s' (X + Z) (Y + Z)"
  by (simp add: balanced_def ac_simps)

lemma balanced_trans:
  assumes "balanced s s' ins mid" and "balanced s' s'' mid outs"
  shows "balanced s s'' ins outs"
proof -
  have "(given s'' + outs + taken s') + (given s' + mid + taken s) =
      (given s' + taken s'' + mid) + (given s + taken s' + ins)"
    using assms by (simp add: balanced_def)
  then have "(given s'' + outs + taken s) + (taken s' + given s' + mid) =
      (given s + taken s'' + ins) + (taken s' + given s' + mid)"
    by (simp add: ac_simps)
  then show ?thesis unfolding balanced_def by (rule add_right_imp_eq)
qed

text \<open>The parts of the state the building of a packet leaves alone.\<close>

definition same_tx :: "lcore \<Rightarrow> lcore \<Rightarrow> bool" where
  "same_tx s s' \<longleftrightarrow> tx_mbufs s' = tx_mbufs s \<and> bsd_pool s' = bsd_pool s \<and> bsd_freed s' = bsd_freed s"

lemma same_tx_trans: "same_tx s s' \<Longrightarrow> same_tx s' s'' \<Longrightarrow> same_tx s s''"
  by (simp add: same_tx_def)

abbreviation segs_of :: "packet option \<Rightarrow> nat multiset" where
  "segs_of p \<equiv> mset (map addr (case p of None \<Rightarrow> [] | Some p \<Rightarrow> p))"

lemma pktmbuf_alloc_ledger:
  assumes "pktmbuf_alloc E p s = (r, s')"
  shows "balanced s s' {#} (mset (map addr (case r of None \<Rightarrow> [] | Some m \<Rightarrow> [m]))) \<and> same_tx s s'"
  using assms
  by (auto simp: pktmbuf_alloc_def balanced_def same_tx_def path_simps split: option.splits)

lemma bsd_to_rte_segs_ledger:
  assumes "bsd_to_rte_segs E sk bs chain cur s = Inr (r, s')" and "cur \<noteq> None \<Longrightarrow> bs \<noteq> []"
  shows "balanced s s' (mset (map addr chain) + mset (map addr (case cur of None \<Rightarrow> [] | Some m \<Rightarrow> [m]))) (segs_of r)
    \<and> same_tx s s'"
  using assms
proof (induction E sk bs chain cur s rule: bsd_to_rte_segs.induct)
  case (1 E sk chain cur s)
  then show ?case by (cases cur) (auto simp: balanced_refl same_tx_def)
next
  case (2 E sk b bs chain cur s)
  obtain c s1 where a: "(case cur of Some c \<Rightarrow> (Some c, s) | None \<Rightarrow> pktmbuf_alloc E (Ref sk) s) = (c, s1)"
    by force
  have got: "balanced s s1 (mset (map addr (case cur of None \<Rightarrow> [] | Some m \<Rightarrow> [m])))
      (mset (map addr (case c of None \<Rightarrow> [] | Some m \<Rightarrow> [m]))) \<and> same_tx s s1"
    using a pktmbuf_alloc_ledger [of E "Ref sk" s c s1] by (cases cur) (auto simp: balanced_refl same_tx_def)
  show ?case
  proof (cases c)
    case None
    then show ?thesis
      using 2(2) got a by (auto simp: balanced_def same_tx_def path_simps ac_simps)
  next
    case (Some c')
    then obtain iova where v: "lazybsd_mem_virt2phy (m_data b) (bsd_pool s1) = Inr iova"
      using 2(2) a by (auto split: sum.splits)
    let ?c = "c'\<lparr>buf_addr := unat (m_data b), buf_iova := iova, data_off := 0, data_len := m_len b\<rparr>"
    have rest: "bsd_to_rte_segs E sk bs (chain @ [?c]) None s1 = Inr (r, s')"
      using 2(2) a v Some by simp
    have "balanced s1 s' (mset (map addr (chain @ [?c]))) (segs_of r) \<and> same_tx s1 s'"
      using 2(1) [OF a [symmetric] Some v rest] by simp
    moreover have "balanced s s1 (mset (map addr chain) + mset (map addr (case cur of None \<Rightarrow> [] | Some m \<Rightarrow> [m])))
        (mset (map addr (chain @ [?c])))"
      using got Some
        balanced_frame [of s s1 "mset (map addr (case cur of None \<Rightarrow> [] | Some m \<Rightarrow> [m]))" "{#addr c'#}"
          "mset (map addr chain)"]
      by (simp add: ac_simps)
    ultimately show ?thesis
      using got balanced_trans same_tx_trans by blast
  qed
qed

lemma bsd_to_rte_segs_chain:
  "bsd_to_rte_segs E sk bs chain cur s = Inr (Some p, s') \<Longrightarrow> length p = length chain + length bs"
  by (induction E sk bs chain cur s rule: bsd_to_rte_segs.induct)
    (auto split: option.splits sum.splits prod.splits)

lemma bsd_to_rte_ledger:
  assumes "lazybsd_bsd_to_rte E sk m total_len s = Inr (r, s')"
  shows "balanced s s' {#} (segs_of r) \<and> same_tx s s' \<and> (\<forall>p. r = Some p \<longrightarrow> p \<noteq> [])"
proof -
  obtain h s1 where a: "pktmbuf_alloc E (Ref sk) s = (h, s1)" by force
  note got = pktmbuf_alloc_ledger [OF a]
  show ?thesis
  proof (cases h)
    case None
    then show ?thesis using assms a got by (auto simp: lazybsd_bsd_to_rte_def)
  next
    case (Some h')
    let ?h = "h'\<lparr>pkt_len := total_len\<rparr>"
    obtain q where l: "bsd_to_rte_segs E sk (fst m # snd m) [] (Some ?h) s1 = Inr (q, s')"
      and r: "r = map_option (\<lambda>p. (hd p)\<lparr>nb_segs := length p mod 65536\<rparr> # tl p) q"
      using assms a Some
      by (auto simp: lazybsd_bsd_to_rte_def simp del: bsd_to_rte_segs.simps split: sum.splits option.splits prod.splits)
    have q: "balanced s1 s' (mset (map addr [?h])) (segs_of q) \<and> same_tx s1 s'"
      using bsd_to_rte_segs_ledger [OF l] by simp
    have ne: "p \<noteq> []" if "q = Some p" for p
    proof -
      have "bsd_to_rte_segs E sk (fst m # snd m) [] (Some ?h) s1 = Inr (Some p, s')"
        using l that by (simp only:)
      from bsd_to_rte_segs_chain [OF this] show ?thesis by auto
    qed
    have "segs_of r = segs_of q"
      using r
    proof (cases q)
      case (Some p)
      then show ?thesis using r ne [OF Some] by (cases p) auto
    qed simp
    then show ?thesis
      using q got Some r balanced_trans [of s s1 "{#}" "{#addr h'#}" s' "segs_of q"] same_tx_trans by auto
  qed
qed

lemma extcl_to_rte_ledger:
  assumes "lazybsd_extcl_to_rte E mb s = (r, s')"
  shows "balanced s s' {#} (segs_of r) \<and> same_tx s s'"
proof -
  have "sum_list (map (event_taken \<circ> (\<lambda>m. Alloc (addr m))) p) = mset (map addr p)"
    "sum_list (map (event_given \<circ> (\<lambda>m. Alloc (addr m))) p) = {#}"
    "sum_list (map (event_bsd \<circ> (\<lambda>m. Alloc (addr m))) p) = {#}" for p :: packet
    by (induction p) auto
  then show ?thesis
    using assms by (auto simp: lazybsd_extcl_to_rte_def balanced_def same_tx_def path_simps split: option.splits)
qed

lemma offload_set_ledger:
  assumes "lazybsd_offload_set E c mb h s = (h', s')"
  shows "balanced s s' {#} {#} \<and> same_tx s s' \<and> addr h' = addr h"
  using assms
  by (auto simp: lazybsd_offload_set_def Let_def balanced_def same_tx_def path_simps split: if_splits)

text \<open>The clone of a received buffer has at least one segment.\<close>

definition clone_law :: "env \<Rightarrow> bool" where
  "clone_law E \<longleftrightarrow> (\<forall>t a. rte_pktmbuf_clone E t a \<noteq> Some [])"

text \<open>A packet put at the end of a port's table.\<close>

lemma put_tx_ledger:
  fixes s port p b
  defines "n \<equiv> tx_len (tx_mbufs s port)"
  defines "s' \<equiv> set_tx port (\<lambda>t. t\<lparr>tx_len := n + 1\<rparr>)
      (set_tx port (\<lambda>t. t\<lparr>tx_m_table := (tx_m_table t)(n := p), bsd_m_table := (bsd_m_table t)(n := b)\<rparr>) s)"
  shows "held port s' = held port s + mset (map addr p)"
    and "bsd_waiting port s' = bsd_waiting port s + filter_mset (\<lambda>a. a \<noteq> 0) {#b#}"
proof -
  let ?t = "tx_mbufs s' port"
  have len: "tx_len ?t = Suc n" by (simp add: s'_def path_simps)
  have old: "slot_segs ?t i = slot_segs (tx_mbufs s port) i" "slot_bsd ?t i = slot_bsd (tx_mbufs s port) i"
    if "i < n" for i
    using that by (simp_all add: s'_def path_simps slot_segs_def slot_bsd_def)
  have new: "slot_segs ?t n = mset (map addr p)" "slot_bsd ?t n = filter_mset (\<lambda>a. a \<noteq> 0) {#b#}"
    by (simp_all add: s'_def path_simps slot_segs_def slot_bsd_def)
  show "held port s' = held port s + mset (map addr p)"
    unfolding held_def len n_def [symmetric] using old(1) new(1) by (simp add: atLeast0_lessThan_Suc ac_simps)
  show "bsd_waiting port s' = bsd_waiting port s + filter_mset (\<lambda>a. a \<noteq> 0) {#b#}"
    unfolding bsd_waiting_def len n_def [symmetric] new(2) [symmetric] using old(2)
    by (simp add: atLeast0_lessThan_Suc ac_simps)
qed

section \<open>One packet more for a port\<close>

text \<open>What \<open>send_single_packet\<close> and \<open>lazybsd_dpdk_if_send\<close> have in common: a packet and an mbuf go to the end of the
  table, and a full table is sent.\<close>

definition enqueue_tx :: "env \<Rightarrow> nat \<Rightarrow> packet \<Rightarrow> nat \<Rightarrow> lcore \<Rightarrow> lcore" where
  "enqueue_tx E port p b s =
     (let n = tx_len (tx_mbufs s port);
          s = set_tx port (\<lambda>t. t\<lparr>tx_m_table := (tx_m_table t)(n := p), bsd_m_table := (bsd_m_table t)(n := b)\<rparr>) s;
          (len, s) = (if n + 1 = MAX_PKT_BURST then (0, send_burst E MAX_PKT_BURST port s) else (n + 1, s))
      in set_tx port (\<lambda>t. t\<lparr>tx_len := len\<rparr>) s)"

lemma send_single_enqueue:
  "send_single_packet E m port s =
     enqueue_tx E port m (bsd_m_table (tx_mbufs s port) (tx_len (tx_mbufs s port))) s"
  by (simp add: send_single_packet_def enqueue_tx_def Let_def set_tx_def)

lemma tx_len_only:
  "given (set_tx port (\<lambda>t. t\<lparr>tx_len := k\<rparr>) s) = given s" "taken (set_tx port (\<lambda>t. t\<lparr>tx_len := k\<rparr>) s) = taken s"
  "bsd_freed (set_tx port (\<lambda>t. t\<lparr>tx_len := k\<rparr>) s) = bsd_freed s"
  "in_ring port' (set_tx port (\<lambda>t. t\<lparr>tx_len := k\<rparr>) s) = in_ring port' s"
  "rings_wf port' (set_tx port (\<lambda>t. t\<lparr>tx_len := k\<rparr>) s) \<longleftrightarrow> rings_wf port' s"
  by (simp_all add: path_simps in_ring_def rings_wf_def)

lemma held_tx_len:
  "held port (set_tx port (\<lambda>t. t\<lparr>tx_len := k\<rparr>) s) = (\<Sum>i = 0..<k. slot_segs (tx_mbufs s port) i)"
  "bsd_waiting port (set_tx port (\<lambda>t. t\<lparr>tx_len := k\<rparr>) s) = (\<Sum>i = 0..<k. slot_bsd (tx_mbufs s port) i)"
  by (simp_all add: held_def bsd_waiting_def path_simps slot_segs_def slot_bsd_def)

lemma enqueue_tx_ledger:
  assumes "burst_law E"
  shows "given (enqueue_tx E port p b s) + held port (enqueue_tx E port p b s) =
      given s + held port s + mset (map addr p) \<and>
    taken (enqueue_tx E port p b s) = taken s \<and>
    (rings_wf port s \<longrightarrow> rings_wf port (enqueue_tx E port p b s) \<and>
      bsd_freed (enqueue_tx E port p b s) + bsd_waiting port (enqueue_tx E port p b s)
        + in_ring port (enqueue_tx E port p b s) =
      bsd_freed s + bsd_waiting port s + in_ring port s + filter_mset (\<lambda>a. a \<noteq> 0) {#b#})"
proof -
  define n where "n = tx_len (tx_mbufs s port)"
  define s1 where "s1 = set_tx port
      (\<lambda>t. t\<lparr>tx_m_table := (tx_m_table t)(n := p), bsd_m_table := (bsd_m_table t)(n := b)\<rparr>) s"
  have put: "(\<Sum>i = 0..<Suc n. slot_segs (tx_mbufs s1 port) i) = held port s + mset (map addr p)"
    "(\<Sum>i = 0..<Suc n. slot_bsd (tx_mbufs s1 port) i) = bsd_waiting port s + filter_mset (\<lambda>a. a \<noteq> 0) {#b#}"
    using put_tx_ledger [where s = s and port = port and p = p and b = b] unfolding n_def [symmetric] s1_def [symmetric] held_tx_len by simp_all
  have s1: "given s1 = given s" "taken s1 = taken s" "bsd_freed s1 = bsd_freed s" "in_ring port s1 = in_ring port s"
    "rings_wf port s1 \<longleftrightarrow> rings_wf port s"
    by (simp_all add: s1_def path_simps in_ring_def rings_wf_def)
  show ?thesis
  proof (cases "n + 1 = MAX_PKT_BURST")
    case True
    then have eq: "enqueue_tx E port p b s = set_tx port (\<lambda>t. t\<lparr>tx_len := 0\<rparr>) (send_burst E (Suc n) port s1)"
      by (simp add: enqueue_tx_def Let_def n_def s1_def)
    show ?thesis
      using send_burst_ledger [OF assms, of "Suc n" port s1]
      unfolding eq tx_len_only held_tx_len put s1 by (simp add: ac_simps)
  next
    case False
    then have eq: "enqueue_tx E port p b s = set_tx port (\<lambda>t. t\<lparr>tx_len := Suc n\<rparr>) s1"
      by (simp add: enqueue_tx_def Let_def n_def s1_def)
    show ?thesis
      unfolding eq tx_len_only held_tx_len put s1 by (simp add: ac_simps)
  qed
qed

lemma enqueue_tx_len:
  assumes "burst_law E" and "tx_len (tx_mbufs s port) < MAX_PKT_BURST"
  shows "tx_len (tx_mbufs (enqueue_tx E port p b s) port) < MAX_PKT_BURST"
    and "port' \<noteq> port \<Longrightarrow> tx_mbufs (enqueue_tx E port p b s) port' = tx_mbufs s port'"
  using assms(2) by (auto simp: enqueue_tx_def Let_def path_simps send_burst_ledger [OF assms(1)])

lemma bsd_to_rte_segs_none:
  "bsd_to_rte_segs E sk bs chain cur s = Inr (None, s') \<Longrightarrow> \<exists>t p. rte_pktmbuf_alloc E t p = None"
proof (induction E sk bs chain cur s rule: bsd_to_rte_segs.induct)
  case (2 E sk b bs chain cur s)
  obtain c s1 where a: "(case cur of Some c \<Rightarrow> (Some c, s) | None \<Rightarrow> pktmbuf_alloc E (Ref sk) s) = (c, s1)"
    by force
  show ?case
  proof (cases c)
    case None
    then have "rte_pktmbuf_alloc E (calls s) (Ref sk) = None"
      using a by (auto simp: pktmbuf_alloc_def split: option.splits)
    then show ?thesis by blast
  next
    case (Some c')
    then obtain iova where "lazybsd_mem_virt2phy (m_data b) (bsd_pool s1) = Inr iova"
      using 2(2) a by (auto split: sum.splits)
    then show ?thesis using 2(1) [OF a [symmetric] Some] 2(2) a Some by simp
  qed
qed simp

lemma bsd_to_rte_none:
  assumes "lazybsd_bsd_to_rte E sk m total_len s = Inr (None, s')"
  shows "\<exists>t p. rte_pktmbuf_alloc E t p = None"
proof (cases "rte_pktmbuf_alloc E (calls s) (Ref sk)")
  case (Some h)
  then show ?thesis
    using assms by (auto simp: lazybsd_bsd_to_rte_def pktmbuf_alloc_def simp del: bsd_to_rte_segs.simps
        split: sum.splits option.splits intro: bsd_to_rte_segs_none)
qed blast

text \<open>\<open>lazybsd_dpdk_if_send\<close> as a packet built and put, or not built.\<close>

lemma if_send_cases:
  assumes "clone_law E" and "m \<noteq> 0" and "lazybsd_dpdk_if_send E ctx m total_len s = Inr (r, s')"
  obtains (built) s1 p where "balanced s s1 {#} (mset (map addr p))" and "same_tx s s1"
      and "s' = enqueue_tx E (port_id ctx) p m s1"
  | (failed) s1 where "balanced s s1 {#} {#}" and "same_tx s s1"
      and "s' = set_tx (port_id ctx) (\<lambda>t. t\<lparr>tx_len := 0\<rparr>) (emit [Bsd_free m] s1)"
      and "\<exists>t p. rte_pktmbuf_alloc E t p = None"
proof -
  define mk where "mk = (if lazybsd_chk_vma (m_data (fst (bsd E m))) (bsd_pool s)
      then lazybsd_bsd_to_rte E (if_socket ctx) (bsd E m) total_len s
      else case lazybsd_extcl_to_rte E (fst (bsd E m)) s of
             (None, s) \<Rightarrow> Inl (Panic ''data address is out of page bound'')
           | (Some p, s) \<Rightarrow> Inr (Some p, s))"
  obtain q s1 where mk: "mk = Inr (q, s1)"
    using assms(2,3) by (auto simp: lazybsd_dpdk_if_send_def lazybsd_if_send_onepkt_def Let_def mk_def [symmetric]
        split: sum.splits)
  have l: "balanced s s1 {#} (segs_of q) \<and> same_tx s s1 \<and> (\<forall>p. q = Some p \<longrightarrow> p \<noteq> []) \<and>
      (q = None \<longrightarrow> (\<exists>t p. rte_pktmbuf_alloc E t p = None))"
  proof (cases "lazybsd_chk_vma (m_data (fst (bsd E m))) (bsd_pool s)")
    case True
    then have "lazybsd_bsd_to_rte E (if_socket ctx) (bsd E m) total_len s = Inr (q, s1)"
      using mk by (simp add: mk_def)
    then show ?thesis using bsd_to_rte_ledger bsd_to_rte_none by blast
  next
    case False
    then have x: "lazybsd_extcl_to_rte E (fst (bsd E m)) s = (q, s1)" "q \<noteq> None"
      using mk by (auto simp: mk_def split: prod.splits option.splits)
    then have "q \<noteq> Some []"
      using assms(1) by (auto simp: lazybsd_extcl_to_rte_def clone_law_def split: option.splits)
    then show ?thesis using extcl_to_rte_ledger [OF x(1)] x(2) by auto
  qed
  show thesis
  proof (cases q)
    case None
    have "s' = set_tx (port_id ctx) (\<lambda>t. t\<lparr>tx_len := 0\<rparr>) (emit [Bsd_free m] s1)"
      using assms(2,3) mk None
      by (simp add: lazybsd_dpdk_if_send_def lazybsd_if_send_onepkt_def Let_def mk_def [symmetric])
    then show thesis using failed [of s1] l None by simp
  next
    case (Some p)
    have ne: "p \<noteq> []" using l Some by simp
    obtain h s2 where o: "lazybsd_offload_set E (tx_csum_l4 ctx) (fst (bsd E m)) (hd p) s1 = (h, s2)" by force
    note os = offload_set_ledger [OF o]
    have "s' = enqueue_tx E (port_id ctx) (h # tl p) m s2"
      using assms(2,3) mk Some o
      by (simp add: lazybsd_dpdk_if_send_def lazybsd_if_send_onepkt_def enqueue_tx_def Let_def mk_def [symmetric]
          split: if_splits)
    moreover have "mset (map addr (h # tl p)) = segs_of q"
      using os ne Some by (cases p) simp_all
    moreover have "balanced s s2 {#} (segs_of q)" "same_tx s s2"
      using l os balanced_frame [of s1 s2 "{#}" "{#}" "segs_of q"] balanced_trans same_tx_trans by auto
    ultimately show thesis using built by metis
  qed
qed

lemma same_tx_held:
  "same_tx s s' \<Longrightarrow> held port s' = held port s \<and> bsd_waiting port s' = bsd_waiting port s \<and>
     in_ring port s' = in_ring port s \<and> (rings_wf port s' \<longleftrightarrow> rings_wf port s) \<and> bsd_freed s' = bsd_freed s"
  by (simp add: same_tx_def held_def bsd_waiting_def in_ring_def rings_wf_def)

text \<open>C6: sending a packet of the stack loses no buffer and frees none twice.  Whatever the network card
  and the pools answer, provided the buffer pool can serve the request or no packet is waiting: after
  \<open>lazybsd_dpdk_if_send\<close> every mbuf of the stack that was freed, waiting in the table or held in the transmit
  ring before, and the one sent, is in exactly one of these places; every DPDK buffer given away or
  waiting before, or taken from a pool in the call, is given away or waiting; and the table has room.\<close>

theorem if_send_conserves:
  assumes "burst_law E" and "clone_law E" and "m \<noteq> 0" and "rings_wf (port_id ctx) s"
    and "tx_len (tx_mbufs s (port_id ctx)) = 0 \<or> (\<forall>t p. rte_pktmbuf_alloc E t p \<noteq> None)"
    and "tx_len (tx_mbufs s (port_id ctx)) < MAX_PKT_BURST"
    and "lazybsd_dpdk_if_send E ctx m total_len s = Inr (r, s')"
  shows "bsd_freed s' + bsd_waiting (port_id ctx) s' + in_ring (port_id ctx) s' =
           bsd_freed s + bsd_waiting (port_id ctx) s + in_ring (port_id ctx) s + {#m#} \<and>
         given s' + held (port_id ctx) s' + taken s = given s + held (port_id ctx) s + taken s' \<and>
         rings_wf (port_id ctx) s' \<and> tx_len (tx_mbufs s' (port_id ctx)) < MAX_PKT_BURST"
  using assms(2,3,7)
proof (cases rule: if_send_cases)
  case (built s1 p)
  have len: "tx_len (tx_mbufs s1 (port_id ctx)) < MAX_PKT_BURST"
    using built(2) assms(6) by (simp add: same_tx_def)
  show ?thesis
    using enqueue_tx_ledger [OF assms(1), of "port_id ctx" p m s1] enqueue_tx_len(1) [OF assms(1) len, of p m]
      same_tx_held [OF built(2), of "port_id ctx"] built(1) assms(3,4)
    unfolding built(3) [symmetric] balanced_def by (simp add: ac_simps)
next
  case (failed s1)
  have "tx_len (tx_mbufs s (port_id ctx)) = 0"
    using assms(5) failed(4) by blast
  then have "bsd_waiting (port_id ctx) s = {#}" "held (port_id ctx) s = {#}"
    by (simp_all add: bsd_waiting_def held_def)
  then show ?thesis
    using same_tx_held [OF failed(2), of "port_id ctx"] failed(1) assms(4)
    unfolding failed(3) tx_len_only held_tx_len
    by (simp add: path_simps balanced_def in_ring_def rings_wf_def)
qed

text \<open>A setting in which the hypotheses hold: no page pool, a received buffer of one segment that is sent
  back, a card that takes every packet.\<close>

definition example_mbuf :: rte_mbuf where
  "example_mbuf = \<lparr>addr = 500, buf_addr = 0, buf_iova = 0, data_off = 0, data_len = 60, pkt_len = 60, nb_segs = 1,
     ol_flags = {}, vlan_tci = 0, l2_len = 0, l3_len = 0, l4_len = 0, tso_segsz = 0\<rparr>"

definition example_env :: env where
  "example_env = \<lparr>rte_pktmbuf_alloc = (\<lambda>_ _. Some example_mbuf), rte_pktmbuf_clone = (\<lambda>_ _. Some [example_mbuf]),
     rte_eth_tx_burst = (\<lambda>_ _ pkts. length pkts), rte_ring_accepts = (\<lambda>_. True),
     rte_ipv4_phdr_cksum = (\<lambda>_ _. 0), m_gethdr_ok = (\<lambda>_. True), m_get_ok = (\<lambda>_. True),
     packet_dispatcher = None,
     bsd = (\<lambda>_. (\<lparr>m_data = 0, m_len = 60, csum_flags = {}, m_tso_segsz = 0, ext_rte = Some 400\<rparr>, []))\<rparr>"

definition example_pool :: pool where
  "example_pool = \<lparr>lazybsd_mpage_ctl = \<lparr>ele = (\<lambda>_. 0), sl_size = 0, sl_top = 0\<rparr>, lazybsd_page_start = 0,
     lazybsd_page_end = 0, lazybsd_mpage_phy = (\<lambda>_. 0), nic_tx_ring = (\<lambda>_. \<lparr>m_table = (\<lambda>_. 0), head = 0\<rparr>)\<rparr>"

definition example_lcore :: lcore where
  "example_lcore = \<lparr>memory = (\<lambda>_. 0),
     tx_mbufs = (\<lambda>_. \<lparr>tx_len = 0, tx_m_table = (\<lambda>_. []), bsd_m_table = (\<lambda>_. 0)\<rparr>), bsd_pool = example_pool,
     rx_packets = 0, rx_bytes = 0, tx_packets = 0, tx_bytes = 0, calls = 0, trace = []\<rparr>"

definition example_ctx :: if_context where
  "example_ctx = \<lparr>port_id = 0, tx_csum_l4 = False, rx_csum = False, if_socket = 0\<rparr>"

lemma example_laws:
  "burst_law example_env" "clone_law example_env" "rings_wf port example_lcore"
  "tx_len (tx_mbufs example_lcore port) = 0"
  by (simp_all add: burst_law_def clone_law_def rings_wf_def txring_wf_def example_env_def example_lcore_def
      example_pool_def)

lemma example_send:
  "\<exists>s'. lazybsd_dpdk_if_send example_env example_ctx 7 60 example_lcore = Inr (0, s')"
  by (simp add: lazybsd_dpdk_if_send_def lazybsd_if_send_onepkt_def lazybsd_extcl_to_rte_def lazybsd_chk_vma_def
      example_env_def example_lcore_def example_ctx_def example_pool_def lazybsd_offload_set_def Let_def
      split: prod.splits)

theorem if_send_conserves_witness:
  "\<exists>s'. lazybsd_dpdk_if_send example_env example_ctx 7 60 example_lcore = Inr (0, s') \<and>
     bsd_freed s' + bsd_waiting 0 s' + in_ring 0 s' =
       bsd_freed example_lcore + bsd_waiting 0 example_lcore + in_ring 0 example_lcore + {#7#}"
proof -
  have p: "port_id example_ctx = 0" by (simp add: example_ctx_def)
  from example_send obtain s' where s': "lazybsd_dpdk_if_send example_env example_ctx 7 60 example_lcore = Inr (0, s')"
    by blast
  show ?thesis
    using if_send_conserves [of example_env 7 example_ctx example_lcore 60 0 s'] s' example_laws unfolding p by simp
qed

section \<open>Where the ledgers do not balance\<close>

text \<open>A packet that cannot be sent takes the waiting ones with it.  When the buffer for a packet of the
  stack cannot be allocated, \<open>lazybsd_if_send_onepkt\<close> returns 0, which its caller stores as the length of the
  table: the packets waiting there are neither sent nor freed, and their mbufs are not either.\<close>

theorem if_send_failure_drops_waiting:
  assumes "m \<noteq> 0" and "lazybsd_chk_vma (m_data (fst (bsd E m))) (bsd_pool s)"
    and "rte_pktmbuf_alloc E (calls s) (Ref (if_socket ctx)) = None"
  shows "\<exists>s'. lazybsd_dpdk_if_send E ctx m total_len s = Inr (0, s') \<and>
    held (port_id ctx) s' = {#} \<and> bsd_waiting (port_id ctx) s' = {#} \<and>
    given s' = given s \<and> bsd_freed s' = bsd_freed s + {#m#} \<and> in_ring (port_id ctx) s' = in_ring (port_id ctx) s"
  using assms
  by (simp add: lazybsd_dpdk_if_send_def lazybsd_if_send_onepkt_def lazybsd_bsd_to_rte_def pktmbuf_alloc_def
      held_tx_len path_simps in_ring_def)

theorem if_send_failure_drops_waiting_witness:
  "\<exists>s'. lazybsd_dpdk_if_send
      (example_env\<lparr>rte_pktmbuf_alloc := (\<lambda>_ _. None),
         bsd := (\<lambda>_. (\<lparr>m_data = 1, m_len = 60, csum_flags = {}, m_tso_segsz = 0, ext_rte = None\<rparr>, []))\<rparr>)
      example_ctx 7 60
      (set_tx 0 (\<lambda>t. t\<lparr>tx_len := 1, tx_m_table := (\<lambda>_. [example_mbuf]), bsd_m_table := (\<lambda>_. 5)\<rparr>)
         (example_lcore\<lparr>bsd_pool := example_pool\<lparr>lazybsd_page_end := 4096\<rparr>\<rparr>)) = Inr (0, s') \<and>
    bsd_waiting 0 s' = {#} \<and> bsd_freed s' = {#7#}"
  (is "\<exists>s'. lazybsd_dpdk_if_send ?E _ _ _ ?s = _ \<and> _")
  using if_send_failure_drops_waiting [of 7 ?E ?s example_ctx 60]
  by (auto simp: lazybsd_chk_vma_def example_env_def example_lcore_def example_ctx_def example_pool_def
      path_simps bsd_freed_def trace_set_tx)

text \<open>An answer of the packet dispatcher sends an mbuf of the stack to the ring again.
  \<open>send_single_packet\<close> does not clear the slot of \<open>bsd_m_table\<close> it uses: when a packet sent earlier left an
  mbuf \<open>b\<close> there, the next burst enters \<open>b\<close> into the transmit ring, or frees it, once more.\<close>

theorem dispatcher_answer_reuses_mbuf:
  assumes "burst_law E" and "rings_wf port s" and "tx_len (tx_mbufs s port) = 0"
    and "bsd_m_table (tx_mbufs s port) 0 \<noteq> 0"
  shows "let s' = tx_drain_port E port (send_single_packet E p port s)
    in bsd_freed s' + in_ring port s' = bsd_freed s + in_ring port s + {#bsd_m_table (tx_mbufs s port) 0#}"
proof -
  let ?b = "bsd_m_table (tx_mbufs s port) 0" and ?s = "send_single_packet E p port s"
  have s: "?s = set_tx port (\<lambda>t. t\<lparr>tx_len := 1\<rparr>)
      (set_tx port (\<lambda>t. t\<lparr>tx_m_table := (tx_m_table t)(0 := p)\<rparr>) s)"
    using assms(3) by (simp add: send_single_packet_def Let_def)
  have len: "tx_len (tx_mbufs ?s port) = 1" and b: "slot_bsd (tx_mbufs ?s port) 0 = {#?b#}"
    and wf: "rings_wf port ?s" and same: "bsd_freed ?s = bsd_freed s" "in_ring port ?s = in_ring port s"
    using assms(2,4) by (simp_all add: s path_simps slot_bsd_def rings_wf_def in_ring_def)
  show ?thesis
    using send_burst_ledger [OF assms(1), of 1 port ?s] wf len b
    by (simp add: tx_drain_port_def Let_def tx_len_only same)
qed

theorem dispatcher_answer_reuses_mbuf_witness:
  "let s = set_tx 0 (\<lambda>t. t\<lparr>bsd_m_table := (\<lambda>_. 5)\<rparr>) example_lcore;
       s' = tx_drain_port example_env 0 (send_single_packet example_env [example_mbuf] 0 s)
   in bsd_freed s' + in_ring 0 s' = bsd_freed s + in_ring 0 s + {#5#}"
  (is "let s = ?s in _")
  using dispatcher_answer_reuses_mbuf [of example_env 0 ?s "[example_mbuf]"] example_laws
  by (simp add: path_simps rings_wf_def Let_def)

text \<open>The checksum requests of the stack on the zero-copy path: a request for the IP header checksum sets
  the TCP flag and never the IP one, and a request for the UDP checksum sets the TCP flag too.\<close>

lemma offload_set_flags:
  assumes "lazybsd_offload_set E l4 mb h s = (h', s')"
  shows "TX_IP_CKSUM \<in> ol_flags h' \<longleftrightarrow> TX_IP_CKSUM \<in> ol_flags h"
    and "TX_UDP_CKSUM \<in> ol_flags h' \<longleftrightarrow> TX_UDP_CKSUM \<in> ol_flags h"
    and "l4 \<Longrightarrow> CSUM_UDP \<in> csum_flags mb \<Longrightarrow> TX_TCP_CKSUM \<in> ol_flags h'"
  using assms by (auto simp: lazybsd_offload_set_def lazybsd_mbuf_tx_offload_def Let_def split: if_splits)

end
