(* ===== verification/LB_Filter_Props.thy ===== *)
theory LB_Filter_Props
  imports LB_Filter
begin

text \<open>
  What the packet classifier (\<open>LB_Filter\<close>) guarantees and where it fails: when it returns, which bytes
  its verdict depends on, and that the port lists of the configuration select the ports they name.
\<close>

section \<open>When the IP filter returns\<close>

lemma filter_ip_header_cases:
  assumes "filter_ip_header C m data len ty = Some (h, proto)"
  obtains "ty = RTE_ETHER_TYPE_IPV4" "20 \<le> len" "h \<le> len" "h = ihl_bytes (m data)" "proto = m (data + 9)"
    | "ty = RTE_ETHER_TYPE_IPV6" "INET6 C" "40 \<le> len" "40 \<le> h" "h \<le> len"
  using assms by (auto simp: filter_ip_header_def Let_def split: if_splits prod.splits)

lemma filter_step_Descend:
  assumes "filter_ip_step C m data len ty = Descend data' len' ty'"
  obtains h proto where "filter_ip_header C m data len ty = Some (h, proto)" "data' = data + h" "len' = len - h"
    "proto = IPPROTO_IPIP \<and> ty' = RTE_ETHER_TYPE_IPV4 \<or> proto = IPPROTO_IPV6 \<and> ty' = RTE_ETHER_TYPE_IPV6"
  using assms
  by (auto simp: filter_ip_step_def filter_ip_proto_def split: option.splits prod.splits if_splits)

lemma ihl_zero: "ihl_bytes b = 0 \<longleftrightarrow> b AND 0x0f = 0"
proof -
  have mask: "(0x0f :: u8) = mask 4" by (simp add: mask_eq_exp_minus_1)
  have "push_bit 2 (take_bit 4 b) = 0 \<longleftrightarrow> take_bit 4 b = 0"
  proof
    assume z: "push_bit 2 (take_bit 4 b) = 0"
    show "take_bit 4 b = 0"
    proof (rule bit_word_eqI)
      fix n assume "n < LENGTH(8)"
      have "\<not> bit (push_bit 2 (take_bit 4 b)) (n + 2)" unfolding z by simp
      then show "bit (take_bit 4 b) n = bit 0 n" by (auto simp: bit_push_bit_iff bit_take_bit_iff)
    qed
  qed simp
  then show ?thesis by (simp only: ihl_bytes_def mask take_bit_eq_mask [symmetric] unat_eq_0)
qed

text \<open>A packet that holds itself: an IPv4 header of length 0 that says its payload is IPv4 again.\<close>

definition self_nested :: "mem \<Rightarrow> nat \<Rightarrow> nat \<Rightarrow> bool" where
  "self_nested m data len \<longleftrightarrow> 20 \<le> len \<and> m data AND 0x0f = 0 \<and> m (data + 9) = IPPROTO_IPIP"

lemma self_nested_step:
  "filter_ip_step C m data len RTE_ETHER_TYPE_IPV4 = Descend data len RTE_ETHER_TYPE_IPV4
     \<longleftrightarrow> self_nested m data len"
proof
  assume *: "filter_ip_step C m data len RTE_ETHER_TYPE_IPV4 = Descend data len RTE_ETHER_TYPE_IPV4"
  from filter_step_Descend [OF *] obtain h proto where
    h: "filter_ip_header C m data len RTE_ETHER_TYPE_IPV4 = Some (h, proto)" "data = data + h" "proto = IPPROTO_IPIP"
    by auto
  from h(1) show "self_nested m data len"
    by (rule filter_ip_header_cases) (use h in \<open>auto simp: self_nested_def ihl_zero\<close>)
next
  assume "self_nested m data len"
  then show "filter_ip_step C m data len RTE_ETHER_TYPE_IPV4 = Descend data len RTE_ETHER_TYPE_IPV4"
    using ihl_zero [of "m data"]
    by (simp add: self_nested_def filter_ip_step_def filter_ip_header_def filter_ip_proto_def Let_def)
qed

text \<open>The packets an outer packet is opened to.\<close>

inductive opens :: "filter_conf \<Rightarrow> mem \<Rightarrow> nat \<times> nat \<times> u16 \<Rightarrow> nat \<times> nat \<times> u16 \<Rightarrow> bool" for C m where
  here: "opens C m p p"
| inner: "filter_ip_step C m data len ty = Descend data' len' ty' \<Longrightarrow> opens C m (data', len', ty') q
    \<Longrightarrow> opens C m (data, len, ty) q"

lemma filter_self_nested: "self_nested m data len \<Longrightarrow> protocol_filter_ip C m data len RTE_ETHER_TYPE_IPV4 = None"
proof (rule ccontr)
  assume *: "self_nested m data len" "protocol_filter_ip C m data len RTE_ETHER_TYPE_IPV4 \<noteq> None"
  then obtain r where "protocol_filter_ip C m data len RTE_ETHER_TYPE_IPV4 = Some r" by auto
  then have "RTE_ETHER_TYPE_IPV4 = RTE_ETHER_TYPE_IPV4 \<longrightarrow> \<not> self_nested m data len"
  proof (rule protocol_filter_ip.raw_induct [rotated, where P =
          "\<lambda>C m data len ty r. ty = RTE_ETHER_TYPE_IPV4 \<longrightarrow> \<not> self_nested m data len"], intro impI notI)
    fix filt C m data len ty r
    assume IH: "\<And>C m data len ty r. filt C m data len ty = Some r \<Longrightarrow> ty = RTE_ETHER_TYPE_IPV4 \<longrightarrow> \<not> self_nested m data len"
      and r: "(case filter_ip_step C m data len ty of Verdict v \<Rightarrow> Some v | Descend d l t \<Rightarrow> filt C m d l t) = Some r"
      and n: "ty = RTE_ETHER_TYPE_IPV4" "self_nested m data len"
    have "filter_ip_step C m data len ty = Descend data len ty" using n self_nested_step by simp
    then have "filt C m data len ty = Some r" using r by simp
    then show False using IH n by blast
  qed
  with *(1) show False by simp
qed

lemma filter_opens_None: "opens C m p q \<Longrightarrow> q = (data, len, RTE_ETHER_TYPE_IPV4) \<Longrightarrow> self_nested m data len
    \<Longrightarrow> (case p of (d, l, t) \<Rightarrow> protocol_filter_ip C m d l t) = None"
proof (induction rule: opens.induct)
  case (here p)
  then show ?case by (simp add: filter_self_nested)
next
  case (inner d l t d' l' t' q)
  then show ?case by (simp add: protocol_filter_ip.simps)
qed

lemma filter_None_opens:
  "protocol_filter_ip C m data len ty = None
    \<Longrightarrow> \<exists>d l. opens C m (data, len, ty) (d, l, RTE_ETHER_TYPE_IPV4) \<and> self_nested m d l"
proof (induction "2 * len + (if ty = RTE_ETHER_TYPE_IPV4 then 1 else 0)" arbitrary: data len ty rule: less_induct)
  case less
  then obtain d l t where step: "filter_ip_step C m data len ty = Descend d l t" "protocol_filter_ip C m d l t = None"
    by (subst (asm) protocol_filter_ip.simps) (auto split: filter_step.splits)
  show ?case
  proof (cases "ty = RTE_ETHER_TYPE_IPV4 \<and> self_nested m data len")
    case True
    then show ?thesis using opens.here by blast
  next
    case False
    obtain h proto where h: "filter_ip_header C m data len ty = Some (h, proto)" "d = data + h" "l = len - h"
        "t = RTE_ETHER_TYPE_IPV4 \<or> t = RTE_ETHER_TYPE_IPV6" "t = RTE_ETHER_TYPE_IPV4 \<longrightarrow> proto = IPPROTO_IPIP"
      using step(1) by (elim filter_step_Descend) auto
    have "h = 0 \<longrightarrow> ty = RTE_ETHER_TYPE_IPV4 \<and> t \<noteq> RTE_ETHER_TYPE_IPV4"
      using h(1) by (rule filter_ip_header_cases) (use False h in \<open>auto simp: self_nested_def ihl_zero\<close>)
    moreover have "h \<le> len" using h(1) by (rule filter_ip_header_cases) auto
    ultimately have "2 * l + (if t = RTE_ETHER_TYPE_IPV4 then 1 else 0)
        < 2 * len + (if ty = RTE_ETHER_TYPE_IPV4 then 1 else 0)"
      using h(3) by auto
    from less.hyps [OF this step(2)] show ?thesis using opens.inner [OF step(1)] by blast
  qed
qed

text \<open>C23: \<open>protocol_filter_ip\<close> fails to return for exactly the packets that open, through IP in IP, to an IPv4
  header of length 0 whose protocol is IP in IP: such a header is its own payload, and the filter
  calls itself on it for ever.  On every other packet it returns.\<close>

theorem filter_diverges_iff:
  "protocol_filter_ip C m data len ty = None
    \<longleftrightarrow> (\<exists>d l. opens C m (data, len, ty) (d, l, RTE_ETHER_TYPE_IPV4) \<and> 20 \<le> l \<and> m d AND 0x0f = 0
                \<and> m (d + 9) = IPPROTO_IPIP)"
  using filter_None_opens [of C m data len ty] filter_opens_None [of C m "(data, len, ty)"]
  by (fastforce simp: self_nested_def)

text \<open>A packet of 20 bytes that stops the process: version 4, header length 0, protocol 4.\<close>

lemma packet_of_death: "protocol_filter_ip C ((\<lambda>_. 0)(0 := 0x40, 9 := 4)) 0 20 RTE_ETHER_TYPE_IPV4 = None"
  by (rule filter_self_nested) (simp add: self_nested_def)

section \<open>What the verdict depends on\<close>

definition same_bytes :: "mem \<Rightarrow> mem \<Rightarrow> nat \<Rightarrow> nat \<Rightarrow> bool" where
  "same_bytes m m' data len \<longleftrightarrow> (\<forall>i. data \<le> i \<longrightarrow> i < data + len \<longrightarrow> m i = m' i)"

lemma same_bytesD: "same_bytes m m' data len \<Longrightarrow> i < len \<Longrightarrow> m (data + i) = m' (data + i)"
  by (simp add: same_bytes_def)

lemma same_bytes_drop: "same_bytes m m' data len \<Longrightarrow> h \<le> len \<Longrightarrow> same_bytes m m' (data + h) (len - h)"
  by (simp add: same_bytes_def)

lemma same_bytes_sym: "same_bytes m m' data len = same_bytes m' m data len"
  by (auto simp: same_bytes_def)

lemma ext_hdr_len_local:
  assumes "same_bytes m m' data len"
  shows "ext_hdr_len proto m data = ext_hdr_len proto m' data
    \<or> (\<exists>e e'. ext_hdr_len proto m data = Some e \<and> ext_hdr_len proto m' data = Some e' \<and> len \<le> e \<and> len \<le> e')"
proof (cases "2 \<le> len")
  case True
  then have "m (data + 1) = m' (data + 1)" using assms by (intro same_bytesD) auto
  then show ?thesis by (simp add: ext_hdr_len_def)
next
  case False
  then show ?thesis by (auto simp: ext_hdr_len_def)
qed

lemma get_ipv6_hdr_len_local:
  "same_bytes m m' data len \<Longrightarrow> get_ipv6_hdr_len m proto data len = get_ipv6_hdr_len m' proto data len"
proof (induction m proto data len rule: get_ipv6_hdr_len.induct)
  case (1 m proto data len)
  from ext_hdr_len_local [OF 1(2), of proto] show ?case
  proof
    assume same: "ext_hdr_len proto m data = ext_hdr_len proto m' data"
    show ?thesis
    proof (cases "ext_hdr_len proto m data")
      case (Some e)
      show ?thesis
      proof (cases "e \<ge> len")
        case False
        have "m data = m' data" using same_bytesD [OF 1(2), of 0] False by simp
        with 1 Some same False same_bytes_drop [OF 1(2), of e] show ?thesis
          by (subst (1 2) get_ipv6_hdr_len.simps) simp
      qed (use Some same in \<open>simp add: get_ipv6_hdr_len.simps\<close>)
    qed (use same in \<open>simp add: get_ipv6_hdr_len.simps\<close>)
  qed (auto simp: get_ipv6_hdr_len.simps)
qed

lemma filter_ip_header_local:
  assumes "same_bytes m m' data len"
  shows "filter_ip_header C m data len ty = filter_ip_header C m' data len ty"
proof -
  have "40 \<le> len \<Longrightarrow> get_ipv6_hdr_len m (m (data + 6)) (data + 40) (len - 40)
      = get_ipv6_hdr_len m' (m' (data + 6)) (data + 40) (len - 40)"
    using get_ipv6_hdr_len_local [OF same_bytes_drop [OF assms, of 40]] same_bytesD [OF assms, of 6] by simp
  moreover have "20 \<le> len \<Longrightarrow> m data = m' data \<and> m (data + 9) = m' (data + 9)"
    using same_bytesD [OF assms, of 0] same_bytesD [OF assms, of 9] by simp
  ultimately show ?thesis by (simp add: filter_ip_header_def Let_def)
qed

lemma raw16_local: "same_bytes m m' data len \<Longrightarrow> i + 2 \<le> len \<Longrightarrow> raw16 m (data + i) = raw16 m' (data + i)"
  using same_bytesD [of m m' data len i] same_bytesD [of m m' data len "i + 1"] by (simp add: raw16_def add.assoc)

lemma be16_local: "same_bytes m m' data len \<Longrightarrow> i + 2 \<le> len \<Longrightarrow> be16 m (data + i) = be16 m' (data + i)"
  using same_bytesD [of m m' data len i] same_bytesD [of m m' data len "i + 1"] by (simp add: be16_def add.assoc)

lemma filter_ip_proto_local:
  assumes "same_bytes m m' data len"
  shows "filter_ip_proto C m proto data len = filter_ip_proto C m' proto data len"
proof -
  have "20 \<le> len \<or> 8 \<le> len \<Longrightarrow> raw16 m (data + 2) = raw16 m' (data + 2)"
    using raw16_local [OF assms, of 2] by auto
  moreover have "8 \<le> len \<Longrightarrow> m data = m' data" using same_bytesD [OF assms, of 0] by simp
  ultimately show ?thesis
    by (simp add: filter_ip_proto_def protocol_filter_tcp_def protocol_filter_udp_def protocol_filter_icmp6_def)
qed

lemma filter_ip_step_local:
  assumes "same_bytes m m' data len"
  shows "filter_ip_step C m data len ty = filter_ip_step C m' data len ty"
proof (cases "filter_ip_header C m data len ty")
  case None
  then show ?thesis using filter_ip_header_local [OF assms, of C ty] by (simp add: filter_ip_step_def)
next
  case (Some hp)
  obtain h proto where hp: "hp = (h, proto)" by force
  have "h \<le> len" using Some unfolding hp by (rule filter_ip_header_cases) auto
  from filter_ip_proto_local [OF same_bytes_drop [OF assms this]] show ?thesis
    using Some filter_ip_header_local [OF assms, of C ty] by (simp add: filter_ip_step_def hp)
qed

lemma filter_ip_Some_local:
  assumes "protocol_filter_ip C m data len ty = Some r" "same_bytes m m' data len"
  shows "protocol_filter_ip C m' data len ty = Some r"
proof -
  have "same_bytes m m' data len \<longrightarrow> protocol_filter_ip C m' data len ty = Some r"
    using assms(1)
  proof (rule protocol_filter_ip.raw_induct [rotated, where P =
        "\<lambda>C m data len ty r. same_bytes m m' data len \<longrightarrow> protocol_filter_ip C m' data len ty = Some r"], intro impI)
    fix filt C m data len ty r
    assume IH: "\<And>C m data len ty r. filt C m data len ty = Some r
        \<Longrightarrow> same_bytes m m' data len \<longrightarrow> protocol_filter_ip C m' data len ty = Some r"
      and r: "(case filter_ip_step C m data len ty of Verdict v \<Rightarrow> Some v | Descend d l t \<Rightarrow> filt C m d l t) = Some r"
      and same: "same_bytes m m' data len"
    note step = filter_ip_step_local [OF same, of C ty]
    show "protocol_filter_ip C m' data len ty = Some r"
    proof (cases "filter_ip_step C m data len ty")
      case (Descend d l t)
      from Descend obtain h proto where h: "filter_ip_header C m data len ty = Some (h, proto)" "d = data + h" "l = len - h"
        by (rule filter_step_Descend)
      have "h \<le> len" using h(1) by (rule filter_ip_header_cases) auto
      then have "same_bytes m m' d l" using same_bytes_drop [OF same] h by simp
      then show ?thesis using IH r Descend step by (subst protocol_filter_ip.simps) simp
    qed (use r step in \<open>simp add: protocol_filter_ip.simps\<close>)
  qed
  then show ?thesis using assms(2) by blast
qed

lemma filter_ip_local:
  assumes "same_bytes m m' data len"
  shows "protocol_filter_ip C m data len ty = protocol_filter_ip C m' data len ty"
  using filter_ip_Some_local [OF _ assms, of C ty] filter_ip_Some_local [of C m' data len ty _ m] assms
  by (metis option.exhaust same_bytes_sym)

lemma u16_sub_le: "b \<le> a \<Longrightarrow> a < 65536 \<Longrightarrow> u16_sub a b = a - b"
  by (simp add: u16_sub_def Nat.add_diff_assoc2 [symmetric] del: Nat.add_diff_assoc2)

text \<open>C24: the verdict on a frame of 18 bytes or more depends on the bytes of the frame alone, whatever lies
  behind it in memory, however the headers inside it are nested and whatever lengths they claim.\<close>

theorem filter_frame_local:
  assumes same: "\<forall>i<len. m (data + i) = m' (data + i)" and len: "18 \<le> len" "len < 65536"
  shows "protocol_filter C m data len = protocol_filter C m' data len"
proof -
  have sb: "same_bytes m m' data len" using same by (auto simp: same_bytes_def) (metis add_diff_inverse_nat less_diff_conv2 not_less add.commute)
  have sub: "u16_sub len 14 = len - 14" "u16_sub (len - 14) 4 = len - 18"
    using len by (simp_all add: u16_sub_le)
  have ty: "be16 m (data + 12) = be16 m' (data + 12)" "be16 m (16 + data) = be16 m' (16 + data)"
    using be16_local [OF sb, of 12] be16_local [OF sb, of 16] len by (simp_all add: add.commute)
  have ip: "protocol_filter_ip C m (data + 14) (len - 14) t = protocol_filter_ip C m' (data + 14) (len - 14) t"
    "protocol_filter_ip C m (18 + data) (len - 18) t = protocol_filter_ip C m' (18 + data) (len - 18) t" for t
    using filter_ip_local [OF same_bytes_drop [OF sb, of 14]] filter_ip_local [OF same_bytes_drop [OF sb, of 18]] len
    by (simp_all add: add.commute)
  show ?thesis
    using len by (simp add: protocol_filter_def Let_def sub ty ip lazybsd_kni_proto_filter_def)
qed

theorem filter_frame_local_witness:
  "protocol_filter \<lparr>INET6 = True, LAZYBSD_KNI = True, enable_kni = True, tcp_port_bitmap = (\<lambda>_. 0),
       udp_port_bitmap = (\<lambda>_. 0)\<rparr> (\<lambda>i. if i < 18 then 8 else 0) 0 18
   = protocol_filter \<lparr>INET6 = True, LAZYBSD_KNI = True, enable_kni = True, tcp_port_bitmap = (\<lambda>_. 0),
       udp_port_bitmap = (\<lambda>_. 0)\<rparr> (\<lambda>i. if i < 18 then 8 else 1) 0 18"
  by (rule filter_frame_local) simp_all

text \<open>The length check of \<open>protocol_filter\<close> compares with the length of an address instead of a
  header: the verdict on a frame of 6 to 13 bytes is decided by the bytes behind it, and a frame of
  that length that seems to hold IP is handed on with a length of more than 65000.\<close>

theorem filter_short_frame:
  assumes "6 \<le> len" "len < 14"
  shows "(\<exists>m m'. (\<forall>i<len. m (data + i) = m' (data + i))
      \<and> protocol_filter C m data len = Some FILTER_ARP \<and> protocol_filter C m' data len = Some FILTER_UNKNOWN)
    \<and> 65528 \<le> u16_sub len 14"
proof -
  define m :: "u8 \<Rightarrow> mem" where "m b = (\<lambda>_. 0)(data + 12 := 8, data + 13 := b)" for b
  have "be16 (m 6) (data + 12) = RTE_ETHER_TYPE_ARP" "be16 (m 1) (data + 12) = 0x0801"
    by (simp_all add: be16_def m_def)
  then have "protocol_filter C (m 6) data len = Some FILTER_ARP" "protocol_filter C (m 1) data len = Some FILTER_UNKNOWN"
    using assms by (simp_all add: protocol_filter_def Let_def)
  moreover have "\<forall>i<len. m 6 (data + i) = m 1 (data + i)" using assms by (simp add: m_def)
  moreover have "65528 \<le> u16_sub len 14" using assms by (simp add: u16_sub_def)
  ultimately show ?thesis by blast
qed

theorem filter_short_frame_witness: "65528 \<le> u16_sub 13 14"
  using filter_short_frame [of 13] by simp

section \<open>The ports of the exception path\<close>

lemma magic_bits_power: "i < 8 \<Longrightarrow> magic_bits i = 2 ^ (7 - i)"
  by (auto simp: magic_bits_def less_Suc_eq numeral_nat nth_Cons')

lemma get_bitmap_bit: "get_bitmap port bitmap \<longleftrightarrow> bit (bitmap (unat port div 8)) (7 - unat port mod 8)"
  by (simp add: get_bitmap_def magic_bits_power and_exp_eq_0_iff_not_bit)

lemma get_bitmap_zero: "\<not> get_bitmap port (\<lambda>_. 0)"
  by (simp add: get_bitmap_def)

lemma htons_htons [simp]: "htons (htons p) = p"
  by (rule bit_word_eqI) (auto simp: htons_def bit_simps)

lemma get_set_bitmap:
  "get_bitmap q (set_bitmap p bitmap) \<longleftrightarrow> q = htons p \<or> get_bitmap q bitmap"
proof -
  let ?p = "unat (htons p)" and ?q = "unat q"
  have eq: "q = htons p \<longleftrightarrow> ?q div 8 = ?p div 8 \<and> ?q mod 8 = ?p mod 8"
    by (metis div_mult_mod_eq word_unat_eq_iff)
  have "7 - ?q mod 8 = 7 - ?p mod 8 \<longleftrightarrow> ?q mod 8 = ?p mod 8"
    using mod_less_divisor [of 8 ?q] mod_less_divisor [of 8 ?p] by linarith
  then show ?thesis
    by (auto simp: get_bitmap_bit set_bitmap_def Let_def magic_bits_power bit_or_iff bit_exp_iff eq)
qed

lemma get_set_ports:
  "get_bitmap (htons p) (set_ports ps bitmap) \<longleftrightarrow> p \<in> word_of_int ` set ps \<or> get_bitmap (htons p) bitmap"
proof (induction ps arbitrary: bitmap)
  case (Cons x ps)
  have "htons p = htons y \<longleftrightarrow> p = y" for y by (metis htons_htons)
  with Cons show ?case by (auto simp: set_ports_def get_set_bitmap)
qed (simp add: set_ports_def)

text \<open>A port list as the configuration writes it: ports and ranges of ports, separated by commas.\<close>

datatype port_item = Port nat | Range nat nat

fun show_item :: "port_item \<Rightarrow> string" where
  "show_item (Port p) = show_nat p"
| "show_item (Range a b) = show_nat a @ ''-'' @ show_nat b"

fun show_items :: "port_item list \<Rightarrow> string" where
  "show_items [] = []"
| "show_items [x] = show_item x"
| "show_items (x # xs) = show_item x @ '','' @ show_items xs"

fun in_item :: "nat \<Rightarrow> port_item \<Rightarrow> bool" where
  "in_item p (Port q) \<longleftrightarrow> p = q"
| "in_item p (Range a b) \<longleftrightarrow> a \<le> p \<and> p \<le> b"

lemma digits_val_show:
  assumes "rest = [] \<or> \<not> is_dec (hd rest)"
  shows "digits_val (show_nat n @ rest) = int n"
proof -
  have "foldl (\<lambda>n c. n * 10 + digit_val c) (int a) s = int (foldl (\<lambda>a d. 10 * a + d) a (map (\<lambda>c. of_char c - 48) s))"
    if "\<forall>c \<in> set s. is_dec c" for a s
    using that
  proof (induction s arbitrary: a)
    case (Cons c s)
    then have eq: "int a * 10 + digit_val c = int (10 * a + (of_char c - 48))"
      by (simp add: is_dec_def digit_val_def of_nat_diff of_nat_of_char)
    show ?case unfolding foldl.simps list.map eq by (rule Cons.IH) (use Cons.prems in simp)
  qed simp
  from this [of "show_nat n" 0] show ?thesis
    using show_nat_dec [of _ n] takeWhile_show_nat(1) [OF assms, of n]
    by (simp add: digits_val_def show_nat_values base_val_def [symmetric])
qed

lemma atoi_show:
  assumes "rest = [] \<or> \<not> is_dec (hd rest)"
  shows "atoi (show_nat n @ rest) = int n"
proof -
  obtain c cs where c: "show_nat n = c # cs" by (cases "show_nat n") auto
  then have "is_dec c" using show_nat_dec [of c n] by simp
  then have "\<not> is_space c" "c \<noteq> CHR ''-''" "c \<noteq> CHR ''+''" by (auto simp: is_dec_def is_space_def)
  then show ?thesis using digits_val_show [OF assms, of n] c by (simp add: atoi_def)
qed

lemma strchr_first: "c \<notin> set s \<Longrightarrow> strchr c (s @ c # t) = Some (length s)"
proof -
  assume "c \<notin> set s"
  then have "takeWhile (\<lambda>x. x \<noteq> c) s = s" by (auto simp: takeWhile_eq_all_conv)
  then show ?thesis by (simp add: strchr_def takeWhile_tail)
qed

lemma strchr_none: "c \<notin> set s \<Longrightarrow> strchr c s = None"
  by (simp add: strchr_def)

lemma strchr_later: "c \<notin> set s \<Longrightarrow> strchr c (s @ t) = map_option (\<lambda>n. length s + n) (strchr c t)"
  by (auto simp: strchr_def takeWhile_append)

lemma show_nat_not: "CHR ''-'' \<notin> set (show_nat n)" "CHR '','' \<notin> set (show_nat n)"
  using show_nat_dec [of _ n] by (fastforce simp: is_dec_def)+

lemma show_item_no_comma: "CHR '','' \<notin> set (show_item x)"
  by (cases x) (simp_all add: show_nat_not)

fun item_list :: "port_item \<Rightarrow> int list" where
  "item_list (Port p) = [int p]"
| "item_list (Range a b) = [int a..int b]"

lemma item_ports_show:
  assumes "rest = [] \<or> (\<exists>t. rest = CHR '','' # t)"
  shows "item_ports (show_item x @ rest) = item_list x"
proof -
  have nd: "rest = [] \<or> \<not> is_dec (hd rest)" using assms by (auto simp: is_dec_def)
  have tail: "strchr CHR '','' (show_item x @ rest) = (if rest = [] then None else Some (length (show_item x)))"
    using assms show_item_no_comma [of x] by (auto simp: strchr_first strchr_none)
  show ?thesis
  proof (cases x)
    case (Port p)
    have "strchr CHR ''-'' (show_item x @ rest) = map_option (\<lambda>n. length (show_nat p) + n) (strchr CHR ''-'' rest)"
      using Port show_nat_not by (simp add: strchr_later)
    then show ?thesis
      using tail atoi_show [OF nd, of p] Port assms
      by (auto simp: item_ports_def strchr_none split: option.splits)
  next
    case (Range a b)
    have dash: "strchr CHR ''-'' (show_item x @ rest) = Some (length (show_nat a))"
      using Range show_nat_not strchr_first [of "CHR ''-''" "show_nat a"] by simp
    have "atoi (show_item x @ rest) = int a"
      using atoi_show [of "CHR ''-'' # show_nat b @ rest" a] Range by (simp add: is_dec_def)
    moreover have "atoi (drop (length (show_nat a) + 1) (show_item x @ rest)) = int b"
      using atoi_show [OF nd, of b] Range by simp
    moreover have "0 < length (show_nat b)" by simp
    ultimately show ?thesis
      using dash tail Range unfolding item_ports_def by (simp del: show_nat_nonempty length_greater_0_conv)
  qed
qed

lemma kni_set_bitmap_show:
  "items \<noteq> [] \<Longrightarrow> kni_set_bitmap_from (show_items items) bitmap = set_ports (concat (map item_list items)) bitmap"
proof (induction items arbitrary: bitmap rule: show_items.induct)
  case (2 x)
  then show ?case
    using item_ports_show [of "[]" x] strchr_none [OF show_item_no_comma, of x]
    by (subst kni_set_bitmap_from.simps) simp
next
  case (3 x y xs)
  let ?rest = "'','' @ show_items (y # xs)"
  have "strchr CHR '','' (show_item x @ ?rest) = Some (length (show_item x))"
    using strchr_first [OF show_item_no_comma] by simp
  moreover have "item_ports (show_item x @ ?rest) = item_list x" by (rule item_ports_show) simp
  ultimately show ?case
    using 3 by (subst kni_set_bitmap_from.simps) (simp add: set_ports_def)
qed simp

lemma in_item_list: "int p \<in> set (item_list x) \<longleftrightarrow> in_item p x"
  by (cases x) auto

fun item_ok :: "port_item \<Rightarrow> bool" where
  "item_ok (Port p) \<longleftrightarrow> p < 65536"
| "item_ok (Range a b) \<longleftrightarrow> b < 65536"

lemma item_list_bounds: "item_ok x \<Longrightarrow> q \<in> set (item_list x) \<Longrightarrow> 0 \<le> q \<and> q < 65536"
  by (cases x) auto

lemma kni_bitmap_ports:
  assumes "items \<noteq> []" "\<forall>x \<in> set items. item_ok x" "p < 65536"
  shows "get_bitmap (htons (of_nat p)) (kni_set_bitmap (Some (show_items items)) (\<lambda>_. 0))
    \<longleftrightarrow> (\<exists>x \<in> set items. in_item p x)"
proof -
  have inj: "q = int p" if q: "(of_nat p :: u16) = word_of_int q" "0 \<le> q" "q < 65536" for q
  proof -
    have "int p mod 2 ^ LENGTH(16) = q mod 2 ^ LENGTH(16)"
      unfolding uint_word_of_int [symmetric, where 'a = 16] using q(1) by simp
    then show ?thesis using q(2,3) assms(3) by simp
  qed
  have "(of_nat p :: u16) \<in> word_of_int ` set (concat (map item_list items)) \<longleftrightarrow> (\<exists>x \<in> set items. int p \<in> set (item_list x))"
  proof
    assume "(of_nat p :: u16) \<in> word_of_int ` set (concat (map item_list items))"
    then obtain x q where x: "x \<in> set items" "q \<in> set (item_list x)" "(of_nat p :: u16) = word_of_int q" by auto
    then have "q = int p" using inj [of q] item_list_bounds [of x q] assms(2) by blast
    then show "\<exists>x \<in> set items. int p \<in> set (item_list x)" using x by blast
  next
    assume "\<exists>x \<in> set items. int p \<in> set (item_list x)"
    then show "(of_nat p :: u16) \<in> word_of_int ` set (concat (map item_list items))"
      by (intro image_eqI [of _ _ "int p"]) auto
  qed
  then show ?thesis
    using assms(1) get_bitmap_zero by (simp add: kni_set_bitmap_def kni_set_bitmap_show get_set_ports in_item_list)
qed

text \<open>The port lists of the configuration mean what they say: written as ports and ranges separated by
  commas, they make the classifier send to the kernel interface exactly the TCP and UDP packets
  whose destination port is listed or lies in a listed range.\<close>

theorem kni_ports_select:
  assumes tcp: "ts \<noteq> []" "\<forall>x \<in> set ts. item_ok x" and udp: "us \<noteq> []" "\<forall>x \<in> set us. item_ok x"
    and port: "raw16 m (data + 2) = htons (of_nat p)" "p < 65536" and len: "20 \<le> len"
    and C': "C' = lazybsd_kni_init (Some (show_items ts)) (Some (show_items us)) C"
  shows "protocol_filter_tcp C' m data len = (if \<exists>x \<in> set ts. in_item p x then FILTER_KNI else FILTER_UNKNOWN)
    \<and> protocol_filter_udp C' m data len = (if \<exists>x \<in> set us. in_item p x then FILTER_KNI else FILTER_UNKNOWN)"
  using len port kni_bitmap_ports [OF tcp port(2)] kni_bitmap_ports [OF udp port(2)]
  by (simp add: C' lazybsd_kni_init_def protocol_filter_tcp_def protocol_filter_udp_def protocol_filter_l4_def)

theorem kni_ports_select_witness:
  "protocol_filter_tcp (lazybsd_kni_init (Some (show_items [Port 22, Range 80 90])) (Some (show_items [Port 53]))
       \<lparr>INET6 = True, LAZYBSD_KNI = True, enable_kni = True, tcp_port_bitmap = (\<lambda>_. 0), udp_port_bitmap = (\<lambda>_. 0)\<rparr>)
     ((\<lambda>_. 0)(3 := 85)) 0 20 = FILTER_KNI"
proof -
  have "raw16 ((\<lambda>_. 0)(3 := 85)) (0 + 2) = htons (of_nat 85)"
    by (simp add: raw16_def htons_def)
  from kni_ports_select [OF _ _ _ _ this _ _ refl, of "[Port 22, Range 80 90]" "[Port 53]" 20] show ?thesis by simp
qed

end
