(* ===== verification/LB_Rx_Props.thy ===== *)
theory LB_Rx_Props
  imports LB_Rx LB_Tx_Props LB_Filter_Props
begin

text \<open>
  Ownership on the receive path: every packet received is, when its turn is over, in exactly one place,
  and so is every copy made of it; the exception is a packet of several segments for which the stack
  runs out of mbufs, some of whose buffers are given back a second time.  Tagging a packet for the exception path puts the stripped VLAN header back
  and leaves the classifier's verdict unchanged.
\<close>

text \<open>Steps that leave the transmit side alone compose.\<close>

lemma path_trans:
  "balanced s s' ins mid \<and> same_tx s s' \<Longrightarrow> balanced s' s'' mid outs \<and> same_tx s' s'' \<Longrightarrow>
    balanced s s'' ins outs \<and> same_tx s s''"
  using balanced_trans same_tx_trans by blast

lemma path_refl: "balanced s s X X \<and> same_tx s s"
  by (simp add: balanced_refl same_tx_def)

section \<open>Delivery\<close>

lemma veth_attach_frame:
  "veth_attach E pns s = (k, ok, s') \<Longrightarrow>
    given s' = given s \<and> taken s' = taken s \<and> same_tx s s' \<and> (ok \<longleftrightarrow> k = length pns) \<and> k \<le> length pns"
proof (induction E pns s arbitrary: k ok s' rule: veth_attach.induct)
  case (2 E pn pns s)
  then show ?case
    by (auto simp: lazybsd_mbuf_get_def same_tx_def path_simps split: prod.splits bool.splits)
qed (simp add: same_tx_def)

lemma veth_attach_ok:
  "(\<forall>t. m_get_ok E t) \<or> pns = [] \<Longrightarrow> fst (snd (veth_attach E pns s))"
proof (elim disjE)
  show "\<forall>t. m_get_ok E t \<Longrightarrow> fst (snd (veth_attach E pns s))"
    by (induction pns arbitrary: s) (simp_all add: lazybsd_mbuf_get_def case_prod_beta)
qed simp

text \<open>The buffers of a packet that are given back a second time: none when the stack has mbufs or the packet has one segment.\<close>

definition twice_ok :: "env \<Rightarrow> packet \<Rightarrow> nat multiset \<Rightarrow> bool" where
  "twice_ok E p tw \<longleftrightarrow> tw \<subseteq># mset (map addr p) \<and> ((\<forall>t. m_get_ok E t) \<or> length p \<le> 1 \<longrightarrow> tw = {#})"

lemma twice_ok_none [simp]: "twice_ok E p {#}"
  by (simp add: twice_ok_def)

lemma mset_take_le: "mset (map f (take k xs)) \<subseteq># mset (map f xs)"
  by (metis append_take_drop_id map_append mset_append mset_subset_eq_add_left)

lemma veth_input_ledger:
  "\<exists>tw. twice_ok E pkt tw \<and> balanced s (lazybsd_veth_input E ctx pkt s) (mset (map addr pkt) + tw) {#} \<and>
    same_tx s (lazybsd_veth_input E ctx pkt s)"
proof -
  obtain k ok s' where a: "veth_attach E (tl pkt) (tick_calls s) = (k, ok, s')" by (metis prod_cases3)
  note frame = veth_attach_frame [OF a]
  have segs: "sum_list (map (event_given \<circ> (\<lambda>m. Free_seg (addr m))) p) = mset (map addr p)"
    "sum_list (map (event_taken \<circ> (\<lambda>m. Free_seg (addr m))) p) = {#}"
    "sum_list (map (event_bsd \<circ> (\<lambda>m. Free_seg (addr m))) p) = {#}" for p
    by (induction p) auto
  show ?thesis
  proof (cases "ok \<or> rx_csum ctx \<and> (RX_IP_CKSUM_BAD \<in> ol_flags (hd pkt) \<or> RX_L4_CKSUM_BAD \<in> ol_flags (hd pkt)) \<or> \<not> m_gethdr_ok E (calls s)")
    case True
    then show ?thesis
      using frame a
      by (intro exI [of _ "{#}"])
        (auto simp: lazybsd_veth_input_def lazybsd_mbuf_gethdr_def balanced_def same_tx_def path_simps split: bool.splits)
  next
    case False
    have "\<not> ((\<forall>t. m_get_ok E t) \<or> tl pkt = [])" using veth_attach_ok [of E "tl pkt" "tick_calls s"] a False by auto
    then have "\<not> ((\<forall>t. m_get_ok E t) \<or> length pkt \<le> 1)" by (cases pkt) auto
    with mset_take_le [of addr "k + 1" pkt] have "twice_ok E pkt (mset (map addr (take (k + 1) pkt)))"
      by (simp only: twice_ok_def simp_thms)
    then show ?thesis
      using frame a False
      by (intro exI [of _ "mset (map addr (take (k + 1) pkt))"])
        (auto simp: lazybsd_veth_input_def lazybsd_mbuf_gethdr_def balanced_def same_tx_def path_simps segs ac_simps split: bool.splits)
  qed
qed

section \<open>Copies and rings\<close>

lemma clone_segs_ledger:
  "clone_segs E mp md s = (mc, ok, s') \<Longrightarrow> balanced s s' {#} (mset (map addr mc)) \<and> same_tx s s'"
proof (induction E mp md s arbitrary: mc ok s' rule: clone_segs.induct)
  case (1 E mp s)
  then show ?case by (simp add: balanced_refl same_tx_def)
next
  case (2 E mp md mds s)
  obtain r s1 where a: "pktmbuf_alloc E mp s = (r, s1)" by force
  note got = pktmbuf_alloc_ledger [OF a]
  show ?case
  proof (cases r)
    case None
    then show ?thesis using 2(2) a got by auto
  next
    case (Some mi)
    obtain mi' s2 where d: "pktmbuf_deep_attach mi md s1 = (mi', s2)" by force
    then have att: "addr mi' = addr mi" "given s2 = given s1" "taken s2 = taken s1" "same_tx s1 s2"
      by (auto simp: pktmbuf_deep_attach_def same_tx_def path_simps)
    obtain mc' ok' where c: "clone_segs E mp mds s2 = (mc', ok', s')" "mc = mi' # mc'"
      using 2(2) a Some d by (auto split: prod.splits)
    have first: "balanced s s1 {#} {#addr mi#} \<and> same_tx s s1"
      using got Some by simp
    have attached: "balanced s1 s2 {#addr mi#} {#addr mi#} \<and> same_tx s1 s2"
      using att by (simp add: balanced_def)
    have "balanced s2 s' {#} (mset (map addr mc')) \<and> same_tx s2 s'"
      using 2(1) [OF a [symmetric] Some d [symmetric] c(1)] by simp
    then have "balanced s2 s' {#addr mi#} (mset (map addr mc)) \<and> same_tx s2 s'"
      using balanced_frame [of s2 s' "{#}" "mset (map addr mc')" "{#addr mi#}"] att(1) c(2) by simp
    then show ?thesis
      by (rule path_trans [OF path_trans [OF first attached]])
  qed
qed

lemma deep_clone_ledger:
  assumes "pktmbuf_deep_clone E mp md s = (r, s')"
  shows "balanced s s' {#} (segs_of r) \<and> same_tx s s'"
proof -
  obtain mc ok s1 where c: "clone_segs E mp md s = (mc, ok, s1)" by (metis prod_cases3)
  show ?thesis
    using clone_segs_ledger [OF c] assms c
    by (auto simp: pktmbuf_deep_clone_def Let_def balanced_def same_tx_def path_simps ac_simps
        split: list.splits if_splits)
qed

lemma add_vlan_ledger:
  assumes "lazybsd_add_vlan_tag p s = (p', s')" and "p \<noteq> []"
  shows "map addr p' = map addr p \<and> given s' = given s \<and> taken s' = taken s \<and> same_tx s s' \<and> p' \<noteq> []"
  using assms by (cases p) (auto simp: lazybsd_add_vlan_tag_def Let_def same_tx_def path_simps split: if_splits)

lemma ring_enqueue_ledger:
  "event_given e = mset (map addr pkt) \<Longrightarrow> event_taken e = {#} \<Longrightarrow> event_bsd e = {#} \<Longrightarrow>
    balanced s (ring_enqueue E e pkt s) (mset (map addr pkt)) {#} \<and> same_tx s (ring_enqueue E e pkt s)"
  by (simp add: ring_enqueue_def Let_def balanced_def same_tx_def path_simps)

lemma to_kni_ledger:
  assumes "p \<noteq> []"
  shows "balanced s (to_kni E port p s) (mset (map addr p)) {#} \<and> same_tx s (to_kni E port p s)"
proof -
  obtain p' s' where a: "lazybsd_add_vlan_tag p s = (p', s')" by force
  note v = add_vlan_ledger [OF a assms]
  then have "mset (map addr p') = mset (map addr p)" by simp
  then show ?thesis
    using v ring_enqueue_ledger [of "To_kni port p'" p' s' E]
    by (simp add: to_kni_def a lazybsd_kni_enqueue_def balanced_def same_tx_def)
qed

lemma broadcast_one_ledger:
  "balanced s (broadcast_one E C port queue p j s) {#} {#} \<and> same_tx s (broadcast_one E C port queue p j s)"
proof -
  obtain r s1 where c: "pktmbuf_deep_clone E (Pktmbuf (if numa_on C then queue_socket C port j else 0)) p s = (r, s1)"
    by force
  note l = deep_clone_ledger [OF c]
  show ?thesis
  proof (cases r)
    case None
    then show ?thesis using l c by (simp add: broadcast_one_def balanced_refl same_tx_def)
  next
    case (Some mc)
    have "balanced s1 (ring_enqueue E (To_ring port j mc) mc s1) (segs_of r) {#} \<and>
        same_tx s1 (ring_enqueue E (To_ring port j mc) mc s1)"
      using ring_enqueue_ledger [of "To_ring port j mc" mc s1 E] Some by simp
    from path_trans [OF l this] show ?thesis
      using c Some path_refl by (simp add: broadcast_one_def dispatch_enqueue_def)
  qed
qed

lemma broadcast_ledger:
  "balanced s (fold (broadcast_one E C port queue p) js s) {#} {#} \<and>
     same_tx s (fold (broadcast_one E C port queue p) js s)"
proof (induction js arbitrary: s)
  case (Cons j js)
  show ?case
    using path_trans [OF broadcast_one_ledger [of s E C port queue p j] Cons.IH] by simp
qed (simp add: path_refl)

lemma kni_copy_ledger:
  "balanced s (kni_copy E C port p s) {#} {#} \<and> same_tx s (kni_copy E C port p s)"
proof -
  obtain r s1 where c: "pktmbuf_deep_clone E (Pktmbuf (socket_id C)) p s = (r, s1)" by force
  note l = deep_clone_ledger [OF c]
  show ?thesis
  proof (cases r)
    case None
    then show ?thesis using l c by (simp add: kni_copy_def)
  next
    case (Some mc)
    have "mc \<noteq> []"
      using c Some by (auto simp: pktmbuf_deep_clone_def Let_def split: list.splits prod.splits if_splits)
    then have "balanced s1 (to_kni E port mc s1) (segs_of r) {#} \<and> same_tx s1 (to_kni E port mc s1)"
      using to_kni_ledger Some by simp
    from path_trans [OF l this] show ?thesis
      using c Some by (simp add: kni_copy_def to_kni_def)
  qed
qed

lemma process_filtered_ledger:
  assumes "p \<noteq> []"
  shows "\<exists>tw. twice_ok E p tw \<and> balanced s (process_filtered E C ctx port queue from_ring v p s) (mset (map addr p) + tw) {#} \<and>
    same_tx s (process_filtered E C ctx port queue from_ring v p s)"
proof -
  let ?s1 = "if from_ring then s else fold (broadcast_one E C port queue p) [0..<nb_queue_list C port] s"
  let ?s2 = "if LAZYBSD_KNI (fconf C) \<and> enable_kni (fconf C) \<and> proc_primary C then kni_copy E C port p ?s1 else ?s1"
  have "balanced s ?s1 {#} {#} \<and> same_tx s ?s1"
    using broadcast_ledger path_refl by simp
  moreover have "balanced ?s1 ?s2 {#} {#} \<and> same_tx ?s1 ?s2"
    using kni_copy_ledger path_refl by simp
  ultimately have s2: "balanced s ?s2 {#} {#} \<and> same_tx s ?s2"
    by (rule path_trans)
  have pass: "balanced s ?s2 A A \<and> same_tx s ?s2" for A
    using s2 balanced_frame [of s ?s2 "{#}" "{#}" A] by simp
  have "process_filtered E C ctx port queue from_ring v p s \<in>
      {lazybsd_veth_input E ctx p s, lazybsd_veth_input E ctx p ?s2, to_kni E port p s}"
    by (simp add: process_filtered_def Let_def split: knictl_action.splits)
  then consider "process_filtered E C ctx port queue from_ring v p s = lazybsd_veth_input E ctx p s"
    | "process_filtered E C ctx port queue from_ring v p s = lazybsd_veth_input E ctx p ?s2"
    | "process_filtered E C ctx port queue from_ring v p s = to_kni E port p s"
    by blast
  then show ?thesis
  proof cases
    case 1
    show ?thesis unfolding 1 by (rule veth_input_ledger)
  next
    case 2
    obtain tw where "twice_ok E p tw" and
      "balanced ?s2 (lazybsd_veth_input E ctx p ?s2) (mset (map addr p) + tw) {#} \<and> same_tx ?s2 (lazybsd_veth_input E ctx p ?s2)"
      using veth_input_ledger by blast
    then show ?thesis unfolding 2 using path_trans [OF pass] by blast
  next
    case 3
    show ?thesis unfolding 3 using to_kni_ledger [OF assms] by (intro exI [of _ "{#}"]) simp
  qed
qed

section \<open>The ledger of all ports\<close>

definition all_held :: "nat set \<Rightarrow> lcore \<Rightarrow> nat multiset" where
  "all_held P s = (\<Sum>port\<in>P. held port s)"

text \<open>From \<open>s\<close> to \<open>s'\<close> the buffers \<open>ins\<close> came in; all are given away or wait for transmission.\<close>

definition ledger :: "nat set \<Rightarrow> lcore \<Rightarrow> lcore \<Rightarrow> nat multiset \<Rightarrow> bool" where
  "ledger P s s' ins \<longleftrightarrow> given s' + all_held P s' + taken s = given s + all_held P s + taken s' + ins"

abbreviation segs_sum :: "packet list \<Rightarrow> nat multiset" where
  "segs_sum ps \<equiv> sum_list (map (\<lambda>p. mset (map addr p)) ps)"

lemma ledger_refl: "ledger P s s {#}"
  by (simp add: ledger_def)

lemma ledger_trans:
  assumes "ledger P s s' A" and "ledger P s' s'' B"
  shows "ledger P s s'' (A + B)"
proof -
  have "(given s'' + all_held P s'' + taken s) + (given s' + all_held P s' + taken s') =
      (given s + all_held P s + taken s'' + (A + B)) + (given s' + all_held P s' + taken s')"
    using arg_cong2 [OF assms(1,2) [unfolded ledger_def], of "(+)"] by (simp only: ac_simps)
  then show ?thesis unfolding ledger_def by (rule add_right_imp_eq)
qed

lemma ledger_path: "balanced s s' ins {#} \<and> same_tx s s' \<Longrightarrow> ledger P s s' ins"
  by (simp add: ledger_def balanced_def all_held_def held_def same_tx_def ac_simps)

lemma all_held_one:
  assumes "finite P" and "port \<in> P" and "\<And>q. q \<noteq> port \<Longrightarrow> tx_mbufs s' q = tx_mbufs s q"
    and "taken s' = taken s" and "given s' + held port s' = given s + held port s + A"
  shows "ledger P s s' A"
proof -
  have split: "all_held P x = held port x + all_held (P - {port}) x" for x
    using assms(1,2) by (simp add: all_held_def sum.remove)
  have "all_held (P - {port}) s' = all_held (P - {port}) s"
    unfolding all_held_def by (rule sum.cong) (auto simp: held_def assms(3))
  then show ?thesis
    using assms(4,5) unfolding ledger_def split by (metis (no_types, lifting) add.assoc add.commute)
qed

lemma send_single_ledger:
  assumes "burst_law E" and "finite P" and "port \<in> P"
  shows "ledger P s (send_single_packet E p port s) (mset (map addr p))"
proof (rule all_held_one [OF assms(2,3)])
  show "tx_mbufs (send_single_packet E p port s) q = tx_mbufs s q" if "q \<noteq> port" for q
    using that by (auto simp: send_single_packet_def Let_def path_simps send_burst_ledger [OF assms(1)])
qed (use enqueue_tx_ledger [OF assms(1)] in \<open>simp_all add: send_single_enqueue\<close>)

lemma tx_drain_ledger:
  assumes "burst_law E" and "finite P" and "set ports \<subseteq> P"
  shows "ledger P s (tx_drain E ports s) {#}"
  using assms(3)
proof (induction ports arbitrary: s)
  case Nil
  then show ?case by (simp add: tx_drain_def ledger_refl)
next
  case (Cons port ports)
  have "ledger P s (tx_drain_port E port s) {#}"
  proof (rule all_held_one [OF assms(2)])
    show "port \<in> P" using Cons.prems by simp
    show "tx_mbufs (tx_drain_port E port s) q = tx_mbufs s q" if "q \<noteq> port" for q
      using that by (simp add: tx_drain_port_def path_simps send_burst_ledger [OF assms(1)])
    show "taken (tx_drain_port E port s) = taken s"
      by (simp add: tx_drain_port_def path_simps send_burst_ledger [OF assms(1)])
    show "given (tx_drain_port E port s) + held port (tx_drain_port E port s) = given s + held port s + {#}"
      by (simp add: tx_drain_port_def held_tx_len path_simps send_burst_ledger [OF assms(1)])
        (simp add: held_def)
  qed
  from ledger_trans [OF this Cons.IH [of "tx_drain_port E port s"]] Cons.prems
  show ?case by (simp add: tx_drain_def)
qed

lemma process_dispatch_ledger:
  assumes "burst_law E" "finite P" "port \<in> P" "p \<noteq> []"
    and "process_dispatch E C port queue p s = Inr d"
  shows "case d of Done s' \<Rightarrow> ledger P s s' (mset (map addr p)) | Go_on len s' \<Rightarrow> ledger P s s' {#}"
proof (cases "packet_dispatcher E")
  case None
  then show ?thesis using assms(5) by (auto simp: process_dispatch_def ledger_refl)
next
  case (Some f)
  obtain ret len mem' where f: "f (memory s) (rte_pktmbuf_mtod (hd p)) (data_len (hd p)) queue (nb_queue_list C port)
      = (ret, len, mem')" by (metis prod_cases3)
  let ?s = "s\<lparr>memory := mem'\<rparr>"
  have mem: "ledger P s ?s {#}"
    by (rule ledger_path) (simp add: balanced_def same_tx_def path_simps)
  note go = ledger_trans [OF mem]
  let ?p = "(hd p)\<lparr>pkt_len := of_nat len, data_len := len\<rparr> # tl p"
  obtain p2 s2 where v: "lazybsd_add_vlan_tag ?p ?s = (p2, s2)" by force
  have addrs: "map addr p2 = map addr p" and "balanced ?s s2 {#} {#} \<and> same_tx ?s s2"
    using add_vlan_ledger [OF v] assms(4) by (cases p; auto simp: balanced_def)+
  then have "ledger P ?s (send_single_packet E p2 port s2) (mset (map addr p))"
    using ledger_trans [OF ledger_path send_single_ledger [OF assms(1-3), of s2 p2]] by fastforce
  from go [OF this] have answer: "ledger P s (send_single_packet E p2 port s2) (mset (map addr p))" by simp
  have "ledger P ?s (emit [Free_pkt p] ?s) (mset (map addr p))"
    by (rule ledger_path) (simp add: balanced_def same_tx_def path_simps)
  from go [OF this] have freed: "ledger P s (emit [Free_pkt p] ?s) (mset (map addr p))" by simp
  have "ledger P ?s (dispatch_enqueue E port j p ?s) (mset (map addr p))" for j
    unfolding dispatch_enqueue_def by (rule ledger_path, rule ring_enqueue_ledger) simp_all
  from go [OF this] have other: "ledger P s (dispatch_enqueue E port j p ?s) (mset (map addr p))" for j by simp
  show ?thesis
    using assms(5) Some f v answer freed other mem
    by (auto simp: process_dispatch_def Let_def split: if_splits)
qed

lemma process_packet_ledger:
  assumes "burst_law E" "finite P" "port \<in> P" "p \<noteq> []"
    and "process_packet E C ctx port queue from_ring p s = Inr s'"
  shows "\<exists>tw. twice_ok E p tw \<and> ledger P s s' (mset (map addr p) + tw)"
proof -
  define s1 where "s1 = (if from_ring then s
      else s\<lparr>rx_packets := rx_packets s + of_nat (nb_segs (hd p)), rx_bytes := rx_bytes s + ucast (pkt_len (hd p))\<rparr>)"
  have "ledger P s s1 {#}"
    by (rule ledger_path) (simp add: s1_def balanced_def same_tx_def given_def taken_def bsd_freed_def)
  note first = ledger_trans [OF this]
  define d where "d = (if from_ring then Inr (Go_on (data_len (hd p)) s1) else process_dispatch E C port queue p s1)"
  from assms(5) obtain d' where d': "d = Inr d'"
    by (auto simp: process_packet_def Let_def s1_def [symmetric] d_def [symmetric] split: sum.splits)
  then have l: "case d' of Done s' \<Rightarrow> ledger P s1 s' (mset (map addr p)) | Go_on len s' \<Rightarrow> ledger P s1 s' {#}"
    using process_dispatch_ledger [OF assms(1-4)] by (auto simp: d_def ledger_refl split: if_splits)
  show ?thesis
  proof (cases d')
    case (Done s2)
    then show ?thesis
      using assms(5) d' l first [of s2 "mset (map addr p)"]
      by (intro exI [of _ "{#}"]) (simp add: process_packet_def Let_def s1_def [symmetric] d_def [symmetric])
  next
    case (Go_on len s2)
    then obtain v where "s' = process_filtered E C ctx port queue from_ring v p s2"
      using assms(5) d'
      by (auto simp: process_packet_def Let_def s1_def [symmetric] d_def [symmetric] split: option.splits)
    then obtain tw where tw: "twice_ok E p tw" "ledger P s2 s' (mset (map addr p) + tw)"
      using process_filtered_ledger [OF assms(4)] ledger_path by metis
    have "ledger P s s2 {#}" using l Go_on first [of s2] by simp
    from ledger_trans [OF this tw(2)] tw(1) show ?thesis by auto
  qed
qed

text \<open>The buffers \<open>ps\<close> came in, and those given back a second time: at most the buffers of the packets of several
  segments, each once, and none as long as the stack has mbufs.\<close>

definition rx_ledger :: "env \<Rightarrow> nat set \<Rightarrow> lcore \<Rightarrow> lcore \<Rightarrow> packet list \<Rightarrow> bool" where
  "rx_ledger E P s s' ps \<longleftrightarrow>
     (\<exists>tw. ledger P s s' (segs_sum ps + tw) \<and> tw \<subseteq># segs_sum (filter (\<lambda>p. 1 < length p) ps) \<and>
       ((\<forall>t. m_get_ok E t) \<longrightarrow> tw = {#}))"

lemma rx_ledger_plain: "ledger P s s' (segs_sum ps) \<Longrightarrow> rx_ledger E P s s' ps"
  unfolding rx_ledger_def by (intro exI [of _ "{#}"]) simp

lemma rx_ledger_refl: "rx_ledger E P s s []"
  by (simp add: rx_ledger_plain ledger_refl)

lemma rx_ledger_trans:
  assumes "rx_ledger E P s s' ps" and "rx_ledger E P s' s'' qs"
  shows "rx_ledger E P s s'' (ps @ qs)"
proof -
  obtain a b where
    a: "ledger P s s' (segs_sum ps + a)" "a \<subseteq># segs_sum (filter (\<lambda>p. 1 < length p) ps)" "(\<forall>t. m_get_ok E t) \<longrightarrow> a = {#}" and
    b: "ledger P s' s'' (segs_sum qs + b)" "b \<subseteq># segs_sum (filter (\<lambda>p. 1 < length p) qs)" "(\<forall>t. m_get_ok E t) \<longrightarrow> b = {#}"
    using assms unfolding rx_ledger_def by blast
  show ?thesis
    unfolding rx_ledger_def
    using ledger_trans [OF a(1) b(1)] subset_mset.add_mono [OF a(2) b(2)] a(3) b(3)
    by (intro exI [of _ "a + b"]) (simp add: ac_simps)
qed

lemma process_packets_ledger:
  assumes "burst_law E" "finite P" "port \<in> P" and "[] \<notin> set ps"
    and "process_packets E C ctx port queue from_ring ps s = Inr s'"
  shows "rx_ledger E P s s' ps"
  using assms(4,5)
proof (induction ps arbitrary: s)
  case Nil
  then show ?case by (simp add: rx_ledger_refl)
next
  case (Cons p ps)
  obtain s1 where s1: "process_packet E C ctx port queue from_ring p s = Inr s1"
    "process_packets E C ctx port queue from_ring ps s1 = Inr s'"
    using Cons.prems(2) by (auto split: sum.splits)
  have "p \<noteq> []" using Cons.prems(1) by auto
  from process_packet_ledger [OF assms(1-3) this s1(1)]
  have "rx_ledger E P s s1 [p]" by (auto simp: rx_ledger_def twice_ok_def)
  moreover have "rx_ledger E P s1 s' ps" using Cons.IH [OF _ s1(2)] Cons.prems(1) by simp
  ultimately show ?case using rx_ledger_trans by fastforce
qed

section \<open>The exception path\<close>

lemma sum_list_Free_pkt [path_simps]:
  "sum_list (map (event_given \<circ> Free_pkt) ps) = segs_sum ps"
  "sum_list (map (event_taken \<circ> Free_pkt) ps) = {#}"
  "sum_list (map (event_bsd \<circ> Free_pkt) ps) = {#}"
  by (induction ps) auto

lemma segs_sum_split: "segs_sum (take n ps) + segs_sum (drop n ps) = segs_sum ps"
  by (metis append_take_drop_id map_append sum_list_append)

lemma kni_process_tx_ledger:
  assumes "burst_law E"
  shows "ledger P s (snd (kni_process_tx E kp ps st s)) (segs_sum ps)"
proof (rule ledger_path)
  let ?r = "rte_eth_tx_burst E (calls s) kp ps"
  have "?r \<le> length ps" using assms by (simp add: burst_law_def)
  then show "balanced s (snd (kni_process_tx E kp ps st s)) (segs_sum ps) {#} \<and>
      same_tx s (snd (kni_process_tx E kp ps st s))"
    using segs_sum_split [of ?r ps]
    by (auto simp: kni_process_tx_def Let_def balanced_def same_tx_def path_simps ac_simps)
qed

lemma kni_process_rx_ledger:
  assumes "burst_law E"
  shows "ledger P s (snd (kni_process_rx E port ps st s)) (segs_sum ps)"
proof (cases "ps = []")
  case True
  then show ?thesis by (simp add: kni_process_rx_def ledger_refl)
next
  case False
  then show ?thesis
    using kni_process_tx_ledger [OF assms, of P s port ps "\<lparr>kni_rx_packets = 0, kni_rx_dropped = 0,
        kni_tx_packets = 0, kni_tx_dropped = 0\<rparr>"]
    by (simp add: kni_process_rx_def kni_process_tx_def Let_def case_prod_beta split: if_splits)
qed

lemma kni_process_ledger:
  assumes "burst_law E"
  shows "ledger P s (snd (lazybsd_kni_process E port kp from_ring from_kni st s)) (segs_sum (from_ring @ from_kni))"
  using ledger_trans [OF kni_process_tx_ledger [OF assms] kni_process_rx_ledger [OF assms]]
  by (simp add: lazybsd_kni_process_def case_prod_beta)

section \<open>A round of the main loop\<close>

text \<open>The packets a round takes in: those of the exception path only where it is enabled.\<close>

definition round_input :: "rx_conf \<Rightarrow> rx_input \<Rightarrow> packet list" where
  "round_input C inp =
     (if LAZYBSD_KNI (fconf C) \<and> enable_kni (fconf C) \<and> proc_primary C then in_kni_ring inp @ in_kni inp else []) @
     in_dispatch inp @ in_burst inp"

lemma main_loop_queue_ledger:
  assumes "burst_law E" "finite P" "in_port inp \<in> P" and "[] \<notin> set (in_dispatch inp)" "[] \<notin> set (in_burst inp)"
    and "main_loop_queue E C ctx kp inp L = Inr L'"
  shows "rx_ledger E P (core L) (core L') (round_input C inp)"
proof -
  define L1 where "L1 = (if LAZYBSD_KNI (fconf C) \<and> enable_kni (fconf C) \<and> proc_primary C
      then case lazybsd_kni_process E (in_port inp) (kp (in_port inp)) (in_kni_ring inp) (in_kni inp)
                  (kni_stat L (in_port inp)) (core L) of
             (st, s) \<Rightarrow> L\<lparr>kni_stat := (kni_stat L)(in_port inp := st), core := s\<rparr>
      else L)"
  let ?kni = "if LAZYBSD_KNI (fconf C) \<and> enable_kni (fconf C) \<and> proc_primary C then in_kni_ring inp @ in_kni inp else []"
  have kni: "rx_ledger E P (core L) (core L1) ?kni"
    using kni_process_ledger [OF assms(1)] by (intro rx_ledger_plain) (simp add: L1_def ledger_refl case_prod_beta)
  define d where "d = process_dispatch_ring E C (ctx (in_port inp)) (in_port inp) (in_queue inp) (in_dispatch inp) (core L1)"
  obtain n s2 where d: "d = Inr (n, s2)"
    using assms(6) by (auto simp: main_loop_queue_def Let_def L1_def [symmetric] d_def [symmetric] split: sum.splits)
  have disp: "rx_ledger E P (core L1) s2 (in_dispatch inp)"
    using d process_packets_ledger [OF assms(1-4)]
    by (auto simp: d_def process_dispatch_ring_def rx_ledger_refl split: if_splits sum.splits)
  have "rx_ledger E P s2 (core L') (in_burst inp)"
    using assms(6) d process_packets_ledger [OF assms(1-3,5)]
    by (auto simp: main_loop_queue_def Let_def L1_def [symmetric] d_def [symmetric] rx_ledger_refl
        split: if_splits sum.splits)
  from rx_ledger_trans [OF rx_ledger_trans [OF kni disp] this] show ?thesis
    by (simp add: round_input_def)
qed

lemma main_loop_rx_ledger:
  assumes "burst_law E" "finite P"
    and "\<forall>inp\<in>set inps. in_port inp \<in> P \<and> [] \<notin> set (in_dispatch inp @ in_burst inp)"
    and "main_loop_rx E C ctx kp inps L = Inr L'"
  shows "rx_ledger E P (core L) (core L') (concat (map (round_input C) inps))"
  using assms(3,4)
proof (induction inps arbitrary: L)
  case Nil
  then show ?case by (simp add: rx_ledger_refl)
next
  case (Cons inp inps)
  obtain L1 where L1: "main_loop_queue E C ctx kp inp L = Inr L1" "main_loop_rx E C ctx kp inps L1 = Inr L'"
    using Cons.prems(2) by (auto split: sum.splits)
  have "rx_ledger E P (core L) (core L1) (round_input C inp)"
    using Cons.prems(1) by (intro main_loop_queue_ledger [OF assms(1,2) _ _ _ L1(1)]) auto
  moreover have "rx_ledger E P (core L1) (core L') (concat (map (round_input C) inps))"
    using Cons.prems(1) by (intro Cons.IH [OF _ L1(2)]) auto
  ultimately show ?case using rx_ledger_trans by fastforce
qed

text \<open>A round of the main loop accounts for every packet buffer.  For any answers of the card, the rings
  and the pools, any dispatcher and any number of receive queues: the buffers given away (freed, sent,
  queued for another core, handed to the exception path or to the stack) and those waiting for transmission
  after the round are those given away or waiting before, those received in the round and those
  allocated for copies, each exactly once; a buffer of a packet of several segments may be given away once more when the
  stack runs out of mbufs.\<close>

theorem main_loop_conserves:
  assumes "burst_law E" and "finite P" and "set tx_ports \<subseteq> P"
    and "\<forall>inp\<in>set inps. in_port inp \<in> P \<and> [] \<notin> set (in_dispatch inp @ in_burst inp)"
    and "main_loop_packets E C ctx kp tx_ports drain_tsc cur_tsc inps L = Inr L'"
  shows "rx_ledger E P (core L) (core L') (concat (map (round_input C) inps))"
proof -
  define L1 where "L1 = (if cur_tsc - prev_tsc L \<ge> drain_tsc
      then L\<lparr>idle := (\<forall>p \<in> set tx_ports. tx_len (tx_mbufs (core L) p) = 0),
             core := tx_drain E tx_ports (core L), prev_tsc := cur_tsc\<rparr>
      else L\<lparr>idle := True\<rparr>)"
  have "main_loop_rx E C ctx kp inps L1 = Inr L'"
    using assms(5) by (simp add: main_loop_packets_def Let_def L1_def split: if_splits)
  note rx = main_loop_rx_ledger [OF assms(1,2,4) this]
  have "rx_ledger E P (core L) (core L1) []"
    using tx_drain_ledger [OF assms(1-3)] by (intro rx_ledger_plain) (simp add: L1_def ledger_refl)
  from rx_ledger_trans [OF this rx] show ?thesis by simp
qed

text \<open>A build without IPv6 and without the exception path never looks into a packet as far as the IP in IP headers, and a
  dispatcher that answers -2, -1 or a queue never names a ring before the first: such a round always comes to its end.\<close>

definition calm :: "env \<Rightarrow> rx_conf \<Rightarrow> bool" where
  "calm E C \<longleftrightarrow> \<not> INET6 (fconf C) \<and> \<not> (LAZYBSD_KNI (fconf C) \<and> enable_kni (fconf C)) \<and>
     (case packet_dispatcher E of None \<Rightarrow> True | Some f \<Rightarrow> \<forall>m d l q n. -2 \<le> fst (f m d l q n))"

lemma calm_filter: "calm E C \<Longrightarrow> \<exists>v. protocol_filter (fconf C) m data len = Some v"
  by (simp add: calm_def protocol_filter_def Let_def)

lemma calm_dispatch: "calm E C \<Longrightarrow> \<exists>d. process_dispatch E C port queue p s = Inr d"
proof (cases "packet_dispatcher E")
  case (Some f)
  assume "calm E C"
  then have "-2 \<le> fst (f m d l q n)" for m d l q n using Some by (simp add: calm_def)
  from this [of "memory s" "rte_pktmbuf_mtod (hd p)" "data_len (hd p)" queue "nb_queue_list C port"] show ?thesis
    using Some by (auto simp: process_dispatch_def Let_def split: prod.splits)
qed (simp add: process_dispatch_def)

lemma calm_packet:
  assumes "calm E C"
  shows "\<exists>s'. process_packet E C ctx port queue from_ring p s = Inr s'"
proof -
  define s1 where "s1 = (if from_ring then s
      else s\<lparr>rx_packets := rx_packets s + of_nat (nb_segs (hd p)), rx_bytes := rx_bytes s + ucast (pkt_len (hd p))\<rparr>)"
  obtain d where d: "(if from_ring then Inr (Go_on (data_len (hd p)) s1) else process_dispatch E C port queue p s1) = Inr d"
    using calm_dispatch [OF assms, of port queue p s1] by (cases from_ring) auto
  show ?thesis
    unfolding process_packet_def Let_def s1_def [symmetric] d using calm_filter [OF assms]
    by (cases d) (force split: option.splits)+
qed

lemma calm_packets:
  assumes "calm E C"
  shows "\<exists>s'. process_packets E C ctx port queue from_ring ps s = Inr s'"
proof (induction ps arbitrary: s)
  case (Cons p ps)
  obtain s1 where "process_packet E C ctx port queue from_ring p s = Inr s1" using calm_packet [OF assms] by blast
  then show ?case using Cons.IH [of s1] by simp
qed simp

lemma calm_queue:
  assumes "calm E C"
  shows "\<exists>L'. main_loop_queue E C ctx kp inp L = Inr L'"
proof -
  have ring: "\<exists>n s'. process_dispatch_ring E C c port queue ps s = Inr (n, s')" for c port queue ps s
    using calm_packets [OF assms, of c port queue True ps s] by (auto simp: process_dispatch_ring_def)
  have "\<not> (LAZYBSD_KNI (fconf C) \<and> enable_kni (fconf C) \<and> proc_primary C)" using assms by (auto simp: calm_def)
  then have kni: "(if LAZYBSD_KNI (fconf C) \<and> enable_kni (fconf C) \<and> proc_primary C then K else L) = L" for K
    by (rule if_not_P)
  obtain n s1 where r: "process_dispatch_ring E C (ctx (in_port inp)) (in_port inp) (in_queue inp) (in_dispatch inp) (core L) = Inr (n, s1)"
    using ring by blast
  obtain s2 where "process_packets E C (ctx (in_port inp)) (in_port inp) (in_queue inp) False (in_burst inp) s1 = Inr s2"
    using calm_packets [OF assms] by blast
  then show ?thesis unfolding main_loop_queue_def Let_def kni r by simp
qed

lemma calm_rx:
  assumes "calm E C"
  shows "\<exists>L'. main_loop_rx E C ctx kp inps L = Inr L'"
proof (induction inps arbitrary: L)
  case (Cons inp inps)
  obtain L1 where "main_loop_queue E C ctx kp inp L = Inr L1" using calm_queue [OF assms] by blast
  then show ?case using Cons.IH [of L1] by simp
qed simp

lemma main_loop_packets_returns:
  "calm E C \<Longrightarrow> \<exists>L'. main_loop_packets E C ctx kp ports drain cur inps L = Inr L'"
  unfolding main_loop_packets_def Let_def by (rule calm_rx)

definition example_rx_conf :: rx_conf where
  "example_rx_conf = \<lparr>fconf = \<lparr>INET6 = False, LAZYBSD_KNI = False, enable_kni = False, tcp_port_bitmap = (\<lambda>_. 0),
     udp_port_bitmap = (\<lambda>_. 0)\<rparr>, kni_accept = False, knictl_action = ACTION_DEFAULT, proc_primary = True,
     nb_queue_list = (\<lambda>_. 1), numa_on = False, socket_id = 0, queue_socket = (\<lambda>_ _. 0)\<rparr>"

definition example_input :: rx_input where
  "example_input = \<lparr>in_port = 0, in_queue = 0, in_kni_ring = [], in_kni = [], in_dispatch = [],
     in_burst = [[example_mbuf]]\<rparr>"

definition example_loop :: loop_state where
  "example_loop = \<lparr>idle = True, prev_tsc = 0,
     kni_stat = (\<lambda>_. \<lparr>kni_rx_packets = 0, kni_rx_dropped = 0, kni_tx_packets = 0, kni_tx_dropped = 0\<rparr>),
     core = example_lcore\<rparr>"

lemma example_round:
  "\<exists>L'. main_loop_packets example_env example_rx_conf (\<lambda>_. example_ctx) (\<lambda>_. 1) [0] 100 50 [example_input]
     example_loop = Inr L'"
  by (simp add: main_loop_packets_def main_loop_queue_def process_dispatch_ring_def process_packet_def Let_def
      process_dispatch_def example_env_def example_rx_conf_def example_input_def example_loop_def
      protocol_filter_def be16_def example_lcore_def)

theorem main_loop_conserves_witness:
  "\<exists>L'. main_loop_packets example_env example_rx_conf (\<lambda>_. example_ctx) (\<lambda>_. 1) [0] 100 50 [example_input]
       example_loop = Inr L' \<and>
     rx_ledger example_env {0} example_lcore (core L') (concat (map (round_input example_rx_conf) [example_input]))"
proof -
  obtain L' where L': "main_loop_packets example_env example_rx_conf (\<lambda>_. example_ctx) (\<lambda>_. 1) [0] 100 50
      [example_input] example_loop = Inr L'" using example_round by blast
  have c: "core example_loop = example_lcore" by (simp add: example_loop_def)
  have "\<forall>inp\<in>set [example_input]. in_port inp \<in> {0} \<and> [] \<notin> set (in_dispatch inp @ in_burst inp)"
    by (simp add: example_input_def)
  from main_loop_conserves [OF example_laws(1) _ _ this L'] L' show ?thesis
    unfolding c by (intro exI [of _ L']) simp
qed

text \<open>When the stack runs out of mbufs in the middle of a packet, \<open>lazybsd_veth_input\<close> gives buffers back
  twice: it frees the chain built so far, which releases the head and every attached segment, and
  then the packet itself, whose head is released a second time.\<close>

theorem veth_input_double_free:
  assumes "pkt \<noteq> []" and "m_gethdr_ok E (calls s)" and "\<not> rx_csum ctx"
    and "\<not> fst (snd (veth_attach E (tl pkt) (tick_calls s)))"
  shows "count (given (lazybsd_veth_input E ctx pkt s)) (addr (hd pkt)) \<ge> count (given s) (addr (hd pkt)) + 2"
proof -
  obtain k ok s' where a: "veth_attach E (tl pkt) (tick_calls s) = (k, ok, s')" by (metis prod_cases3)
  have segs: "sum_list (map (event_given \<circ> (\<lambda>m. Free_seg (addr m))) p) = mset (map addr p)" for p
    by (induction p) auto
  obtain h t where pkt: "pkt = h # t" using assms(1) by (cases pkt) auto
  show ?thesis
    using assms a veth_attach_frame [OF a]
    by (simp add: lazybsd_veth_input_def lazybsd_mbuf_gethdr_def path_simps segs pkt)
qed

theorem veth_input_double_free_witness:
  "count (given (lazybsd_veth_input (example_env\<lparr>m_get_ok := (\<lambda>_. False)\<rparr>) example_ctx
     [example_mbuf, example_mbuf\<lparr>addr := 501\<rparr>] example_lcore)) 500 \<ge> 2"
  using veth_input_double_free [of "[example_mbuf, example_mbuf\<lparr>addr := 501\<rparr>]"
      "example_env\<lparr>m_get_ok := (\<lambda>_. False)\<rparr>" example_lcore example_ctx]
  by (simp add: example_env_def example_ctx_def example_mbuf_def lazybsd_mbuf_get_def given_def example_lcore_def)

section \<open>The VLAN header\<close>

lemma add_vlan_bytes_at:
  "i < 12 \<Longrightarrow> add_vlan_bytes d tci m (d + i) = m (d + 4 + i)"
  "d + 16 \<le> a \<Longrightarrow> add_vlan_bytes d tci m a = m a"
  by (auto simp: add_vlan_bytes_def Let_def store16_be_def bcopy_def add.commute [of d])

lemma be16_store: "push_bit 8 (ucast (ucast (drop_bit 8 v) :: u8)) OR ucast (ucast v :: u8) = (v :: u16)"
  by (rule bit_word_eqI) (auto simp: bit_or_iff bit_push_bit_iff bit_ucast_iff bit_drop_bit_eq)

lemma add_vlan_bytes_be16:
  "be16 (add_vlan_bytes d tci m) (d + 12) = RTE_ETHER_TYPE_VLAN" "be16 (add_vlan_bytes d tci m) (d + 14) = tci"
  "be16 (add_vlan_bytes d tci m) (d + 16) = be16 m (d + 16)"
  using be16_store [of RTE_ETHER_TYPE_VLAN] be16_store [of tci] add_vlan_bytes_at(2) [of d "d + 16" tci m]
    add_vlan_bytes_at(2) [of d "d + 17" tci m]
  by (simp_all add: be16_def) (simp_all add: add_vlan_bytes_def Let_def store16_be_def add.commute [of d])

text \<open>The verdict once the type and the payload are known.\<close>

definition filter_typed :: "filter_conf \<Rightarrow> mem \<Rightarrow> u16 \<Rightarrow> nat \<Rightarrow> nat \<Rightarrow> FilterReturn option" where
  "filter_typed C m ty data len =
     (if ty = RTE_ETHER_TYPE_ARP then Some FILTER_ARP
      else if INET6 C \<and> ty = RTE_ETHER_TYPE_IPV6 then protocol_filter_ip C m data len ty
      else if \<not> LAZYBSD_KNI C \<or> \<not> enable_kni C then Some FILTER_UNKNOWN
      else if ty \<noteq> RTE_ETHER_TYPE_IPV4 then Some FILTER_UNKNOWN
      else protocol_filter_ip C m data len ty)"

lemma filter_untagged:
  "be16 m (d + 12) \<noteq> RTE_ETHER_TYPE_VLAN \<Longrightarrow> 14 \<le> len \<Longrightarrow> len < 65536 \<Longrightarrow>
    protocol_filter C m d len = filter_typed C m (be16 m (d + 12)) (d + 14) (len - 14)"
  by (simp add: protocol_filter_def filter_typed_def Let_def u16_sub_le lazybsd_kni_proto_filter_def)

lemma filter_tagged:
  "be16 m (d + 12) = RTE_ETHER_TYPE_VLAN \<Longrightarrow> 18 \<le> len \<Longrightarrow> len < 65536 \<Longrightarrow>
    protocol_filter C m d len = filter_typed C m (be16 m (d + 16)) (d + 18) (len - 18)"
  by (simp add: protocol_filter_def filter_typed_def Let_def u16_sub_le lazybsd_kni_proto_filter_def
      add.commute [of d])

lemma filter_typed_local: "same_bytes m m' data len \<Longrightarrow> filter_typed C m ty data len = filter_typed C m' ty data len"
  using filter_ip_local by (simp add: filter_typed_def)

text \<open>Tagging a packet puts the stripped VLAN header back and changes nothing else.  For a packet whose tag
  the card stripped and that has room in front: afterwards the addresses stand where the
  frame now begins, followed by the type of a tagged frame, the tag, and the rest of the old frame from its
  type on; and the classifier gives the tagged frame the verdict it gave the untagged one.\<close>

theorem vlan_tag_restored:
  assumes "lazybsd_add_vlan_tag (h # t) s = (h' # t', s')" and "RX_VLAN_STRIPPED \<in> ol_flags h" and "4 \<le> data_off h"
    and "14 \<le> data_len h" and "data_len h + 4 < 65536"
    and "be16 (memory s) (rte_pktmbuf_mtod h + 12) \<noteq> RTE_ETHER_TYPE_VLAN"
  shows "rte_pktmbuf_mtod h' + 4 = rte_pktmbuf_mtod h \<and> data_len h' = data_len h + 4 \<and>
    (\<forall>i<12. memory s' (rte_pktmbuf_mtod h' + i) = memory s (rte_pktmbuf_mtod h + i)) \<and>
    be16 (memory s') (rte_pktmbuf_mtod h' + 12) = RTE_ETHER_TYPE_VLAN \<and>
    be16 (memory s') (rte_pktmbuf_mtod h' + 14) = vlan_tci h \<and>
    (\<forall>i\<ge>12. memory s' (rte_pktmbuf_mtod h + i) = memory s (rte_pktmbuf_mtod h + i)) \<and>
    protocol_filter C (memory s') (rte_pktmbuf_mtod h') (data_len h') =
      protocol_filter C (memory s) (rte_pktmbuf_mtod h) (data_len h)"
proof -
  define d where "d = rte_pktmbuf_mtod h'"
  have h': "h' = h\<lparr>data_off := data_off h - 4, data_len := data_len h + 4, pkt_len := pkt_len h + 4\<rparr>"
    and m': "memory s' = add_vlan_bytes d (vlan_tci h) (memory s)"
    using assms(1-3,5) by (auto simp: lazybsd_add_vlan_tag_def Let_def d_def)
  have d: "rte_pktmbuf_mtod h = d + 4"
    using assms(3) by (simp add: d_def h' rte_pktmbuf_mtod_def)
  have tail: "same_bytes (memory s') (memory s) (d + 18) (data_len h - 14)"
    unfolding m' same_bytes_def by (simp add: add_vlan_bytes_at(2))
  have "protocol_filter C (memory s') d (data_len h + 4) = protocol_filter C (memory s) (d + 4) (data_len h)"
    using assms(4-6) filter_tagged [of "memory s'" d "data_len h + 4" C] filter_untagged [of "memory s" "d + 4" "data_len h" C]
      filter_typed_local [OF tail, of C "be16 (memory s) (d + 16)"]
    by (simp add: m' [symmetric] d add_vlan_bytes_be16 [of d "vlan_tci h" "memory s", folded m'])
      (simp add: add.commute [of d])
  moreover have len: "data_len h' = data_len h + 4" by (simp add: h')
  ultimately show ?thesis
    unfolding d d_def [symmetric] len m'
    by (simp add: add_vlan_bytes_be16 add_vlan_bytes_at)
qed

theorem vlan_tag_restored_witness:
  "let h = example_mbuf\<lparr>ol_flags := {RX_VLAN_STRIPPED}, data_off := 128, vlan_tci := 7\<rparr>;
       (p, s) = lazybsd_add_vlan_tag [h] example_lcore
   in be16 (memory s) (rte_pktmbuf_mtod (hd p) + 14) = 7"
proof -
  define h where "h = example_mbuf\<lparr>ol_flags := {RX_VLAN_STRIPPED}, data_off := 128, vlan_tci := 7\<rparr>"
  obtain h' t' s' where t: "lazybsd_add_vlan_tag [h] example_lcore = (h' # t', s')"
    by (simp add: lazybsd_add_vlan_tag_def Let_def split: if_splits) (metis list.distinct(1))
  have "be16 (memory s') (rte_pktmbuf_mtod h' + 14) = vlan_tci h"
    using vlan_tag_restored [OF t] by (simp add: h_def example_mbuf_def be16_def example_lcore_def)
  then show ?thesis
    using t by (simp add: h_def [symmetric] Let_def) (simp add: h_def)
qed

end
