(* ===== verification/LB_Rss.thy ===== *)
theory LB_Rss
  imports LB_Filter
begin

text \<open>
  Receive side scaling: the Toeplitz hash of \<^verbatim>\<open>src/lazybsd_dpdk.cc\<close> and \<open>lazybsd_rss_check\<close>, by which the
  stack chooses a local port such that the answers arrive at its own queue.
\<close>

section \<open>The hash\<close>

text \<open>One round of the inner loop: \<open>hash\<close> and the window \<open>v\<close> onto the key.\<close>

definition toeplitz_bit ::
    "nat \<Rightarrow> (nat \<Rightarrow> u8) \<Rightarrow> (nat \<Rightarrow> u8) \<Rightarrow> nat \<Rightarrow> nat \<Rightarrow> u32 \<times> u32 \<Rightarrow> u32 \<times> u32" where
  "toeplitz_bit keylen key data i b hv =
     (let (hash, v) = hv;
          hash = (if data i AND push_bit (7 - b) 1 \<noteq> 0 then hash XOR v else hash);
          v = push_bit 1 v;
          v = (if i + 4 < keylen \<and> key (i + 4) AND push_bit (7 - b) 1 \<noteq> 0 then v OR 1 else v)
      in (hash, v))"

definition toeplitz_hash :: "nat \<Rightarrow> (nat \<Rightarrow> u8) \<Rightarrow> nat \<Rightarrow> (nat \<Rightarrow> u8) \<Rightarrow> u32" where
  "toeplitz_hash keylen key datalen data =
     (let v = push_bit 24 (ucast (key 0)) + push_bit 16 (ucast (key 1)) + push_bit 8 (ucast (key 2)) + ucast (key 3)
      in fst (fold (\<lambda>i. fold (toeplitz_bit keylen key data i) [0..<8]) [0..<datalen] (0, v)))"

section \<open>The check\<close>

text \<open>The bytes of an integer as the host stores it.\<close>

definition bytes32 :: "u32 \<Rightarrow> u8 list" where
  "bytes32 w = [ucast w, ucast (drop_bit 8 w), ucast (drop_bit 16 w), ucast (drop_bit 24 w)]"

definition bytes16 :: "u16 \<Rightarrow> u8 list" where
  "bytes16 w = [ucast w, ucast (drop_bit 8 w)]"

definition rss_data :: "u32 \<Rightarrow> u32 \<Rightarrow> u16 \<Rightarrow> u16 \<Rightarrow> u8 list" where
  "rss_data saddr daddr sport dport = bytes32 saddr @ bytes32 daddr @ bytes16 sport @ bytes16 dport"

record rss_conf =
  nb_queues :: nat
  rss_reta_size :: u16
  tx_queue_id :: nat
  rsskey_len :: nat
  rsskey :: "nat \<Rightarrow> u8"

text \<open>\<open>reta_size - 1\<close> is an \<open>int\<close>, -1 for a size of 0.\<close>

definition lazybsd_rss_check :: "rss_conf \<Rightarrow> u32 \<Rightarrow> u32 \<Rightarrow> u16 \<Rightarrow> u16 \<Rightarrow> bool" where
  "lazybsd_rss_check R saddr daddr sport dport \<longleftrightarrow>
     (if nb_queues R \<le> 1 then True
      else
        let data = rss_data saddr daddr sport dport;
            hash = toeplitz_hash (rsskey_len R) (rsskey R) (length data) (\<lambda>i. data ! i)
        in unat (hash AND (ucast (rss_reta_size R) - 1)) mod nb_queues R = tx_queue_id R)"

section \<open>The card's table and the keys\<close>

text \<open>The groups of 64 entries \<open>set_rss_table\<close> hands to the card; \<open>None\<close> when there is no table.\<close>

definition set_rss_table :: "nat \<Rightarrow> nat \<Rightarrow> nat list list option" where
  "set_rss_table reta_size nb =
     (if reta_size = 0 then None
      else let reta_conf_size = max 1 (reta_size div 64)
           in Some (map (\<lambda>i. map (\<lambda>j. (64 * i + j) mod nb) [0..<64]) [0..<reta_conf_size]))"

definition symmetric_rsskey :: "u8 list" where
  "symmetric_rsskey = concat (replicate 26 [0x6d, 0x5a])"

section \<open>The hash as a matrix product\<close>

text \<open>The bits of the key and of the input, most significant first.\<close>

definition kbit :: "nat \<Rightarrow> (nat \<Rightarrow> u8) \<Rightarrow> nat \<Rightarrow> bool" where
  "kbit keylen key n \<longleftrightarrow> n div 8 < keylen \<and> bit (key (n div 8)) (7 - n mod 8)"

definition dbit :: "(nat \<Rightarrow> u8) \<Rightarrow> nat \<Rightarrow> bool" where
  "dbit data n \<longleftrightarrow> bit (data (n div 8)) (7 - n mod 8)"

definition window :: "nat \<Rightarrow> (nat \<Rightarrow> u8) \<Rightarrow> nat \<Rightarrow> u32 \<Rightarrow> bool" where
  "window keylen key n v \<longleftrightarrow> (\<forall>j<32. bit v (31 - j) \<longleftrightarrow> kbit keylen key (n + j))"

text \<open>The two loops as one over the bits.\<close>

lemma fold_bits:
  "fold (\<lambda>i. fold (f i) [0..<8]) [0..<n] st = fold (\<lambda>k. f (k div 8) (k mod 8)) [0..<8 * n] st"
proof (induction n)
  case (Suc n)
  have "[0..<8 * Suc n] = [0..<8 * n] @ [8 * n..<8 * n + 8]"
    by (metis add.commute le_add1 mult_Suc_right plus_nat.add_0 upt_add_eq_append add_0)
  moreover have "[8 * n..<8 * n + 8] = map (\<lambda>b. 8 * n + b) [0..<8]"
    by (simp add: map_add_upt add.commute)
  moreover have "fold (\<lambda>k. f (k div 8) (k mod 8)) (map (\<lambda>b. 8 * n + b) [0..<8]) st = fold (f n) [0..<8] st" for st
    unfolding fold_map by (rule fold_cong) (auto simp: comp_def)
  ultimately show ?case using Suc by simp
qed simp

lemma and_bit: "(w :: u8) AND push_bit k 1 \<noteq> 0 \<longleftrightarrow> bit w k"
  by (simp add: and_exp_eq_0_iff_not_bit push_bit_eq_mult)

lemma toeplitz_bit_simp:
  "toeplitz_bit keylen key data (n div 8) (n mod 8) (hash, v) =
     (if dbit data n then hash XOR v else hash,
      push_bit 1 v OR (if kbit keylen key (n + 32) then 1 else 0))"
proof -
  have "(n + 32) div 8 = n div 8 + 4" "(n + 32) mod 8 = n mod 8"
    using mod_mult_self2 [of n 8 4] by simp_all
  then show ?thesis
    unfolding toeplitz_bit_def and_bit dbit_def kbit_def by (simp add: Let_def)
qed

lemma window_shift:
  assumes "window keylen key n v"
  shows "window keylen key (Suc n) (push_bit 1 v OR (if kbit keylen key (n + 32) then 1 else 0))"
  unfolding window_def
proof (intro allI impI)
  fix j :: nat
  assume j: "j < 32"
  show "bit (push_bit 1 v OR (if kbit keylen key (n + 32) then 1 else 0)) (31 - j) = kbit keylen key (Suc n + j)"
  proof (cases "j = 31")
    case True
    then show ?thesis by (simp add: bit_or_iff bit_push_bit_iff bit_1_iff add.commute [of n] del: push_bit_Suc push_bit_of_1)
  next
    case False
    then have j': "31 - j = Suc (31 - Suc j)" "Suc j < 32" using j by auto
    then have "bit v (31 - Suc j) \<longleftrightarrow> kbit keylen key (n + Suc j)"
      using assms unfolding window_def by blast
    moreover have "\<not> bit (if c then 1 else 0 :: u32) (Suc m)" for c m
      by (simp add: bit_1_iff)
    moreover have "30 - j < (31 :: nat)" by arith
    ultimately show ?thesis
      unfolding bit_or_iff bit_push_bit_iff j'(1) by simp
  qed
qed

lemma window_init:
  assumes "4 \<le> keylen"
  shows "window keylen key 0
    (push_bit 24 (ucast (key 0)) + push_bit 16 (ucast (key 1)) + push_bit 8 (ucast (key 2)) + ucast (key 3))"
proof -
  let ?a = "push_bit 24 (ucast (key 0)) :: u32" and ?b = "push_bit 16 (ucast (key 1)) :: u32"
    and ?c = "push_bit 8 (ucast (key 2)) :: u32" and ?d = "ucast (key 3) :: u32"
  have b: "bit ?a n \<longleftrightarrow> 24 \<le> n \<and> n < 32 \<and> bit (key 0) (n - 24)" "bit ?b n \<longleftrightarrow> 16 \<le> n \<and> n < 24 \<and> bit (key 1) (n - 16)"
    "bit ?c n \<longleftrightarrow> 8 \<le> n \<and> n < 16 \<and> bit (key 2) (n - 8)" "bit ?d n \<longleftrightarrow> n < 8 \<and> bit (key 3) n" for n
    using bit_imp_le_length [of "key 0" "n - 24"] bit_imp_le_length [of "key 1" "n - 16"]
      bit_imp_le_length [of "key 2" "n - 8"] bit_imp_le_length [of "key 3" n]
    by (auto simp: bit_push_bit_iff bit_ucast_iff)
  have "?a + ?b = ?a OR ?b" "(?a OR ?b) + ?c = (?a OR ?b) OR ?c"
    "((?a OR ?b) OR ?c) + ?d = ((?a OR ?b) OR ?c) OR ?d"
    by (rule disjunctive_add; auto simp: b bit_or_iff simp del: One_nat_def)+
  then have v: "?a + ?b + ?c + ?d = ((?a OR ?b) OR ?c) OR ?d" by simp
  show ?thesis
    unfolding window_def v
  proof (intro allI impI)
    fix j :: nat
    assume "j < 32"
    then consider "j < 8" | "8 \<le> j" "j < 16" | "16 \<le> j" "j < 24" | "24 \<le> j" "j < 32" by linarith
    then show "bit (((?a OR ?b) OR ?c) OR ?d) (31 - j) = kbit keylen key (0 + j)"
    proof cases
      case 1
      then show ?thesis using assms by (auto simp: bit_or_iff b kbit_def simp del: One_nat_def)
    next
      case 2
      then have q: "j div 8 = 1" by (intro div_nat_eqI) auto
      then have "7 - j mod 8 = 15 - j" by (simp add: modulo_nat_def)
      then show ?thesis using assms 2 q by (auto simp: bit_or_iff b kbit_def simp del: One_nat_def)
    next
      case 3
      then have q: "j div 8 = 2" by (intro div_nat_eqI) auto
      then have "7 - j mod 8 = 23 - j" by (simp add: modulo_nat_def)
      then show ?thesis using assms 3 q by (auto simp: bit_or_iff b kbit_def simp del: One_nat_def)
    next
      case 4
      then have q: "j div 8 = 3" by (intro div_nat_eqI) auto
      then have "7 - j mod 8 = 31 - j" by (simp add: modulo_nat_def)
      then show ?thesis using assms 4 q by (auto simp: bit_or_iff b kbit_def simp del: One_nat_def)
    qed
  qed
qed

lemma toeplitz_fold:
  assumes "window keylen key 0 v"
  shows "case fold (\<lambda>k. toeplitz_bit keylen key data (k div 8) (k mod 8)) [0..<n] (0, v) of
    (hash, v') \<Rightarrow> window keylen key n v' \<and>
      (\<forall>j<32. bit hash (31 - j) \<longleftrightarrow> odd (card {k. k < n \<and> dbit data k \<and> kbit keylen key (k + j)}))"
proof (induction n)
  case 0
  then show ?case using assms by simp
next
  case (Suc n)
  obtain hash v' where f: "fold (\<lambda>k. toeplitz_bit keylen key data (k div 8) (k mod 8)) [0..<n] (0, v) = (hash, v')"
    by force
  have w: "window keylen key n v'"
    and h: "\<And>j. j < 32 \<Longrightarrow> bit hash (31 - j) \<longleftrightarrow> odd (card {k. k < n \<and> dbit data k \<and> kbit keylen key (k + j)})"
    using Suc f by auto
  have split: "{k. k < Suc n \<and> dbit data k \<and> kbit keylen key (k + j)} =
      (if dbit data n \<and> kbit keylen key (n + j) then insert n else id) {k. k < n \<and> dbit data k \<and> kbit keylen key (k + j)}" for j
    by (auto simp: less_Suc_eq)
  have "bit (if dbit data n then hash XOR v' else hash) (31 - j) \<longleftrightarrow>
      odd (card {k. k < Suc n \<and> dbit data k \<and> kbit keylen key (k + j)})" if "j < 32" for j
    using h [OF that] w that unfolding split by (auto simp: bit_xor_iff window_def)
  then show ?case
    using f window_shift [OF w] by (simp add: toeplitz_bit_simp)
qed

lemma toeplitz_matrix:
  assumes "4 \<le> keylen" and "j < 32"
  shows "bit (toeplitz_hash keylen key datalen data) (31 - j) \<longleftrightarrow>
    odd (card {k. k < 8 * datalen \<and> dbit data k \<and> kbit keylen key (k + j)})"
  using toeplitz_fold [OF window_init [OF assms(1), of key], where data = data and n = "8 * datalen"] assms(2)
  by (simp add: toeplitz_hash_def Let_def fold_bits case_prod_beta)

section \<open>The key that makes the hash symmetric\<close>

lemma nth_pairs: "i < 2 * n \<Longrightarrow> concat (replicate n [a, b]) ! i = (if even i then a else b)"
proof (induction n arbitrary: i)
  case (Suc n)
  then show ?case
  proof (cases i)
    case (Suc k)
    then show ?thesis using Suc.IH [of "k - 1"] Suc.prems by (cases k) auto
  qed simp
qed simp

lemma symmetric_kbit:
  assumes "40 \<le> keylen" "n < 128"
  shows "kbit keylen (\<lambda>i. symmetric_rsskey ! i) (n + 16) \<longleftrightarrow> kbit keylen (\<lambda>i. symmetric_rsskey ! i) n"
proof -
  have d: "(n + 16) div 8 = n div 8 + 2" "(n + 16) mod 8 = n mod 8" by (simp, presburger)
  have k: "n div 8 < 16" using assms(2) by (simp add: less_mult_imp_div_less)
  then have "symmetric_rsskey ! (n div 8 + 2) = symmetric_rsskey ! (n div 8)"
    unfolding symmetric_rsskey_def by (subst (1 2) nth_pairs) simp_all
  then show ?thesis
    using assms(1) k unfolding kbit_def d by simp
qed

text \<open>Exchanging the two ends of a connection permutes the bytes, and the bits with them.\<close>

definition swap_ends :: "nat \<Rightarrow> nat" where
  "swap_ends i = (if i < 32 then i + 32 else if i < 64 then i - 32 else if i < 80 then i + 16 else i - 16)"

lemma swap_ends_range: "k < 96 \<Longrightarrow> swap_ends k < 96 \<and> swap_ends (swap_ends k) = k"
  by (auto simp: swap_ends_def)

lemma swap_ends_kbit:
  assumes "40 \<le> keylen" "k < 96" "j < 32"
  shows "kbit keylen (\<lambda>i. symmetric_rsskey ! i) (swap_ends k + j) \<longleftrightarrow> kbit keylen (\<lambda>i. symmetric_rsskey ! i) (k + j)"
proof -
  let ?K = "kbit keylen (\<lambda>i. symmetric_rsskey ! i)"
  have step: "?K (n + 16) = ?K n" if "n < 128" for n using symmetric_kbit [OF assms(1) that] .
  have step2: "?K (n + 32) = ?K n" if "n < 112" for n
    using step [of n] step [of "n + 16"] that by (simp add: add.assoc)
  consider "k < 32" | "32 \<le> k" "k < 64" | "64 \<le> k" "k < 80" | "80 \<le> k" by linarith
  then show ?thesis
  proof cases
    case 1
    then show ?thesis using step2 [of "k + j"] assms by (simp add: swap_ends_def ac_simps)
  next
    case 2
    then show ?thesis using step2 [of "k - 32 + j"] assms by (simp add: swap_ends_def)
  next
    case 3
    then show ?thesis using step [of "k + j"] assms by (simp add: swap_ends_def ac_simps)
  next
    case 4
    then show ?thesis using step [of "k - 16 + j"] assms by (simp add: swap_ends_def)
  qed
qed

definition swap_bytes :: "nat \<Rightarrow> nat" where
  "swap_bytes q = (if q < 4 then q + 4 else if q < 8 then q - 4 else if q < 10 then q + 2 else q - 2)"

lemma swap_ends_bytes: "r < 8 \<Longrightarrow> swap_ends (8 * q + r) = 8 * swap_bytes q + r"
  unfolding swap_ends_def swap_bytes_def by (simp split: if_split) linarith

lemma rss_data_swap:
  assumes "q < 12"
  shows "rss_data d s dp sp ! swap_bytes q = rss_data s d sp dp ! q"
proof -
  have "q = 0 \<or> q = 1 \<or> q = 2 \<or> q = 3 \<or> q = 4 \<or> q = 5 \<or> q = 6 \<or> q = 7 \<or> q = 8 \<or> q = 9 \<or> q = 10 \<or> q = 11"
    using assms by presburger
  then show ?thesis
    by (elim disjE) (simp_all add: swap_bytes_def rss_data_def bytes32_def bytes16_def)
qed

lemma swap_ends_dbit:
  assumes "k < 96"
  shows "dbit (\<lambda>i. rss_data d s dp sp ! i) (swap_ends k) = dbit (\<lambda>i. rss_data s d sp dp ! i) k"
proof -
  define q r where "q = k div 8" and "r = k mod 8"
  then have k: "k = 8 * q + r" and r: "r < 8" and q: "q < 12" using assms by auto
  show ?thesis
    unfolding k swap_ends_bytes [OF r] dbit_def using r rss_data_swap [OF q, of d s dp sp] by simp
qed

section \<open>Properties\<close>

text \<open>The optimised hash is the matrix product over GF(2) that defines the Toeplitz hash: bit \<open>31 - j\<close> of the
  result is the parity of the number of input bits \<open>k\<close> that are set together with bit \<open>k + j\<close> of the key,
  most significant bits first, for keys of at least four bytes and inputs of any length.\<close>

theorem toeplitz_hash_parity:
  assumes "4 \<le> keylen" and "j < 32"
  shows "bit (toeplitz_hash keylen key datalen data) (31 - j) \<longleftrightarrow>
    odd (card {k. k < 8 * datalen \<and> dbit data k \<and> kbit keylen key (k + j)})"
  using toeplitz_matrix [OF assms] .

theorem toeplitz_hash_parity_witness:
  "bit (toeplitz_hash 40 (\<lambda>i. symmetric_rsskey ! i) 0 (\<lambda>_. 0)) 31 \<longleftrightarrow> odd (card {k::nat. False})"
  using toeplitz_hash_parity [of 40 0 "\<lambda>i. symmetric_rsskey ! i" 0 "\<lambda>_. 0"] by simp

text \<open>C19: with the symmetric key both directions of a connection hash alike.  For the lengths the code uses,
  exchanging source and destination address and port leaves the hash unchanged, so that both
  directions reach the same queue.\<close>

theorem symmetric_rss:
  assumes "40 \<le> keylen"
  shows "toeplitz_hash keylen (\<lambda>i. symmetric_rsskey ! i) 12 (\<lambda>i. rss_data saddr daddr sport dport ! i) =
    toeplitz_hash keylen (\<lambda>i. symmetric_rsskey ! i) 12 (\<lambda>i. rss_data daddr saddr dport sport ! i)"
proof (rule bit_word_eqI)
  fix n
  assume "n < LENGTH(32)"
  define j where "j = 31 - n"
  then have j: "j < 32" "31 - j = n" using \<open>n < LENGTH(32)\<close> by auto
  let ?S = "\<lambda>D. {k. k < 96 \<and> dbit (\<lambda>i. D ! i) k \<and> kbit keylen (\<lambda>i. symmetric_rsskey ! i) (k + j)}"
  have "bij_betw swap_ends (?S (rss_data saddr daddr sport dport)) (?S (rss_data daddr saddr dport sport))"
    by (rule bij_betw_byWitness [where f' = swap_ends])
      (auto simp: swap_ends_range swap_ends_dbit swap_ends_kbit [OF assms _ j(1)])
  then have "card (?S (rss_data saddr daddr sport dport)) = card (?S (rss_data daddr saddr dport sport))"
    by (rule bij_betw_same_card)
  then show "bit (toeplitz_hash keylen (\<lambda>i. symmetric_rsskey ! i) 12 (\<lambda>i. rss_data saddr daddr sport dport ! i)) n =
      bit (toeplitz_hash keylen (\<lambda>i. symmetric_rsskey ! i) 12 (\<lambda>i. rss_data daddr saddr dport sport ! i)) n"
    using toeplitz_matrix [of keylen j "\<lambda>i. symmetric_rsskey ! i" 12] assms j by simp
qed

theorem symmetric_rss_witness:
  "toeplitz_hash 40 (\<lambda>i. symmetric_rsskey ! i) 12 (\<lambda>i. rss_data 1 2 3 4 ! i) =
    toeplitz_hash 40 (\<lambda>i. symmetric_rsskey ! i) 12 (\<lambda>i. rss_data 2 1 4 3 ! i)"
  using symmetric_rss [of 40 1 2 3 4] by simp

text \<open>The queue the card steers a packet to: the entry of the table at the low bits of the hash.\<close>

definition table_queue :: "nat list list \<Rightarrow> nat \<Rightarrow> nat" where
  "table_queue reta n = reta ! (n div 64) ! (n mod 64)"

lemma set_rss_table_entry:
  assumes "set_rss_table reta_size nb = Some reta" and "n < 64 * max 1 (reta_size div 64)"
  shows "table_queue reta n = n mod nb"
proof -
  have reta: "reta = map (\<lambda>i. map (\<lambda>j. (64 * i + j) mod nb) [0..<64]) [0..<max 1 (reta_size div 64)]"
    using assms(1) by (auto simp: set_rss_table_def Let_def split: if_splits)
  have "n div 64 < max 1 (reta_size div 64)" using assms(2) by (simp add: less_mult_imp_div_less mult.commute)
  then show ?thesis by (simp add: reta table_queue_def)
qed

text \<open>C20: the check agrees with the card.  With a table of \<open>2 ^ e\<close> entries, at least 64, filled by \<open>set_rss_table\<close>,
  a core accepts a connection exactly when the table steers its packets to the core's own queue;
  so that of all queues of a port exactly one accepts it.\<close>

theorem rss_check_agrees_with_table:
  assumes "rss_reta_size R = 2 ^ e" "6 \<le> e" "e < 16" and "1 < nb_queues R" and "data = rss_data saddr daddr sport dport"
    and "set_rss_table (unat (rss_reta_size R)) (nb_queues R) = Some reta"
  shows "(lazybsd_rss_check R saddr daddr sport dport \<longleftrightarrow>
      table_queue reta (unat (take_bit e (toeplitz_hash (rsskey_len R) (rsskey R) 12 (\<lambda>i. data ! i)))) = tx_queue_id R) \<and>
    (\<exists>!q. q < nb_queues R \<and> lazybsd_rss_check (R\<lparr>tx_queue_id := q\<rparr>) saddr daddr sport dport)"
proof -
  let ?h = "toeplitz_hash (rsskey_len R) (rsskey R) 12 (\<lambda>i. data ! i)"
  have len: "length (rss_data saddr daddr sport dport) = 12" by (simp add: rss_data_def bytes32_def bytes16_def)
  have e: "(2 :: nat) ^ e < 2 ^ 16" using assms(3) power_strict_increasing [of e 16 "2 :: nat"] by simp
  have R: "rss_reta_size R = of_nat (2 ^ e)" by (simp add: assms(1))
  have size: "unat (rss_reta_size R) = 2 ^ e"
    unfolding R using e by (simp add: unat_of_nat del: of_nat_power)
  have "(ucast (rss_reta_size R) :: u32) = of_nat (2 ^ e)"
    unfolding R unsigned_of_nat using e assms(3) by (simp add: take_bit_nat_eq_self del: of_nat_power)
  then have "(ucast (rss_reta_size R) :: u32) - 1 = mask e"
    by (simp add: mask_eq_exp_minus_1)
  then have mask: "?h AND (ucast (rss_reta_size R) - 1) = take_bit e ?h"
    by (simp add: take_bit_eq_mask)
  have check: "lazybsd_rss_check R' saddr daddr sport dport \<longleftrightarrow> unat (take_bit e ?h) mod nb_queues R = tx_queue_id R'"
    if "R' = R \<or> R' = R\<lparr>tx_queue_id := q\<rparr>" for R' q
    using that assms(4,5) mask by (auto simp: lazybsd_rss_check_def Let_def len)
  have "(2 :: nat) ^ e = 64 * 2 ^ (e - 6)"
    using assms(2) power_add [of "2 :: nat" 6 "e - 6"] by simp
  then have "64 * max 1 (2 ^ e div 64) = (2 :: nat) ^ e" by simp
  moreover have "unat (take_bit e ?h) < 2 ^ e" by (simp add: unsigned_take_bit_eq)
  ultimately have "table_queue reta (unat (take_bit e ?h)) = unat (take_bit e ?h) mod nb_queues R"
    using set_rss_table_entry [OF assms(6)] size by simp
  moreover have "unat (take_bit e ?h) mod nb_queues R < nb_queues R" using assms(4) by simp
  moreover have "lazybsd_rss_check (R\<lparr>tx_queue_id := q\<rparr>) saddr daddr sport dport \<longleftrightarrow>
      unat (take_bit e ?h) mod nb_queues R = q" for q
    using check [of "R\<lparr>tx_queue_id := q\<rparr>" q] by simp
  ultimately show ?thesis using check [of R] by auto
qed

theorem rss_check_agrees_with_table_witness:
  "\<exists>!q. q < 2 \<and> lazybsd_rss_check \<lparr>nb_queues = 2, rss_reta_size = 2 ^ 7, tx_queue_id = q, rsskey_len = 40,
       rsskey = (\<lambda>i. symmetric_rsskey ! i)\<rparr> 1 2 3 4"
proof -
  let ?R = "\<lparr>nb_queues = 2, rss_reta_size = 2 ^ 7, tx_queue_id = 0, rsskey_len = 40, rsskey = (\<lambda>i. symmetric_rsskey ! i)\<rparr>"
  have t: "\<exists>reta. set_rss_table (unat (rss_reta_size ?R)) (nb_queues ?R) = Some reta"
    by (simp add: set_rss_table_def Let_def)
  then obtain reta where "set_rss_table (unat (rss_reta_size ?R)) (nb_queues ?R) = Some reta" ..
  from rss_check_agrees_with_table [OF _ _ _ _ refl this, of 7 1 2 3 4] show ?thesis by simp
qed

end
