(* ===== verification/LB_Prf.thy ===== *)
theory LB_Prf
  imports LB_Digits
begin

text \<open>
  The kernel's printf, \<^verbatim>\<open>bsd/lib/lazybsd_subr_prf.c\<close>: \<open>ksprintn\<close>, \<open>putbuf\<close>, \<open>kputchar\<close> and \<open>kvprintf\<close>.

  A format is a string without its terminating NUL; reading the NUL is \<open>None\<close>, and reading beyond it is an error.
  The arguments are the 64-bit slots of the variable argument list; \<open>cstr\<close> and \<open>byte_at\<close> give the string and
  the bytes at an address.  An \<open>int\<close> computed by the code is wrapped to 32 bits by \<open>c_int\<close>.  Output is the string
  of characters given to \<open>PCHAR\<close>, in order.
\<close>

section \<open>Numbers\<close>

definition hex2ascii :: "nat \<Rightarrow> char" where
  "hex2ascii d = (if d < 10 then char_of (48 + d) else char_of (87 + d))"

definition toupper :: "char \<Rightarrow> char" where
  "toupper c = (if 97 \<le> (of_char c :: nat) \<and> (of_char c :: nat) \<le> 122 then char_of ((of_char c :: nat) - 32) else c)"

text \<open>The digits \<open>ksprintn\<close> stores, in the order it stores them: least significant first.\<close>

function ksprintn_digits :: "nat \<Rightarrow> nat \<Rightarrow> nat list" where
  "ksprintn_digits num base =
     (num mod base) # (if base < 2 \<or> num div base = 0 then [] else ksprintn_digits (num div base) base)"
  by pat_completeness auto
termination
  by (relation "measure fst") (auto simp: div_greater_zero_iff)

declare ksprintn_digits.simps [simp del]

text \<open>The callers read the buffer from its end: \<open>ksprintn\<close> gives the characters in reading order.  A base of 0
  divides by zero, a base of 1 overruns the buffer, a digit of 36 or more is outside \<open>hex2ascii_data\<close>.\<close>

definition ksprintn :: "nat \<Rightarrow> nat \<Rightarrow> bool \<Rightarrow> string kresult" where
  "ksprintn num base upper =
     (if base = 0 then Inl (Panic ''division by zero'')
      else if base = 1 \<and> num > 0 then Inl (Panic ''buffer overrun'')
      else if \<exists>d \<in> set (ksprintn_digits num base). d \<ge> 36 then Inl (Panic ''index out of bounds'')
      else Inr (map (\<lambda>d. if upper then toupper (hex2ascii d) else hex2ascii d) (rev (ksprintn_digits num base))))"

section \<open>Directives\<close>

record spec =
  padc :: char
  width :: int
  dwidth :: int
  dot :: bool
  ladjust :: bool
  sharpflag :: bool
  sign :: bool
  cflag :: bool
  hflag :: bool
  jflag :: bool
  lflag :: bool
  qflag :: bool
  tflag :: bool
  zflag :: bool

definition spec0 :: spec where
  "spec0 = \<lparr>padc = CHR '' '', width = 0, dwidth = 0, dot = False, ladjust = False, sharpflag = False, sign = False,
     cflag = False, hflag = False, jflag = False, lflag = False, qflag = False, tflag = False, zflag = False\<rparr>"

text \<open>The loop of the case of digits, after its first digit.\<close>

fun read_width :: "int \<Rightarrow> string \<Rightarrow> int \<times> string" where
  "read_width n [] = (n, [])"
| "read_width n (ch # fmt) =
     (if is_dec ch then read_width (c_int (n * 10 + of_char ch - 48)) fmt else (n, ch # fmt))"

lemma read_width_length: "read_width n fmt = (n', fmt') \<Longrightarrow> length fmt' \<le> length fmt"
  by (induction n fmt rule: read_width.induct) (auto split: if_splits)

text \<open>The cases of \<open>reswitch\<close> that set a flag and go on.\<close>

definition flag_char :: "spec \<Rightarrow> char \<Rightarrow> spec option" where
  "flag_char sp ch =
     (if ch = CHR ''.'' then Some (sp\<lparr>dot := True\<rparr>)
      else if ch = CHR ''#'' then Some (sp\<lparr>sharpflag := True\<rparr>)
      else if ch = CHR ''+'' then Some (sp\<lparr>sign := True\<rparr>)
      else if ch = CHR ''-'' then Some (sp\<lparr>ladjust := True\<rparr>)
      else if ch = CHR ''0'' \<and> \<not> dot sp then Some (sp\<lparr>padc := CHR ''0''\<rparr>)
      else if ch = CHR ''h'' then Some (if hflag sp then sp\<lparr>hflag := False, cflag := True\<rparr> else sp\<lparr>hflag := True\<rparr>)
      else if ch = CHR ''j'' then Some (sp\<lparr>jflag := True\<rparr>)
      else if ch = CHR ''l'' then Some (if lflag sp then sp\<lparr>lflag := False, qflag := True\<rparr> else sp\<lparr>lflag := True\<rparr>)
      else if ch = CHR ''q'' then Some (sp\<lparr>qflag := True\<rparr>)
      else if ch = CHR ''t'' then Some (sp\<lparr>tflag := True\<rparr>)
      else if ch = CHR ''z'' then Some (sp\<lparr>zflag := True\<rparr>)
      else None)"

definition star_arg :: "spec \<Rightarrow> u64 \<Rightarrow> spec" where
  "star_arg sp a =
     (let n = sint (ucast a :: i32)
      in if dot sp then sp\<lparr>dwidth := n\<rparr>
         else if n < 0 then sp\<lparr>ladjust := \<not> ladjust sp, width := c_int (- n)\<rparr>
         else sp\<lparr>width := n\<rparr>)"

datatype parsed = Conv spec "char option" string "u64 list"

text \<open>\<open>reswitch\<close>, until a character that ends the directive; \<open>None\<close> is the NUL of the format.\<close>

function reswitch :: "spec \<Rightarrow> string \<Rightarrow> u64 list \<Rightarrow> parsed kresult" where
  "reswitch sp [] ap = Inr (Conv sp None [] ap)"
| "reswitch sp (ch # fmt) ap =
     (case flag_char sp ch of
        Some sp' \<Rightarrow> reswitch sp' fmt ap
      | None \<Rightarrow>
          if ch = CHR ''*'' then
            (case ap of
               [] \<Rightarrow> Inl (Panic ''no argument'')
             | a # ap' \<Rightarrow> reswitch (star_arg sp a) fmt ap')
          else if is_dec ch then
            (case read_width (of_char ch - 48) fmt of
               (n, fmt') \<Rightarrow> reswitch (if dot sp then sp\<lparr>dwidth := n\<rparr> else sp\<lparr>width := n\<rparr>) fmt' ap)
          else Inr (Conv sp (Some ch) fmt ap))"
  by pat_completeness auto
termination
  by (relation "measure (\<lambda>(_, fmt, _). length fmt)") (auto dest: read_width_length [OF sym])

declare reswitch.simps [simp del]

lemma reswitch_length: "reswitch sp fmt ap = Inr (Conv sp' c fmt' ap') \<Longrightarrow> length fmt' \<le> length fmt"
proof (induction sp fmt ap rule: reswitch.induct)
  case (1 sp ap)
  then show ?case by (simp add: reswitch.simps)
next
  case 2: (2 sp ch fmt ap)
  show ?case
  proof (cases "flag_char sp ch")
    case None
    obtain n fmt1 where r: "read_width (of_char ch - 48) fmt = (n, fmt1)" by force
    consider "ch = CHR ''*''" | "ch \<noteq> CHR ''*''" "is_dec ch" | "ch \<noteq> CHR ''*''" "\<not> is_dec ch" by blast
    then show ?thesis
    proof cases
      case 1
      then show ?thesis using "2.IH"(1) [OF None 1] "2.prems" None by (cases ap) (auto simp: reswitch.simps(2))
    next
      case 2
      then have "reswitch (if dot sp then sp\<lparr>dwidth := n\<rparr> else sp\<lparr>width := n\<rparr>) fmt1 ap = Inr (Conv sp' c fmt' ap')"
        using "2.prems" None r by (simp add: reswitch.simps(2))
      then have "length fmt' \<le> length fmt1"
        using "2.IH"(2) [OF None 2 r [symmetric]] by blast
      then show ?thesis using read_width_length [OF r] by simp
    next
      case 3
      then show ?thesis using "2.prems" None by (simp add: reswitch.simps(2))
    qed
  qed (use 2 in \<open>auto simp: reswitch.simps(2)\<close>)
qed

section \<open>Conversions\<close>

text \<open>The argument of an unsigned and of a signed conversion, extended to \<open>uintmax_t\<close>; the 64-bit types share
  a case.\<close>

definition wide :: "spec \<Rightarrow> bool" where
  "wide sp \<longleftrightarrow> jflag sp \<or> qflag sp \<or> tflag sp \<or> lflag sp \<or> zflag sp"

definition arg_nosign :: "spec \<Rightarrow> u64 \<Rightarrow> u64" where
  "arg_nosign sp a =
     (if wide sp then a
      else if hflag sp then ucast (ucast a :: u16)
      else if cflag sp then ucast (ucast a :: u8)
      else ucast (ucast a :: u32))"

definition arg_sign :: "spec \<Rightarrow> u64 \<Rightarrow> u64" where
  "arg_sign sp a =
     (if wide sp then a
      else if hflag sp then scast (ucast a :: u16)
      else if cflag sp then scast (ucast a :: u8)
      else scast (ucast a :: i32))"

text \<open>From the label \<open>number\<close> on.\<close>

definition print_number :: "spec \<Rightarrow> nat \<Rightarrow> bool \<Rightarrow> u64 \<Rightarrow> string kresult" where
  "print_number sp base upper num =
     (let neg = (sign sp \<and> sint num < 0);
          num = (if neg then - num else num)
      in case ksprintn (unat num) base upper of
           Inl e \<Rightarrow> Inl e
         | Inr p \<Rightarrow>
             let n = int (length p);
                 prefix = (if sharpflag sp \<and> num \<noteq> 0 then (if base = 8 then ''0'' else if base = 16 then ''0x'' else '''') else '''');
                 tmp = int (length prefix) + (if neg then 1 else 0);
                 dw = (if \<not> ladjust sp \<and> padc sp = CHR ''0'' then c_int (width sp - tmp) else dwidth sp);
                 w = c_int (width sp - (tmp + max dw n));
                 dw = c_int (dw - n)
             in Inr ((if ladjust sp then [] else replicate (nat w) CHR '' '') @
                     (if neg then ''-'' else '''') @ prefix @ replicate (nat dw) CHR ''0'' @ p @
                     (if ladjust sp then replicate (nat w) CHR '' '' else [])))"

definition print_string :: "spec \<Rightarrow> string \<Rightarrow> string" where
  "print_string sp p =
     (let p = (if dot sp then take (nat (dwidth sp)) p else p);
          w = nat (c_int (width sp - int (length p)))
      in (if ladjust sp then [] else replicate w (padc sp)) @ p @ (if ladjust sp then replicate w (padc sp) else []))"

text \<open>\<open>%D\<close>: a dump of \<open>n\<close> bytes with a separator.\<close>

fun print_dump :: "nat \<Rightarrow> (nat \<Rightarrow> u8) \<Rightarrow> string \<Rightarrow> string" where
  "print_dump 0 up p = []"
| "print_dump (Suc n) up p =
     [hex2ascii (unat (drop_bit 4 (up 0))), hex2ascii (unat (up 0 AND 0x0f))] @
     (if n > 0 then p else []) @ print_dump n (\<lambda>i. up (i + 1)) p"

text \<open>\<open>%b\<close>: the names of the bits; a character of a name is above the space.  The shift count is taken modulo 32,
  as the machine does.\<close>

definition name_char :: "char \<Rightarrow> bool" where
  "name_char c \<longleftrightarrow> 32 < (of_char c :: nat) \<and> (of_char c :: nat) < 128"

function print_bits :: "nat \<Rightarrow> bool \<Rightarrow> string \<Rightarrow> string" where
  "print_bits num tmp [] = (if tmp then ''>'' else '''')"
| "print_bits num tmp (c # p) =
     (if bit num ((of_char c + 31) mod 32)
      then (if tmp then '','' else ''<'') @ takeWhile name_char p @ print_bits num True (dropWhile name_char p)
      else print_bits num tmp (dropWhile name_char p))"
  by pat_completeness auto
termination
  by (relation "measure (\<lambda>(_, _, p). length p)") (auto simp: le_imp_less_Suc length_dropWhile_le)

text \<open>The base of \<open>%b\<close> is a signed character that \<open>ksprintn\<close> divides by as a \<open>uintmax_t\<close>.\<close>

definition char_base :: "char \<Rightarrow> nat" where
  "char_base c = (if of_char c < (128 :: nat) then of_char c else 2 ^ 64 - 256 + of_char c)"

text \<open>The size of what \<open>%n\<close> stores \<open>retval\<close> into.\<close>

definition n_bytes :: "spec \<Rightarrow> nat" where
  "n_bytes sp = (if jflag sp \<or> qflag sp \<or> lflag sp \<or> zflag sp then 8 else if hflag sp then 2 else if cflag sp then 1 else 4)"

text \<open>The conversion \<open>ch\<close>: its text, the arguments left, what \<open>%n\<close> stores, and whether the rest of the format is
  still to be obeyed.  \<open>raw\<close> is the text of the directive.\<close>

record memory_view =
  cstr :: "u64 \<Rightarrow> string"
  byte_at :: "u64 \<Rightarrow> nat \<Rightarrow> u8"

definition with_arg :: "u64 list \<Rightarrow> (u64 \<Rightarrow> u64 list \<Rightarrow> 'a kresult) \<Rightarrow> 'a kresult" where
  "with_arg ap f = (case ap of [] \<Rightarrow> Inl (Panic ''no argument'') | a # ap \<Rightarrow> f a ap)"

type_synonym converted = "string \<times> u64 list \<times> (u64 \<times> nat \<times> int) list \<times> bool"

definition number_arg :: "u64 list \<Rightarrow> (u64 \<Rightarrow> string kresult) \<Rightarrow> converted kresult" where
  "number_arg ap f = with_arg ap (\<lambda>a ap. map_sum id (\<lambda>t. (t, ap, [], False)) (f a))"

definition convert ::
    "memory_view \<Rightarrow> nat \<Rightarrow> int \<Rightarrow> spec \<Rightarrow> char \<Rightarrow> string \<Rightarrow> u64 list \<Rightarrow> converted kresult" where
  "convert M radix retval sp ch raw ap =
     (if ch = CHR ''%'' then Inr (''%'', ap, [], False)
      else if ch = CHR ''b'' then
        with_arg ap (\<lambda>a ap. with_arg ap (\<lambda>b ap.
          let num = unat (ucast a :: u32); p = cstr M b
          in case ksprintn num (case p of [] \<Rightarrow> 0 | c # _ \<Rightarrow> char_base c) False of
               Inl e \<Rightarrow> Inl e
             | Inr t \<Rightarrow> Inr (t @ (if num = 0 then '''' else print_bits num False (tl p)), ap, [], False)))
      else if ch = CHR ''c'' then with_arg ap (\<lambda>a ap. Inr ([char_of (unat (ucast a :: u8))], ap, [], False))
      else if ch = CHR ''D'' then
        with_arg ap (\<lambda>a ap. with_arg ap (\<lambda>b ap.
          if width sp < 0 then Inl (Panic ''dump of a negative width'')
          else Inr (print_dump (if width sp = 0 then 16 else nat (width sp)) (byte_at M a) (cstr M b), ap, [], False)))
      else if ch = CHR ''d'' \<or> ch = CHR ''i'' then
        number_arg ap (\<lambda>a. print_number (sp\<lparr>sign := True\<rparr>) 10 False (arg_sign sp a))
      else if ch = CHR ''n'' then with_arg ap (\<lambda>a ap. Inr ('''', ap, [(a, n_bytes sp, retval)], False))
      else if ch = CHR ''o'' then number_arg ap (\<lambda>a. print_number (sp\<lparr>sign := False\<rparr>) 8 False (arg_nosign sp a))
      else if ch = CHR ''p'' then
        number_arg ap (\<lambda>a. print_number (sp\<lparr>sharpflag := (width sp = 0), sign := False\<rparr>) 16 False a)
      else if ch = CHR ''r'' then
        number_arg ap (\<lambda>a. print_number sp radix False (if sign sp then arg_sign sp a else arg_nosign sp a))
      else if ch = CHR ''s'' then
        with_arg ap (\<lambda>a ap. Inr (print_string sp (if a = 0 then ''(null)'' else cstr M a), ap, [], False))
      else if ch = CHR ''u'' then number_arg ap (\<lambda>a. print_number (sp\<lparr>sign := False\<rparr>) 10 False (arg_nosign sp a))
      else if ch = CHR ''X'' then number_arg ap (\<lambda>a. print_number (sp\<lparr>sign := False\<rparr>) 16 True (arg_nosign sp a))
      else if ch = CHR ''x'' then number_arg ap (\<lambda>a. print_number (sp\<lparr>sign := False\<rparr>) 16 False (arg_nosign sp a))
      else if ch = CHR ''y'' then number_arg ap (\<lambda>a. print_number (sp\<lparr>sign := True\<rparr>) 16 False (arg_sign sp a))
      else Inr (raw, ap, [], True))"

section \<open>The loop\<close>

function kvprintf_loop ::
    "memory_view \<Rightarrow> nat \<Rightarrow> bool \<Rightarrow> int \<Rightarrow> string \<Rightarrow> u64 list \<Rightarrow> (string \<times> (u64 \<times> nat \<times> int) list) kresult" where
  "kvprintf_loop M radix stop retval [] ap = Inr ([], [])"
| "kvprintf_loop M radix stop retval (ch # fmt) ap =
     (if ch \<noteq> CHR ''%'' \<or> stop
      then map_sum id (apfst ((#) ch)) (kvprintf_loop M radix stop (c_int (retval + 1)) fmt ap)
      else
        case reswitch spec0 fmt ap of
          Inl e \<Rightarrow> Inl e
        | Inr (Conv sp None fmt' ap') \<Rightarrow> Inl (Panic ''format read past its end'')
        | Inr (Conv sp (Some c) fmt' ap') \<Rightarrow>
            (case convert M radix retval sp c (ch # take (length fmt - length fmt') fmt) ap' of
               Inl e \<Rightarrow> Inl e
             | Inr (t, ap'', ns, stop') \<Rightarrow>
                 map_sum id (\<lambda>(t', ns'). (t @ t', ns @ ns'))
                   (kvprintf_loop M radix stop' (c_int (retval + int (length t))) fmt' ap'')))"
  by pat_completeness auto
termination
  by (relation "measure (\<lambda>(_, _, _, _, fmt, _). length fmt)") (auto dest: reswitch_length simp: less_Suc_eq_le)

text \<open>The result is the number of characters, the characters and what \<open>%n\<close> stored.\<close>

definition kvprintf ::
    "memory_view \<Rightarrow> string option \<Rightarrow> int \<Rightarrow> u64 list \<Rightarrow> (int \<times> string \<times> (u64 \<times> nat \<times> int) list) kresult" where
  "kvprintf M fmt radix ap =
     (let fmt = (case fmt of None \<Rightarrow> ''(fmt null)'' @ [CHR 0x0A] | Some f \<Rightarrow> f);
          radix = (if radix < 2 \<or> radix > 36 then 10 else nat radix)
      in map_sum id (\<lambda>(t, ns). (c_int (int (length t)), t, ns)) (kvprintf_loop M radix False 0 fmt ap))"

section \<open>The console\<close>

datatype console = Putchar char | Puts string

record putchar_arg =
  tocons :: bool
  tolog :: bool
  p_bufr :: "string option"
  n_bufr :: nat
  remain :: nat

text \<open>\<open>p_bufr\<close> is NULL or the characters between the start of the buffer and \<open>p_next\<close>; \<open>puts\<close> sees them up to the
  first NUL.\<close>

definition putbuf :: "char \<Rightarrow> putchar_arg \<Rightarrow> console list \<times> putchar_arg" where
  "putbuf c ap =
     (case p_bufr ap of
        None \<Rightarrow> (if tocons ap then [Putchar c] else [], ap)
      | Some buf \<Rightarrow>
          let buf = buf @ [c]; left = remain ap - 1
          in if left = 2 \<or> c = CHR 0x0A
             then (if tocons ap then [Puts (takeWhile (\<lambda>x. x \<noteq> CHR 0x00) buf)] else [],
                   ap\<lparr>p_bufr := Some [], remain := n_bufr ap\<rparr>)
             else ([], ap\<lparr>p_bufr := Some buf, remain := left\<rparr>))"

definition kputchar :: "char \<Rightarrow> putchar_arg \<Rightarrow> console list \<times> putchar_arg" where
  "kputchar c ap =
     (if tocons ap then putbuf c ap
      else if tolog ap \<and> c \<noteq> CHR 0x00 then putbuf c ap
      else ([], ap))"

fun kputchars :: "string \<Rightarrow> putchar_arg \<Rightarrow> console list \<times> putchar_arg" where
  "kputchars [] ap = ([], ap)"
| "kputchars (c # cs) ap =
     (case kputchar c ap of (o1, ap) \<Rightarrow> case kputchars cs ap of (o2, ap) \<Rightarrow> (o1 @ o2, ap))"

text \<open>\<open>PRINTF_BUFR_SIZE\<close> is not defined: the console is not buffered.\<close>

definition vprintf :: "memory_view \<Rightarrow> string option \<Rightarrow> u64 list \<Rightarrow> (int \<times> console list) kresult" where
  "vprintf M fmt ap =
     (let pca = \<lparr>tocons = True, tolog = True, p_bufr = None, n_bufr = 0, remain = 0\<rparr>
      in map_sum id (\<lambda>(retval, t, _). (retval, fst (kputchars t pca))) (kvprintf M fmt 10 ap))"

end
