(* ===== verification/LB_Prf_Props.thy ===== *)
theory LB_Prf_Props
  imports LB_Prf
begin

text \<open>
  \<open>kvprintf\<close> against a reference: formats built from literal text and from the conversions the code base uses
  print what they say, whatever the values, widths and strings.
\<close>

section \<open>Numbers\<close>

lemma ksprintn_digits_rev: "2 \<le> base \<Longrightarrow> ksprintn_digits num base = rev (digits base num)"
proof (induction num base rule: ksprintn_digits.induct)
  case (1 num base)
  show ?case
  proof (cases "num < base")
    case True
    then show ?thesis using 1(2) by (simp add: ksprintn_digits.simps [of num] digits_small)
  next
    case False
    then have "num div base \<noteq> 0" using 1(2) by (simp add: div_eq_0_iff)
    then show ?thesis using 1 False by (simp add: ksprintn_digits.simps [of num] digits_step)
  qed
qed

lemma ksprintn_ok:
  assumes "2 \<le> base" "base \<le> 36"
  shows "ksprintn num base False = Inr (map hex2ascii (digits base num))"
proof -
  have "\<not> (\<exists>d \<in> set (ksprintn_digits num base). d \<ge> 36)"
    using digits_lt [OF assms(1)] assms by (force simp: ksprintn_digits_rev)
  then show ?thesis using assms by (simp add: ksprintn_def ksprintn_digits_rev)
qed

lemma hex2ascii_dec: "map hex2ascii (digits 10 n) = show_nat n"
  unfolding show_nat_def by (rule map_cong) (auto dest: digits_lt [rotated] simp: hex2ascii_def dec_digit_def)

section \<open>Widths\<close>

lemma foldl_ge: "(a::nat) \<le> foldl (\<lambda>a d. 10 * a + d) a ds"
proof (induction ds arbitrary: a)
  case (Cons d ds)
  show ?case using Cons.IH [of "10 * a + d"] by simp
qed simp

lemma of_char_dec_digit: "d < 10 \<Longrightarrow> (of_char (dec_digit d) :: int) = 48 + int d"
proof -
  assume "d < 10"
  then have "int (of_char (dec_digit d)) = 48 + int d" by (simp add: dec_digit_def)
  then show ?thesis by (simp only: of_nat_of_char)
qed

lemma read_width_dec:
  assumes "\<forall>d\<in>set ds. d < 10" and "foldl (\<lambda>a d. 10 * a + d) a ds < 1000000" and "rest = [] \<or> \<not> is_dec (hd rest)"
  shows "read_width (int a) (map dec_digit ds @ rest) = (int (foldl (\<lambda>a d. 10 * a + d) a ds), rest)"
  using assms
proof (induction ds arbitrary: a)
  case Nil
  then show ?case by (cases rest) auto
next
  case (Cons d ds)
  have "10 * a + d < 1000000" using foldl_ge [of "10 * a + d" ds] Cons.prems(2) by simp
  then have "c_int (int a * 10 + of_char (dec_digit d) - 48) = int (10 * a + d)"
    using Cons.prems(1) by (simp add: of_char_dec_digit c_int_id)
  then show ?case
    using Cons.IH [of "10 * a + d"] Cons.prems is_dec_digit [of d] by simp
qed

text \<open>A width written in decimal.\<close>

definition show_width :: "nat \<Rightarrow> string" where
  "show_width w = (if w = 0 then '''' else show_nat w)"

lemma dec_not_flag: "is_dec c \<Longrightarrow> c \<noteq> CHR ''0'' \<Longrightarrow> flag_char sp c = None \<and> c \<noteq> CHR ''*''"
proof -
  assume "is_dec c" "c \<noteq> CHR ''0''"
  moreover have "c \<notin> {CHR ''.'', CHR ''#'', CHR ''+'', CHR ''-'', CHR ''h'', CHR ''j'', CHR ''l'', CHR ''q'', CHR ''t'', CHR ''z'',
      CHR ''*''}"
    using \<open>is_dec c\<close> by (auto simp: is_dec_def)
  ultimately show ?thesis by (simp add: flag_char_def)
qed

lemma reswitch_width:
  assumes "w < 1000000" and "\<not> is_dec c" and "\<not> dot sp" and "width sp = 0"
  shows "reswitch sp (show_width w @ c # rest) ap = reswitch (sp\<lparr>width := int w\<rparr>) (c # rest) ap"
proof (cases "w = 0")
  case True
  moreover have "sp\<lparr>width := 0\<rparr> = sp" using assms(4) by (cases sp) simp
  ultimately show ?thesis by (simp add: show_width_def)
next
  case False
  obtain d ds where ds: "digits 10 w = d # ds" by (cases "digits 10 w") auto
  have lt: "\<forall>x\<in>set (d # ds). x < 10" using digits_lt [of 10 _ w] ds by simp
  have "d \<noteq> 0" using digits_leading [of 10 w] False ds by simp
  then have c: "is_dec (dec_digit d)" "dec_digit d \<noteq> CHR ''0''"
    using lt is_dec_digit [of d] of_char_dec_digit [of d] by auto
  have "foldl (\<lambda>a d. 10 * a + d) d ds = w"
    using base_val_digits [of 10 w] ds by (simp add: base_val_def)
  then have "read_width (of_char (dec_digit d) - 48) (map dec_digit ds @ c # rest) = (int w, c # rest)"
    using read_width_dec [of ds d "c # rest"] lt assms(1,2) by (simp add: of_char_dec_digit)
  then show ?thesis
    using dec_not_flag [OF c, of sp] c False assms(3)
    by (simp add: show_width_def show_nat_def ds reswitch.simps(2))
qed

section \<open>The reference\<close>

text \<open>A format as a list of items: literal text, a per cent sign, a signed decimal and an unsigned hexadecimal
  number, with a width and padded by zeros or not, and a string.\<close>

datatype item = Lit string | Percent | Dec bool nat i32 | Hex bool nat u32 | Strg nat u64

definition zero_flag :: "bool \<Rightarrow> string" where
  "zero_flag z = (if z then ''0'' else '''')"

fun item_fmt :: "item \<Rightarrow> string" where
  "item_fmt (Lit s) = s"
| "item_fmt Percent = ''%%''"
| "item_fmt (Dec z w v) = ''%'' @ zero_flag z @ show_width w @ ''d''"
| "item_fmt (Hex z w v) = ''%'' @ zero_flag z @ show_width w @ ''x''"
| "item_fmt (Strg w a) = ''%'' @ show_width w @ ''s''"

fun item_args :: "item \<Rightarrow> u64 list" where
  "item_args (Dec z w v) = [ucast v]"
| "item_args (Hex z w v) = [ucast v]"
| "item_args (Strg w a) = [a]"
| "item_args _ = []"

definition padded :: "bool \<Rightarrow> nat \<Rightarrow> string \<Rightarrow> string \<Rightarrow> string" where
  "padded z w sg ds =
     (if z then sg @ replicate (w - length sg - length ds) CHR ''0'' @ ds
      else replicate (w - length sg - length ds) CHR '' '' @ sg @ ds)"

fun item_text :: "memory_view \<Rightarrow> item \<Rightarrow> string" where
  "item_text M (Lit s) = s"
| "item_text M Percent = ''%''"
| "item_text M (Dec z w v) = padded z w (if sint v < 0 then ''-'' else '''') (show_nat (nat \<bar>sint v\<bar>))"
| "item_text M (Hex z w v) = padded z w '''' (map hex2ascii (digits 16 (unat v)))"
| "item_text M (Strg w a) = (let p = if a = 0 then ''(null)'' else cstr M a in padded False w '''' p)"

fun item_ok :: "memory_view \<Rightarrow> item \<Rightarrow> bool" where
  "item_ok M (Lit s) \<longleftrightarrow> CHR ''%'' \<notin> set s"
| "item_ok M Percent \<longleftrightarrow> True"
| "item_ok M (Dec z w v) \<longleftrightarrow> w < 1000000"
| "item_ok M (Hex z w v) \<longleftrightarrow> w < 1000000"
| "item_ok M (Strg w a) \<longleftrightarrow> w < 1000000 \<and> length (cstr M a) < 1000000"

section \<open>Conversions\<close>

lemma print_number_padded:
  assumes "2 \<le> base" "base \<le> 36" and "\<not> ladjust sp" "\<not> sharpflag sp" "dwidth sp = 0" "width sp = int w" "w < 1000000"
    and "length (digits base (unat (if sign sp \<and> sint num < 0 then - num else num))) \<le> 100"
    and "padc sp = (if z then CHR ''0'' else CHR '' '')"
  shows "print_number sp base False num =
    Inr (padded z w (if sign sp \<and> sint num < 0 then ''-'' else '''')
      (map hex2ascii (digits base (unat (if sign sp \<and> sint num < 0 then - num else num)))))"
proof -
  let ?neg = "sign sp \<and> sint num < 0"
  let ?ds = "digits base (unat (if ?neg then - num else num))"
  define n where "n = length ?ds"
  have n: "1 \<le> n" "n \<le> 100" using assms(8) by (auto simp: n_def Suc_le_eq)
  define t where "t = (if ?neg then 1 else 0 :: nat)"
  have t: "t \<le> 1" by (simp add: t_def)
  note c = c_int_small
  show ?thesis
  proof (cases z)
    case True
    have 1: "c_int (int w - int t) = int w - int t" using t assms(7) by (intro c) linarith
    have 2: "nat (c_int (int w - (int t + max (int w - int t) (int n)))) = 0" using n t assms(7) by (subst c) linarith+
    have 3: "nat (c_int (int w - int t - int n)) = w - t - n" using n t assms(7) by (subst c) linarith+
    show ?thesis
      using True assms(3,4,6,9) 1 2 3
      by (auto simp: print_number_def ksprintn_ok [OF assms(1,2)] padded_def Let_def n_def t_def split: if_splits)
  next
    case False
    have 2: "nat (c_int (int w - (int t + max 0 (int n)))) = w - t - n" using n t assms(7) by (subst c) linarith+
    have 3: "nat (c_int (0 - int n)) = 0" using n by (subst c) linarith+
    show ?thesis
      using False assms(3,4,5,6,9) 2 3
      by (auto simp: print_number_def ksprintn_ok [OF assms(1,2)] padded_def Let_def n_def t_def split: if_splits)
  qed
qed

lemma print_string_padded:
  assumes "\<not> ladjust sp" "\<not> dot sp" "width sp = int w" "w < 1000000" "length p < 1000000" "padc sp = CHR '' ''"
  shows "print_string sp p = padded False w '''' p"
proof -
  have "nat (c_int (int w - int (length p))) = w - length p"
    using assms(4,5) by (subst c_int_small) linarith+
  then show ?thesis using assms by (simp add: print_string_def padded_def Let_def)
qed

lemma reswitch_conv: "flag_char sp c = None \<Longrightarrow> c \<noteq> CHR ''*'' \<Longrightarrow> \<not> is_dec c \<Longrightarrow>
    reswitch sp (c # rest) ap = Inr (Conv sp (Some c) rest ap)"
  by (simp add: reswitch.simps(2))

lemma reswitch_zero: "reswitch spec0 (zero_flag z @ fmt) ap = reswitch (spec0\<lparr>padc := if z then CHR ''0'' else CHR '' ''\<rparr>) fmt ap"
  by (simp add: zero_flag_def reswitch.simps(2) flag_char_def spec0_def)

lemma reswitch_item:
  assumes "w < 1000000" and "c \<in> {CHR ''d'', CHR ''x'', CHR ''s''}"
  shows "reswitch spec0 (zero_flag z @ show_width w @ c # rest) ap =
    Inr (Conv (spec0\<lparr>padc := if z then CHR ''0'' else CHR '' '', width := int w\<rparr>) (Some c) rest ap)"
proof -
  have "\<not> is_dec c" "flag_char sp c = None" "c \<noteq> CHR ''*''" for sp
    using assms(2) by (auto simp: is_dec_def flag_char_def)
  then show ?thesis
    unfolding reswitch_zero using assms(1) by (subst reswitch_width) (simp_all add: reswitch_conv, simp_all add: spec0_def)
qed

lemma digits_u64_length: "2 \<le> base \<Longrightarrow> length (digits base (unat (v :: u64))) \<le> 100"
proof -
  assume b: "2 \<le> base"
  have "unat v < 2 ^ 64" using unsigned_less [of v] by simp
  also have "(2 :: nat) ^ 64 \<le> base ^ 64" using b by (rule power_mono) simp
  finally show ?thesis using digits_length [OF b, of "unat v" 64] by simp
qed

lemma sint_i32_range: "- (2 ^ 31) \<le> sint (v :: i32)" "sint (v :: i32) < 2 ^ 31"
  using sint_ge [of v] sint_lt [of v] by simp_all

lemma ucast_up_down: "(ucast (ucast (v :: u32) :: u64) :: u32) = v" "unat (ucast v :: u64) = unat v"
proof -
  show "(ucast (ucast v :: u64) :: u32) = v" by (rule bit_word_eqI) (simp add: bit_ucast_iff)
  show "unat (ucast v :: u64) = unat v"
  proof -
    have "unat v < 2 ^ 64" by (rule order.strict_trans2 [OF unsigned_less]) simp
    then show ?thesis by (simp add: unsigned_ucast_eq take_bit_nat_eq_self)
  qed
qed

lemma sint_scast: "sint (scast (v :: i32) :: u64) = sint v"
proof -
  have "signed_take_bit 63 (sint v) = sint v"
    using sint_i32_range [of v] by (intro signed_take_bit_int_eq_self) auto
  then show ?thesis by (simp add: signed_scast_eq)
qed

lemma unat_scast: "unat (if sint (v :: i32) < 0 then - scast v else scast v :: u64) = nat \<bar>sint v\<bar>"
proof -
  have "(if sint v < 0 then - scast v else scast v :: u64) = word_of_int \<bar>sint v\<bar>"
    unfolding scast_eq [of v] by (simp only: abs_if wi_hom_neg split: if_split) simp
  moreover have "unat (word_of_int \<bar>sint v\<bar> :: u64) = nat \<bar>sint v\<bar>"
    using sint_i32_range [of v] by (simp add: unsigned_of_int take_bit_int_eq_self)
  ultimately show ?thesis by simp
qed

section \<open>Items\<close>

lemma loop_literal:
  "CHR ''%'' \<notin> set s \<Longrightarrow> \<exists>rv'. kvprintf_loop M radix False rv (s @ fmt) ap =
     map_sum id (apfst ((@) s)) (kvprintf_loop M radix False rv' fmt ap)"
proof (induction s arbitrary: rv)
  case Nil
  have idem: "map_sum id (apfst ((@) [])) r = r" for r :: "(string \<times> (u64 \<times> nat \<times> int) list) kresult"
    by (cases r) (auto simp: apfst_def map_prod_def split: prod.splits)
  show ?case by (rule exI [of _ rv], subst append_Nil, rule idem [symmetric])
next
  case (Cons c s)
  then obtain rv' where "kvprintf_loop M radix False (c_int (rv + 1)) (s @ fmt) ap =
      map_sum id (apfst ((@) s)) (kvprintf_loop M radix False rv' fmt ap)"
    by (metis list.set_intros(2))
  then show ?case
    using Cons.prems by (intro exI [of _ rv']) (cases "kvprintf_loop M radix False rv' fmt ap"; auto)
qed

lemma loop_directive:
  assumes "reswitch spec0 d ap = Inr (Conv sp (Some c) fmt ap')" 
    and "\<And>raw. convert M radix rv sp c raw ap' = Inr (t, ap'', [], False)"
  shows "\<exists>rv'. kvprintf_loop M radix False rv (CHR ''%'' # d) ap =
     map_sum id (apfst ((@) t)) (kvprintf_loop M radix False rv' fmt ap'')"
  using assms by (intro exI [of _ "c_int (rv + int (length t))"])
    (cases "kvprintf_loop M radix False (c_int (rv + int (length t))) fmt ap''"; auto)

lemma loop_item:
  assumes "item_ok M it"
  shows "\<exists>rv'. kvprintf_loop M radix False rv (item_fmt it @ fmt) (item_args it @ ap) =
     map_sum id (apfst ((@) (item_text M it))) (kvprintf_loop M radix False rv' fmt ap)"
proof (cases it)
  case (Lit s)
  then show ?thesis using loop_literal assms by simp
next
  case Percent
  have "reswitch spec0 (CHR ''%'' # fmt) ap = Inr (Conv spec0 (Some CHR ''%'') fmt ap)"
    by (rule reswitch_conv) (simp_all add: flag_char_def is_dec_def)
  from loop_directive [OF this] Percent show ?thesis by (simp add: convert_def)
next
  case (Dec z w v)
  let ?sp = "spec0\<lparr>padc := if z then CHR ''0'' else CHR '' '', width := int w\<rparr>"
  have r: "reswitch spec0 (zero_flag z @ show_width w @ CHR ''d'' # fmt) (ucast v # ap) =
      Inr (Conv ?sp (Some CHR ''d'') fmt (ucast v # ap))"
    using assms Dec by (intro reswitch_item) auto
  have a: "arg_sign ?sp (ucast v) = scast v"
    by (simp add: arg_sign_def wide_def spec0_def ucast_up_down)
  have "print_number (?sp\<lparr>sign := True\<rparr>) 10 False (scast v) = Inr (item_text M it)"
    using assms Dec unat_scast [of v] digits_u64_length [of 10 "if sint v < 0 then - scast v else scast v"]
    by (subst print_number_padded [of _ _ w _ z]) (auto simp: spec0_def sint_scast hex2ascii_dec digits_u64_length)
  then have "convert M radix rv ?sp CHR ''d'' raw (ucast v # ap) = Inr (item_text M it, ap, [], False)" for raw
    using a by (simp add: convert_def number_arg_def with_arg_def)
  from loop_directive [OF r this] Dec show ?thesis by simp
next
  case (Hex z w v)
  let ?sp = "spec0\<lparr>padc := if z then CHR ''0'' else CHR '' '', width := int w\<rparr>"
  have r: "reswitch spec0 (zero_flag z @ show_width w @ CHR ''x'' # fmt) (ucast v # ap) =
      Inr (Conv ?sp (Some CHR ''x'') fmt (ucast v # ap))"
    using assms Hex by (intro reswitch_item) auto
  have a: "arg_nosign ?sp (ucast v) = ucast v" "unat (ucast v :: u64) = unat v"
    by (simp_all add: arg_nosign_def wide_def spec0_def ucast_up_down)
  have "print_number (?sp\<lparr>sign := False\<rparr>) 16 False (ucast v) = Inr (item_text M it)"
    using assms Hex a(2) digits_u64_length [of 16 "ucast v"]
    by (subst print_number_padded [of _ _ w _ z]) (auto simp: spec0_def)
  then have "convert M radix rv ?sp CHR ''x'' raw (ucast v # ap) = Inr (item_text M it, ap, [], False)" for raw
    using a by (simp add: convert_def number_arg_def with_arg_def)
  from loop_directive [OF r this] Hex show ?thesis by simp
next
  case (Strg w a)
  let ?sp = "spec0\<lparr>padc := CHR '' '', width := int w\<rparr>"
  have r: "reswitch spec0 (show_width w @ CHR ''s'' # fmt) (a # ap) = Inr (Conv ?sp (Some CHR ''s'') fmt (a # ap))"
    using reswitch_item [of w "CHR ''s''" False fmt "a # ap"] assms Strg by (simp add: zero_flag_def)
  have "print_string ?sp (if a = 0 then ''(null)'' else cstr M a) = item_text M it"
    using assms Strg by (subst print_string_padded [of _ w]) (auto simp: spec0_def)
  then have "convert M radix rv ?sp CHR ''s'' raw (a # ap) = Inr (item_text M it, ap, [], False)" for raw
    by (simp add: convert_def with_arg_def)
  from loop_directive [OF r this] Strg show ?thesis by simp
qed

lemma loop_items:
  "\<forall>it\<in>set items. item_ok M it \<Longrightarrow>
    kvprintf_loop M radix False rv (concat (map item_fmt items)) (concat (map item_args items)) =
      Inr (concat (map (item_text M) items), [])"
proof (induction items arbitrary: rv)
  case (Cons it items)
  then obtain rv' where "kvprintf_loop M radix False rv (item_fmt it @ concat (map item_fmt items))
      (item_args it @ concat (map item_args items)) =
      map_sum id (apfst ((@) (item_text M it)))
        (kvprintf_loop M radix False rv' (concat (map item_fmt items)) (concat (map item_args items)))"
    using loop_item [of M it] by (metis list.set_intros(1))
  then show ?case using Cons by simp
qed simp

text \<open>C32: \<open>kvprintf\<close> prints what the format says.  For every format made of literal text, \<open>%%\<close>, signed decimal and
  hexadecimal numbers with or without a width and zero padding, and strings with or without a width,
  and for the matching arguments, the output is the concatenation of the items' texts, numbers in
  full and right adjusted, and the result is the number of characters printed.\<close>

theorem kvprintf_items:
  assumes "\<forall>it\<in>set items. item_ok M it"
  shows "kvprintf M (Some (concat (map item_fmt items))) radix (concat (map item_args items)) =
    Inr (c_int (int (length (concat (map (item_text M) items)))), concat (map (item_text M) items), [])"
  using loop_items [OF assms] by (simp add: kvprintf_def Let_def)

theorem kvprintf_items_witness:
  "kvprintf \<lparr>cstr = (\<lambda>_. ''eth0''), byte_at = (\<lambda>_ _. 0)\<rparr> (Some ''%s: %04d'') 10 [1, ucast (- 7 :: i32)] =
     Inr (10, ''eth0: -007'', [])"
proof -
  let ?M = "\<lparr>cstr = (\<lambda>_. ''eth0''), byte_at = (\<lambda>_ _. 0)\<rparr>" and ?items = "[Strg 0 1, Lit '': '', Dec True 4 (- 7)]"
  have "show_width 4 = ''4''" "show_width 0 = ''''" "show_nat 7 = ''7''"
    by (simp_all add: show_width_def show_nat_def digits_small dec_digit_def char_of_def bit_0)
  moreover have "padded True 4 ''-'' ''7'' = ''-007''" "padded False 0 '''' ''eth0'' = ''eth0''"
    by (simp_all add: padded_def numeral_eq_Suc)
  ultimately have "concat (map item_fmt ?items) = ''%s: %04d''" "concat (map (item_text ?M) ?items) = ''eth0: -007''"
    by (simp_all add: zero_flag_def)
  moreover have "c_int (int (length ''eth0: -007'')) = 10"
    by (simp add: c_int_small)
  moreover have "\<forall>it\<in>set ?items. item_ok ?M it" "concat (map item_args ?items) = [1, ucast (- 7 :: i32)]" by simp_all
  ultimately show ?thesis using kvprintf_items [of ?items ?M 10] by (simp only:)
qed

end
