(* ===== verification/LB_Subr.thy ===== *)
theory LB_Subr
  imports LB_Prelude
begin

text \<open>
  Hash tables and scatter/gather copies, \<^verbatim>\<open>bsd/lib/lazybsd_kern_subr.c\<close>.  Memory is flat: \<open>copyin\<close> and \<open>copyout\<close> of this
  port are \<open>memcpy\<close> and cannot fail.  \<open>malloc\<close> answers whether a request of a size with its flags succeeds.
\<close>

section \<open>Hash tables\<close>

definition HASH_NOWAIT :: u32 where "HASH_NOWAIT = 1"
definition HASH_WAITOK :: u32 where "HASH_WAITOK = 2"
definition M_NOWAIT :: u32 where "M_NOWAIT = 1"
definition M_WAITOK :: u32 where "M_WAITOK = 2"

definition hash_mflags :: "u32 \<Rightarrow> u32" where
  "hash_mflags flags = (if flags AND HASH_NOWAIT \<noteq> 0 then M_NOWAIT else M_WAITOK)"

text \<open>The loop over \<open>hashsize\<close>.\<close>

function hash_double :: "nat \<Rightarrow> nat \<Rightarrow> nat" where
  "hash_double elements hashsize =
     (if hashsize \<noteq> 0 \<and> hashsize \<le> elements then hash_double elements (2 * hashsize) else hashsize)"
  by pat_completeness auto
termination
  by (relation "measure (\<lambda>(e, h). Suc e - h)") auto

declare hash_double.simps [simp del]

text \<open>The table is the list of its heads.  \<open>None\<close> is the NULL of a failed allocation, which leaves \<open>*hashmask\<close> as it
  was.\<close>

definition hashinit_flags :: "(nat \<Rightarrow> u32 \<Rightarrow> bool) \<Rightarrow> int \<Rightarrow> u32 \<Rightarrow> (nat list list \<times> u64) option kresult" where
  "hashinit_flags malloc elements flags =
     (if elements \<le> 0 then Inl (Panic ''hashinit: bad elements'')
      else let hashsize = hash_double (nat elements) 1 div 2
           in if malloc (hashsize * 8) (hash_mflags flags)
              then Inr (Some (replicate hashsize [], of_nat hashsize - 1))
              else Inr None)"

definition hashinit :: "(nat \<Rightarrow> u32 \<Rightarrow> bool) \<Rightarrow> int \<Rightarrow> (nat list list \<times> u64) option kresult" where
  "hashinit malloc elements = hashinit_flags malloc elements HASH_WAITOK"

definition primes :: "nat list" where
  "primes = [1, 13, 31, 61, 127, 251, 509, 761, 1021, 1531,
     2039, 2557, 3067, 3583, 4093, 4603, 5119, 5623, 6143,
     6653, 7159, 7673, 8191, 12281, 16381, 24571, 32749]"

text \<open>The loop over \<open>primes\<close>: the index at its end.\<close>

function prime_index :: "int \<Rightarrow> nat \<Rightarrow> nat" where
  "prime_index elements i =
     (if i < length primes \<and> int (primes ! i) \<le> elements then prime_index elements (i + 1) else i)"
  by pat_completeness auto
termination
  by (relation "measure (\<lambda>(_, i). length primes - i)") auto

declare prime_index.simps [simp del]

definition phashinit_flags :: "(nat \<Rightarrow> u32 \<Rightarrow> bool) \<Rightarrow> int \<Rightarrow> u32 \<Rightarrow> (nat list list \<times> u64) option" where
  "phashinit_flags malloc elements flags =
     (let hashsize = primes ! (prime_index elements 1 - 1)
      in if malloc (hashsize * 8) (hash_mflags flags)
         then Some (replicate hashsize [], of_nat hashsize)
         else None)"

definition phashinit :: "(nat \<Rightarrow> u32 \<Rightarrow> bool) \<Rightarrow> int \<Rightarrow> (nat list list \<times> u64) option" where
  "phashinit malloc elements = phashinit_flags malloc elements HASH_WAITOK"

section \<open>Scatter and gather\<close>

record iovec =
  iov_base :: nat
  iov_len :: u64

datatype uio_rw = UIO_READ | UIO_WRITE
datatype uio_seg = UIO_USERSPACE | UIO_SYSSPACE | UIO_NOCOPY

text \<open>\<open>uio_iov\<close> is the array from the pointer on.\<close>

record uio =
  uio_iov :: "iovec list"
  uio_iovcnt :: i32
  uio_offset :: i64
  uio_resid :: i64
  uio_segflg :: uio_seg
  uio_rw :: uio_rw

definition copyin :: "nat \<Rightarrow> nat \<Rightarrow> nat \<Rightarrow> mem \<Rightarrow> int \<times> mem" where
  "copyin uaddr kaddr len m = (0, bcopy uaddr kaddr len m)"

definition copyout :: "nat \<Rightarrow> nat \<Rightarrow> nat \<Rightarrow> mem \<Rightarrow> int \<times> mem" where
  "copyout kaddr uaddr len m = (0, bcopy kaddr uaddr len m)"

definition copyout_nofault :: "nat \<Rightarrow> nat \<Rightarrow> nat \<Rightarrow> mem \<Rightarrow> int \<times> mem" where
  "copyout_nofault kaddr udaddr len m = copyout kaddr udaddr len m"

text \<open>One step of the loop copies \<open>cnt\<close> bytes; \<open>uio_yield\<close> does nothing.\<close>

definition uiomove_copy :: "uio \<Rightarrow> nat \<Rightarrow> nat \<Rightarrow> nat \<Rightarrow> mem \<Rightarrow> int \<times> mem" where
  "uiomove_copy uio cp base cnt m =
     (case uio_segflg uio of
        UIO_USERSPACE \<Rightarrow> (if uio_rw uio = UIO_READ then copyout cp base cnt m else copyin base cp cnt m)
      | UIO_SYSSPACE \<Rightarrow> (0, if uio_rw uio = UIO_READ then bcopy cp base cnt m else bcopy base cp cnt m)
      | UIO_NOCOPY \<Rightarrow> (0, m))"

text \<open>\<open>cnt\<close> is a \<open>u_int\<close> that takes the low half of \<open>iov_len\<close>.  Moving past the last \<open>iovec\<close> reads behind the array.\<close>

definition seg_count :: "iovec \<Rightarrow> nat" where
  "seg_count iov = unat (ucast (iov_len iov) :: u32)"

definition uio_advance :: "uio \<Rightarrow> iovec \<Rightarrow> iovec list \<Rightarrow> nat \<Rightarrow> uio" where
  "uio_advance uio iov iovs cnt =
     uio\<lparr>uio_iov := iov\<lparr>iov_base := iov_base iov + cnt, iov_len := iov_len iov - of_nat cnt\<rparr> # iovs,
        uio_resid := uio_resid uio - of_nat cnt, uio_offset := uio_offset uio + of_nat cnt\<rparr>"

function uiomove_loop :: "nat \<Rightarrow> nat \<Rightarrow> uio \<Rightarrow> mem \<Rightarrow> (int \<times> uio \<times> mem) kresult" where
  "uiomove_loop cp n uio m =
     (if n > 0 \<and> uio_resid uio \<noteq> 0
      then case uio_iov uio of
             [] \<Rightarrow> Inl (Panic ''read past the end of the iovec array'')
           | iov # iovs \<Rightarrow>
               if seg_count iov = 0
               then uiomove_loop cp n (uio\<lparr>uio_iov := iovs, uio_iovcnt := uio_iovcnt uio - 1\<rparr>) m
               else let cnt = (if seg_count iov > n then n else seg_count iov)
                    in case uiomove_copy uio cp (iov_base iov) cnt m of
                         (err, m) \<Rightarrow>
                           if err \<noteq> 0 then Inr (err, uio, m)
                           else uiomove_loop (cp + cnt) (n - cnt) (uio_advance uio iov iovs cnt) m
      else Inr (0, uio, m))"
  by pat_completeness auto
termination
  by (relation "measures [\<lambda>(_, n, _, _). n, \<lambda>(_, _, uio, _). length (uio_iov uio)]") auto

declare uiomove_loop.simps [simp del]

text \<open>The thread's flag \<open>TDP_DEADLKTREAT\<close> is set for the duration of the copy: \<open>pflags\<close> before and after.\<close>

definition uiomove :: "u32 \<Rightarrow> nat \<Rightarrow> int \<Rightarrow> uio \<Rightarrow> u32 \<Rightarrow> mem \<Rightarrow> (int \<times> uio \<times> u32 \<times> mem) kresult" where
  "uiomove TDP_DEADLKTREAT cp n uio pflags m =
     (let save = pflags AND TDP_DEADLKTREAT;
          pflags = pflags OR TDP_DEADLKTREAT
      in map_sum id (\<lambda>(err, uio, m). (err, uio, if save = 0 then pflags AND NOT TDP_DEADLKTREAT else pflags, m))
           (uiomove_loop cp (nat n) uio m))"

text \<open>The loop of \<open>copyinuio\<close> over the lengths, \<open>None\<close> when it refuses: \<open>iov_len > INT_MAX - uio_resid\<close> is unsigned.\<close>

fun sum_resid :: "iovec list \<Rightarrow> i64 \<Rightarrow> i64 option" where
  "sum_resid [] resid = Some resid"
| "sum_resid (iov # iovs) resid =
     (if iov_len iov > 0x7fffffff - resid then None else sum_resid iovs (resid + iov_len iov))"

definition UIO_MAXIOV :: nat where "UIO_MAXIOV = 1024"

text \<open>\<open>iovp\<close> is the caller's array, at least \<open>iovcnt\<close> long.  The direction is left as it was in the allocated memory.\<close>

definition copyinuio :: "(nat \<Rightarrow> u32 \<Rightarrow> bool) \<Rightarrow> uio_rw \<Rightarrow> iovec list \<Rightarrow> u32 \<Rightarrow> int \<times> uio option" where
  "copyinuio malloc rw iovp iovcnt =
     (if unat iovcnt > UIO_MAXIOV then (22, None)
      else if \<not> malloc (unat (iovcnt * 16) + 48) M_WAITOK then (12, None)
      else let iov = take (unat iovcnt) iovp
           in case sum_resid iov 0 of
                None \<Rightarrow> (22, None)
              | Some resid \<Rightarrow>
                  (0, Some \<lparr>uio_iov = iov, uio_iovcnt = iovcnt, uio_offset = - 1, uio_resid = resid,
                            uio_segflg = UIO_USERSPACE, uio_rw = rw\<rparr>))"

end
