(* ===== verification/LB_Subr_Props.thy ===== *)
theory LB_Subr_Props
  imports LB_Subr
begin

text \<open>
  Hash tables have the size their masks assume, and \<open>uiomove\<close> is the byte-wise copy between a buffer and the
  concatenation of the segments, on every \<open>uio\<close> that \<open>copyinuio\<close> builds.
\<close>

section \<open>Hash tables\<close>

lemma hash_double_pow:
  "2 ^ k \<le> 2 * e \<Longrightarrow> \<exists>j. hash_double e (2 ^ k) = 2 ^ j \<and> e < 2 ^ j \<and> 2 ^ j \<le> 2 * e"
proof (induction "Suc e - 2 ^ k" arbitrary: k rule: less_induct)
  case less
  show ?case
  proof (cases "2 ^ k \<le> e")
    case True
    have "(0 :: nat) < 2 ^ k" by simp
    then have "Suc e - 2 ^ Suc k < Suc e - 2 ^ k" using True unfolding power_Suc by linarith
    then have "\<exists>j. hash_double e (2 ^ Suc k) = 2 ^ j \<and> e < 2 ^ j \<and> 2 ^ j \<le> 2 * e"
      using True by (intro less.hyps) auto
    then show ?thesis using True by (simp add: hash_double.simps [of e "2 ^ k"])
  next
    case False
    then show ?thesis using less.prems by (intro exI [of _ k]) (simp add: hash_double.simps)
  qed
qed

lemma hash_size:
  assumes "0 < e"
  obtains k where "hash_double e 1 div 2 = 2 ^ k" "2 ^ k \<le> e" "e < 2 * 2 ^ k"
proof -
  obtain j where j: "hash_double e (2 ^ 0) = 2 ^ j" "e < 2 ^ j" "2 ^ j \<le> 2 * e"
    using hash_double_pow [of 0 e] assms by auto
  then obtain k where "j = Suc k" using assms by (cases j) auto
  with j show thesis by (intro that [of k]) auto
qed

text \<open>A table from \<open>hashinit_flags\<close> has the largest power of two of empty buckets that does not exceed the number
  of elements asked for, and masking any hash value with the returned mask is reduction modulo that
  size: it always lands inside the table.\<close>

theorem hashinit_mask:
  assumes "0 < elements" "elements \<le> INT_MAX"
    and "hashinit_flags malloc elements flags = Inr (Some (tbl, hashmask))"
  shows "\<exists>k. tbl = replicate (2 ^ k) [] \<and> 2 ^ k \<le> nat elements \<and> nat elements < 2 ^ Suc k \<and>
    (\<forall>h. unat (h AND hashmask) = unat h mod length tbl)"
proof -
  obtain k where k: "hash_double (nat elements) 1 div 2 = 2 ^ k" "2 ^ k \<le> nat elements" "nat elements < 2 * 2 ^ k"
    using hash_size [of "nat elements"] assms(1) by auto
  have "tbl = replicate (2 ^ k) []" "hashmask = 2 ^ k - 1"
    using assms(1,3) k(1) by (auto simp: hashinit_flags_def Let_def split: if_splits)
  then show ?thesis using k by (intro exI [of _ k]) (simp add: unat_and_mask)
qed

theorem hashinit_mask_witness:
  "hashinit_flags (\<lambda>_ _. True) 5 1 = Inr (Some ([[], [], [], []], 3)) \<and>
   (\<forall>h :: u64. unat (h AND 3) = unat h mod 4)"
proof -
  have r: "hashinit_flags (\<lambda>_ _. True) 5 1 = Inr (Some ([[], [], [], []], 3))" by code_simp
  from hashinit_mask [OF _ _ r] show ?thesis using r by auto
qed

lemma prime_index_spec:
  "1 \<le> i \<Longrightarrow> i \<le> length primes \<Longrightarrow> (\<forall>j<i. j \<noteq> 0 \<longrightarrow> int (primes ! j) \<le> e) \<Longrightarrow>
   let r = prime_index e i in i \<le> r \<and> r \<le> length primes \<and> (\<forall>j<r. j \<noteq> 0 \<longrightarrow> int (primes ! j) \<le> e) \<and>
     (r < length primes \<longrightarrow> e < int (primes ! r))"
proof (induction e i rule: prime_index.induct)
  case (1 e i)
  show ?case
  proof (cases "i < length primes \<and> int (primes ! i) \<le> e")
    case True
    then have "\<forall>j<i + 1. j \<noteq> 0 \<longrightarrow> int (primes ! j) \<le> e" using "1.prems" by (auto simp: less_Suc_eq)
    then show ?thesis using "1.IH" [OF True] True by (simp add: prime_index.simps [of e i] Let_def)
  next
    case False
    then show ?thesis using "1.prems" by (auto simp: prime_index.simps [of e i] Let_def)
  qed
qed

lemma primes_mono: "i < j \<Longrightarrow> j < length primes \<Longrightarrow> primes ! i < primes ! j"
proof -
  have "sorted_wrt (<) primes" by (simp add: primes_def)
  then show "i < j \<Longrightarrow> j < length primes \<Longrightarrow> primes ! i < primes ! j" by (rule sorted_wrt_nth_less)
qed

text \<open>A table from \<open>phashinit_flags\<close> has the largest size of the table of primes that does not exceed the number
  of elements, and at least one bucket.\<close>

theorem phashinit_size:
  assumes "0 < elements" and "phashinit_flags malloc elements flags = Some (tbl, nentries)"
  shows "unat nentries = length tbl \<and> length tbl \<in> set primes \<and> int (length tbl) \<le> elements \<and>
    (\<forall>p\<in>set primes. int p \<le> elements \<longrightarrow> p \<le> length tbl)"
proof -
  define r where "r = prime_index elements 1"
  have r: "1 \<le> r" "r \<le> length primes" "\<forall>j<r. j \<noteq> 0 \<longrightarrow> int (primes ! j) \<le> elements"
    "r < length primes \<longrightarrow> elements < int (primes ! r)"
    using prime_index_spec [of 1 elements] by (auto simp: Let_def r_def primes_def)
  have tbl: "tbl = replicate (primes ! (r - 1)) []" "nentries = of_nat (primes ! (r - 1))"
    using assms(2) by (auto simp: phashinit_flags_def Let_def r_def split: if_splits)
  have mem: "primes ! (r - 1) \<in> set primes" using r(1,2) by (intro nth_mem) simp
  moreover have "p < 2 ^ 64" if "p \<in> set primes" for p using that by (auto simp: primes_def)
  moreover have "int (primes ! (r - 1)) \<le> elements"
  proof (cases "r = 1")
    case True
    then show ?thesis using assms(1) by (simp add: primes_def)
  next
    case False
    then have "r - 1 < r" "r - 1 \<noteq> 0" using r(1) by auto
    then show ?thesis using r(3) by blast
  qed
  moreover have "p \<le> primes ! (r - 1)" if p: "p \<in> set primes" "int p \<le> elements" for p
  proof -
    obtain j where j: "j < length primes" "p = primes ! j" using p(1) by (auto simp: in_set_conv_nth)
    have "j < r"
    proof (rule ccontr)
      assume "\<not> j < r"
      then have "primes ! r \<le> primes ! j" using primes_mono [of r j] j(1) by (cases "j = r") auto
      then show False using r(4) j \<open>\<not> j < r\<close> p(2) by simp
    qed
    then have "j = r - 1 \<or> j < r - 1 \<and> r - 1 < length primes" using r(1,2) by linarith
    then show ?thesis using primes_mono [of j "r - 1"] j(2) by auto
  qed
  ultimately show ?thesis using tbl by (simp add: unat_of_nat)
qed

section \<open>Segments\<close>

text \<open>The addresses of the bytes of a list of segments, in order.\<close>

definition addrs :: "iovec list \<Rightarrow> nat list" where
  "addrs iovs = concat (map (\<lambda>v. [iov_base v ..< iov_base v + unat (iov_len v)]) iovs)"

lemma addrs_simps [simp]:
  "addrs [] = []" "addrs (v # iovs) = [iov_base v ..< iov_base v + unat (iov_len v)] @ addrs iovs"
  by (simp_all add: addrs_def)

text \<open>A well-formed \<open>uio\<close>: the residual count is the number of bytes of the segments, each of which an \<open>u_int\<close> can count.\<close>

definition wf_uio :: "uio \<Rightarrow> bool" where
  "wf_uio uio \<longleftrightarrow> unat (uio_resid uio) = length (addrs (uio_iov uio)) \<and> (\<forall>v\<in>set (uio_iov uio). unat (iov_len v) < 2 ^ 32)"

lemma seg_count_len: "unat (iov_len v) < 2 ^ 32 \<Longrightarrow> seg_count v = unat (iov_len v)"
  by (simp add: seg_count_def unsigned_ucast_eq take_bit_nat_eq_self)

lemma unat_minus_of_nat: "c \<le> unat (x :: 'a::len word) \<Longrightarrow> unat (x - of_nat c) = unat x - c"
proof -
  assume c: "c \<le> unat x"
  have "c < 2 ^ LENGTH('a)" by (rule le_less_trans [OF c unsigned_less])
  then have "unat (of_nat c :: 'a word) = c" by (simp add: unat_of_nat)
  then show ?thesis using c by (simp add: unat_sub word_le_nat_alt)
qed

section \<open>Copies\<close>

definition scattered :: "nat list \<Rightarrow> nat \<Rightarrow> nat \<Rightarrow> mem \<Rightarrow> mem \<Rightarrow> bool" where
  "scattered A cp k m m' \<longleftrightarrow> (\<forall>i<k. m' (A ! i) = m (cp + i)) \<and> (\<forall>a. a \<notin> set (take k A) \<longrightarrow> m' a = m a)"

definition gathered :: "nat list \<Rightarrow> nat \<Rightarrow> nat \<Rightarrow> mem \<Rightarrow> mem \<Rightarrow> bool" where
  "gathered A cp k m m' \<longleftrightarrow> (\<forall>i<k. m' (cp + i) = m (A ! i)) \<and> (\<forall>a. a \<notin> {cp..<cp + k} \<longrightarrow> m' a = m a)"

lemma scattered_trans:
  assumes "scattered A cp c m m1" "scattered (drop c A) (cp + c) k m1 m'"
    and "distinct A" "set A \<inter> {cp..<cp + (c + k)} = {}" "c + k \<le> length A"
  shows "scattered A cp (c + k) m m'"
  unfolding scattered_def
proof (intro conjI allI impI)
  fix i assume i: "i < c + k"
  show "m' (A ! i) = m (cp + i)"
  proof (cases "i < c")
    case True
    have "A ! i \<notin> set (take k (drop c A))"
      using assms(3,5) True by (auto simp: in_set_conv_nth nth_eq_iff_index_eq)
    then show ?thesis using assms(1,2) True by (simp add: scattered_def)
  next
    case False
    then have *: "i - c < k" "c + (i - c) = i" using i by auto
    have "cp + i \<notin> set (take c A)" using assms(4) i by (auto dest!: in_set_takeD)
    then have "m1 (cp + i) = m (cp + i)" using assms(1) by (simp add: scattered_def)
    moreover have "m' (drop c A ! (i - c)) = m1 (cp + c + (i - c))" using assms(2) * by (simp add: scattered_def)
    ultimately show ?thesis using * assms(5) by (simp add: add.assoc)
  qed
next
  fix a assume "a \<notin> set (take (c + k) A)"
  then have "a \<notin> set (take c A)" "a \<notin> set (take k (drop c A))"
    by (simp_all add: take_add)
  then show "m' a = m a" using assms(1,2) by (simp add: scattered_def)
qed

lemma gathered_trans:
  assumes "gathered A cp c m m1" "gathered (drop c A) (cp + c) k m1 m'"
    and "set A \<inter> {cp..<cp + (c + k)} = {}" "c + k \<le> length A"
  shows "gathered A cp (c + k) m m'"
  unfolding gathered_def
proof (intro conjI allI impI)
  fix i assume i: "i < c + k"
  show "m' (cp + i) = m (A ! i)"
  proof (cases "i < c")
    case True
    then show ?thesis using assms(1,2) by (simp add: gathered_def)
  next
    case False
    then have *: "i - c < k" "c + (i - c) = i" using i by linarith+
    have "A ! i \<in> set A" using i assms(4) by simp
    then have "A ! i \<notin> {cp..<cp + c}" using assms(3) by auto
    then have "m1 (A ! i) = m (A ! i)" using assms(1) by (simp add: gathered_def)
    moreover have "m' (cp + c + (i - c)) = m1 (drop c A ! (i - c))"
      using assms(2) *(1) unfolding gathered_def by blast
    ultimately show ?thesis using * assms(4) by (simp add: add.assoc)
  qed
next
  fix a assume "a \<notin> {cp..<cp + (c + k)}"
  then have "a \<notin> {cp..<cp + c}" "a \<notin> {cp + c..<cp + c + k}" by auto
  then show "m' a = m a" using assms(1,2) by (simp add: gathered_def)
qed

lemma scattered_bcopy:
  "c \<le> l \<Longrightarrow> scattered ([b..<b + l] @ A) cp c m (bcopy cp b c m)"
  by (auto simp: scattered_def bcopy_def nth_append take_upt)

lemma gathered_bcopy:
  "c \<le> l \<Longrightarrow> gathered ([b..<b + l] @ A) cp c m (bcopy b cp c m)"
  by (auto simp: gathered_def bcopy_def nth_append)

section \<open>uiomove\<close>

definition moved :: "uio \<Rightarrow> nat \<Rightarrow> nat \<Rightarrow> mem \<Rightarrow> mem \<Rightarrow> bool" where
  "moved uio cp k m m' \<longleftrightarrow>
     (case uio_rw uio of UIO_READ \<Rightarrow> scattered | UIO_WRITE \<Rightarrow> gathered) (addrs (uio_iov uio)) cp k m m'"

lemma wf_uio_skip:
  "wf_uio uio \<Longrightarrow> uio_iov uio = v # iovs \<Longrightarrow> seg_count v = 0 \<Longrightarrow>
    wf_uio (uio\<lparr>uio_iov := iovs, uio_iovcnt := c\<rparr>) \<and> addrs iovs = addrs (uio_iov uio)"
  by (auto simp: wf_uio_def seg_count_len)

lemma uio_advance_fields [simp]:
  "uio_rw (uio_advance uio v iovs c) = uio_rw uio" "uio_segflg (uio_advance uio v iovs c) = uio_segflg uio"
  by (simp_all add: uio_advance_def)

lemma wf_uio_advance:
  assumes "wf_uio uio" "uio_iov uio = v # iovs" "c \<le> seg_count v"
  shows "wf_uio (uio_advance uio v iovs c) \<and>
    addrs (uio_iov (uio_advance uio v iovs c)) = drop c (addrs (uio_iov uio))"
proof -
  have l: "seg_count v = unat (iov_len v)" using assms(1,2) by (simp add: wf_uio_def seg_count_len)
  then have d: "unat (iov_len v - of_nat c) = unat (iov_len v) - c"
    using assms(3) by (intro unat_minus_of_nat) simp
  have "unat (uio_resid uio - of_nat c) = unat (uio_resid uio) - c"
    using assms l by (intro unat_minus_of_nat) (simp add: wf_uio_def)
  then show ?thesis using assms l d by (auto simp: wf_uio_def uio_advance_def)
qed

lemma moved_step:
  assumes "uio_iov uio = v # iovs" "c \<le> unat (iov_len v)" "uio_segflg uio \<noteq> UIO_NOCOPY"
  shows "\<exists>m1. uiomove_copy uio cp (iov_base v) c m = (0, m1) \<and> moved uio cp c m m1"
  using assms scattered_bcopy [OF assms(2)] gathered_bcopy [OF assms(2)]
  by (cases "uio_segflg uio"; cases "uio_rw uio") (auto simp: uiomove_copy_def moved_def copyin_def copyout_def)

lemma moved_trans:
  assumes "moved uio cp c m m1" "moved uio' (cp + c) k m1 m'"
    and "uio_rw uio' = uio_rw uio" "addrs (uio_iov uio') = drop c (addrs (uio_iov uio))"
    and "distinct (addrs (uio_iov uio))" "set (addrs (uio_iov uio)) \<inter> {cp..<cp + (c + k)} = {}"
    and "c + k \<le> length (addrs (uio_iov uio))"
  shows "moved uio cp (c + k) m m'"
proof (cases "uio_rw uio")
  case UIO_READ
  then show ?thesis
    using scattered_trans [OF _ _ assms(5,6,7)] assms(1,2) unfolding moved_def assms(3,4) by simp
next
  case UIO_WRITE
  then show ?thesis
    using gathered_trans [OF _ _ assms(6,7)] assms(1,2) unfolding moved_def assms(3,4) by simp
qed

lemma uiomove_loop_moves:
  assumes "wf_uio uio" "uio_segflg uio \<noteq> UIO_NOCOPY" "distinct (addrs (uio_iov uio))"
    and "set (addrs (uio_iov uio)) \<inter> {cp..<cp + n} = {}"
  shows "\<exists>uio' m'. uiomove_loop cp n uio m = Inr (0, uio', m') \<and> wf_uio uio' \<and>
    addrs (uio_iov uio') = drop n (addrs (uio_iov uio)) \<and>
    moved uio cp (min n (length (addrs (uio_iov uio)))) m m'"
  using assms
proof (induction cp n uio m rule: uiomove_loop.induct)
  case (1 cp n uio m)
  let ?A = "addrs (uio_iov uio)"
  have resid: "uio_resid uio = 0 \<longleftrightarrow> ?A = []"
    using "1.prems"(1) by (auto simp: wf_uio_def unat_eq_0 [symmetric])
  show ?case
  proof (cases "n > 0 \<and> uio_resid uio \<noteq> 0")
    case False
    then show ?thesis
      using "1.prems"(1) resid
      by (auto simp: uiomove_loop.simps [of cp n] moved_def scattered_def gathered_def split: uio_rw.splits)
  next
    case busy: True
    then obtain v iovs where v: "uio_iov uio = v # iovs" using resid by (cases "uio_iov uio") auto
    show ?thesis
    proof (cases "seg_count v = 0")
      case True
      let ?u = "uio\<lparr>uio_iov := iovs, uio_iovcnt := uio_iovcnt uio - 1\<rparr>"
      have w: "wf_uio ?u" "addrs (uio_iov ?u) = ?A" "uio_segflg ?u = uio_segflg uio" "uio_rw ?u = uio_rw uio"
        using wf_uio_skip [OF "1.prems"(1) v True] by auto
      have mv: "moved ?u = moved uio" unfolding moved_def w(2,4) by (rule refl)
      have "uiomove_loop cp n uio m = uiomove_loop cp n ?u m"
        using busy v True by (subst uiomove_loop.simps) simp
      then show ?thesis
        using "1.IH"(1) [OF busy v True, unfolded w(2-4) mv, OF w(1) "1.prems"(2-4)] by (simp only:)
    next
      case nz: False
      define c where "c = (if seg_count v > n then n else seg_count v)"
      have c: "c \<le> seg_count v" "c \<le> n" by (auto simp: c_def)
      have l: "seg_count v = unat (iov_len v)" using "1.prems"(1) v by (simp add: wf_uio_def seg_count_len)
      obtain m1 where m1: "uiomove_copy uio cp (iov_base v) c m = (0, m1)" "moved uio cp c m m1"
        using moved_step [OF v c(1) [unfolded l] "1.prems"(2)] by blast
      let ?u = "uio_advance uio v iovs c"
      have u: "wf_uio ?u" "addrs (uio_iov ?u) = drop c ?A" using wf_uio_advance [OF "1.prems"(1) v c(1)] by auto
      have cA: "c \<le> length ?A" using v c(1) l by simp
      have "set (drop c ?A) \<inter> {cp + c..<cp + c + (n - c)} = {}"
        using "1.prems"(4) c(2) set_drop_subset [of c ?A] by fastforce
      then obtain u' m' where r: "uiomove_loop (cp + c) (n - c) ?u m1 = Inr (0, u', m')" "wf_uio u'"
          "addrs (uio_iov u') = drop (n - c) (drop c ?A)"
          "moved ?u (cp + c) (min (n - c) (length (drop c ?A))) m1 m'"
        using "1.IH"(2) [OF busy v nz c_def m1(1) [symmetric]] u "1.prems"(2,3) by auto
      have k: "min n (length ?A) = c + min (n - c) (length (drop c ?A))" using c(2) cA by auto
      have dis: "set ?A \<inter> {cp..<cp + (c + min (n - c) (length (drop c ?A)))} = {}"
        using "1.prems"(4) k by fastforce
      have "moved uio cp (min n (length ?A)) m m'"
        unfolding k by (rule moved_trans [OF m1(2) r(4)]) (use u(2) "1.prems"(3) dis cA in simp_all)
      moreover have "uiomove_loop cp n uio m = uiomove_loop (cp + c) (n - c) ?u m1"
        using busy v nz m1(1) by (subst uiomove_loop.simps) (simp add: c_def [symmetric] Let_def)
      moreover have "addrs (uio_iov u') = drop n ?A" using r(3) c(2) by simp
      ultimately show ?thesis using r(1,2) by (intro exI [of _ u'] exI [of _ m']) simp
    qed
  qed
qed

text \<open>\<open>copyinuio\<close> builds well-formed \<open>uio\<close>s.\<close>

lemma sum_resid_spec:
  "sum_resid iovs r = Some r' \<Longrightarrow> unat r < 2 ^ 31 \<Longrightarrow>
    unat r' = unat r + length (addrs iovs) \<and> unat r' < 2 ^ 31 \<and> (\<forall>v\<in>set iovs. unat (iov_len v) < 2 ^ 32)"
proof (induction iovs arbitrary: r)
  case (Cons v iovs)
  have "unat (0x7fffffff - r :: u64) = 2 ^ 31 - 1 - unat r"
    using Cons.prems(2) by (subst unat_sub) (auto simp: word_le_nat_alt)
  then have le: "unat (iov_len v) \<le> 2 ^ 31 - 1 - unat r"
    using Cons.prems(1) by (auto simp: word_less_nat_alt not_less split: if_splits)
  then have "unat (r + iov_len v) = unat r + unat (iov_len v)"
    using Cons.prems(2) by (intro unat_add_lem [THEN iffD1]) auto
  moreover have "sum_resid iovs (r + iov_len v) = Some r'" using Cons.prems(1) by (simp split: if_splits)
  moreover have "unat r + unat (iov_len v) < 2 ^ 31" using le Cons.prems(2) by simp
  ultimately show ?case using Cons.IH [of "r + iov_len v"] by simp
qed simp

lemma copyinuio_wf: "copyinuio malloc rw iovp cnt = (0, Some uio) \<Longrightarrow>
    wf_uio uio \<and> uio_iov uio = take (unat cnt) iovp \<and> uio_rw uio = rw \<and> uio_segflg uio = UIO_USERSPACE"
  by (auto simp: copyinuio_def wf_uio_def Let_def dest!: sum_resid_spec split: if_splits option.splits)

text \<open>C12: Scatter and gather are byte-wise copies.  For the \<open>uio\<close> that \<open>copyinuio\<close> builds from an array of segments
  that do not overlap each other or the buffer, \<open>uiomove\<close> of \<open>n\<close> bytes returns no error, never runs off the
  array, moves exactly the smaller of \<open>n\<close> and the total length between the buffer and the concatenation of
  the segments in the direction asked for, changes no other byte, restores the thread's flags and leaves
  a \<open>uio\<close> of the remaining bytes.\<close>

theorem uiomove_copies:
  assumes "copyinuio malloc rw iovp cnt = (0, Some uio)"
    and "A = addrs (take (unat cnt) iovp)" and "distinct A" and "set A \<inter> {cp..<cp + nat n} = {}"
    and "pflags AND T \<in> {0, T}"
  shows "\<exists>uio' m'. uiomove T cp n uio pflags m = Inr (0, uio', pflags, m') \<and>
    addrs (uio_iov uio') = drop (nat n) A \<and> unat (uio_resid uio') = length A - nat n \<and>
    (let k = min (nat n) (length A)
     in if rw = UIO_READ then (\<forall>i<k. m' (A ! i) = m (cp + i)) \<and> (\<forall>a. a \<notin> set (take k A) \<longrightarrow> m' a = m a)
        else (\<forall>i<k. m' (cp + i) = m (A ! i)) \<and> (\<forall>a. a \<notin> {cp..<cp + k} \<longrightarrow> m' a = m a))"
proof -
  let ?fl = "if pflags AND T = 0 then (pflags OR T) AND NOT T else pflags OR T"
  have wf: "wf_uio uio" "addrs (uio_iov uio) = A" "uio_rw uio = rw" "uio_segflg uio \<noteq> UIO_NOCOPY"
    using copyinuio_wf [OF assms(1)] assms(2) by auto
  obtain u' m' where r: "uiomove_loop cp (nat n) uio m = Inr (0, u', m')" "wf_uio u'"
      "addrs (uio_iov u') = drop (nat n) A" "moved uio cp (min (nat n) (length A)) m m'"
    using uiomove_loop_moves [OF wf(1,4), unfolded wf(2), OF assms(3,4)] by blast
  have zero: "(pflags OR T) AND NOT T = pflags" if "pflags AND T = 0"
  proof (rule bit_word_eqI)
    fix i assume "i < LENGTH(32)"
    moreover have "\<not> bit (pflags AND T) i" using that by simp
    ultimately show "bit ((pflags OR T) AND NOT T) i = bit pflags i" by (auto simp: bit_simps)
  qed
  have one: "pflags OR T = pflags" if "pflags AND T = T"
    using arg_cong [OF that, of "\<lambda>x. pflags OR x"] by (simp add: or.commute)
  have "?fl = pflags" using assms(5) zero one by auto
  then have "uiomove T cp n uio pflags m = Inr (0, u', pflags, m')"
    using r(1) by (simp add: uiomove_def Let_def)
  moreover have "unat (uio_resid u') = length A - nat n" using r(2,3) by (simp add: wf_uio_def)
  moreover have "rw = UIO_WRITE \<longleftrightarrow> rw \<noteq> UIO_READ" by (cases rw) auto
  ultimately show ?thesis
    using r(3,4) wf(2,3) by (cases rw) (auto simp: moved_def scattered_def gathered_def Let_def)
qed

theorem uiomove_copies_witness:
  "\<exists>uio uio' m'. copyinuio (\<lambda>_ _. True) UIO_WRITE [\<lparr>iov_base = 100, iov_len = 2\<rparr>, \<lparr>iov_base = 50, iov_len = 3\<rparr>] 2 = (0, Some uio) \<and>
     uiomove 0x800000 10 4 uio 1 of_nat = Inr (0, uio', 1, m') \<and> map m' [10, 11, 12, 13, 14] = [100, 101, 50, 51, 14]"
proof -
  let ?iov = "[\<lparr>iov_base = 100, iov_len = 2\<rparr>, \<lparr>iov_base = 50, iov_len = 3\<rparr>]"
  let ?uio = "\<lparr>uio_iov = ?iov, uio_iovcnt = 2, uio_offset = - 1, uio_resid = 5, uio_segflg = UIO_USERSPACE, uio_rw = UIO_WRITE\<rparr>"
  have c: "copyinuio (\<lambda>_ _. True) UIO_WRITE ?iov 2 = (0, Some ?uio)"
    by (simp add: copyinuio_def UIO_MAXIOV_def)
  have A: "addrs (take (unat (2 :: u32)) ?iov) = [100, 101, 50, 51, 52]" by (simp add: upt_rec)
  obtain u' m' where r: "uiomove 0x800000 10 4 ?uio 1 of_nat = Inr (0, u', 1, m')"
      "\<forall>i<4. m' (10 + i) = of_nat ([100, 101, 50, 51, 52] ! i)" "\<forall>a. a \<notin> {10..<14} \<longrightarrow> m' a = of_nat a"
    using uiomove_copies [OF c A [symmetric], where cp = 10 and n = 4 and pflags = 1 and T = "0x800000" and m = of_nat] by (auto simp: Let_def)
  have "m' 10 = 100" "m' 11 = 101" "m' 12 = 50" "m' 13 = 51" "m' 14 = 14"
    using r(2) [rule_format, of 0] r(2) [rule_format, of 1] r(2) [rule_format, of 2] r(2) [rule_format, of 3] r(3) by auto
  then show ?thesis using c r(1) by auto
qed

end
