(* ===== verification/LB_Siphash.thy ===== *)
theory LB_Siphash
  imports LB_Prelude
begin

text \<open>
  The part of SipHash in \<^verbatim>\<open>bsd/lib/lazybsd_crypto.c\<close>, against the published algorithm.  \<open>SipHash_InitX\<close> and \<open>SipHash_Update\<close>
  are FreeBSD's: arguments of \<open>SipHashX\<close>.
\<close>

section \<open>The code\<close>

type_synonym sip_v = "u64 \<times> u64 \<times> u64 \<times> u64"

record SIPHASH_CTX =
  v :: sip_v
  buf :: "u8 list"
  nbytes :: u64
  buflen :: u8
  rounds_compr :: u8
  rounds_final :: u8
  initialized :: u8

definition SIP_ROTL :: "u64 \<Rightarrow> nat \<Rightarrow> u64" where
  "SIP_ROTL x b = push_bit b x OR drop_bit (64 - b) x"

text \<open>One turn of the loop, in the order of the assignments.\<close>

definition sip_turn :: "sip_v \<Rightarrow> sip_v" where
  "sip_turn = (\<lambda>(v0, v1, v2, v3).
     let v0 = v0 + v1; v2 = v2 + v3; v1 = SIP_ROTL v1 13; v3 = SIP_ROTL v3 16;
         v1 = v1 XOR v0; v3 = v3 XOR v2; v0 = SIP_ROTL v0 32;
         v2 = v2 + v1; v0 = v0 + v3; v1 = SIP_ROTL v1 17; v3 = SIP_ROTL v3 21;
         v1 = v1 XOR v2; v3 = v3 XOR v0; v2 = SIP_ROTL v2 32
     in (v0, v1, v2, v3))"

definition SipRounds :: "SIPHASH_CTX \<Rightarrow> bool \<Rightarrow> SIPHASH_CTX" where
  "SipRounds ctx final =
     (let rounds = (if \<not> final then rounds_compr ctx else rounds_final ctx)
      in ctx\<lparr>v := (sip_turn ^^ unat rounds) (v ctx)\<rparr>)"

text \<open>\<open>le64dec\<close> and \<open>le64toh\<close>: eight bytes, least significant first.\<close>

definition le64dec :: "u8 list \<Rightarrow> u64" where
  "le64dec bs = foldr (\<lambda>b acc. ucast b OR push_bit 8 acc) bs 0"

definition SipHash_SetKey :: "SIPHASH_CTX \<Rightarrow> u8 list \<Rightarrow> SIPHASH_CTX" where
  "SipHash_SetKey ctx key =
     (let k0 = le64dec (take 8 key); k1 = le64dec (take 8 (drop 8 key))
      in case v ctx of (v0, v1, v2, v3) \<Rightarrow>
           ctx\<lparr>v := (v0 XOR k0, v1 XOR k1, v2 XOR k0, v3 XOR k1), initialized := 2\<rparr>)"

text \<open>\<open>SipBuf\<close> of a part of a message or, at the end, of nothing: what it leaves of the source.\<close>

definition sip_block :: "SIPHASH_CTX \<Rightarrow> SIPHASH_CTX" where
  "sip_block ctx =
     (case v ctx of (v0, v1, v2, v3) \<Rightarrow>
        let ctx = SipRounds (ctx\<lparr>v := (v0, v1, v2, v3 XOR le64dec (buf ctx))\<rparr>) False
        in case v ctx of (v0, v1, v2, v3) \<Rightarrow>
             ctx\<lparr>v := (v0 XOR le64dec (buf ctx), v1, v2, v3), buf := replicate 8 0, buflen := 0\<rparr>)"

definition SipBuf :: "SIPHASH_CTX \<Rightarrow> u8 list \<Rightarrow> bool \<Rightarrow> u8 list \<times> SIPHASH_CTX" where
  "SipBuf ctx src final =
     (let x = (if final then 0 else min (length src) (8 - unat (buflen ctx)));
          ctx = (if final then ctx\<lparr>buf := (buf ctx)[7 := ucast (nbytes ctx)]\<rparr>
                 else ctx\<lparr>buf := take (unat (buflen ctx)) (buf ctx) @ take x src @ drop (unat (buflen ctx) + x) (buf ctx),
                         buflen := buflen ctx + of_nat x\<rparr>)
      in (drop x src, if buflen ctx = 8 \<or> final then sip_block ctx else ctx))"

definition sip_zero :: SIPHASH_CTX where
  "sip_zero = \<lparr>v = (0, 0, 0, 0), buf = replicate 8 0, nbytes = 0, buflen = 0, rounds_compr = 0, rounds_final = 0, initialized = 0\<rparr>"

definition SipHash_End :: "SIPHASH_CTX \<Rightarrow> u64 \<times> SIPHASH_CTX" where
  "SipHash_End ctx =
     (let ctx = snd (SipBuf ctx [] True);
          ctx = (case v ctx of (v0, v1, v2, v3) \<Rightarrow> ctx\<lparr>v := (v0, v1, v2 XOR 0xff, v3)\<rparr>);
          ctx = SipRounds ctx True
      in case v ctx of (v0, v1, v2, v3) \<Rightarrow> ((v0 XOR v1) XOR (v2 XOR v3), sip_zero))"

definition SipHashX ::
    "(u8 \<Rightarrow> u8 \<Rightarrow> SIPHASH_CTX) \<Rightarrow> (SIPHASH_CTX \<Rightarrow> u8 list \<Rightarrow> SIPHASH_CTX) \<Rightarrow> u8 \<Rightarrow> u8 \<Rightarrow> u8 list \<Rightarrow> u8 list \<Rightarrow> u64 \<times> SIPHASH_CTX" where
  "SipHashX SipHash_InitX SipHash_Update rc rf key src =
     (let ctx = SipHash_InitX rc rf;
          ctx = SipHash_SetKey ctx key;
          ctx = SipHash_Update ctx src
      in SipHash_End ctx)"

section \<open>The algorithm as published\<close>

definition rotl :: "nat \<Rightarrow> u64 \<Rightarrow> u64" where
  "rotl n x = word_rotl n x"

text \<open>SipRound: the two halves of the add-rotate-xor network.\<close>

definition sip_half :: "nat \<Rightarrow> nat \<Rightarrow> sip_v \<Rightarrow> sip_v" where
  "sip_half r s = (\<lambda>(a, b, c, d).
     let a' = a + b; b' = rotl r b XOR a'; c' = c + d; d' = rotl s d XOR c' in (rotl 32 a', b', c', d'))"

definition sip_round :: "sip_v \<Rightarrow> sip_v" where
  "sip_round x =
     (case sip_half 13 16 x of (v0, v1, v2, v3) \<Rightarrow> case sip_half 17 21 (v2, v1, v0, v3) of (v2, v1, v0, v3) \<Rightarrow> (v0, v1, v2, v3))"

definition sip_compress :: "nat \<Rightarrow> u64 \<Rightarrow> sip_v \<Rightarrow> sip_v" where
  "sip_compress c w = (\<lambda>(v0, v1, v2, v3).
     case (sip_round ^^ c) (v0, v1, v2, v3 XOR w) of (v0, v1, v2, v3) \<Rightarrow> (v0 XOR w, v1, v2, v3))"

function sip_words :: "u8 list \<Rightarrow> u64 list" where
  "sip_words m = (if length m < 8 then [] else le64dec (take 8 m) # sip_words (drop 8 m))"
  by pat_completeness auto
termination
  by (relation "measure length") auto

declare sip_words.simps [simp del]

definition sip_rest :: "u8 list \<Rightarrow> u8 list" where
  "sip_rest m = drop (8 * (length m div 8)) m"

definition sip_key :: "u8 list \<Rightarrow> sip_v" where
  "sip_key key =
     (let k0 = le64dec (take 8 key); k1 = le64dec (take 8 (drop 8 key))
      in (k0 XOR 0x736f6d6570736575, k1 XOR 0x646f72616e646f6d, k0 XOR 0x6c7967656e657261, k1 XOR 0x7465646279746573))"

text \<open>SipHash-c-d: the message in words, the last one padded with zeros up to the length modulo 256.\<close>

definition siphash :: "nat \<Rightarrow> nat \<Rightarrow> u8 list \<Rightarrow> u8 list \<Rightarrow> u64" where
  "siphash c d key m =
     (let last_word = le64dec (sip_rest m @ replicate (7 - length (sip_rest m)) 0 @ [of_nat (length m)])
      in case fold (sip_compress c) (sip_words m @ [last_word]) (sip_key key) of (v0, v1, v2, v3) \<Rightarrow>
           case (sip_round ^^ d) (v0, v1, v2 XOR 0xff, v3) of (v0, v1, v2, v3) \<Rightarrow> v0 XOR v1 XOR v2 XOR v3)"

end
