(* ===== verification/LB_Siphash_Props.thy ===== *)
theory LB_Siphash_Props
  imports LB_Siphash
begin

text \<open>
  The SipHash code computes the published function: the interleaved round is SipRound, the buffer cuts a
  message into words however it is fed, and the finalisation pads and mixes as it should.
\<close>

section \<open>Rounds\<close>

lemma SIP_ROTL_rotl:
  assumes "0 < b" "b < 64"
  shows "SIP_ROTL x b = rotl b x"
proof (rule bit_word_eqI)
  fix n assume n: "n < LENGTH(64)"
  show "bit (SIP_ROTL x b) n = bit (rotl b x) n"
  proof (cases "n < b")
    case True
    then have "64 - b + n = n + 64 - b" "(n + 64 - b) mod 64 = n + 64 - b" using assms n by auto
    then show ?thesis using True assms n by (simp add: SIP_ROTL_def rotl_def bit_simps)
  next
    case False
    have "(n + 64 - b) mod 64 = (n - b + 64) mod 64" using False assms by simp
    also have "\<dots> = n - b" using n by (subst mod_add_self2) simp
    finally have "(n + 64 - b) mod 64 = n - b" .
    moreover have "\<not> bit x (64 - b + n)" using False assms by (auto dest: bit_imp_le_length)
    ultimately show ?thesis using False assms n by (auto simp: SIP_ROTL_def rotl_def bit_simps)
  qed
qed

lemma sip_turn_round: "sip_turn = sip_round"
  by (rule ext) (auto simp: sip_turn_def sip_round_def sip_half_def Let_def SIP_ROTL_rotl split: prod.splits)

section \<open>Words of a message\<close>

lemma sip_rest_step: "sip_rest m = (if length m < 8 then m else sip_rest (drop 8 m))"
proof (cases "length m < 8")
  case False
  then have "8 * (length m div 8) = 8 + 8 * ((length m - 8) div 8)"
    by (simp add: le_div_geq)
  then show ?thesis using False by (simp add: sip_rest_def add.commute)
qed (simp add: sip_rest_def)

lemma length_sip_rest: "length (sip_rest m) = length m mod 8"
  by (simp add: sip_rest_def minus_mult_div_eq_mod)

lemma sip_append_short:
  "length (sip_rest m) + length x < 8 \<Longrightarrow> sip_words (m @ x) = sip_words m \<and> sip_rest (m @ x) = sip_rest m @ x"
proof (induction m rule: sip_words.induct)
  case (1 m)
  then show ?case
    by (cases "length m < 8")
      (simp_all add: sip_words.simps [of m] sip_words.simps [of "m @ x"] sip_rest_step [of m] sip_rest_step [of "m @ x"])
qed

lemma sip_append_full:
  "length (sip_rest m) + length x = 8 \<Longrightarrow>
    sip_words (m @ x) = sip_words m @ [le64dec (sip_rest m @ x)] \<and> sip_rest (m @ x) = []"
proof (induction m rule: sip_words.induct)
  case (1 m)
  show ?case
  proof (cases "length m < 8")
    case True
    then have "length (m @ x) = 8" using 1(2) by (simp add: sip_rest_step [of m])
    then show ?thesis using True
      by (simp add: sip_words.simps [of m] sip_words.simps [of "m @ x"] sip_words.simps [of "[]"] sip_rest_step [of m]
          sip_rest_step [of "m @ x"] sip_rest_step [of "[]"])
  next
    case False
    then show ?thesis using 1
      by (simp add: sip_words.simps [of m] sip_words.simps [of "m @ x"] sip_rest_step [of m] sip_rest_step [of "m @ x"])
  qed
qed

section \<open>Contexts\<close>

text \<open>A context that has taken in the message \<open>m\<close>.\<close>

definition absorbed :: "u8 \<Rightarrow> u8 \<Rightarrow> u8 list \<Rightarrow> u8 list \<Rightarrow> SIPHASH_CTX \<Rightarrow> bool" where
  "absorbed rc rf key m ctx \<longleftrightarrow>
     v ctx = fold (sip_compress (unat rc)) (sip_words m) (sip_key key) \<and>
     buf ctx = sip_rest m @ replicate (8 - length (sip_rest m)) 0 \<and> nbytes ctx = of_nat (length m) \<and>
     buflen ctx = of_nat (length (sip_rest m)) \<and> rounds_compr ctx = rc \<and> rounds_final ctx = rf"

lemma sip_block_compress:
  "sip_block ctx = ctx\<lparr>v := sip_compress (unat (rounds_compr ctx)) (le64dec (buf ctx)) (v ctx), buf := replicate 8 0, buflen := 0\<rparr>"
  by (auto simp: sip_block_def SipRounds_def sip_compress_def sip_turn_round Let_def split: prod.splits)

lemma SipBuf_absorbs:
  assumes a: "absorbed rc rf key m (ctx\<lparr>nbytes := of_nat (length m)\<rparr>)" and src: "src \<noteq> []"
    and r: "SipBuf ctx src False = (src', ctx')"
  shows "\<exists>x. x \<noteq> [] \<and> src = x @ src' \<and> absorbed rc rf key (m @ x) (ctx'\<lparr>nbytes := of_nat (length (m @ x))\<rparr>) \<and>
    nbytes ctx' = nbytes ctx"
proof -
  define n where "n = length (sip_rest m)"
  have n: "n < 8" by (simp add: n_def length_sip_rest)
  have bl: "unat (buflen ctx) = n" "buflen ctx = of_nat n" using a n by (auto simp: absorbed_def n_def unat_of_nat)
  define x where "x = take (min (length src) (8 - n)) src"
  have x: "length x = min (length src) (8 - n)" "x \<noteq> []" "src = x @ drop (length x) src"
    using n src by (auto simp: x_def min_def)
  let ?c = "ctx\<lparr>buf := sip_rest m @ x @ replicate (8 - n - length x) 0, buflen := of_nat (n + length x)\<rparr>"
  have c: "SipBuf ctx src False = (drop (length x) src, if (of_nat (n + length x) :: u8) = 8 then sip_block ?c else ?c)"
    using a bl x(1) n by (simp add: SipBuf_def absorbed_def n_def [symmetric] Let_def x_def)
  have src': "src = x @ src'"
    using x(3) r c by simp
  have full: "(of_nat (n + length x) :: u8) = 8 \<longleftrightarrow> n + length x = 8"
  proof -
    have "unat (of_nat (n + length x) :: u8) = n + length x" using x(1) n by (subst unat_of_nat) simp
    then have "of_nat (n + length x) = (8 :: u8) \<longleftrightarrow> n + length x = unat (8 :: u8)" unfolding word_unat_eq_iff by (simp only:)
    then show ?thesis by simp
  qed
  show ?thesis
  proof (cases "n + length x = 8")
    case True
    then have w: "sip_words (m @ x) = sip_words m @ [le64dec (sip_rest m @ x)]" "sip_rest (m @ x) = []"
      using sip_append_full [of m x] by (auto simp: n_def)
    have "absorbed rc rf key (m @ x) (ctx'\<lparr>nbytes := of_nat (length (m @ x))\<rparr>) \<and> nbytes ctx' = nbytes ctx"
    proof -
      have "ctx' = sip_block ?c" using r c full True by simp
      moreover have "8 - n - length x = 0" using True by simp
      ultimately show ?thesis using a w by (simp add: absorbed_def sip_block_compress)
    qed
    then show ?thesis using x(2) src' by blast
  next
    case False
    then have "n + length x < 8" using x(1) n by auto
    then have w: "sip_words (m @ x) = sip_words m" "sip_rest (m @ x) = sip_rest m @ x"
      using sip_append_short [of m x] by (auto simp: n_def)
    have "absorbed rc rf key (m @ x) (ctx'\<lparr>nbytes := of_nat (length (m @ x))\<rparr>) \<and> nbytes ctx' = nbytes ctx"
    proof -
      have "ctx' = ?c" using r c full False by simp
      then show ?thesis using a w by (simp add: absorbed_def n_def)
    qed
    then show ?thesis using x(2) src' by blast
  qed
qed

text \<open>Feeding a message to \<open>SipBuf\<close> until it is used up.\<close>

function sip_feed :: "SIPHASH_CTX \<Rightarrow> u8 list \<Rightarrow> SIPHASH_CTX" where
  "sip_feed ctx src =
     (if src = [] \<or> unat (buflen ctx) \<ge> 8 then ctx
      else case SipBuf ctx src False of (src', ctx') \<Rightarrow> sip_feed ctx' src')"
  by pat_completeness auto
termination
  by (relation "measure (\<lambda>(_, src). length src)") (auto simp: SipBuf_def Let_def)

declare sip_feed.simps [simp del]

lemma sip_feed_absorbs:
  "absorbed rc rf key m (ctx\<lparr>nbytes := of_nat (length m)\<rparr>) \<Longrightarrow>
    absorbed rc rf key (m @ src) ((sip_feed ctx src)\<lparr>nbytes := of_nat (length (m @ src))\<rparr>) \<and>
    nbytes (sip_feed ctx src) = nbytes ctx"
proof (induction ctx src arbitrary: m rule: sip_feed.induct)
  case (1 ctx src)
  have "unat (buflen ctx) < 8" using 1(2) by (simp add: absorbed_def unat_of_nat length_sip_rest)
  show ?case
  proof (cases "src = []")
    case True
    then show ?thesis using 1(2) by (simp add: sip_feed.simps)
  next
    case False
    obtain src' ctx' where s: "SipBuf ctx src False = (src', ctx')" by force
    obtain x where x: "src = x @ src'" "absorbed rc rf key (m @ x) (ctx'\<lparr>nbytes := of_nat (length (m @ x))\<rparr>)"
        "nbytes ctx' = nbytes ctx"
      using SipBuf_absorbs [OF 1(2) False s] by blast
    have guard: "\<not> (src = [] \<or> unat (buflen ctx) \<ge> 8)" using False \<open>unat (buflen ctx) < 8\<close> by simp
    have "sip_feed ctx src = sip_feed ctx' src'" using guard s by (simp add: sip_feed.simps [of ctx])
    then show ?thesis using 1(1) [OF guard s [symmetric] x(2)] x(1,3) by simp
  qed
qed

section \<open>The hash\<close>

lemma of_nat_ucast: "(ucast (of_nat n :: u64) :: u8) = of_nat n"
  by (rule word_unat_eq_iff [THEN iffD2]) (simp add: unsigned_ucast_eq unsigned_of_nat take_bit_take_bit)

lemma SipHash_End_siphash:
  assumes a: "absorbed rc rf key m ctx"
  shows "SipHash_End ctx = (siphash (unat rc) (unat rf) key m, sip_zero)"
proof -
  let ?r = "sip_rest m"
  have n: "length ?r < 8" by (simp add: length_sip_rest)
  have "(?r @ replicate (8 - length ?r) 0)[7 := b] = ?r @ replicate (7 - length ?r) 0 @ [b]" for b :: u8
  proof -
    have "8 - length ?r = Suc (7 - length ?r)" using n by simp
    then have "?r @ replicate (8 - length ?r) 0 = (?r @ replicate (7 - length ?r) 0) @ [0]"
      by (simp add: replicate_append_same [symmetric])
    moreover have "length (?r @ replicate (7 - length ?r) 0) = 7" using n by simp
    ultimately show ?thesis by (simp only: list_update_append) simp
  qed
  then have "snd (SipBuf ctx [] True) = sip_block (ctx\<lparr>buf := ?r @ replicate (7 - length ?r) 0 @ [of_nat (length m)]\<rparr>)"
    using a by (simp add: SipBuf_def absorbed_def of_nat_ucast)
  then show ?thesis
    using a by (auto simp: SipHash_End_def siphash_def sip_block_compress absorbed_def SipRounds_def sip_turn_round Let_def
        ac_simps split: prod.splits)
qed

text \<open>What FreeBSD's two functions do, as far as the port relies on it: the initial context, and that an update
  takes in its bytes after those taken in before.\<close>

definition sip_init_ok :: "(u8 \<Rightarrow> u8 \<Rightarrow> SIPHASH_CTX) \<Rightarrow> bool" where
  "sip_init_ok f \<longleftrightarrow> (\<forall>rc rf. f rc rf =
     \<lparr>v = (0x736f6d6570736575, 0x646f72616e646f6d, 0x6c7967656e657261, 0x7465646279746573), buf = replicate 8 0, nbytes = 0,
      buflen = 0, rounds_compr = rc, rounds_final = rf, initialized = 1\<rparr>)"

definition sip_update_ok :: "(SIPHASH_CTX \<Rightarrow> u8 list \<Rightarrow> SIPHASH_CTX) \<Rightarrow> bool" where
  "sip_update_ok f \<longleftrightarrow> (\<forall>rc rf key m ctx src. absorbed rc rf key m ctx \<longrightarrow> absorbed rc rf key (m @ src) (f ctx src))"

lemma SetKey_absorbed:
  assumes "sip_init_ok f"
  shows "absorbed rc rf key [] (SipHash_SetKey (f rc rf) key)"
  using assms [unfolded sip_init_ok_def, rule_format, of rc rf]
  by (simp add: absorbed_def SipHash_SetKey_def sip_key_def sip_words.simps sip_rest_def Let_def xor.commute)

text \<open>C11: \<open>SipHashX\<close> is SipHash.  With FreeBSD's initialisation and update, the key set up, the last block and the
  rounds of this code give the published SipHash-c-d of the message under the key, for every message,
  key and number of rounds, and leave the context cleared.\<close>

theorem SipHashX_siphash:
  assumes "sip_init_ok SipHash_InitX" and "sip_update_ok SipHash_Update"
  shows "SipHashX SipHash_InitX SipHash_Update rc rf key src = (siphash (unat rc) (unat rf) key src, sip_zero)"
proof -
  have "absorbed rc rf key ([] @ src) (SipHash_Update (SipHash_SetKey (SipHash_InitX rc rf) key) src)"
    using assms(2) SetKey_absorbed [OF assms(1)] unfolding sip_update_ok_def by blast
  then show ?thesis by (simp add: SipHashX_def SipHash_End_siphash Let_def)
qed

lemma sip_feed_ok: "sip_update_ok (\<lambda>ctx src. sip_feed (ctx\<lparr>nbytes := nbytes ctx + of_nat (length src)\<rparr>) src)"
  unfolding sip_update_ok_def
proof (intro allI impI)
  fix rc rf :: u8 and key m src :: "u8 list" and ctx
  assume a: "absorbed rc rf key m ctx"
  let ?c = "ctx\<lparr>nbytes := nbytes ctx + of_nat (length src)\<rparr>"
  have n: "nbytes ctx = of_nat (length m)" using a by (simp add: absorbed_def)
  have "absorbed rc rf key m (?c\<lparr>nbytes := of_nat (length m)\<rparr>)" using a n by (simp add: absorbed_def)
  from sip_feed_absorbs [OF this, of src] n show "absorbed rc rf key (m @ src) (sip_feed ?c src)"
    by (simp add: absorbed_def)
qed

text \<open>The rounds of the test vector of the published algorithm: SipHash-2-4 of the empty message.\<close>

lemma sip_test_rounds:
  shows
    "sip_round (0x7469686173716475, 0x6b617f6d656e6665, 0x6b7f62616d677361, 0x7b6b696e727e6c7b) =
      (0x6864848c93698c85, 0x41d43f143c94a7dc, 0xf3f94792d7121732, 0x5e52f75805987c12)"
    "sip_round (0x6864848c93698c85, 0x41d43f143c94a7dc, 0xf3f94792d7121732, 0x5e52f75805987c12) =
      (0x75126fd44af190b6, 0x84235164f06142b, 0x37b04f9f8026831d, 0x1b4678cde8253231)"
    "sip_round (0x75126fd44af190b6, 0x84235164f06142b, 0x37b04f9f802683e2, 0x1b4678cde8253231) =
      (0xc432c529d7cf523f, 0x54f98392486c0c10, 0xc3be7bfc8eed3577, 0xcd398a7c7d6a155b)"
    "sip_round (0xc432c529d7cf523f, 0x54f98392486c0c10, 0xc3be7bfc8eed3577, 0xcd398a7c7d6a155b) =
      (0x3abfd9623238d0a7, 0xb9354b5807b0cd1e, 0xae109fa2ba56082a, 0x58dcf8f2cf5b8028)"
    "sip_round (0x3abfd9623238d0a7, 0xb9354b5807b0cd1e, 0xae109fa2ba56082a, 0x58dcf8f2cf5b8028) =
      (0x3808f593fd8ef548, 0x2913fc753c3d6609, 0xa9fbd335618bbce1, 0xc1c9c6a9ec5136a2)"
    "sip_round (0x3808f593fd8ef548, 0x2913fc753c3d6609, 0xa9fbd335618bbce1, 0xc1c9c6a9ec5136a2) =
      (0xe738d0dfdc9b2453, 0x214ac5771e0c4cd2, 0xe2ea71f68a57ef6d, 0x56f7bf1995ce89dd)"
  by (simp_all add: sip_round_def sip_half_def SIP_ROTL_rotl [symmetric] SIP_ROTL_def Let_def)

lemma siphash_test: "siphash 2 4 [0,1,2,3,4,5,6,7,8,9,10,11,12,13,14,15] [] = 0x726fdb47dd0e0e31"
proof -
  let ?key = "[0,1,2,3,4,5,6,7,8,9,10,11,12,13,14,15]"
  have key: "sip_key ?key = (0x7469686173716475, 0x6b617f6d656e6665, 0x6b7f62616d677361, 0x7b6b696e727e6c7b)"
    by (simp add: sip_key_def le64dec_def Let_def)
  have two: "(f ^^ 2) x = f (f x)" for f :: "sip_v \<Rightarrow> sip_v" and x by (simp add: numeral_2_eq_2)
  have four: "(f ^^ 4) x = f (f (f (f x)))" for f :: "sip_v \<Rightarrow> sip_v" and x by (simp add: numeral_eq_Suc)
  have zeros: "(push_bit 8 ^^ n) (0 :: u64) = 0" for n
    by (induction n) auto
  have w: "le64dec (sip_rest [] @ replicate (7 - length (sip_rest [])) 0 @ [of_nat (length ([] :: u8 list))]) = 0" "sip_words [] = []"
    by (simp_all add: sip_rest_def le64dec_def sip_words.simps zeros)
  show ?thesis
    unfolding siphash_def w key Let_def by (simp add: sip_compress_def two four sip_test_rounds)
qed

theorem SipHashX_siphash_witness:
  "SipHashX (\<lambda>rc rf. \<lparr>v = (0x736f6d6570736575, 0x646f72616e646f6d, 0x6c7967656e657261, 0x7465646279746573),
        buf = replicate 8 0, nbytes = 0, buflen = 0, rounds_compr = rc, rounds_final = rf, initialized = 1\<rparr>)
     (\<lambda>ctx src. sip_feed (ctx\<lparr>nbytes := nbytes ctx + of_nat (length src)\<rparr>) src) 2 4 [0,1,2,3,4,5,6,7,8,9,10,11,12,13,14,15] [] =
   (0x726fdb47dd0e0e31, sip_zero)"
proof -
  have "siphash (unat (2 :: u8)) (unat (4 :: u8)) [0,1,2,3,4,5,6,7,8,9,10,11,12,13,14,15] [] = 0x726fdb47dd0e0e31"
    using siphash_test by simp
  then show ?thesis
    by (subst SipHashX_siphash) (auto simp: sip_init_ok_def sip_feed_ok)
qed

end
