(* ===== verification/LB_Msghdr.thy ===== *)
theory LB_Msghdr
  imports LB_Socket
begin

text \<open>
  Message headers and control messages, \<^verbatim>\<open>bsd/lib/lazybsd_socket.c\<close>: \<open>linux2freebsd_cmsg\<close>, \<open>freebsd2linux_cmsghdr\<close>, the
  conversions of \<open>struct msghdr\<close> and the calls \<open>lazybsd_sendmsg\<close> and \<open>lazybsd_recvmsg\<close>, on byte memory.

  A FreeBSD \<open>struct cmsghdr\<close> has a 4-byte length, level and type at offsets 0, 4 and 8; Linux's has an 8-byte length at
  0, level at 8 and type at 12; the data of both start at 16 and both are aligned to 8 bytes.  A loop over the messages need not
  end: \<open>None\<close>.  A \<open>memcpy\<close> of more than half the address space faults.
\<close>

section \<open>Memory\<close>

definition memcpy :: "nat \<Rightarrow> nat \<Rightarrow> u64 \<Rightarrow> mem \<Rightarrow> mem kresult" where
  "memcpy dst src n m = (if unat n \<ge> 2 ^ 63 then Inl (Panic ''memcpy'') else Inr (bcopy src dst (unat n) m))"

definition align8 :: "u64 \<Rightarrow> u64" where
  "align8 n = (n + 7) AND NOT 7"

section \<open>Walking the messages\<close>

definition LINUX_CMSG_FIRSTHDR :: "nat \<Rightarrow> nat \<Rightarrow> nat option" where
  "LINUX_CMSG_FIRSTHDR ctl len = (if len \<ge> 16 then Some ctl else None)"

definition LINUX_CMSG_NXTHDR :: "nat \<Rightarrow> mem \<Rightarrow> nat \<Rightarrow> nat option" where
  "LINUX_CMSG_NXTHDR ctl_end m cmsg =
     (if cmsg + unat (align8 (ld64 m cmsg)) + 16 > ctl_end then None else Some (cmsg + unat (align8 (ld64 m cmsg))))"

definition CMSG_FIRSTHDR :: "nat \<Rightarrow> nat \<Rightarrow> nat option" where
  "CMSG_FIRSTHDR ctl len = (if len \<ge> 12 then Some ctl else None)"

definition CMSG_NXTHDR :: "nat \<Rightarrow> mem \<Rightarrow> nat \<Rightarrow> nat option" where
  "CMSG_NXTHDR ctl_end m cmsg =
     (let len = align8 (ucast (ld32 m cmsg))
      in if cmsg + unat len + 16 > ctl_end then None else Some (cmsg + unat len))"

section \<open>One message\<close>

text \<open>The body of the loop of \<open>freebsd2linux_cmsghdr\<close>: the header, then the data.\<close>

definition f2l_header :: "nat \<Rightarrow> nat \<Rightarrow> mem \<Rightarrow> mem" where
  "f2l_header f l m =
     (let m = st32 (l + 12) (ld32 m (f + 8)) m;
          m = st32 (l + 8) (ld32 m (f + 4)) m
      in st64 l (16 + (ucast (ld32 m f) - 16)) m)"

definition f2l_data :: "fbsd_headers \<Rightarrow> nat \<Rightarrow> nat \<Rightarrow> mem \<Rightarrow> mem kresult" where
  "f2l_data H f l m =
     (if ld32 m (l + 8) = 0 \<and> sint (ld32 m (l + 12)) = H ''IP_RECVTOS''
      then let m = st32 (l + 12) (word_of_int LINUX_IP_TOS) m in Inr (m(l + 16 := m (f + 16)))
      else if ld32 m (l + 8) = 0 \<and> sint (ld32 m (l + 12)) = H ''IP_RECVTTL''
      then let m = st64 l (16 + 4) m; m = st32 (l + 12) (word_of_int LINUX_IP_TTL) m
           in Inr (st32 (l + 16) (ucast (m (f + 16))) m)
      else memcpy (l + 16) (f + 16) (ld64 m l - 16) m)"

text \<open>The body of the loop of \<open>linux2freebsd_cmsg\<close>.\<close>

definition l2f_header :: "nat \<Rightarrow> nat \<Rightarrow> mem \<Rightarrow> mem" where
  "l2f_header l f m =
     (let m = st32 (f + 8) (ld32 m (l + 12)) m;
          m = st32 (f + 4) (ld32 m (l + 8)) m
      in st32 f (ucast (16 + (ld64 m l - 16))) m)"

definition l2f_data :: "fbsd_headers \<Rightarrow> nat \<Rightarrow> nat \<Rightarrow> mem \<Rightarrow> mem kresult" where
  "l2f_data H l f m =
     (if ld32 m (l + 8) = 0 \<and> sint (ld32 m (l + 12)) = LINUX_IP_TOS
      then let m = st32 (f + 8) (word_of_int (H ''IP_TOS'')) m; m = st32 f (16 + 1) m
           in Inr (if ld64 m l = 16 + 4 then m(f + 16 := ucast (ld32 m (l + 16)))
                   else if ld64 m l = 16 + 1 then m(f + 16 := m (l + 16))
                   else m)
      else if ld32 m (l + 8) = 0 \<and> sint (ld32 m (l + 12)) = LINUX_IP_TTL
      then let m = st32 (f + 8) (word_of_int (H ''IP_TTL'')) m; m = st32 f (16 + 1) m
           in Inr (m(f + 16 := ucast (ld32 m (l + 16))))
      else memcpy (f + 16) (l + 16) (ld64 m l - 16) m)"

section \<open>The loops\<close>

text \<open>\<open>fend\<close> and \<open>lend\<close> are the ends of the two control buffers.\<close>

partial_function (option) f2l_loop ::
    "fbsd_headers \<Rightarrow> nat \<Rightarrow> nat \<Rightarrow> nat option \<Rightarrow> nat option \<Rightarrow> mem \<Rightarrow> mem kresult option" where
  "f2l_loop H fend lend f l m =
     (case (f, l) of
        (Some f, Some l) \<Rightarrow>
          (case f2l_data H f l (f2l_header f l m) of
             Inl e \<Rightarrow> Some (Inl e)
           | Inr m \<Rightarrow> f2l_loop H fend lend (CMSG_NXTHDR fend m f) (LINUX_CMSG_NXTHDR lend m l) m)
      | _ \<Rightarrow> Some (Inr m))"

partial_function (option) l2f_loop ::
    "fbsd_headers \<Rightarrow> nat \<Rightarrow> nat \<Rightarrow> nat option \<Rightarrow> nat option \<Rightarrow> mem \<Rightarrow> mem kresult option" where
  "l2f_loop H lend fend l f m =
     (case (l, f) of
        (Some l, Some f) \<Rightarrow>
          (case l2f_data H l f (l2f_header l f m) of
             Inl e \<Rightarrow> Some (Inl e)
           | Inr m \<Rightarrow> l2f_loop H lend fend (LINUX_CMSG_NXTHDR lend m l) (CMSG_NXTHDR fend m f) m)
      | _ \<Rightarrow> Some (Inr m))"

record linux_msghdr =
  lmsg_name :: "nat option"
  lmsg_namelen :: u32
  lmsg_iov :: "iovec list"
  lmsg_iovlen :: u64
  lmsg_control :: "nat option"
  lmsg_controllen :: u64
  lmsg_flags :: i32

record bsd_msghdr = msghdr +
  msg_controllen :: u32
  msg_flags :: i32

text \<open>The control buffers are not NULL where these two are called.\<close>

definition freebsd2linux_cmsghdr :: "fbsd_headers \<Rightarrow> nat \<Rightarrow> nat \<Rightarrow> nat \<Rightarrow> nat \<Rightarrow> mem \<Rightarrow> mem kresult option" where
  "freebsd2linux_cmsghdr H lctl llen fctl flen m =
     f2l_loop H (fctl + flen) (lctl + llen) (CMSG_FIRSTHDR fctl flen) (LINUX_CMSG_FIRSTHDR lctl llen) m"

definition linux2freebsd_cmsg :: "fbsd_headers \<Rightarrow> nat \<Rightarrow> nat \<Rightarrow> nat \<Rightarrow> nat \<Rightarrow> mem \<Rightarrow> mem kresult option" where
  "linux2freebsd_cmsg H lctl llen fctl flen m =
     l2f_loop H (lctl + llen) (fctl + flen) (LINUX_CMSG_FIRSTHDR lctl llen) (CMSG_FIRSTHDR fctl flen) m"

section \<open>Message headers\<close>

definition freebsd2linux_msghdr ::
    "fbsd_headers \<Rightarrow> linux_msghdr \<Rightarrow> bsd_msghdr \<Rightarrow> bool \<Rightarrow> mem \<Rightarrow> (linux_msghdr \<times> mem) kresult option" where
  "freebsd2linux_msghdr H lm fm send_flag m =
     (let (lm, m) = (if lmsg_name lm \<noteq> None \<and> msg_name fm \<noteq> None \<and> \<not> send_flag
                     then let lm = lm\<lparr>lmsg_name := msg_name fm\<rparr>
                          in (lm\<lparr>lmsg_namelen := msg_namelen fm\<rparr>, freebsd2linux_sockaddr (lmsg_name lm) (msg_name fm) m)
                     else (lm, m));
          lm = lm\<lparr>lmsg_iov := msg_iov fm, lmsg_iovlen := scast (msg_iovlen fm)\<rparr>
      in case (msg_control fm, lmsg_control lm) of
           (Some fctl, Some lctl) \<Rightarrow>
             if \<not> send_flag
             then map_option (map_sum id (\<lambda>m. (lm\<lparr>lmsg_controllen := ucast (msg_controllen fm), lmsg_flags := msg_flags fm\<rparr>, m)))
                    (freebsd2linux_cmsghdr H lctl (unat (lmsg_controllen lm)) fctl (unat (msg_controllen fm)) m)
             else Some (Inr (lm\<lparr>lmsg_flags := msg_flags fm\<rparr>, m))
         | _ \<Rightarrow> Some (Inr (lm\<lparr>lmsg_flags := msg_flags fm\<rparr>, m)))"

definition linux2freebsd_msghdr ::
    "fbsd_headers \<Rightarrow> linux_msghdr \<Rightarrow> bsd_msghdr \<Rightarrow> bool \<Rightarrow> mem \<Rightarrow> (bsd_msghdr \<times> mem) kresult option" where
  "linux2freebsd_msghdr H lm fm send_flag m =
     (let (fm, m) = (if lmsg_name lm \<noteq> None \<and> msg_name fm \<noteq> None \<and> send_flag
                     then (fm, linux2freebsd_sockaddr (lmsg_name lm) (lmsg_namelen lm) (msg_name fm) m)
                     else (fm\<lparr>msg_name := lmsg_name lm\<rparr>, m));
          fm = fm\<lparr>msg_namelen := lmsg_namelen lm, msg_iov := lmsg_iov lm, msg_iovlen := ucast (lmsg_iovlen lm),
                  msg_controllen := ucast (lmsg_controllen lm)\<rparr>
      in case lmsg_control lm of
           Some lctl \<Rightarrow>
             if send_flag
             then case msg_control fm of
                    Some fctl \<Rightarrow>
                      map_option (map_sum id (\<lambda>m. (fm\<lparr>msg_flags := lmsg_flags lm\<rparr>, m)))
                        (linux2freebsd_cmsg H lctl (unat (lmsg_controllen lm)) fctl (unat (msg_controllen fm)) m)
                  | None \<Rightarrow> Some (Inl (Panic ''NULL control buffer''))
             else Some (Inr (fm\<lparr>msg_control := Some lctl, msg_flags := lmsg_flags lm\<rparr>, m))
         | None \<Rightarrow> Some (Inr (fm\<lparr>msg_control := None, msg_flags := lmsg_flags lm\<rparr>, m)))"

section \<open>The calls\<close>

text \<open>\<open>sendit\<close> and \<open>kern_recvit\<close> are FreeBSD's, on the whole header; \<open>malloc\<close> gives the address of the copy of the control
  buffer; \<open>freebsd_sa\<close> is the address of the \<open>struct sockaddr_storage\<close> on the stack.  The label \<open>kern_fail\<close> does not free the
  copy.\<close>

type_synonym 'k sendit_fn = "int \<Rightarrow> bsd_msghdr \<Rightarrow> int \<Rightarrow> 'k kcall"
type_synonym 'k recvit_fn = "int \<Rightarrow> bsd_msghdr \<Rightarrow> 'k sock \<Rightarrow> int \<times> bsd_msghdr \<times> 'k sock"

definition bsd_msghdr0 :: "nat option \<Rightarrow> nat option \<Rightarrow> bsd_msghdr" where
  "bsd_msghdr0 sa ctl = \<lparr>msg_name = sa, msg_namelen = 0, msg_iov = [], msg_iovlen = 0, msg_control = ctl,
     msg_controllen = 0, msg_flags = 0\<rparr>"

definition lazybsd_sendmsg ::
    "fbsd_headers \<Rightarrow> 'k kern_if \<Rightarrow> 'k sendit_fn \<Rightarrow> (u64 \<Rightarrow> nat option) \<Rightarrow> nat \<Rightarrow> int \<Rightarrow> linux_msghdr \<Rightarrow> int \<Rightarrow> 'k sock
     \<Rightarrow> (int \<times> linux_msghdr \<times> 'k sock) kresult option" where
  "lazybsd_sendmsg H K snd_it malloc freebsd_sa s lm flags st =
     (let ctl = (if lmsg_control lm \<noteq> None then malloc (lmsg_controllen lm) else None)
      in if lmsg_control lm \<noteq> None \<and> ctl = None then Some (Inr (case kern_fail LAZYBSD_ENOMEM st of (rc, st) \<Rightarrow> (rc, lm, st)))
         else case linux2freebsd_msghdr H lm (bsd_msghdr0 (Some freebsd_sa) ctl) True (umem st) of
           None \<Rightarrow> None
         | Some (Inl e) \<Rightarrow> Some (Inl e)
         | Some (Inr (fm, m)) \<Rightarrow>
             (case snd_it s fm flags (st\<lparr>umem := m\<rparr>) of
                (rc, st) \<Rightarrow>
                  if rc \<noteq> 0 then Some (Inr (case kern_fail rc st of (rc, st) \<Rightarrow> (rc, lm, st)))
                  else
                    let rc = retval st
                    in map_option (map_sum id (\<lambda>(lm, m).
                         let st = st\<lparr>umem := m\<rparr> in (rc, lm, case ctl of Some p \<Rightarrow> kfree K p st | None \<Rightarrow> st)))
                         (freebsd2linux_msghdr H lm fm True (umem st))))"

definition lazybsd_recvmsg ::
    "fbsd_headers \<Rightarrow> 'k recvit_fn \<Rightarrow> int \<Rightarrow> linux_msghdr \<Rightarrow> i32 \<Rightarrow> 'k sock \<Rightarrow> (int \<times> linux_msghdr \<times> 'k sock) kresult option" where
  "lazybsd_recvmsg H recvit s lm flags st =
     (case linux2freebsd_msghdr H lm (bsd_msghdr0 None None) False (umem st) of
        None \<Rightarrow> None
      | Some (Inl e) \<Rightarrow> Some (Inl e)
      | Some (Inr (fm, m)) \<Rightarrow>
          (case recvit s (fm\<lparr>msg_flags := flags\<rparr>) (st\<lparr>umem := m\<rparr>) of
             (rc, fm, st) \<Rightarrow>
               if rc \<noteq> 0 then Some (Inr (case kern_fail rc st of (rc, st) \<Rightarrow> (rc, lm, st)))
               else let rc = retval st
                    in map_option (map_sum id (\<lambda>(lm, m). (rc, lm, st\<lparr>umem := m\<rparr>)))
                         (freebsd2linux_msghdr H lm fm False (umem st))))"

end
