(* ===== verification/LB_Msghdr_Props.thy ===== *)
theory LB_Msghdr_Props
  imports LB_Msghdr
begin

text \<open>
  The conversions of control messages against a reference: the messages laid out in a buffer, one after the
  other, are translated message by message, in place on reception and into a second buffer on sending.
\<close>

section \<open>Messages\<close>

text \<open>A control message is its level, its type and its data.\<close>

type_synonym cmsg = "i32 \<times> i32 \<times> u8 list"

fun fb_cmsg :: "mem \<Rightarrow> nat \<Rightarrow> cmsg \<Rightarrow> bool" where
  "fb_cmsg m p (lev, ty, d) \<longleftrightarrow> ld32 m p = of_nat (16 + length d) \<and> ld32 m (p + 4) = lev \<and> ld32 m (p + 8) = ty \<and>
     mread m (p + 16) (length d) = d"

fun lx_cmsg :: "mem \<Rightarrow> nat \<Rightarrow> cmsg \<Rightarrow> bool" where
  "lx_cmsg m p (lev, ty, d) \<longleftrightarrow> ld64 m p = of_nat (16 + length d) \<and> ld32 m (p + 8) = lev \<and> ld32 m (p + 12) = ty \<and>
     mread m (p + 16) (length d) = d"

fun space :: "cmsg \<Rightarrow> nat" where
  "space (lev, ty, d) = 16 + 8 * ((length d + 7) div 8)"

text \<open>Messages one after the other up to \<open>e\<close>, where no further header fits.\<close>

fun chain :: "(mem \<Rightarrow> nat \<Rightarrow> cmsg \<Rightarrow> bool) \<Rightarrow> mem \<Rightarrow> nat \<Rightarrow> nat \<Rightarrow> cmsg list \<Rightarrow> bool" where
  "chain lay m p e [] \<longleftrightarrow> p \<le> e \<and> e < p + 16"
| "chain lay m p e (x # xs) \<longleftrightarrow> lay m p x \<and> chain lay m (p + space x) e xs"

lemma space_bounds: "16 + length d \<le> space (lev, ty, d)" "16 \<le> space x"
proof -
  have "length d \<le> 8 * ((length d + 7) div 8)"
    using div_mult_mod_eq [of "length d + 7" 8] mod_less_divisor [of 8 "length d + 7"] by simp
  then show "16 + length d \<le> space (lev, ty, d)" by simp
  show "16 \<le> space x" by (cases x) simp
qed

lemma chain_end: "chain lay m p e xs \<Longrightarrow> p \<le> e"
proof (induction xs arbitrary: p)
  case (Cons x xs)
  from Cons.IH Cons.prems have "p + space x \<le> e" by simp
  then show ?case by simp
qed simp

lemma chain_cong:
  "chain lay m p e xs \<Longrightarrow> (\<And>q x. p \<le> q \<Longrightarrow> q + space x \<le> e \<Longrightarrow> lay m q x \<Longrightarrow> lay' m' q (f x)) \<Longrightarrow>
    (\<And>x. x \<in> set xs \<Longrightarrow> space (f x) = space x) \<Longrightarrow> chain lay' m' p e (map f xs)"
proof (induction xs arbitrary: p)
  case (Cons x xs)
  have "chain lay' m' (p + space x) e (map f xs)"
    using Cons.prems by (intro Cons.IH) auto
  then show ?case using Cons.prems chain_end [of lay m "p + space x" e xs] by auto
qed simp

lemma fb_cmsg_cong: "fb_cmsg m p x \<Longrightarrow> (\<And>a. p \<le> a \<Longrightarrow> a < p + space x \<Longrightarrow> m' a = m a) \<Longrightarrow> fb_cmsg m' p x"
proof (cases x)
  case (fields lev ty d)
  assume l: "fb_cmsg m p x" and eq: "\<And>a. p \<le> a \<Longrightarrow> a < p + space x \<Longrightarrow> m' a = m a"
  have e: "m' (p + i) = m (p + i)" if "i < 16 + length d" for i
    using eq [of "p + i"] that space_bounds(1) [of d lev ty] fields by simp
  have "ld32 m' q = ld32 m q" if "q \<in> {p, p + 4, p + 8}" for q
    using that e by (intro ld32_cong) (auto simp: add.assoc)
  moreover have "mread m' (p + 16) (length d) = mread m (p + 16) (length d)"
    using e by (intro mread_cong) (simp add: add.assoc)
  ultimately show ?thesis using l fields by simp
qed

lemma lx_cmsg_cong: "lx_cmsg m p x \<Longrightarrow> (\<And>a. p \<le> a \<Longrightarrow> a < p + space x \<Longrightarrow> m' a = m a) \<Longrightarrow> lx_cmsg m' p x"
proof (cases x)
  case (fields lev ty d)
  assume l: "lx_cmsg m p x" and eq: "\<And>a. p \<le> a \<Longrightarrow> a < p + space x \<Longrightarrow> m' a = m a"
  have e: "m' (p + i) = m (p + i)" if "i < 16 + length d" for i
    using eq [of "p + i"] that space_bounds(1) [of d lev ty] fields by simp
  have "ld32 m' q = ld32 m q" if "q \<in> {p + 8, p + 12}" for q
    using that e by (intro ld32_cong) (auto simp: add.assoc)
  moreover have "ld64 m' p = ld64 m p" using e by (intro ld64_cong) simp
  moreover have "mread m' (p + 16) (length d) = mread m (p + 16) (length d)"
    using e by (intro mread_cong) (simp add: add.assoc)
  ultimately show ?thesis using l fields by simp
qed

lemma chain_frame:
  assumes "chain lay m p e xs" "\<And>a. p \<le> a \<Longrightarrow> a < e \<Longrightarrow> m' a = m a"
    and "\<And>q x. lay m q x \<Longrightarrow> (\<And>a. q \<le> a \<Longrightarrow> a < q + space x \<Longrightarrow> m' a = m a) \<Longrightarrow> lay m' q x"
  shows "chain lay m' p e xs"
  using chain_cong [of lay m p e xs lay m' id] assms by auto

section \<open>Lengths\<close>

lemma unat_align8:
  assumes "n < 2 ^ 63"
  shows "unat (align8 (of_nat n)) = 8 * ((n + 7) div 8)"
proof -
  have "of_nat n + (7 :: u64) = of_nat (n + 7)" by simp
  moreover have "(x :: u64) AND NOT 7 = push_bit 3 (drop_bit 3 x)" for x
  proof -
    have m: "(7 :: u64) = mask 3" by (simp add: mask_eq_exp_minus_1)
    have "bit (x AND NOT (mask 3)) n = bit (push_bit 3 (drop_bit 3 x)) n" if "n < LENGTH(64)" for n
      using that by (cases "n < 3") (auto simp: bit_simps)
    then show ?thesis unfolding m by (rule bit_word_eqI)
  qed
  moreover have "push_bit 3 (drop_bit 3 (of_nat (n + 7) :: u64)) = of_nat (8 * ((n + 7) div 8))"
  proof -
    have "drop_bit 3 (of_nat (n + 7) :: u64) = of_nat ((n + 7) div 8)"
    proof -
      have "unat (of_nat (n + 7) :: u64) = n + 7" using assms by (subst unat_of_nat) simp
      moreover have "unat (of_nat ((n + 7) div 8) :: u64) = (n + 7) div 8" using assms by (subst unat_of_nat) simp
      moreover have "unat (drop_bit 3 x) = unat x div 8" for x :: u64
        using unsigned_less [of x, where ?'a = nat] by (subst unsigned_drop_bit_eq) (simp add: drop_bit_nat_def take_bit_nat_eq_self)
      ultimately show ?thesis by (simp only: word_unat_eq_iff)
    qed
    then show ?thesis by (simp add: push_bit_eq_mult)
  qed
  moreover have "8 * ((n + 7) div 8) < 2 ^ 64" using assms by simp
  ultimately show ?thesis unfolding align8_def by (simp only: unat_of_nat) simp
qed

lemma unat_cmsg_len: "16 + n < 2 ^ 31 \<Longrightarrow> unat (align8 (of_nat (16 + n))) = 16 + 8 * ((n + 7) div 8)"
proof -
  assume n: "16 + n < 2 ^ 31"
  have "8 * ((16 + n + 7) div 8) = 16 + 8 * ((n + 7) div 8)" by presburger
  then show ?thesis using n unat_align8 [of "16 + n"] by simp
qed

lemma ucast_len: "n < 2 ^ 31 \<Longrightarrow> (ucast (of_nat n :: u32) :: u64) = of_nat n"
  by (simp add: word_unat_eq_iff unat_ucast_up unat_of_nat)

lemma ucast_len_down: "(ucast (of_nat n :: u64) :: u32) = of_nat n"
  by (rule word_unat_eq_iff [THEN iffD2]) (simp add: unsigned_ucast_eq unsigned_of_nat take_bit_take_bit)

text \<open>Both walks step over a message by its space.\<close>

lemma lx_next:
  assumes "lx_cmsg m p x" "16 + length (snd (snd x)) < 2 ^ 31"
  shows "LINUX_CMSG_NXTHDR e m p = (if p + space x + 16 > e then None else Some (p + space x))"
  using assms unat_cmsg_len [of "length (snd (snd x))"] by (cases x) (simp add: LINUX_CMSG_NXTHDR_def)

lemma fb_next:
  assumes "ld32 m p = of_nat (16 + n)" "16 + n < 2 ^ 31" "16 + 8 * ((n + 7) div 8) = s"
  shows "CMSG_NXTHDR e m p = (if p + s + 16 > e then None else Some (p + s))"
  using assms(1) unat_cmsg_len [OF assms(2)] ucast_len [OF assms(2)] assms(3) by (simp add: CMSG_NXTHDR_def)

section \<open>Reception\<close>

definition f2l_msg :: "fbsd_headers \<Rightarrow> cmsg \<Rightarrow> cmsg" where
  "f2l_msg H = (\<lambda>(lev, ty, d).
     if lev = 0 \<and> sint ty = H ''IP_RECVTOS'' then (0, 1, d)
     else if lev = 0 \<and> sint ty = H ''IP_RECVTTL'' then (0, 2, [hd d, 0, 0, 0])
     else (lev, ty, d))"

text \<open>Messages the kernel makes: a time to live is one byte.\<close>

definition f2l_ok :: "fbsd_headers \<Rightarrow> cmsg \<Rightarrow> bool" where
  "f2l_ok H = (\<lambda>(lev, ty, d). 16 + length d < 2 ^ 31 \<and> (lev = 0 \<and> sint ty = H ''IP_RECVTTL'' \<longrightarrow> length d = 1))"

lemma f2l_header_in_place:
  assumes "fb_cmsg m p (lev, ty, d)" "16 + length d < 2 ^ 31"
  shows "lx_cmsg (f2l_header p p m) p (lev, ty, d)" "a < p \<or> p + 16 \<le> a \<Longrightarrow> f2l_header p p m a = m a"
proof -
  let ?m = "f2l_header p p m"
  have f: "f2l_header p p m a = m a" if "a < p \<or> p + 16 \<le> a" for a
    using that by (auto simp: f2l_header_def Let_def mem_simps)
  have "ld64 ?m p = of_nat (16 + length d)"
    using assms ucast_len [OF assms(2)] by (simp add: f2l_header_def Let_def mem_simps)
  moreover have "ld32 ?m (p + 8) = lev" "ld32 ?m (p + 12) = ty"
    using assms by (simp_all add: f2l_header_def Let_def mem_simps)
  moreover have "mread ?m (p + 16) (length d) = mread m (p + 16) (length d)"
    by (rule mread_cong) (simp add: f)
  ultimately show "lx_cmsg ?m p (lev, ty, d)" using assms(1) by simp
  show "a < p \<or> p + 16 \<le> a \<Longrightarrow> f2l_header p p m a = m a" by (rule f)
qed

lemma f2l_data_in_place:
  assumes l: "lx_cmsg m p (lev, ty, d)" and ok: "f2l_ok H (lev, ty, d)"
  shows "\<exists>m'. f2l_data H p p m = Inr m' \<and> lx_cmsg m' p (f2l_msg H (lev, ty, d)) \<and>
    (\<forall>a. a < p \<or> p + space (lev, ty, d) \<le> a \<longrightarrow> m' a = m a)"
proof -
  have n: "16 + length d < 2 ^ 31" using ok by (simp add: f2l_ok_def)
  consider (tos) "lev = 0" "sint ty = H ''IP_RECVTOS''"
    | (ttl) "lev = 0" "sint ty = H ''IP_RECVTTL''" "sint ty \<noteq> H ''IP_RECVTOS''"
    | (other) "\<not> (lev = 0 \<and> (sint ty = H ''IP_RECVTOS'' \<or> sint ty = H ''IP_RECVTTL''))" by blast
  then show ?thesis
  proof cases
    case tos
    let ?m = "st32 (p + 12) 1 m"
    have "?m(p + 16 := ?m (p + 16)) = ?m" by simp
    moreover have "mread ?m (p + 16) (length d) = d"
      using l by (simp add: mread_def mem_simps)
    ultimately show ?thesis
      using l tos by (auto simp: f2l_data_def f2l_msg_def mem_simps)
  next
    case ttl
    then obtain b where d: "d = [b]" using ok by (auto simp: f2l_ok_def length_Suc_conv)
    let ?m = "st32 (p + 12) 2 (st64 p 20 m)"
    have "?m (p + 16) = b" using l d by (simp add: mread_def mem_simps)
    then show ?thesis
      using l ttl d by (auto simp: f2l_data_def f2l_msg_def mem_simps mread_st32)
  next
    case other
    have "ld64 m p - 16 = of_nat (length d)" using l by simp
    moreover have "unat (of_nat (length d) :: u64) = length d" using n by (simp add: unat_of_nat)
    ultimately have "f2l_data H p p m = Inr m" using l other n by (auto simp: f2l_data_def memcpy_def)
    then show ?thesis using l other by (auto simp: f2l_msg_def)
  qed
qed

lemma space_f2l: "f2l_ok H x \<Longrightarrow> space (f2l_msg H x) = space x \<and> 16 + length (snd (snd (f2l_msg H x))) < 2 ^ 31"
  by (cases x) (auto simp: f2l_ok_def f2l_msg_def)

lemma f2l_step:
  assumes "fb_cmsg m p x" "f2l_ok H x"
  shows "\<exists>m'. f2l_data H p p (f2l_header p p m) = Inr m' \<and> lx_cmsg m' p (f2l_msg H x) \<and>
    (\<forall>a. a < p \<or> p + space x \<le> a \<longrightarrow> m' a = m a)"
proof -
  obtain lev ty d where x: "x = (lev, ty, d)" by (cases x) auto
  have n: "16 + length d < 2 ^ 31" using assms(2) x by (simp add: f2l_ok_def)
  note h = f2l_header_in_place [OF assms(1) [unfolded x] n]
  show ?thesis using f2l_data_in_place [OF h(1) assms(2) [unfolded x]] h(2) space_bounds(2) [of x] x by fastforce
qed

lemma lx_ld32: "lx_cmsg m p x \<Longrightarrow> ld32 m p = of_nat (16 + length (snd (snd x)))"
proof -
  assume "lx_cmsg m p x"
  then have "ld64 m p = of_nat (16 + length (snd (snd x)))" by (cases x) simp
  moreover have "ld32 m p = ucast (ld64 m p)" by (rule bit_word_eqI) (simp add: bit_simps bit_ld32 bit_ld64)
  ultimately show ?thesis by (simp only: ucast_len_down)
qed

lemma f2l_loop_chain:
  assumes "chain fb_cmsg m p e xs" "xs \<noteq> []" "e \<le> lend" "\<forall>x\<in>set xs. f2l_ok H x"
  shows "\<exists>m'. f2l_loop H e lend (Some p) (Some p) m = Some (Inr m') \<and> chain lx_cmsg m' p e (map (f2l_msg H) xs) \<and>
    (\<forall>a. a < p \<or> e \<le> a \<longrightarrow> m' a = m a)"
  using assms
proof (induction xs arbitrary: p m)
  case (Cons x xs)
  let ?q = "p + space x"
  obtain m1 where m1: "f2l_data H p p (f2l_header p p m) = Inr m1" "lx_cmsg m1 p (f2l_msg H x)"
      "\<forall>a. a < p \<or> ?q \<le> a \<longrightarrow> m1 a = m a"
    using f2l_step [of m p x H] Cons.prems by auto
  have sp: "space (f2l_msg H x) = space x" "16 + length (snd (snd (f2l_msg H x))) < 2 ^ 31"
    using space_f2l Cons.prems(4) by auto
  have nl: "LINUX_CMSG_NXTHDR lend m1 p = (if ?q + 16 > lend then None else Some ?q)"
    using lx_next [OF m1(2) sp(2)] sp(1) by simp
  have nf: "CMSG_NXTHDR e m1 p = (if ?q + 16 > e then None else Some ?q)"
    using fb_next [OF lx_ld32 [OF m1(2)] sp(2), of "space x"] sp(1) by (cases "f2l_msg H x") simp
  have tail: "chain fb_cmsg m1 ?q e xs"
    by (rule chain_frame [of fb_cmsg m]) (use Cons.prems(1) m1(3) in \<open>auto elim!: fb_cmsg_cong\<close>)
  have qe: "?q \<le> e" using chain_end [OF tail] .
  show ?case
  proof (cases xs)
    case Nil
    then have "f2l_loop H e lend (Some p) (Some p) m = Some (Inr m1)"
      using m1(1) nf tail by (simp add: f2l_loop.simps)
    then show ?thesis using m1 qe tail Nil sp(1) by auto
  next
    case (Cons y ys)
    then have "?q + 16 \<le> e"
      using tail space_bounds(2) [of y] chain_end [of fb_cmsg m1 "?q + space y" e ys] by simp
    then have step: "f2l_loop H e lend (Some p) (Some p) m = f2l_loop H e lend (Some ?q) (Some ?q) m1"
      using m1(1) nf nl Cons.prems(3) by (simp add: f2l_loop.simps [of H e lend "Some p"])
    obtain m' where m': "f2l_loop H e lend (Some ?q) (Some ?q) m1 = Some (Inr m')"
        "chain lx_cmsg m' ?q e (map (f2l_msg H) xs)" "\<forall>a. a < ?q \<or> e \<le> a \<longrightarrow> m' a = m1 a"
      using Cons.IH [OF tail] Cons Cons.prems by auto
    have "lx_cmsg m' p (f2l_msg H x)"
      by (rule lx_cmsg_cong [OF m1(2)]) (use m'(3) sp(1) in auto)
    then show ?thesis using step m' m1(3) qe sp(1) by auto
  qed
qed simp

text \<open>C17: On reception control messages are translated in place.  Whatever messages the kernel put into the buffer,
  as long as a time to live is one byte, \<open>freebsd2linux_cmsghdr\<close> ends and leaves the same sequence of messages in
  Linux's layout at the same addresses, with the types \<open>IP_RECVTOS\<close> and \<open>IP_RECVTTL\<close> renamed, the time to live widened to an
  \<open>int\<close> and everything else as it was; no byte outside the buffer changes.\<close>

theorem recv_control_in_place:
  assumes "chain fb_cmsg m p (p + flen) msgs" and "msgs \<noteq> []" and "flen \<le> llen" and "\<forall>x\<in>set msgs. f2l_ok H x"
  shows "\<exists>m'. freebsd2linux_cmsghdr H p llen p flen m = Some (Inr m') \<and>
    chain lx_cmsg m' p (p + flen) (map (f2l_msg H) msgs) \<and> (\<forall>a. a < p \<or> p + flen \<le> a \<longrightarrow> m' a = m a)"
proof -
  obtain x xs where "msgs = x # xs" using assms(2) by (cases msgs) auto
  then have "16 \<le> flen" using assms(1) space_bounds(2) [of x] chain_end [of fb_cmsg m "p + space x" "p + flen" xs] by simp
  then show ?thesis
    using f2l_loop_chain [of m p "p + flen" msgs "p + llen" H] assms
    by (simp add: freebsd2linux_cmsghdr_def CMSG_FIRSTHDR_def LINUX_CMSG_FIRSTHDR_def)
qed

text \<open>The headers of the examples: FreeBSD's numbers of the options.\<close>

definition cmsg_headers :: fbsd_headers where
  "cmsg_headers s = (if s = ''IP_RECVTOS'' then 68 else if s = ''IP_RECVTTL'' then 65 else if s = ''IP_TOS'' then 3 else 4)"

theorem recv_control_in_place_witness:
  "\<exists>m'. freebsd2linux_cmsghdr cmsg_headers 100 64 100 24 (st32 100 17 (st32 104 0 (st32 108 65 (\<lambda>a. 7)))) = Some (Inr m') \<and>
     chain lx_cmsg m' 100 124 [(0, 2, [7, 0, 0, 0])]"
proof -
  let ?m = "st32 100 17 (st32 104 0 (st32 108 65 (\<lambda>a. 7)))"
  have "?m 116 = 7" by (simp add: mem_simps)
  then have c: "chain fb_cmsg ?m 100 (100 + 24) [(0, 65, [7])]" by (simp add: mem_simps mread_def)
  have ok: "\<forall>x\<in>set [(0, 65, [7])]. f2l_ok cmsg_headers x" by (simp add: f2l_ok_def)
  show ?thesis
    using recv_control_in_place [OF c _ _ ok, of 64] by (auto simp: f2l_msg_def cmsg_headers_def)
qed

section \<open>Sending\<close>

definition l2f_msg :: "fbsd_headers \<Rightarrow> cmsg \<Rightarrow> cmsg" where
  "l2f_msg H = (\<lambda>(lev, ty, d).
     if lev = 0 \<and> ty = 1 then (0, word_of_int (H ''IP_TOS''), [hd d])
     else if lev = 0 \<and> ty = 2 then (0, word_of_int (H ''IP_TTL''), [hd d])
     else (lev, ty, d))"

text \<open>What an application may pass: a type of service as an \<open>int\<close> or a byte, a time to live as an \<open>int\<close>.\<close>

definition l2f_ok :: "cmsg \<Rightarrow> bool" where
  "l2f_ok = (\<lambda>(lev, ty, d). 16 + length d < 2 ^ 31 \<and> (lev = 0 \<and> ty = 1 \<longrightarrow> length d \<in> {1, 4}) \<and>
     (lev = 0 \<and> ty = 2 \<longrightarrow> length d = 4))"

lemma l2f_header_copy:
  assumes l: "lx_cmsg m l (lev, ty, d)" and dis: "l + space (lev, ty, d) \<le> f \<or> f + 16 \<le> l"
  shows "lx_cmsg (l2f_header l f m) l (lev, ty, d)"
    "ld32 (l2f_header l f m) f = of_nat (16 + length d)" "ld32 (l2f_header l f m) (f + 4) = lev"
    "ld32 (l2f_header l f m) (f + 8) = ty" "a < f \<or> f + 16 \<le> a \<Longrightarrow> l2f_header l f m a = m a"
proof -
  let ?m = "l2f_header l f m"
  have fr: "?m a = m a" if "a < f \<or> f + 16 \<le> a" for a
    using that by (auto simp: l2f_header_def Let_def mem_simps)
  show "a < f \<or> f + 16 \<le> a \<Longrightarrow> ?m a = m a" by (rule fr)
  show "lx_cmsg ?m l (lev, ty, d)" by (rule lx_cmsg_cong [OF l]) (use dis fr in auto)
  have r: "ld32 (st32 q v m) (l + 8) = ld32 m (l + 8)" "ld64 (st32 q v m) l = ld64 m l"
    if "f \<le> q" "q + 4 \<le> f + 16" for q v m
    using that dis space_bounds(2) [of "(lev, ty, d)"] by (auto intro!: ld_frame)
  have len: "ld64 m l = of_nat (16 + length d)" using l by simp
  show "ld32 ?m f = of_nat (16 + length d)"
    using r ucast_len_down [of "16 + length d"] len by (simp add: l2f_header_def Let_def mem_simps)
  show "ld32 ?m (f + 4) = lev" "ld32 ?m (f + 8) = ty"
    using l r by (simp_all add: l2f_header_def Let_def mem_simps)
qed

lemma l2f_data_copy:
  assumes l: "lx_cmsg m l (lev, ty, d)" and ok: "l2f_ok (lev, ty, d)"
    and f: "ld32 m f = of_nat (16 + length d)" "ld32 m (f + 4) = lev" "ld32 m (f + 8) = ty"
    and dis: "l + space (lev, ty, d) \<le> f \<or> f + space (lev, ty, d) \<le> l"
  shows "\<exists>m'. l2f_data H l f m = Inr m' \<and> fb_cmsg m' f (l2f_msg H (lev, ty, d)) \<and>
    (\<forall>a. a < f \<or> f + space (lev, ty, d) \<le> a \<longrightarrow> m' a = m a)"
proof -
  have n: "16 + length d < 2 ^ 31" using ok by (simp add: l2f_ok_def)
  note sp = space_bounds(1) [of d lev ty]
  have ty: "sint ty = 1 \<longleftrightarrow> ty = 1" "sint ty = 2 \<longleftrightarrow> ty = 2"
    using signed_word_eqI [of ty 1] signed_word_eqI [of ty 2] by auto
  consider (tos) "lev = 0" "ty = 1" | (ttl) "lev = 0" "ty = 2" | (other) "\<not> (lev = 0 \<and> (ty = 1 \<or> ty = 2))" by blast
  then show ?thesis
  proof cases
    case tos
    let ?m = "st32 f 17 (st32 (f + 8) (word_of_int (H ''IP_TOS'')) m)"
    have d: "length d = 1 \<or> length d = 4" using ok tos by (simp add: l2f_ok_def)
    have s: "space (lev, ty, d) = 24" using d by auto
    have k: "ld64 ?m l = ld64 m l" "?m (l + 16) = m (l + 16)" using dis s by (auto simp: mem_simps)
    have hd: "m (l + 16) = hd d" using l d by (cases d) (auto simp: mread_def upt_rec)
    have "l2f_data H l f m = Inr (?m(f + 16 := hd d))"
      using l tos d k hd by (auto simp: l2f_data_def Let_def mem_simps)
    then show ?thesis using tos s f by (auto simp: l2f_msg_def mem_simps mread_def)
  next
    case ttl
    let ?m = "st32 f 17 (st32 (f + 8) (word_of_int (H ''IP_TTL'')) m)"
    have d: "length d = 4" using ok ttl by (simp add: l2f_ok_def)
    have s: "space (lev, ty, d) = 24" using d by auto
    have k: "?m (l + 16) = m (l + 16)" using dis s by (auto simp: mem_simps)
    have hd: "m (l + 16) = hd d" using l d by (cases d) (auto simp: mread_def upt_rec)
    have "l2f_data H l f m = Inr (?m(f + 16 := hd d))"
      using l ttl d k hd by (auto simp: l2f_data_def Let_def mem_simps)
    then show ?thesis using ttl s f by (auto simp: l2f_msg_def mem_simps mread_def)
  next
    case other
    have "ld64 m l - 16 = of_nat (length d)" using l by simp
    moreover have "unat (of_nat (length d) :: u64) = length d" using n by (simp add: unat_of_nat)
    ultimately have "l2f_data H l f m = Inr (bcopy (l + 16) (f + 16) (length d) m)"
      using l other n ty by (auto simp: l2f_data_def memcpy_def)
    then show ?thesis using l other f sp by (auto simp: l2f_msg_def mem_simps)
  qed
qed

lemma space_l2f: "l2f_ok x \<Longrightarrow> space (l2f_msg H x) = space x \<and> 16 + length (snd (snd (l2f_msg H x))) < 2 ^ 31"
  by (cases x) (auto simp: l2f_ok_def l2f_msg_def)

lemma l2f_step:
  assumes "lx_cmsg m l x" "l2f_ok x" "l + space x \<le> f \<or> f + space x \<le> l"
  shows "\<exists>m'. l2f_data H l f (l2f_header l f m) = Inr m' \<and> fb_cmsg m' f (l2f_msg H x) \<and>
    (\<forall>a. a < f \<or> f + space x \<le> a \<longrightarrow> m' a = m a)"
proof -
  obtain lev ty d where x: "x = (lev, ty, d)" by (cases x) auto
  have dis: "l + space (lev, ty, d) \<le> f \<or> f + 16 \<le> l" using assms(3) x space_bounds(2) [of x] by auto
  note h = l2f_header_copy [OF assms(1) [unfolded x] dis]
  show ?thesis
    using l2f_data_copy [OF h(1) assms(2) [unfolded x] h(2-4) assms(3) [unfolded x]] h(5) space_bounds(2) [of x] x by fastforce
qed

lemma l2f_loop_chain:
  assumes "chain lx_cmsg m l le xs" "xs \<noteq> []" "le \<le> f \<or> fe \<le> l" "le - l = fe - f" "f \<le> fe" "\<forall>x\<in>set xs. l2f_ok x"
  shows "\<exists>m'. l2f_loop H le fe (Some l) (Some f) m = Some (Inr m') \<and> chain fb_cmsg m' f fe (map (l2f_msg H) xs) \<and>
    (\<forall>a. a < f \<or> fe \<le> a \<longrightarrow> m' a = m a)"
  using assms
proof (induction xs arbitrary: l f m)
  case (Cons x xs)
  let ?l = "l + space x" and ?f = "f + space x"
  have le: "?l \<le> le" using chain_end [of lx_cmsg m ?l le xs] Cons.prems(1) by simp
  have fe: "?f \<le> fe" using le Cons.prems(4,5) space_bounds(2) [of x] by linarith
  obtain m1 where m1: "l2f_data H l f (l2f_header l f m) = Inr m1" "fb_cmsg m1 f (l2f_msg H x)"
      "\<forall>a. a < f \<or> ?f \<le> a \<longrightarrow> m1 a = m a"
    using l2f_step [of m l x f H] Cons.prems le fe by auto
  have sp: "space (l2f_msg H x) = space x" "16 + length (snd (snd (l2f_msg H x))) < 2 ^ 31" "16 + length (snd (snd x)) < 2 ^ 31"
    using space_l2f [of x H] Cons.prems(6) by (auto simp: l2f_ok_def split: prod.splits)
  have kept: "m1 a = m a" if "l \<le> a" "a < le" for a using that m1(3) Cons.prems(3) fe by auto
  have lx: "lx_cmsg m1 l x" by (rule lx_cmsg_cong [of m]) (use Cons.prems(1) kept le in auto)
  have nl: "LINUX_CMSG_NXTHDR le m1 l = (if ?l + 16 > le then None else Some ?l)"
    using lx_next [OF lx sp(3)] by simp
  have "ld32 m1 f = of_nat (16 + length (snd (snd (l2f_msg H x))))" using m1(2) by (cases "l2f_msg H x") simp
  then have nf: "CMSG_NXTHDR fe m1 f = (if ?f + 16 > fe then None else Some ?f)"
    using fb_next [OF _ sp(2), of m1 f "space x"] sp(1) by (cases "l2f_msg H x") simp
  have tail: "chain lx_cmsg m1 ?l le xs"
    by (rule chain_frame [of lx_cmsg m]) (use Cons.prems(1) kept in \<open>auto elim!: lx_cmsg_cong\<close>)
  show ?case
  proof (cases xs)
    case Nil
    then have "l2f_loop H le fe (Some l) (Some f) m = Some (Inr m1)"
      using m1(1) nl tail by (simp add: l2f_loop.simps)
    moreover have "fe < ?f + 16" using Nil tail Cons.prems(4,5) le fe by simp
    ultimately show ?thesis using m1 fe Nil sp(1) by auto
  next
    case (Cons y ys)
    then have "?l + 16 \<le> le"
      using tail space_bounds(2) [of y] chain_end [of lx_cmsg m1 "?l + space y" le ys] by simp
    moreover from this have "?f + 16 \<le> fe" using Cons.prems(4,5) by linarith
    ultimately have step: "l2f_loop H le fe (Some l) (Some f) m = l2f_loop H le fe (Some ?l) (Some ?f) m1"
      using m1(1) nf nl by (simp add: l2f_loop.simps [of H le fe "Some l"])
    have "le - ?l = fe - ?f" using Cons.prems(4) le fe by linarith
    then obtain m' where m': "l2f_loop H le fe (Some ?l) (Some ?f) m1 = Some (Inr m')"
        "chain fb_cmsg m' ?f fe (map (l2f_msg H) xs)" "\<forall>a. a < ?f \<or> fe \<le> a \<longrightarrow> m' a = m1 a"
      using Cons.IH [OF tail, of ?f] Cons Cons.prems le fe by auto
    have "fb_cmsg m' f (l2f_msg H x)"
      by (rule fb_cmsg_cong [OF m1(2)]) (use m'(3) sp(1) in auto)
    then show ?thesis using step m' m1(3) fe sp(1) by auto
  qed
qed simp

text \<open>C18: On sending control messages are translated into the kernel's copy of the buffer.  For every sequence of messages an
  application may pass, \<open>linux2freebsd_cmsg\<close> ends and fills the copy with the same sequence in FreeBSD's layout, type of service and time
  to live renamed and narrowed to a byte; the application's buffer and everything outside the copy stay as they are.\<close>

theorem send_control_copied:
  assumes "chain lx_cmsg m l (l + n) msgs" and "msgs \<noteq> []" and "l + n \<le> f \<or> f + n \<le> l" and "\<forall>x\<in>set msgs. l2f_ok x"
  shows "\<exists>m'. linux2freebsd_cmsg H l n f n m = Some (Inr m') \<and>
    chain fb_cmsg m' f (f + n) (map (l2f_msg H) msgs) \<and> (\<forall>a. a < f \<or> f + n \<le> a \<longrightarrow> m' a = m a)"
proof -
  obtain x xs where "msgs = x # xs" using assms(2) by (cases msgs) auto
  then have "16 \<le> n" using assms(1) space_bounds(2) [of x] chain_end [of lx_cmsg m "l + space x" "l + n" xs] by simp
  then show ?thesis
    using l2f_loop_chain [of m l "l + n" msgs f "f + n" H] assms
    by (simp add: linux2freebsd_cmsg_def CMSG_FIRSTHDR_def LINUX_CMSG_FIRSTHDR_def)
qed

theorem send_control_copied_witness:
  "\<exists>m'. linux2freebsd_cmsg cmsg_headers 100 24 200 24 (st64 100 20 (st32 108 0 (st32 112 2 (\<lambda>a. 7)))) = Some (Inr m') \<and>
     chain fb_cmsg m' 200 224 [(0, 4, [7])]"
proof -
  let ?m = "st64 100 20 (st32 108 0 (st32 112 2 (\<lambda>a. 7)))"
  have "?m 116 = 7" "?m 117 = 7" "?m 118 = 7" "?m 119 = 7" by (simp_all add: mem_simps)
  then have c: "chain lx_cmsg ?m 100 (100 + 24) [(0, 2, [7, 7, 7, 7])]" by (simp add: mem_simps mread_def)
  have ok: "\<forall>x\<in>set [(0, 2, [7, 7, 7, 7])]. l2f_ok x" by (simp add: l2f_ok_def)
  show ?thesis
    using send_control_copied [OF c _ _ ok, of 200 cmsg_headers] by (auto simp: l2f_msg_def cmsg_headers_def)
qed

end
