(* ===== verification/LB_Zc.thy ===== *)
theory LB_Zc
  imports LB_Prelude
begin

text \<open>
  Zero-copy buffers, \<open>lazybsd_zc_mbuf_get\<close> and \<open>lazybsd_zc_mbuf_write\<close> of \<^verbatim>\<open>bsd/lib/lazybsd_veth.c\<close>.  An mbuf is its trailing space and the
  bytes in it, a chain the list of its mbufs; \<open>bsd_mbuf_off\<close> is the position of an mbuf in the chain.  \<open>m_getm2\<close> is FreeBSD's.
\<close>

section \<open>The code\<close>

record zmbuf =
  m_room :: nat
  m_bytes :: "u8 list"

record lazybsd_zc_mbuf =
  bsd_mbuf :: "zmbuf list"
  bsd_mbuf_off :: "nat option"
  zc_off :: int
  zc_len :: int

text \<open>\<open>max\<close> is FreeBSD's on \<open>u_int\<close>: a negative length stays what it is.\<close>

definition lazybsd_zc_mbuf_get :: "(int \<Rightarrow> zmbuf list option) \<Rightarrow> lazybsd_zc_mbuf option \<Rightarrow> int \<Rightarrow> int \<times> lazybsd_zc_mbuf option" where
  "lazybsd_zc_mbuf_get m_getm2 m len =
     (case m of
        None \<Rightarrow> (-1, None)
      | Some m \<Rightarrow>
          (case m_getm2 (if len < 0 then len else max len 1) of
             None \<Rightarrow> (-1, Some m)
           | Some mb \<Rightarrow> (0, Some (m\<lparr>bsd_mbuf := mb, bsd_mbuf_off := Some 0, zc_off := 0, zc_len := len\<rparr>))))"

text \<open>The loop over the chain from the mbuf at position \<open>i\<close>; \<open>min\<close> compares as \<open>u_int\<close>, so that a negative rest is larger than any
  space.\<close>

fun zc_fill :: "u8 list \<Rightarrow> int \<Rightarrow> nat \<Rightarrow> nat \<Rightarrow> zmbuf list \<Rightarrow> (zmbuf list \<times> nat option) kresult" where
  "zc_fill data len progress i [] = Inr ([], None)"
| "zc_fill data len progress i (mb # mbs) =
     (let n = (if len - int progress < 0 then m_room mb else min (m_room mb) (nat (len - int progress)))
      in if progress + n > length data then Inl (Panic ''read past the data'')
         else
           let mb = mb\<lparr>m_room := m_room mb - n, m_bytes := m_bytes mb @ take n (drop progress data)\<rparr>;
               progress = progress + n
           in if len = int progress then Inr (mb # mbs, Some i)
              else map_sum id (apfst ((#) mb)) (zc_fill data len progress (i + 1) mbs))"

definition lazybsd_zc_mbuf_write :: "lazybsd_zc_mbuf option \<Rightarrow> u8 list \<Rightarrow> int \<Rightarrow> (int \<times> lazybsd_zc_mbuf option) kresult" where
  "lazybsd_zc_mbuf_write zm data len =
     (case zm of
        None \<Rightarrow> Inr (-1, None)
      | Some zm \<Rightarrow>
          if c_int (zc_off zm + len) > zc_len zm then Inr (-1, Some zm)
          else
            let i = (case bsd_mbuf_off zm of Some i \<Rightarrow> i | None \<Rightarrow> length (bsd_mbuf zm))
            in map_sum id (\<lambda>(mbs, off). (len, Some (zm\<lparr>bsd_mbuf := take i (bsd_mbuf zm) @ mbs, bsd_mbuf_off := off,
                                               zc_off := c_int (zc_off zm + len)\<rparr>)))
                 (zc_fill data len 0 i (drop i (bsd_mbuf zm))))"

definition lazybsd_zc_mbuf_read :: "lazybsd_zc_mbuf option \<Rightarrow> u8 list \<Rightarrow> int \<Rightarrow> int" where
  "lazybsd_zc_mbuf_read m data len = 0"

section \<open>Writing in parts\<close>

definition chain_bytes :: "zmbuf list \<Rightarrow> u8 list" where
  "chain_bytes mbs = concat (map m_bytes mbs)"

definition chain_room :: "zmbuf list \<Rightarrow> nat" where
  "chain_room mbs = sum_list (map m_room mbs)"

lemma chain_simps [simp]:
  "chain_bytes [] = []" "chain_bytes (mb # mbs) = m_bytes mb @ chain_bytes mbs" "chain_bytes (a @ b) = chain_bytes a @ chain_bytes b"
  "chain_room [] = 0" "chain_room (mb # mbs) = m_room mb + chain_room mbs" "chain_room (a @ b) = chain_room a + chain_room b"
  by (simp_all add: chain_bytes_def chain_room_def)

text \<open>A chain in which \<open>w\<close> has been written: nothing lies behind the current mbuf, and there is room for the rest.\<close>

definition zc_holds :: "u8 list \<Rightarrow> int \<Rightarrow> lazybsd_zc_mbuf \<Rightarrow> bool" where
  "zc_holds w len zm \<longleftrightarrow> (\<exists>pre mb post. bsd_mbuf zm = pre @ mb # post \<and> bsd_mbuf_off zm = Some (length pre) \<and>
     chain_bytes (bsd_mbuf zm) = w \<and> chain_bytes post = [] \<and> len - int (length w) \<le> int (chain_room (mb # post))) \<and>
     zc_off zm = int (length w) \<and> zc_len zm = len \<and> int (length w) \<le> len"

lemma zc_fill_writes:
  assumes "progress \<le> length data" "length data - progress \<le> chain_room mbs" "mbs \<noteq> []" "chain_bytes (tl mbs) = []"
  shows "\<exists>pre mb post. zc_fill data (int (length data)) progress i mbs = Inr (pre @ mb # post, Some (i + length pre)) \<and>
    chain_bytes (pre @ mb # post) = chain_bytes mbs @ drop progress data \<and> chain_bytes post = [] \<and>
    chain_room (mb # post) = chain_room mbs - (length data - progress)"
  using assms
proof (induction mbs arbitrary: progress i)
  case (Cons mb mbs)
  define n where "n = min (m_room mb) (length data - progress)"
  let ?mb = "mb\<lparr>m_room := m_room mb - n, m_bytes := m_bytes mb @ take n (drop progress data)\<rparr>"
  have n: "progress + n \<le> length data" "(if int (length data) - int progress < 0 then m_room mb
      else min (m_room mb) (nat (int (length data) - int progress))) = n"
    using Cons.prems(1) by (auto simp: n_def nat_diff_distrib)
  show ?case
  proof (cases "progress + n = length data")
    case True
    then have "zc_fill data (int (length data)) progress i (mb # mbs) = Inr (?mb # mbs, Some i)"
      using n by (simp add: Let_def)
    moreover have "n = length data - progress" using True by simp
    ultimately show ?thesis
      using Cons.prems(4) by (intro exI [of _ "[]"] exI [of _ ?mb] exI [of _ mbs]) (auto simp: n_def)
  next
    case False
    then have room: "n = m_room mb" using n(1) by (auto simp: n_def min_def split: if_splits)
    have ne: "mbs \<noteq> []" using False n(1) room Cons.prems(2) by (cases mbs) auto
    have cb: "chain_bytes (tl mbs) = []" "chain_bytes mbs = []" using Cons.prems(4) by (cases mbs; simp)+
    have "length data - (progress + n) \<le> chain_room mbs" using Cons.prems(2) room by simp
    from Cons.IH [OF n(1) this ne cb(1), of "i + 1"] cb(2) obtain pre m' post where r:
        "zc_fill data (int (length data)) (progress + n) (i + 1) mbs = Inr (pre @ m' # post, Some (i + 1 + length pre))"
        "chain_bytes (pre @ m' # post) = drop (progress + n) data" "chain_bytes post = []"
        "chain_room (m' # post) = chain_room mbs - (length data - (progress + n))"
      by auto
    have "zc_fill data (int (length data)) progress i (mb # mbs) = Inr ((?mb # pre) @ m' # post, Some (i + length (?mb # pre)))"
      using n False r(1) by (simp add: Let_def)
    moreover have "take n (drop progress data) @ drop (progress + n) data = drop progress data"
      by (metis add.commute append_take_drop_id drop_drop)
    moreover have "chain_room (m' # post) = chain_room (mb # mbs) - (length data - progress)"
      using r(4) room n(1) by simp
    ultimately show ?thesis
      using r(2,3) cb(2)
      by (intro exI [of _ "?mb # pre"], intro exI [of _ m'], intro exI [of _ post]) auto
  qed
qed simp

lemma zc_write_holds:
  assumes "zc_holds w len zm" "int (length w + length data) \<le> len" "len \<le> INT_MAX"
  shows "\<exists>zm'. lazybsd_zc_mbuf_write (Some zm) data (int (length data)) = Inr (int (length data), Some zm') \<and> zc_holds (w @ data) len zm'"
proof -
  obtain pre mb post where z: "bsd_mbuf zm = pre @ mb # post" "bsd_mbuf_off zm = Some (length pre)"
      "chain_bytes (bsd_mbuf zm) = w" "chain_bytes post = []" "len - int (length w) \<le> int (chain_room (mb # post))"
      "zc_off zm = int (length w)" "zc_len zm = len"
    using assms(1) by (auto simp: zc_holds_def)
  obtain pre' mb' post' where f: "zc_fill data (int (length data)) 0 (length pre) (mb # post) =
        Inr (pre' @ mb' # post', Some (length pre + length pre'))"
      "chain_bytes (pre' @ mb' # post') = chain_bytes (mb # post) @ data" "chain_bytes post' = []"
      "chain_room (mb' # post') = chain_room (mb # post) - length data"
    using zc_fill_writes [of 0 data "mb # post" "length pre"] z(4,5) assms(2) by auto
  have c: "c_int (zc_off zm + int (length data)) = int (length (w @ data))"
    using z(6) assms(2,3) by (simp add: c_int_id)
  let ?zm = "zm\<lparr>bsd_mbuf := pre @ pre' @ mb' # post', bsd_mbuf_off := Some (length pre + length pre'), zc_off := int (length (w @ data))\<rparr>"
  have "lazybsd_zc_mbuf_write (Some zm) data (int (length data)) = Inr (int (length data), Some ?zm)"
    using c z(1,2,7) f(1) assms(2) by (simp add: lazybsd_zc_mbuf_write_def Let_def)
  moreover have "zc_holds (w @ data) len ?zm"
    unfolding zc_holds_def
  proof (rule conjI, rule exI [of _ "pre @ pre'"], rule exI [of _ mb'], rule exI [of _ post'])
    have "len - int (length (w @ data)) \<le> int (chain_room (mb' # post'))" using f(4) z(5) assms(2) by simp
    then show "bsd_mbuf ?zm = (pre @ pre') @ mb' # post' \<and> bsd_mbuf_off ?zm = Some (length (pre @ pre')) \<and>
        chain_bytes (bsd_mbuf ?zm) = w @ data \<and> chain_bytes post' = [] \<and>
        len - int (length (w @ data)) \<le> int (chain_room (mb' # post'))"
      using z(1,3) f(2,3) by simp
  qed (use z(7) assms(2) in simp)
  ultimately show ?thesis by blast
qed

text \<open>A sequence of writes; the number a write answers when it is accepted is its length (\<open>zc_write_holds\<close>), although the comment in
  \<^verbatim>\<open>lazybsd_api.h\<close> announces 0.\<close>

fun zc_writes :: "u8 list list \<Rightarrow> lazybsd_zc_mbuf option \<Rightarrow> (int list \<times> lazybsd_zc_mbuf option) kresult" where
  "zc_writes [] zm = Inr ([], zm)"
| "zc_writes (d # ds) zm =
     (case lazybsd_zc_mbuf_write zm d (int (length d)) of
        Inl e \<Rightarrow> Inl e
      | Inr (r, zm) \<Rightarrow> map_sum id (apfst ((#) r)) (zc_writes ds zm))"

lemma zc_writes_hold:
  "zc_holds w len zm \<Longrightarrow> int (length w + length (concat ds)) \<le> len \<Longrightarrow> len \<le> INT_MAX \<Longrightarrow>
    \<exists>zm'. zc_writes ds (Some zm) = Inr (map (\<lambda>d. int (length d)) ds, Some zm') \<and> zc_holds (w @ concat ds) len zm'"
proof (induction ds arbitrary: w zm)
  case (Cons d ds)
  obtain zm1 where 1: "lazybsd_zc_mbuf_write (Some zm) d (int (length d)) = Inr (int (length d), Some zm1)" "zc_holds (w @ d) len zm1"
    using zc_write_holds [OF Cons.prems(1), of d] Cons.prems(2,3) by auto
  from Cons.IH [OF 1(2)] Cons.prems(2,3) 1(1) show ?case by auto
qed simp

text \<open>FreeBSD's promise: the chain has room for the length asked for and is empty.\<close>

definition getm2_ok :: "(int \<Rightarrow> zmbuf list option) \<Rightarrow> bool" where
  "getm2_ok f \<longleftrightarrow> (\<forall>n mbs. 0 < n \<longrightarrow> f n = Some mbs \<longrightarrow> mbs \<noteq> [] \<and> chain_bytes mbs = [] \<and> n \<le> int (chain_room mbs))"

text \<open>C26: data written to a zero-copy buffer in parts are in the chain in order.  For a buffer obtained for \<open>len\<close> bytes from an
  \<open>m_getm2\<close> that keeps its promise, every sequence of writes of at most \<open>len\<close> bytes together is accepted (no write answers -1, the
  error of \<^verbatim>\<open>lazybsd_api.h\<close>), wherever the writes cross the mbufs of the chain, and leaves exactly the concatenation of the parts in the
  chain; a write beyond \<open>len\<close> is refused with -1 and changes nothing.\<close>

theorem zc_write_concat:
  assumes "getm2_ok m_getm2" and "0 \<le> len" "len \<le> INT_MAX"
    and "lazybsd_zc_mbuf_get m_getm2 (Some zm0) len = (0, Some zm)" and "int (length (concat ds)) \<le> len"
  shows "\<exists>rs zm'. zc_writes ds (Some zm) = Inr (rs, Some zm') \<and> length rs = length ds \<and> -1 \<notin> set rs \<and>
    chain_bytes (bsd_mbuf zm') = concat ds \<and>
    (\<forall>d n. len < int (length (concat ds)) + n \<longrightarrow> int (length (concat ds)) + n \<le> INT_MAX \<longrightarrow>
       lazybsd_zc_mbuf_write (Some zm') d n = Inr (-1, Some zm'))"
proof -
  obtain mbs where g: "m_getm2 (max len 1) = Some mbs" "zm = zm0\<lparr>bsd_mbuf := mbs, bsd_mbuf_off := Some 0, zc_off := 0, zc_len := len\<rparr>"
    using assms(2,4) by (auto simp: lazybsd_zc_mbuf_get_def split: option.splits)
  have ok: "mbs \<noteq> []" "chain_bytes mbs = []" "max len 1 \<le> int (chain_room mbs)"
    using assms(1) g(1) unfolding getm2_ok_def by (metis max.strict_coboundedI2 zero_less_one)+
  then obtain mb post where m: "mbs = mb # post" by (cases mbs) auto
  have "zc_holds [] len zm"
    using ok m assms(2) unfolding zc_holds_def g(2) by (auto intro!: exI [of _ "[]"] exI [of _ mb] exI [of _ post])
  from zc_writes_hold [OF this, of ds] assms(3,5) obtain zm' where
    r: "zc_writes ds (Some zm) = Inr (map (\<lambda>d. int (length d)) ds, Some zm')" "zc_holds (concat ds) len zm'" by auto
  have "lazybsd_zc_mbuf_write (Some zm') d n = Inr (-1, Some zm')"
    if "len < int (length (concat ds)) + n" "int (length (concat ds)) + n \<le> INT_MAX" for d n
    using that r(2) assms(2) by (simp add: lazybsd_zc_mbuf_write_def zc_holds_def c_int_id)
  moreover have "-1 \<notin> set (map (\<lambda>d. int (length d)) ds)" by auto
  ultimately show ?thesis using r by (auto simp: zc_holds_def)
qed

theorem zc_write_concat_witness:
  "\<exists>rs zm'. zc_writes [[1, 2], [3]] (snd (lazybsd_zc_mbuf_get (\<lambda>n. Some (replicate (nat n) \<lparr>m_room = 1, m_bytes = []\<rparr>))
        (Some \<lparr>bsd_mbuf = [], bsd_mbuf_off = None, zc_off = 0, zc_len = 0\<rparr>) 4)) = Inr (rs, Some zm') \<and> -1 \<notin> set rs \<and>
     chain_bytes (bsd_mbuf zm') = [1, 2, 3]"
proof -
  let ?g = "\<lambda>n. Some (replicate (nat n) \<lparr>m_room = 1, m_bytes = []\<rparr>)"
  let ?z = "\<lparr>bsd_mbuf = [], bsd_mbuf_off = None, zc_off = 0, zc_len = 0\<rparr>"
  have r: "chain_bytes (replicate n \<lparr>m_room = 1, m_bytes = []\<rparr>) = []" "chain_room (replicate n \<lparr>m_room = 1, m_bytes = []\<rparr>) = n" for n
    by (induction n) auto
  have ok: "getm2_ok ?g" using r by (auto simp: getm2_ok_def)
  have z: "lazybsd_zc_mbuf_get ?g (Some ?z) 4 = (0, Some \<lparr>bsd_mbuf = replicate 4 \<lparr>m_room = 1, m_bytes = []\<rparr>, bsd_mbuf_off = Some 0,
      zc_off = 0, zc_len = 4\<rparr>)"
    by (simp add: lazybsd_zc_mbuf_get_def)
  show ?thesis using zc_write_concat [OF ok _ _ z, of "[[1, 2], [3]]"] z by auto
qed

end
