(* ===== verification/LB_Veth.thy ===== *)
theory LB_Veth
  imports LB_Prelude LB_Digits
begin

text \<open>
  The virtual Ethernet interface, \<^verbatim>\<open>bsd/lib/lazybsd_veth.c\<close>: reading the port configuration, setting addresses and gateways,
  attaching and detaching, and the interface flags.

  The FreeBSD functions it calls are the datatype \<open>vcall\<close>; the state keeps the calls made so far and \<open>answer\<close>, an argument
  of every operation, gives the result of a call after others.  \<open>inet_pton\<close> is a pair of arguments, for IPv4
  addresses as \<open>in_addr_t\<close> (network order read as a little-endian word) and for IPv6 as 16 bytes.
\<close>

section \<open>Configuration\<close>

record hw_features =
  rx_csum :: bool
  tx_csum_ip :: bool
  tx_csum_l4 :: bool
  tx_tso :: bool

record port_cfg =
  ifname :: "string option"
  port_id :: u8
  cfg_mac :: "u8 list"
  features :: hw_features
  cfg_addr :: string
  cfg_netmask :: string
  cfg_broadcast :: string
  cfg_gateway :: string
  vip_ifname :: "string option"
  vip_addr_array :: "string list"
  addr6_str :: "string option"
  gateway6_str :: "string option"
  prefix_len :: u8
  vip_addr6_array :: "string list"
  vip_prefix_len :: u8

datatype capability = IFCAP_RXCSUM | IFCAP_TXCSUM | IFCAP_TSO
datatype csum_flag = CSUM_IP | CSUM_DELAY_DATA | CSUM_TSO
datatype if_flag = IFF_UP | IFF_BROADCAST | IFF_SIMPLEX | IFF_MULTICAST
datatype drv_flag = IFF_DRV_RUNNING | IFF_DRV_OACTIVE

record ifnet =
  if_dname :: string
  if_flags :: "if_flag set"
  if_drv_flags :: "drv_flag set"
  if_capabilities :: "capability set"
  if_hwassist :: "csum_flag set"
  if_capenable :: "capability set"

record softc =
  mac :: "u8 list"
  host_ifname :: string
  ip :: u32
  netmask :: u32
  broadcast :: u32
  gateway :: u32
  vip :: "u32 list"
  ip6 :: "u8 list"
  gateway6 :: "u8 list"
  prefix_length :: u8
  vip6 :: "(u8 list) list"
  vip_prefix_length :: u8
  ifp :: ifnet
  host_ctx :: "nat option"

definition VIP_MAX_NUM :: nat where "VIP_MAX_NUM = 64"

text \<open>The loop over the virtual addresses: those that parse are stored one after the other, in an array of \<open>VIP_MAX_NUM\<close>.\<close>

fun config_vips :: "(string \<Rightarrow> 'a option) \<Rightarrow> string list \<Rightarrow> 'a list \<Rightarrow> 'a list kresult" where
  "config_vips pton [] vs = Inr vs"
| "config_vips pton (s # ss) vs =
     (case pton s of
        Some a \<Rightarrow> if length vs < VIP_MAX_NUM then config_vips pton ss (vs @ [a]) else Inl (Panic ''array overrun'')
      | None \<Rightarrow> config_vips pton ss vs)"

text \<open>An address that does not parse leaves the field as it was.\<close>

definition pton_or :: "(string \<Rightarrow> 'a option) \<Rightarrow> string \<Rightarrow> 'a \<Rightarrow> 'a" where
  "pton_or pton s d = (case pton s of Some a \<Rightarrow> a | None \<Rightarrow> d)"

type_synonym pton = "(string \<Rightarrow> u32 option) \<times> (string \<Rightarrow> u8 list option)"

definition veth_config4 :: "pton \<Rightarrow> port_cfg \<Rightarrow> softc \<Rightarrow> softc kresult" where
  "veth_config4 P cfg sc =
     (let sc = sc\<lparr>mac := cfg_mac cfg, ip := pton_or (fst P) (cfg_addr cfg) (ip sc),
                 netmask := pton_or (fst P) (cfg_netmask cfg) (netmask sc),
                 broadcast := pton_or (fst P) (cfg_broadcast cfg) (broadcast sc),
                 gateway := pton_or (fst P) (cfg_gateway cfg) (gateway sc)\<rparr>
      in if vip_addr_array cfg \<noteq> []
         then map_sum id (\<lambda>vs. sc\<lparr>vip := vs\<rparr>) (config_vips (fst P) (vip_addr_array cfg) [])
         else Inr sc)"

definition veth_config6 :: "pton \<Rightarrow> port_cfg \<Rightarrow> softc \<Rightarrow> softc kresult" where
  "veth_config6 P cfg sc =
     (let sc = (case addr6_str cfg of
                  Some a \<Rightarrow>
                    let sc = sc\<lparr>ip6 := pton_or (snd P) a (ip6 sc)\<rparr>;
                        sc = (case gateway6_str cfg of
                                Some g \<Rightarrow> sc\<lparr>gateway6 := pton_or (snd P) g (gateway6 sc)\<rparr>
                              | None \<Rightarrow> sc)
                    in sc\<lparr>prefix_length := if prefix_len cfg = 0 then 64 else prefix_len cfg\<rparr>
                | None \<Rightarrow> sc)
      in if vip_addr6_array cfg \<noteq> []
         then map_sum id (\<lambda>vs. sc\<lparr>vip6 := vs, vip_prefix_length := if vip_prefix_len cfg = 0 then 64 else vip_prefix_len cfg\<rparr>)
                (config_vips (snd P) (vip_addr6_array cfg) [])
         else Inr sc)"

definition lazybsd_veth_config :: "pton \<Rightarrow> port_cfg \<Rightarrow> softc \<Rightarrow> softc kresult" where
  "lazybsd_veth_config P cfg sc = (case veth_config4 P cfg sc of Inl e \<Rightarrow> Inl e | Inr sc \<Rightarrow> veth_config6 P cfg sc)"

section \<open>Interface flags\<close>

definition lazybsd_veth_init :: "ifnet \<Rightarrow> ifnet" where
  "lazybsd_veth_init i = i\<lparr>if_drv_flags := (if_drv_flags i \<union> {IFF_DRV_RUNNING}) - {IFF_DRV_OACTIVE}\<rparr>"

definition lazybsd_veth_stop :: "ifnet \<Rightarrow> ifnet" where
  "lazybsd_veth_stop i = i\<lparr>if_drv_flags := if_drv_flags i - {IFF_DRV_RUNNING, IFF_DRV_OACTIVE}\<rparr>"

datatype if_cmd = SIOCSIFFLAGS | Other_cmd nat

definition lazybsd_veth_ioctl :: "(ifnet \<Rightarrow> if_cmd \<Rightarrow> int \<times> ifnet) \<Rightarrow> ifnet \<Rightarrow> if_cmd \<Rightarrow> int \<times> ifnet" where
  "lazybsd_veth_ioctl ether_ioctl i cmd =
     (case cmd of
        SIOCSIFFLAGS \<Rightarrow>
          (0, if IFF_UP \<in> if_flags i then lazybsd_veth_init i
              else if IFF_DRV_RUNNING \<in> if_drv_flags i then lazybsd_veth_stop i
              else i)
      | _ \<Rightarrow> ether_ioctl i cmd)"

section \<open>Addresses\<close>

datatype vcall =
    Aifaddr string u32 u32 u32
  | Aifaddr_in6 string "u8 list" "u8 list"
  | Add_route u32
  | Add_route6 "u8 list"
  | Register
  | Deregister nat
  | Free_softc

type_synonym answers = "vcall list \<Rightarrow> vcall \<Rightarrow> int"

definition call :: "answers \<Rightarrow> vcall \<Rightarrow> vcall list \<Rightarrow> int \<times> vcall list" where
  "call answer c cs = (answer cs c, cs @ [c])"

definition lazybsd_veth_setaddr :: "answers \<Rightarrow> softc \<Rightarrow> vcall list \<Rightarrow> int \<times> vcall list" where
  "lazybsd_veth_setaddr answer sc = call answer (Aifaddr (if_dname (ifp sc)) (ip sc) (netmask sc) (broadcast sc))"

definition lazybsd_veth_set_gateway :: "answers \<Rightarrow> softc \<Rightarrow> vcall list \<Rightarrow> int \<times> vcall list" where
  "lazybsd_veth_set_gateway answer sc = call answer (Add_route (gateway sc))"

text \<open>\<open>strlcpy\<close> to a name of 16 bytes.\<close>

definition vip_name :: "port_cfg \<Rightarrow> softc \<Rightarrow> string" where
  "vip_name cfg sc = take 15 (case vip_ifname cfg of Some n \<Rightarrow> n | None \<Rightarrow> if_dname (ifp sc))"

fun set_each :: "answers \<Rightarrow> ('a \<Rightarrow> vcall) \<Rightarrow> 'a list \<Rightarrow> int \<Rightarrow> vcall list \<Rightarrow> int \<times> vcall list" where
  "set_each answer f [] ret cs = (ret, cs)"
| "set_each answer f (a # as) ret cs =
     (case call answer (f a) cs of (ret, cs) \<Rightarrow> if ret < 0 then (ret, cs) else set_each answer f as ret cs)"

definition lazybsd_veth_setvaddr :: "answers \<Rightarrow> softc \<Rightarrow> port_cfg \<Rightarrow> vcall list \<Rightarrow> int \<times> vcall list" where
  "lazybsd_veth_setvaddr answer sc cfg =
     set_each answer (\<lambda>a. Aifaddr (vip_name cfg sc) a 0xFFFFFFFF (a OR 0xFF000000)) (vip sc) 0"

text \<open>The mask of a prefix: whole bytes of ones, and the leading ones of the next.  A prefix above 128 writes behind the 16 bytes.\<close>

definition prefix_mask6 :: "u8 \<Rightarrow> (u8 list) kresult" where
  "prefix_mask6 plen =
     (let n = unat plen div 8; r = unat plen mod 8
      in if n > 16 \<or> n = 16 \<and> r \<noteq> 0 then Inl (Panic ''write behind the address'')
         else let a = replicate n 0xff @ replicate (16 - n) 0
              in Inr (if r \<noteq> 0 then a[n := ucast (push_bit (8 - r) (push_bit r (1 :: i32) - 1))] else a))"

definition lazybsd_veth_setaddr6 :: "answers \<Rightarrow> softc \<Rightarrow> vcall list \<Rightarrow> (int \<times> vcall list) kresult" where
  "lazybsd_veth_setaddr6 answer sc cs =
     map_sum id (\<lambda>mask. call answer (Aifaddr_in6 (if_dname (ifp sc)) (ip6 sc) mask) cs) (prefix_mask6 (prefix_length sc))"

definition lazybsd_veth_set_gateway6 :: "answers \<Rightarrow> softc \<Rightarrow> vcall list \<Rightarrow> int \<times> vcall list" where
  "lazybsd_veth_set_gateway6 answer sc = call answer (Add_route6 (gateway6 sc))"

text \<open>The prefix of the virtual addresses is computed from \<open>prefix_length\<close>, not from \<open>vip_prefix_length\<close>.\<close>

definition lazybsd_veth_setvaddr6 :: "answers \<Rightarrow> softc \<Rightarrow> port_cfg \<Rightarrow> vcall list \<Rightarrow> (int \<times> vcall list) kresult" where
  "lazybsd_veth_setvaddr6 answer sc cfg cs =
     map_sum id (\<lambda>mask. set_each answer (\<lambda>a. Aifaddr_in6 (vip_name cfg sc) a mask) (vip6 sc) 0 cs)
       (prefix_mask6 (prefix_length sc))"

section \<open>Attaching\<close>

definition setup_ifnet :: "softc \<Rightarrow> port_cfg \<Rightarrow> ifnet" where
  "setup_ifnet sc cfg =
     (let hw = features cfg;
          i = \<lparr>if_dname = host_ifname sc, if_flags = {IFF_BROADCAST, IFF_SIMPLEX, IFF_MULTICAST}, if_drv_flags = {},
               if_capabilities = {}, if_hwassist = {}, if_capenable = {}\<rparr>;
          i = (if rx_csum hw then i\<lparr>if_capabilities := if_capabilities i \<union> {IFCAP_RXCSUM}\<rparr> else i);
          i = (if tx_csum_ip hw then i\<lparr>if_capabilities := if_capabilities i \<union> {IFCAP_TXCSUM},
                                       if_hwassist := if_hwassist i \<union> {CSUM_IP}\<rparr> else i);
          i = (if tx_csum_l4 hw then i\<lparr>if_hwassist := if_hwassist i \<union> {CSUM_DELAY_DATA}\<rparr> else i);
          i = (if tx_tso hw then i\<lparr>if_capabilities := if_capabilities i \<union> {IFCAP_TSO},
                                   if_hwassist := if_hwassist i \<union> {CSUM_TSO}\<rparr> else i)
      in i\<lparr>if_capenable := if_capabilities i\<rparr>)"

text \<open>The IPv6 part of \<open>lazybsd_veth_setup_interface\<close>.\<close>

definition setup_addr6 :: "answers \<Rightarrow> softc \<Rightarrow> port_cfg \<Rightarrow> vcall list \<Rightarrow> (vcall list) kresult" where
  "setup_addr6 answer sc cfg cs =
     (case (if addr6_str cfg \<noteq> None
            then map_sum id (\<lambda>(_, cs). if gateway6_str cfg \<noteq> None then snd (lazybsd_veth_set_gateway6 answer sc cs) else cs)
                   (lazybsd_veth_setaddr6 answer sc cs)
            else Inr cs) of
        Inl e \<Rightarrow> Inl e
      | Inr cs \<Rightarrow> if vip6 sc \<noteq> [] then map_sum id snd (lazybsd_veth_setvaddr6 answer sc cfg cs) else Inr cs)"

text \<open>\<open>register_if\<close> is the context \<open>lazybsd_dpdk_register_if\<close> returns.  Failures to set an address are reported on the console only.\<close>

definition lazybsd_veth_setup_interface ::
    "answers \<Rightarrow> nat option \<Rightarrow> softc \<Rightarrow> port_cfg \<Rightarrow> vcall list \<Rightarrow> (int \<times> softc \<times> vcall list) kresult" where
  "lazybsd_veth_setup_interface answer register_if sc cfg cs =
     (let sc = sc\<lparr>ifp := setup_ifnet sc cfg\<rparr>;
          cs = cs @ [Register];
          sc = sc\<lparr>host_ctx := register_if\<rparr>
      in if host_ctx sc = None then Inr (-1, sc, cs)
         else
           let cs = snd (lazybsd_veth_setaddr answer sc cs);
               cs = snd (lazybsd_veth_set_gateway answer sc cs);
               cs = (if vip sc \<noteq> [] then snd (lazybsd_veth_setvaddr answer sc cfg cs) else cs)
           in map_sum id (\<lambda>cs. (0, sc, cs)) (setup_addr6 answer sc cfg cs))"

definition softc0 :: softc where
  "softc0 = \<lparr>mac = replicate 6 0, host_ifname = '''', ip = 0, netmask = 0, broadcast = 0, gateway = 0, vip = [],
     ip6 = replicate 16 0, gateway6 = replicate 16 0, prefix_length = 0, vip6 = [], vip_prefix_length = 0,
     ifp = \<lparr>if_dname = '''', if_flags = {}, if_drv_flags = {}, if_capabilities = {}, if_hwassist = {}, if_capenable = {}\<rparr>,
     host_ctx = None\<rparr>"

definition veth_ifname :: "port_cfg \<Rightarrow> string" where
  "veth_ifname cfg = take 15 (case ifname cfg of Some n \<Rightarrow> n | None \<Rightarrow> ''lazybsd-'' @ show_nat (unat (port_id cfg)))"

text \<open>The interface on success; on failure NULL, and the structure is freed.  \<open>malloc_ok\<close>: whether \<open>malloc\<close> succeeds.\<close>

definition lazybsd_veth_attach ::
    "pton \<Rightarrow> answers \<Rightarrow> bool \<Rightarrow> nat option \<Rightarrow> port_cfg \<Rightarrow> (softc option \<times> vcall list) kresult" where
  "lazybsd_veth_attach P answer malloc_ok register_if cfg =
     (if \<not> malloc_ok then Inr (None, [])
      else
        case lazybsd_veth_config P cfg (softc0\<lparr>host_ifname := veth_ifname cfg\<rparr>) of
          Inl e \<Rightarrow> Inl e
        | Inr sc \<Rightarrow>
            (case lazybsd_veth_setup_interface answer register_if sc cfg [] of
               Inl e \<Rightarrow> Inl e
             | Inr (r, sc, cs) \<Rightarrow>
                 if r = 0 then Inr (Some sc, cs)
                 else Inr (None, (case host_ctx sc of Some c \<Rightarrow> cs @ [Deregister c] | None \<Rightarrow> cs) @ [Free_softc])))"

definition lazybsd_veth_detach :: "softc option \<Rightarrow> vcall list \<Rightarrow> int \<times> vcall list" where
  "lazybsd_veth_detach sc cs =
     (case sc of
        Some sc \<Rightarrow> (0, cs @ [Deregister (case host_ctx sc of Some c \<Rightarrow> c | None \<Rightarrow> 0), Free_softc])
      | None \<Rightarrow> (0, cs))"

definition lazybsd_veth_softc_to_hostc :: "softc \<Rightarrow> nat option" where
  "lazybsd_veth_softc_to_hostc sc = host_ctx sc"

end
