(* ===== verification/LB_Veth_Props.thy ===== *)
theory LB_Veth_Props
  imports LB_Veth
begin

text \<open>
  What attaching an interface configures, for every configuration and whatever the kernel answers; the masks of IPv6 prefixes;
  and the interface being up exactly when it is running.
\<close>

section \<open>Prefix masks\<close>

lemma partial_byte:
  assumes "r < 8" "j < 8"
  shows "bit (ucast (push_bit (8 - r) (push_bit r (1 :: i32) - 1)) :: u8) (7 - j) \<longleftrightarrow> j < r"
proof -
  have "push_bit r (1 :: i32) - 1 = mask r" by (simp add: mask_eq_exp_minus_1 push_bit_of_1)
  then show ?thesis using assms by (auto simp: bit_simps)
qed

lemma div_lt_cases: "(i :: nat) div 8 < n \<Longrightarrow> i < 8 * n" "n < i div 8 \<Longrightarrow> 8 * n + 8 \<le> i"
  by (auto simp: less_mult_imp_div_less)

text \<open>The mask of an IPv6 prefix of at most 128 bits has exactly its leading bits set, as many as the prefix is long.\<close>

theorem prefix_mask6_leading:
  assumes "unat plen \<le> 128"
  shows "\<exists>msk. prefix_mask6 plen = Inr msk \<and> length msk = 16 \<and>
    (\<forall>i<128. bit (msk ! (i div 8)) (7 - i mod 8) \<longleftrightarrow> i < unat plen)"
proof -
  define n r where "n = unat plen div 8" and "r = unat plen mod 8"
  have p: "unat plen = 8 * n + r" "r < 8" by (simp_all add: n_def r_def)
  then have n: "n \<le> 16" "n = 16 \<Longrightarrow> r = 0" using assms by auto
  define b where "b = (ucast (push_bit (8 - r) (push_bit r (1 :: i32) - 1)) :: u8)"
  define m where "m = (if r \<noteq> 0 then (replicate n 0xff @ replicate (16 - n) 0)[n := b] else replicate n 0xff @ replicate (16 - n) 0)"
  have "prefix_mask6 plen = Inr m"
    using n by (auto simp: prefix_mask6_def Let_def n_def [symmetric] r_def [symmetric] m_def b_def)
  moreover have "length m = 16" using n by (simp add: m_def)
  moreover have "bit (m ! (i div 8)) (7 - i mod 8) \<longleftrightarrow> i < unat plen" if i: "i < 128" for i
  proof -
    have i8: "i = 8 * (i div 8) + i mod 8" "i mod 8 < 8" "i div 8 < 16" using i by auto
    consider "i div 8 < n" | "i div 8 = n" | "n < i div 8" by linarith
    then show ?thesis
    proof cases
      case 1
      then have "m ! (i div 8) = 0xff" using n by (simp add: m_def nth_append)
      moreover have "bit (0xff :: u8) (7 - i mod 8)"
      proof -
        have "(0xff :: u8) = mask 8" by (simp add: mask_eq_exp_minus_1)
        then show ?thesis by (simp only: bit_mask_iff) simp
      qed
      moreover have "i < unat plen" using 1 i8 p by linarith
      ultimately show ?thesis by simp
    next
      case 2
      then have "m ! (i div 8) = (if r \<noteq> 0 then b else 0)" using n i8(3) by (simp add: m_def nth_append)
      moreover have "i < unat plen \<longleftrightarrow> i mod 8 < r" using 2 i8(1) p(1) by linarith
      ultimately show ?thesis using partial_byte [OF p(2) i8(2)] by (simp add: b_def)
    next
      case 3
      then have "m ! (i div 8) = 0" using n i8(3) by (simp add: m_def nth_append)
      moreover have "\<not> i < unat plen" using 3 i8(1) p by linarith
      ultimately show ?thesis by simp
    qed
  qed
  ultimately show ?thesis by blast
qed

theorem prefix_mask6_leading_witness:
  "\<exists>msk. prefix_mask6 52 = Inr msk \<and> length msk = 16 \<and> (\<forall>i<128. bit (msk ! (i div 8)) (7 - i mod 8) \<longleftrightarrow> i < 52)"
  using prefix_mask6_leading [of 52] by simp

section \<open>Attaching\<close>

lemma config_vips_filter:
  "length vs + length (List.map_filter pton ss) \<le> VIP_MAX_NUM \<Longrightarrow> config_vips pton ss vs = Inr (vs @ List.map_filter pton ss)"
  by (induction ss arbitrary: vs) (auto simp: map_filter_simps split: option.splits)

lemma config_vips_overrun:
  "VIP_MAX_NUM < length vs + length (List.map_filter pton ss) \<Longrightarrow> length vs \<le> VIP_MAX_NUM \<Longrightarrow>
    config_vips pton ss vs = Inl (Panic ''array overrun'')"
  by (induction ss arbitrary: vs) (auto simp: map_filter_simps split: option.splits)

lemma set_each_all: "\<forall>cs c. 0 \<le> answer cs c \<Longrightarrow> snd (set_each answer f as ret cs) = cs @ map f as"
proof (induction as arbitrary: ret cs)
  case (Cons a as)
  have "\<not> answer cs (f a) < 0" using Cons.prems by (simp add: not_less)
  then show ?case using Cons by (simp add: call_def)
qed simp

text \<open>The calls a configuration asks for.\<close>

definition wanted4 :: "pton \<Rightarrow> port_cfg \<Rightarrow> vcall list" where
  "wanted4 P cfg =
     (let name = veth_ifname cfg; a4 = \<lambda>s. pton_or (fst P) s 0; vname = take 15 (case vip_ifname cfg of Some n \<Rightarrow> n | None \<Rightarrow> name)
      in [Aifaddr name (a4 (cfg_addr cfg)) (a4 (cfg_netmask cfg)) (a4 (cfg_broadcast cfg)), Add_route (a4 (cfg_gateway cfg))] @
         map (\<lambda>a. Aifaddr vname a 0xFFFFFFFF (a OR 0xFF000000)) (List.map_filter (fst P) (vip_addr_array cfg)))"

definition wanted6 :: "pton \<Rightarrow> port_cfg \<Rightarrow> u8 list \<Rightarrow> vcall list" where
  "wanted6 P cfg msk =
     (let name = veth_ifname cfg; a6 = \<lambda>s. pton_or (snd P) s (replicate 16 0);
          vname = take 15 (case vip_ifname cfg of Some n \<Rightarrow> n | None \<Rightarrow> name)
      in (case addr6_str cfg of
            None \<Rightarrow> []
          | Some a \<Rightarrow> Aifaddr_in6 name (a6 a) msk # (case gateway6_str cfg of None \<Rightarrow> [] | Some g \<Rightarrow> [Add_route6 (a6 g)])) @
         map (\<lambda>a. Aifaddr_in6 vname a msk) (List.map_filter (snd P) (vip_addr6_array cfg)))"

definition prefix_of :: "port_cfg \<Rightarrow> u8" where
  "prefix_of cfg = (if addr6_str cfg = None then 0 else if prefix_len cfg = 0 then 64 else prefix_len cfg)"

lemma config_softc:
  assumes "length (List.map_filter (fst P) (vip_addr_array cfg)) \<le> VIP_MAX_NUM"
    and "length (List.map_filter (snd P) (vip_addr6_array cfg)) \<le> VIP_MAX_NUM"
  shows "\<exists>sc. lazybsd_veth_config P cfg (softc0\<lparr>host_ifname := n\<rparr>) = Inr sc \<and> host_ifname sc = n \<and>
    ip sc = pton_or (fst P) (cfg_addr cfg) 0 \<and> netmask sc = pton_or (fst P) (cfg_netmask cfg) 0 \<and>
    broadcast sc = pton_or (fst P) (cfg_broadcast cfg) 0 \<and> gateway sc = pton_or (fst P) (cfg_gateway cfg) 0 \<and>
    vip sc = List.map_filter (fst P) (vip_addr_array cfg) \<and> vip6 sc = List.map_filter (snd P) (vip_addr6_array cfg) \<and>
    prefix_length sc = prefix_of cfg \<and>
    (\<forall>a. addr6_str cfg = Some a \<longrightarrow> ip6 sc = pton_or (snd P) a (replicate 16 0) \<and>
       (\<forall>g. gateway6_str cfg = Some g \<longrightarrow> gateway6 sc = pton_or (snd P) g (replicate 16 0)))"
  using config_vips_filter [of "[]" "fst P" "vip_addr_array cfg"] config_vips_filter [of "[]" "snd P" "vip_addr6_array cfg"] assms
  by (cases "addr6_str cfg"; cases "gateway6_str cfg"; cases "vip_addr_array cfg = []"; cases "vip_addr6_array cfg = []")
    (auto simp: lazybsd_veth_config_def veth_config4_def veth_config6_def softc0_def Let_def prefix_of_def map_filter_simps)

lemma setup_ifnet_dname [simp]: "if_dname (setup_ifnet sc cfg) = host_ifname sc"
  by (simp add: setup_ifnet_def Let_def)

text \<open>Attaching an interface configures exactly what the configuration says.  When the device registers and no more than 64
  virtual addresses of each family parse, \<open>lazybsd_veth_attach\<close> returns the interface after asking the kernel for the
  IPv4 address, the default gateway, every virtual address that parses, in order, as a host address whose broadcast address ends
  in 255, then the IPv6 address, gateway and virtual addresses, whatever the kernel's error numbers are.  The mask of the IPv6 virtual
  addresses is that of the interface's own prefix: \<open>vip_prefix_len\<close> does not appear.\<close>

theorem veth_attach_configures:
  assumes "\<forall>cs c. 0 \<le> answer cs c"
    and "length (List.map_filter (fst P) (vip_addr_array cfg)) \<le> VIP_MAX_NUM"
    and "length (List.map_filter (snd P) (vip_addr6_array cfg)) \<le> VIP_MAX_NUM"
    and "prefix_mask6 (prefix_of cfg) = Inr msk"
  shows "\<exists>sc. lazybsd_veth_attach P answer True (Some ctx) cfg = Inr (Some sc, Register # wanted4 P cfg @ wanted6 P cfg msk) \<and>
    host_ctx sc = Some ctx"
proof -
  obtain sc where sc: "lazybsd_veth_config P cfg (softc0\<lparr>host_ifname := veth_ifname cfg\<rparr>) = Inr sc" "host_ifname sc = veth_ifname cfg"
      "ip sc = pton_or (fst P) (cfg_addr cfg) 0" "netmask sc = pton_or (fst P) (cfg_netmask cfg) 0"
      "broadcast sc = pton_or (fst P) (cfg_broadcast cfg) 0" "gateway sc = pton_or (fst P) (cfg_gateway cfg) 0"
      "vip sc = List.map_filter (fst P) (vip_addr_array cfg)" "vip6 sc = List.map_filter (snd P) (vip_addr6_array cfg)"
      "prefix_length sc = prefix_of cfg"
      "\<forall>a. addr6_str cfg = Some a \<longrightarrow> ip6 sc = pton_or (snd P) a (replicate 16 0) \<and>
         (\<forall>g. gateway6_str cfg = Some g \<longrightarrow> gateway6 sc = pton_or (snd P) g (replicate 16 0))"
    using config_softc [OF assms(2,3), of "veth_ifname cfg"] by blast
  let ?sc = "sc\<lparr>ifp := setup_ifnet sc cfg, host_ctx := Some ctx\<rparr>"
  have name: "vip_name cfg ?sc = take 15 (case vip_ifname cfg of Some n \<Rightarrow> n | None \<Rightarrow> veth_ifname cfg)"
    by (simp add: vip_name_def sc(2) split: option.splits)
  have six: "setup_addr6 answer ?sc cfg cs = Inr (cs @ wanted6 P cfg msk)" for cs
    using sc(2,8-10) assms(1,4) name
    by (cases "addr6_str cfg"; cases "gateway6_str cfg")
      (auto simp: setup_addr6_def wanted6_def lazybsd_veth_setaddr6_def lazybsd_veth_set_gateway6_def lazybsd_veth_setvaddr6_def
        call_def Let_def set_each_all)
  have "lazybsd_veth_setup_interface answer (Some ctx) sc cfg [] = Inr (0, ?sc, Register # wanted4 P cfg @ wanted6 P cfg msk)"
    using sc(2-7) assms(1) name
    by (auto simp: lazybsd_veth_setup_interface_def lazybsd_veth_setaddr_def lazybsd_veth_set_gateway_def lazybsd_veth_setvaddr_def
        call_def Let_def six set_each_all wanted4_def)
  then show ?thesis using sc(1) by (simp add: lazybsd_veth_attach_def)
qed

definition example_cfg :: port_cfg where
  "example_cfg = \<lparr>ifname = Some ''eth0'', port_id = 0, cfg_mac = [2, 0, 0, 0, 0, 1],
     features = \<lparr>rx_csum = True, tx_csum_ip = True, tx_csum_l4 = False, tx_tso = False\<rparr>,
     cfg_addr = ''a'', cfg_netmask = ''m'', cfg_broadcast = ''b'', cfg_gateway = ''g'', vip_ifname = None, vip_addr_array = [''v'', ''bad''],
     addr6_str = None, gateway6_str = None, prefix_len = 0, vip_addr6_array = [''w''], vip_prefix_len = 48\<rparr>"

theorem veth_attach_configures_witness:
  "\<exists>sc. lazybsd_veth_attach (\<lambda>s. if s = ''bad'' then None else Some 0x0100000A, \<lambda>s. Some (replicate 16 1)) (\<lambda>_ _. 17) True (Some 3) example_cfg =
     Inr (Some sc, [Register, Aifaddr ''eth0'' 0x0100000A 0x0100000A 0x0100000A, Add_route 0x0100000A,
       Aifaddr ''eth0'' 0x0100000A 0xFFFFFFFF 0xFF00000A, Aifaddr_in6 ''eth0'' (replicate 16 1) (replicate 16 0)])"
proof -
  let ?P = "(\<lambda>s. if s = ''bad'' then None else Some 0x0100000A, \<lambda>s. Some (replicate 16 1)) :: pton"
  have m: "prefix_mask6 (prefix_of example_cfg) = Inr (replicate 16 0)"
    by (simp add: prefix_mask6_def prefix_of_def example_cfg_def)
  have w: "wanted4 ?P example_cfg = [Aifaddr ''eth0'' 0x0100000A 0x0100000A 0x0100000A, Add_route 0x0100000A,
       Aifaddr ''eth0'' 0x0100000A 0xFFFFFFFF 0xFF00000A]"
    "wanted6 ?P example_cfg (replicate 16 0) = [Aifaddr_in6 ''eth0'' (replicate 16 1) (replicate 16 0)]"
    by (simp_all add: wanted4_def wanted6_def example_cfg_def veth_ifname_def pton_or_def map_filter_simps Let_def)
  have "\<exists>sc. lazybsd_veth_attach ?P (\<lambda>_ _. 17) True (Some 3) example_cfg =
      Inr (Some sc, Register # wanted4 ?P example_cfg @ wanted6 ?P example_cfg (replicate 16 0)) \<and> host_ctx sc = Some 3"
    by (rule veth_attach_configures) (simp_all add: m, simp_all add: example_cfg_def map_filter_simps VIP_MAX_NUM_def)
  then show ?thesis using w by auto
qed

text \<open>A failed registration gives everything back.\<close>

lemma veth_attach_unregistered:
  assumes "length (List.map_filter (fst P) (vip_addr_array cfg)) \<le> VIP_MAX_NUM"
    and "length (List.map_filter (snd P) (vip_addr6_array cfg)) \<le> VIP_MAX_NUM"
  shows "lazybsd_veth_attach P answer True None cfg = Inr (None, [Register, Free_softc])"
  using config_softc [OF assms, of "veth_ifname cfg"]
  by (auto simp: lazybsd_veth_attach_def lazybsd_veth_setup_interface_def Let_def)

section \<open>Flags\<close>

text \<open>After the interface flags were set, the driver is running exactly when the interface is up.\<close>

lemma veth_running_iff_up:
  "IFF_DRV_RUNNING \<in> if_drv_flags (snd (lazybsd_veth_ioctl e i SIOCSIFFLAGS)) \<longleftrightarrow> IFF_UP \<in> if_flags i"
  by (simp add: lazybsd_veth_ioctl_def lazybsd_veth_init_def lazybsd_veth_stop_def)

end
