(* ===== verification/LB_Msg.thy ===== *)
theory LB_Msg
  imports LB_Socket
begin

text \<open>
  The message rings of \<^verbatim>\<open>src/lazybsd_dpdk.cc\<close>: management programs put requests into a core's input ring, the main loop handles
  them with calls into the stack and puts each message into the output ring of its type.

  The members of the union in \<open>struct lazybsd_msg\<close> are fields of their own; \<open>msg_id\<close> is the address of the message.  Rings are
  bounded queues, ring 0 the input; the pool has the messages given back.  \<open>errno\<close> of this file is the host's \<open>errno\<close>, which is not the
  variable \<open>lazybsd_errno\<close> the socket layer sets.  \<open>lazybsd_rtioctl\<close> and \<open>lazybsd_ngctl\<close> are arguments.
\<close>

section \<open>Messages and state\<close>

record lazybsd_top_args =
  loops :: u64
  idle_tsc :: u64
  work_tsc :: u64
  sys_tsc :: u64
  usr_tsc :: u64

record lazybsd_traffic_args =
  rx_packets :: u64
  rx_bytes :: u64
  tx_packets :: u64
  tx_bytes :: u64

record lazybsd_msg =
  msg_id :: nat
  msg_type :: nat
  msg_result :: int
  buf_len :: u64
  buf_addr :: nat
  original_buf :: "nat option"
  original_buf_len :: u64
  m_sysctl :: "int list \<times> u32 \<times> nat option \<times> nat option \<times> nat option \<times> u64"
  m_ioctl :: "u64 \<times> nat option"
  m_route :: "int \<times> u32 \<times> u32 \<times> nat"
  m_top :: lazybsd_top_args
  m_ngctl :: "int \<times> int \<times> nat"
  m_ipfw :: "int \<times> int \<times> int \<times> nat option \<times> nat"
  m_traffic :: lazybsd_traffic_args
  m_knictl :: "int \<times> int"

abbreviation (input) LAZYBSD_UNKNOWN :: nat where "LAZYBSD_UNKNOWN \<equiv> 0"
abbreviation (input) LAZYBSD_SYSCTL :: nat where "LAZYBSD_SYSCTL \<equiv> 1"
abbreviation (input) LAZYBSD_IOCTL :: nat where "LAZYBSD_IOCTL \<equiv> 2"
abbreviation (input) LAZYBSD_IOCTL6 :: nat where "LAZYBSD_IOCTL6 \<equiv> 3"
abbreviation (input) LAZYBSD_ROUTE :: nat where "LAZYBSD_ROUTE \<equiv> 4"
abbreviation (input) LAZYBSD_TOP :: nat where "LAZYBSD_TOP \<equiv> 5"
abbreviation (input) LAZYBSD_NGCTL :: nat where "LAZYBSD_NGCTL \<equiv> 6"
abbreviation (input) LAZYBSD_IPFW_CTL :: nat where "LAZYBSD_IPFW_CTL \<equiv> 7"
abbreviation (input) LAZYBSD_TRAFFIC :: nat where "LAZYBSD_TRAFFIC \<equiv> 8"
abbreviation (input) LAZYBSD_KNICTL :: nat where "LAZYBSD_KNICTL \<equiv> 9"
abbreviation (input) LAZYBSD_MSG_NUM :: nat where "LAZYBSD_MSG_NUM \<equiv> 10"

abbreviation (input) HOST_ENOTSUP :: int where "HOST_ENOTSUP \<equiv> 95"

text \<open>The switches of the build.\<close>

record msg_build =
  b_inet6 :: bool
  b_netgraph :: bool
  b_ipfw :: bool
  b_kni :: bool

record 'k msg_state =
  stack :: "'k sock"
  host_errno :: int
  ring :: "nat \<Rightarrow> lazybsd_msg list"
  message_pool :: "lazybsd_msg list"
  freed :: "nat list"
  lazybsd_top_status :: lazybsd_top_args
  lazybsd_traffic :: lazybsd_traffic_args
  knictl :: int

record 'k msg_calls =
  kernel :: "'k kern_if"
  rtioctl :: "int \<Rightarrow> nat \<Rightarrow> u32 \<Rightarrow> u32 \<Rightarrow> 'k sock \<Rightarrow> int \<times> u32 \<times> 'k sock"
  ngctl :: "int \<Rightarrow> nat \<Rightarrow> 'k kcall"
  ring_size :: nat

section \<open>Handlers\<close>

text \<open>The end of every handler that calls the stack.\<close>

definition set_result :: "int \<Rightarrow> 'k msg_state \<Rightarrow> lazybsd_msg \<Rightarrow> lazybsd_msg" where
  "set_result ret st msg = msg\<lparr>msg_result := if ret < 0 then host_errno st else 0\<rparr>"

definition handle_sysctl_msg :: "'k msg_calls \<Rightarrow> lazybsd_msg \<Rightarrow> 'k msg_state \<Rightarrow> lazybsd_msg \<times> 'k msg_state" where
  "handle_sysctl_msg C msg st =
     (case m_sysctl msg of (name, namelen, oldp, oldlenp, newp, newlen) \<Rightarrow>
        case lazybsd_sysctl (kernel C) name namelen oldp oldlenp newp newlen (stack st) of
          (ret, s) \<Rightarrow> (set_result ret st msg, st\<lparr>stack := s\<rparr>))"

definition handle_ioctl_msg :: "msg_build \<Rightarrow> 'k msg_calls \<Rightarrow> lazybsd_msg \<Rightarrow> 'k msg_state \<Rightarrow> lazybsd_msg \<times> 'k msg_state" where
  "handle_ioctl_msg B C msg st =
     (let domain = (if b_inet6 B \<and> msg_type msg = LAZYBSD_IOCTL6 then 10 else 2)
      in case lazybsd_socket (kernel C) domain 2 0 (stack st) of
           (fd, s) \<Rightarrow>
             if fd < 0 then (set_result (-1) st msg, st\<lparr>stack := s\<rparr>)
             else case lazybsd_ioctl_freebsd (kernel C) fd (fst (m_ioctl msg)) (snd (m_ioctl msg)) s of
                    (ret, s) \<Rightarrow>
                      case lazybsd_close (kernel C) fd s of (_, s) \<Rightarrow> (set_result ret st msg, st\<lparr>stack := s\<rparr>))"

definition handle_route_msg :: "'k msg_calls \<Rightarrow> lazybsd_msg \<Rightarrow> 'k msg_state \<Rightarrow> lazybsd_msg \<times> 'k msg_state" where
  "handle_route_msg C msg st =
     (case m_route msg of (fib, len, maxlen, data) \<Rightarrow>
        case rtioctl C fib data len maxlen (stack st) of
          (ret, len, s) \<Rightarrow> (set_result ret st (msg\<lparr>m_route := (fib, len, maxlen, data)\<rparr>), st\<lparr>stack := s\<rparr>))"

definition handle_top_msg :: "lazybsd_msg \<Rightarrow> 'k msg_state \<Rightarrow> lazybsd_msg \<times> 'k msg_state" where
  "handle_top_msg msg st = (msg\<lparr>m_top := lazybsd_top_status st, msg_result := 0\<rparr>, st)"

definition handle_ngctl_msg :: "'k msg_calls \<Rightarrow> lazybsd_msg \<Rightarrow> 'k msg_state \<Rightarrow> lazybsd_msg \<times> 'k msg_state" where
  "handle_ngctl_msg C msg st =
     (case m_ngctl msg of (cmd, r, data) \<Rightarrow>
        case ngctl C cmd data (stack st) of
          (ret, s) \<Rightarrow>
            (set_result ret st (msg\<lparr>m_ngctl := (cmd, if ret < 0 then r else ret, data)\<rparr>), st\<lparr>stack := s\<rparr>))"

text \<open>\<open>SOCK_RAW\<close> and \<open>IPPROTO_RAW\<close> are 3 and 255.\<close>

definition handle_ipfw_msg :: "'k msg_calls \<Rightarrow> lazybsd_msg \<Rightarrow> 'k msg_state \<Rightarrow> lazybsd_msg \<times> 'k msg_state" where
  "handle_ipfw_msg C msg st =
     (case m_ipfw msg of (cmd, level, optname, optval, optlen) \<Rightarrow>
        case lazybsd_socket (kernel C) 2 3 255 (stack st) of
          (fd, s) \<Rightarrow>
            if fd < 0 then (set_result (-1) st msg, st\<lparr>stack := s\<rparr>)
            else
              case (if cmd = 0 then let (r, s) = lazybsd_getsockopt_freebsd (kernel C) fd level optname optval (Some optlen) s in (r, host_errno st, s)
                    else if cmd = 1
                    then let (r, s) = lazybsd_setsockopt_freebsd (kernel C) fd level optname optval (ld32 (umem s) optlen) s in (r, host_errno st, s)
                    else (-1, HOST_ENOTSUP, s)) of
                (ret, e, s) \<Rightarrow>
                  let st = st\<lparr>host_errno := e\<rparr>
                  in case lazybsd_close (kernel C) fd s of (_, s) \<Rightarrow> (set_result ret st msg, st\<lparr>stack := s\<rparr>))"

definition handle_traffic_msg :: "lazybsd_msg \<Rightarrow> 'k msg_state \<Rightarrow> lazybsd_msg \<times> 'k msg_state" where
  "handle_traffic_msg msg st = (msg\<lparr>m_traffic := lazybsd_traffic st, msg_result := 0\<rparr>, st)"

text \<open>The actions are 0 (default), 1 (all to the exception path) and 2 (all to the stack); the commands 0 (get) and 1 (set).  Getting leaves
  \<open>result\<close> as it was.\<close>

definition handle_knictl_msg :: "lazybsd_msg \<Rightarrow> 'k msg_state \<Rightarrow> lazybsd_msg \<times> 'k msg_state" where
  "handle_knictl_msg msg st =
     (case m_knictl msg of (cmd, action) \<Rightarrow>
        if cmd = 1 then
          (if action \<in> {0, 1, 2} then (msg\<lparr>msg_result := 0\<rparr>, st\<lparr>knictl := action\<rparr>)
           else (msg\<lparr>msg_result := -1\<rparr>, st))
        else if cmd = 0 then (msg\<lparr>m_knictl := (cmd, knictl st)\<rparr>, st)
        else (msg\<lparr>msg_result := -2\<rparr>, st))"

definition handle_default_msg :: "lazybsd_msg \<Rightarrow> 'k msg_state \<Rightarrow> lazybsd_msg \<times> 'k msg_state" where
  "handle_default_msg msg st = (msg\<lparr>msg_result := HOST_ENOTSUP\<rparr>, st)"

section \<open>Dispatch\<close>

text \<open>The switch of \<open>handle_msg\<close>.\<close>

definition handle_type :: "msg_build \<Rightarrow> 'k msg_calls \<Rightarrow> lazybsd_msg \<Rightarrow> 'k msg_state \<Rightarrow> lazybsd_msg \<times> 'k msg_state" where
  "handle_type B C msg st =
     (let t = msg_type msg
      in if t = LAZYBSD_SYSCTL then handle_sysctl_msg C msg st
         else if t = LAZYBSD_IOCTL \<or> b_inet6 B \<and> t = LAZYBSD_IOCTL6 then handle_ioctl_msg B C msg st
         else if t = LAZYBSD_ROUTE then handle_route_msg C msg st
         else if t = LAZYBSD_TOP then handle_top_msg msg st
         else if b_netgraph B \<and> t = LAZYBSD_NGCTL then handle_ngctl_msg C msg st
         else if b_ipfw B \<and> t = LAZYBSD_IPFW_CTL then handle_ipfw_msg C msg st
         else if t = LAZYBSD_TRAFFIC then handle_traffic_msg msg st
         else if b_kni B \<and> t = LAZYBSD_KNICTL then handle_knictl_msg msg st
         else handle_default_msg msg st)"

text \<open>The end of \<open>handle_msg\<close>: the message goes to the ring of its type or, when that is full, back to the pool with its own buffer.  The
  array of rings has \<open>LAZYBSD_MSG_NUM\<close> entries.\<close>

definition drop_msg :: "lazybsd_msg \<Rightarrow> 'k msg_state \<Rightarrow> 'k msg_state" where
  "drop_msg msg st =
     (let (msg, st) = (case original_buf msg of
                         Some b \<Rightarrow> (msg\<lparr>buf_addr := b, buf_len := original_buf_len msg, original_buf := None\<rparr>,
                                    st\<lparr>freed := freed st @ [buf_addr msg]\<rparr>)
                       | None \<Rightarrow> (msg, st))
      in st\<lparr>message_pool := message_pool st @ [msg]\<rparr>)"

definition handle_msg :: "msg_build \<Rightarrow> 'k msg_calls \<Rightarrow> lazybsd_msg \<Rightarrow> 'k msg_state \<Rightarrow> 'k msg_state kresult" where
  "handle_msg B C msg st =
     (case handle_type B C msg st of
        (msg, st) \<Rightarrow>
          let t = msg_type msg
          in if t \<ge> LAZYBSD_MSG_NUM then Inl (Panic ''index out of bounds'')
             else Inr (if length (ring st t) < ring_size C
                       then st\<lparr>ring := (ring st)(t := ring st t @ [msg])\<rparr>
                       else drop_msg msg st))"

fun handle_msgs :: "msg_build \<Rightarrow> 'k msg_calls \<Rightarrow> lazybsd_msg list \<Rightarrow> 'k msg_state \<Rightarrow> 'k msg_state kresult" where
  "handle_msgs B C [] st = Inr st"
| "handle_msgs B C (msg # msgs) st = (case handle_msg B C msg st of Inl e \<Rightarrow> Inl e | Inr st \<Rightarrow> handle_msgs B C msgs st)"

text \<open>\<open>MAX_PKT_BURST\<close> is 32.\<close>

definition process_msg_ring :: "msg_build \<Rightarrow> 'k msg_calls \<Rightarrow> 'k msg_state \<Rightarrow> 'k msg_state kresult" where
  "process_msg_ring B C st =
     (let burst = take 32 (ring st 0)
      in handle_msgs B C burst (st\<lparr>ring := (ring st)(0 := drop 32 (ring st 0))\<rparr>))"

definition lazybsd_msg_init :: "nat \<Rightarrow> u64 \<Rightarrow> lazybsd_msg \<Rightarrow> lazybsd_msg" where
  "lazybsd_msg_init sizeof_msg elt_size msg =
     msg\<lparr>msg_type := LAZYBSD_UNKNOWN, buf_addr := msg_id msg + sizeof_msg, buf_len := elt_size - of_nat sizeof_msg,
        original_buf := None, original_buf_len := 0\<rparr>"

definition lazybsd_get_traffic :: "'k msg_state \<Rightarrow> lazybsd_traffic_args" where
  "lazybsd_get_traffic st = lazybsd_traffic st"

end
