(* ===== verification/LB_Msg_Props.thy ===== *)
theory LB_Msg_Props
  imports LB_Msg
begin

text \<open>
  Messages are not lost or duplicated and every request is answered on the ring of its type; the two ways in which the answers are wrong.
\<close>

section \<open>Handlers keep the rings\<close>

lemma set_result_fields [simp]: "msg_id (set_result r st msg) = msg_id msg" "msg_type (set_result r st msg) = msg_type msg"
  "original_buf (set_result r st msg) = original_buf msg" "buf_addr (set_result r st msg) = buf_addr msg"
  by (simp_all add: set_result_def)

lemmas handler_defs = handle_sysctl_msg_def handle_ioctl_msg_def handle_route_msg_def handle_top_msg_def handle_ngctl_msg_def
  handle_ipfw_msg_def handle_traffic_msg_def handle_knictl_msg_def handle_default_msg_def

text \<open>What no handler changes.\<close>

definition same_queues :: "lazybsd_msg \<Rightarrow> 'k msg_state \<Rightarrow> lazybsd_msg \<times> 'k msg_state \<Rightarrow> bool" where
  "same_queues msg st r \<longleftrightarrow> msg_id (fst r) = msg_id msg \<and> msg_type (fst r) = msg_type msg \<and>
     ring (snd r) = ring st \<and> message_pool (snd r) = message_pool st \<and> freed (snd r) = freed st \<and>
     lazybsd_top_status (snd r) = lazybsd_top_status st \<and>
     original_buf (fst r) = original_buf msg \<and> buf_addr (fst r) = buf_addr msg"

lemma same_queues_I:
  "same_queues msg st (handle_sysctl_msg C msg st)" "same_queues msg st (handle_ioctl_msg B C msg st)"
  "same_queues msg st (handle_route_msg C msg st)" "same_queues msg st (handle_top_msg msg st)"
  "same_queues msg st (handle_ngctl_msg C msg st)" "same_queues msg st (handle_ipfw_msg C msg st)"
  "same_queues msg st (handle_traffic_msg msg st)" "same_queues msg st (handle_knictl_msg msg st)"
  "same_queues msg st (handle_default_msg msg st)"
  by (auto simp: same_queues_def handler_defs Let_def split: prod.splits)

lemma handle_type_same: "same_queues msg st (handle_type B C msg st)"
  unfolding handle_type_def Let_def by (simp add: same_queues_I)

section \<open>Conservation\<close>

definition ids :: "lazybsd_msg list \<Rightarrow> nat multiset" where
  "ids ms = mset (map msg_id ms)"

lemma ids_simps [simp]: "ids [] = {#}" "ids (m # ms) = add_mset (msg_id m) (ids ms)" "ids (a @ b) = ids a + ids b"
  by (simp_all add: ids_def)

definition all_ids :: "'k msg_state \<Rightarrow> nat multiset" where
  "all_ids st = ids (message_pool st) + (\<Sum>t<LAZYBSD_MSG_NUM. ids (ring st t))"

lemma sum_ids_upd: "(t :: nat) < n \<Longrightarrow> (\<Sum>u<n. ids ((f(t := f t @ [m])) u)) = add_mset (msg_id m) (\<Sum>u<n. ids (f u))"
proof -
  assume "t < n"
  then have "(\<Sum>u<n. ids ((f(t := f t @ [m])) u)) = ids (f t @ [m]) + (\<Sum>u\<in>{..<n} - {t}. ids (f u))"
    by (subst sum.remove [of _ t]) auto
  also have "\<dots> = add_mset (msg_id m) (ids (f t) + (\<Sum>u\<in>{..<n} - {t}. ids (f u)))" by simp
  also have "ids (f t) + (\<Sum>u\<in>{..<n} - {t}. ids (f u)) = (\<Sum>u<n. ids (f u))"
    using \<open>t < n\<close> by (subst sum.remove [of "{..<n}" t]) auto
  finally show ?thesis .
qed

lemma drop_msg_ids: "ids (message_pool (drop_msg m st)) = add_mset (msg_id m) (ids (message_pool st))" "ring (drop_msg m st) = ring st"
  by (auto simp: drop_msg_def split: option.splits)

lemma handle_msg_conserves:
  assumes "msg_type msg < LAZYBSD_MSG_NUM"
  shows "\<exists>st'. handle_msg B C msg st = Inr st' \<and> all_ids st' = add_mset (msg_id msg) (all_ids st) \<and>
    (\<forall>t. t \<noteq> msg_type msg \<longrightarrow> ring st' t = ring st t) \<and>
    (\<exists>m. msg_id m = msg_id msg \<and>
      (if length (ring st (msg_type msg)) < ring_size C then ring st' (msg_type msg) = ring st (msg_type msg) @ [m]
       else ring st' (msg_type msg) = ring st (msg_type msg) \<and> message_pool st' = message_pool st @ [m] \<and> original_buf m = None))"
proof -
  obtain m st1 where h: "handle_type B C msg st = (m, st1)" by force
  have s: "msg_id m = msg_id msg" "msg_type m = msg_type msg" "ring st1 = ring st" "message_pool st1 = message_pool st"
    using handle_type_same [of msg st B C] h by (auto simp: same_queues_def)
  show ?thesis
  proof (cases "length (ring st (msg_type msg)) < ring_size C")
    case True
    then show ?thesis
      using h s assms sum_ids_upd [OF assms, of "ring st" m]
      by (auto simp: handle_msg_def Let_def all_ids_def)
  next
    case False
    obtain m' where "message_pool (drop_msg m st1) = message_pool st1 @ [m']" "msg_id m' = msg_id m" "original_buf m' = None"
      by (cases "original_buf m") (auto simp: drop_msg_def)
    then show ?thesis
      using False h s assms drop_msg_ids [of m st1] by (auto simp: handle_msg_def Let_def all_ids_def)
  qed
qed

lemma handle_msgs_conserve:
  "\<forall>m\<in>set msgs. msg_type m < LAZYBSD_MSG_NUM \<Longrightarrow>
    \<exists>st'. handle_msgs B C msgs st = Inr st' \<and> all_ids st' = ids msgs + all_ids st \<and>
      (\<forall>t. \<exists>ms. ring st' t = ring st t @ ms \<and> ((\<forall>m\<in>set msgs. msg_type m \<noteq> t) \<longrightarrow> ms = []) \<and>
         (length (ring st t) + length (filter (\<lambda>m. msg_type m = t) msgs) \<le> ring_size C \<longrightarrow>
            map msg_id ms = map msg_id (filter (\<lambda>m. msg_type m = t) msgs)))"
proof (induction msgs arbitrary: st)
  case (Cons msg msgs)
  then obtain st1 m where 1: "handle_msg B C msg st = Inr st1" "all_ids st1 = add_mset (msg_id msg) (all_ids st)"
      "\<forall>t. t \<noteq> msg_type msg \<longrightarrow> ring st1 t = ring st t" "msg_id m = msg_id msg"
      "if length (ring st (msg_type msg)) < ring_size C then ring st1 (msg_type msg) = ring st (msg_type msg) @ [m]
       else ring st1 (msg_type msg) = ring st (msg_type msg) \<and> message_pool st1 = message_pool st @ [m] \<and> original_buf m = None"
    using handle_msg_conserves [of msg B C st] by auto
  obtain st' where 2: "handle_msgs B C msgs st1 = Inr st'" "all_ids st' = ids msgs + all_ids st1"
      "\<forall>t. \<exists>ms. ring st' t = ring st1 t @ ms \<and> ((\<forall>m\<in>set msgs. msg_type m \<noteq> t) \<longrightarrow> ms = []) \<and>
         (length (ring st1 t) + length (filter (\<lambda>m. msg_type m = t) msgs) \<le> ring_size C \<longrightarrow>
            map msg_id ms = map msg_id (filter (\<lambda>m. msg_type m = t) msgs))"
    using Cons.IH [of st1] Cons.prems by auto
  have "\<exists>ms. ring st' t = ring st t @ ms \<and> ((\<forall>m\<in>set (msg # msgs). msg_type m \<noteq> t) \<longrightarrow> ms = []) \<and>
         (length (ring st t) + length (filter (\<lambda>m. msg_type m = t) (msg # msgs)) \<le> ring_size C \<longrightarrow>
            map msg_id ms = map msg_id (filter (\<lambda>m. msg_type m = t) (msg # msgs)))" for t
  proof (cases "t = msg_type msg")
    case False
    then show ?thesis using 1(3) spec [OF 2(3), of t] by simp
  next
    case True
    obtain ms where ms: "ring st' t = ring st1 t @ ms" "(\<forall>m\<in>set msgs. msg_type m \<noteq> t) \<longrightarrow> ms = []"
         "length (ring st1 t) + length (filter (\<lambda>m. msg_type m = t) msgs) \<le> ring_size C \<longrightarrow>
            map msg_id ms = map msg_id (filter (\<lambda>m. msg_type m = t) msgs)" using 2(3) by blast
    show ?thesis
    proof (cases "length (ring st t) < ring_size C")
      case True
      then show ?thesis using ms 1(4,5) \<open>t = msg_type msg\<close> by (intro exI [of _ "m # ms"]) auto
    next
      case False
      then show ?thesis using ms 1(5) \<open>t = msg_type msg\<close> by (intro exI [of _ ms]) auto
    qed
  qed
  then show ?case using 1(1,2) 2(1,2) by auto
qed simp

text \<open>No handler touches the account of time.\<close>

lemma handle_msgs_top: "handle_msgs B C msgs st = Inr st' \<Longrightarrow> lazybsd_top_status st' = lazybsd_top_status st"
proof (induction msgs arbitrary: st)
  case (Cons msg msgs)
  obtain m st1 where h: "handle_type B C msg st = (m, st1)" by force
  then have "lazybsd_top_status st1 = lazybsd_top_status st"
    using handle_type_same [of msg st B C] by (simp add: same_queues_def)
  moreover have "lazybsd_top_status (drop_msg m st1) = lazybsd_top_status st1" by (auto simp: drop_msg_def split: option.splits)
  ultimately show ?case
    using Cons h by (auto simp: handle_msg_def Let_def split: if_splits sum.splits)
qed simp

lemma all_ids_input: "all_ids st = ids (take n (ring st 0)) + all_ids (st\<lparr>ring := (ring st)(0 := drop n (ring st 0))\<rparr>)"
proof -
  have *: "(\<Sum>t<LAZYBSD_MSG_NUM. ids (f t)) = ids (f 0) + (\<Sum>t\<in>{1..<LAZYBSD_MSG_NUM}. ids (f t))" for f :: "nat \<Rightarrow> lazybsd_msg list"
    by (simp add: lessThan_atLeast0 sum.atLeast_Suc_lessThan)
  have "ids (take n (ring st 0)) + ids (drop n (ring st 0)) = ids (ring st 0)"
    by (metis append_take_drop_id ids_simps(3))
  then show ?thesis unfolding all_ids_def * by (simp add: ac_simps)
qed

text \<open>C7: A pass over the message ring loses no message and invents none.  As long as the requests in the input ring have a type the
  build knows numbers for, \<open>process_msg_ring\<close> returns, the messages in the rings and the pool are the same as before, every output ring
  keeps what it had and, when there is room, has the answered requests of its type added in the order in which they were asked.\<close>

theorem process_msg_ring_conserves:
  assumes "\<forall>m\<in>set (ring st 0). 0 < msg_type m \<and> msg_type m < LAZYBSD_MSG_NUM"
  shows "\<exists>st'. process_msg_ring B C st = Inr st' \<and> all_ids st' = all_ids st \<and> ring st' 0 = drop 32 (ring st 0) \<and>
    (\<forall>t>0. \<exists>ms. ring st' t = ring st t @ ms \<and>
       (length (ring st t) + length (filter (\<lambda>m. msg_type m = t) (take 32 (ring st 0))) \<le> ring_size C \<longrightarrow>
          map msg_id ms = map msg_id (filter (\<lambda>m. msg_type m = t) (take 32 (ring st 0)))))"
proof -
  let ?b = "take 32 (ring st 0)" and ?st = "st\<lparr>ring := (ring st)(0 := drop 32 (ring st 0))\<rparr>"
  have b: "\<forall>m\<in>set ?b. 0 < msg_type m \<and> msg_type m < LAZYBSD_MSG_NUM" using assms by (auto dest: in_set_takeD)
  then obtain st' where r: "handle_msgs B C ?b ?st = Inr st'" "all_ids st' = ids ?b + all_ids ?st"
      "\<forall>t. \<exists>ms. ring st' t = ring ?st t @ ms \<and> ((\<forall>m\<in>set ?b. msg_type m \<noteq> t) \<longrightarrow> ms = []) \<and>
         (length (ring ?st t) + length (filter (\<lambda>m. msg_type m = t) ?b) \<le> ring_size C \<longrightarrow>
            map msg_id ms = map msg_id (filter (\<lambda>m. msg_type m = t) ?b))"
    using handle_msgs_conserve [of ?b B C ?st] by auto
  have "\<forall>m\<in>set ?b. msg_type m \<noteq> 0" using b by auto
  then have "ring st' 0 = drop 32 (ring st 0)" using spec [OF r(3), of 0] by auto
  moreover have "all_ids st' = all_ids st" using r(2) all_ids_input [of st 32] by simp
  moreover have "\<forall>t>0. \<exists>ms. ring st' t = ring st t @ ms \<and>
       (length (ring st t) + length (filter (\<lambda>m. msg_type m = t) ?b) \<le> ring_size C \<longrightarrow>
          map msg_id ms = map msg_id (filter (\<lambda>m. msg_type m = t) ?b))"
  proof (intro allI impI)
    fix t :: nat assume "0 < t"
    then have "ring ?st t = ring st t" by simp
    then show "\<exists>ms. ring st' t = ring st t @ ms \<and>
       (length (ring st t) + length (filter (\<lambda>m. msg_type m = t) ?b) \<le> ring_size C \<longrightarrow>
          map msg_id ms = map msg_id (filter (\<lambda>m. msg_type m = t) ?b))"
      using spec [OF r(3), of t] by (simp only:) blast
  qed
  ultimately show ?thesis using r(1) by (auto simp: process_msg_ring_def Let_def)
qed

text \<open>A request for the traffic counters, for examples.\<close>

definition traffic_request :: lazybsd_msg where
  "traffic_request = \<lparr>msg_id = 7, msg_type = LAZYBSD_TRAFFIC, msg_result = 0, buf_len = 0, buf_addr = 0, original_buf = None,
     original_buf_len = 0, m_sysctl = ([], 0, None, None, None, 0), m_ioctl = (0, None), m_route = (0, 0, 0, 0),
     m_top = \<lparr>loops = 0, idle_tsc = 0, work_tsc = 0, sys_tsc = 0, usr_tsc = 0\<rparr>, m_ngctl = (0, 0, 0), m_ipfw = (0, 0, 0, None, 0),
     m_traffic = \<lparr>rx_packets = 0, rx_bytes = 0, tx_packets = 0, tx_bytes = 0\<rparr>, m_knictl = (0, 0)\<rparr>"

theorem process_msg_ring_conserves_witness:
  "\<forall>B (C :: unit msg_calls) st. \<exists>st'. process_msg_ring B (C\<lparr>ring_size := 4\<rparr>) (st\<lparr>ring := (\<lambda>_. [])(0 := [traffic_request])\<rparr>) = Inr st' \<and>
     ring st' 0 = [] \<and> map msg_id (ring st' 8) = [7]"
proof (intro allI)
  fix B and C :: "unit msg_calls" and st :: "unit msg_state"
  let ?st = "st\<lparr>ring := (\<lambda>_. [])(0 := [traffic_request])\<rparr>"
  have "\<forall>m\<in>set (ring ?st 0). 0 < msg_type m \<and> msg_type m < LAZYBSD_MSG_NUM" by (simp add: traffic_request_def)
  from process_msg_ring_conserves [OF this, of B "C\<lparr>ring_size := 4\<rparr>"] obtain st' where
    r: "process_msg_ring B (C\<lparr>ring_size := 4\<rparr>) ?st = Inr st'" "ring st' 0 = drop 32 (ring ?st 0)"
      "\<forall>t>0. \<exists>ms. ring st' t = ring ?st t @ ms \<and>
       (length (ring ?st t) + length (filter (\<lambda>m. msg_type m = t) (take 32 (ring ?st 0))) \<le> ring_size (C\<lparr>ring_size := 4\<rparr>) \<longrightarrow>
          map msg_id ms = map msg_id (filter (\<lambda>m. msg_type m = t) (take 32 (ring ?st 0))))"
    by blast
  have "map msg_id (ring st' 8) = [7]" using r(3) [rule_format, of 8] by (auto simp: traffic_request_def)
  then show "\<exists>st'. process_msg_ring B (C\<lparr>ring_size := 4\<rparr>) ?st = Inr st' \<and> ring st' 0 = [] \<and> map msg_id (ring st' 8) = [7]"
    using r(1,2) by auto
qed

section \<open>Wrong answers\<close>

text \<open>The error of a failed request is lost.  When the kernel refuses a sysctl request with the error \<open>rc\<close>, the socket layer stores
  the translated error in \<open>lazybsd_errno\<close>, but the answer carries the host's \<open>errno\<close>, whatever it happens to be: 0, success, in a thread in
  which no C library call failed.\<close>

theorem sysctl_error_lost:
  assumes "m_sysctl msg = (name, namelen, oldp, oldlenp, newp, newlen)"
    and "userland_sysctl (kernel C) name namelen oldp oldlenp newp newlen (stack st) = (rc, v, s)" and "rc \<noteq> 0"
  shows "handle_sysctl_msg C msg st = (msg\<lparr>msg_result := host_errno st\<rparr>, st\<lparr>stack := lazybsd_os_errno rc s\<rparr>) \<and>
    lazybsd_errno (stack (snd (handle_sysctl_msg C msg st))) = os_errno rc"
  using assms by (simp add: handle_sysctl_msg_def lazybsd_sysctl_def kern_fail_def set_result_def)

theorem sysctl_error_lost_witness:
  "\<forall>(C :: unit msg_calls) st. msg_result (fst (handle_sysctl_msg (C\<lparr>kernel := (kernel C)\<lparr>userland_sysctl := \<lambda>_ _ _ _ _ _ s. (1, 0, s)\<rparr>\<rparr>)
     traffic_request (st\<lparr>host_errno := 0\<rparr>))) = 0"
proof (intro allI)
  fix C :: "unit msg_calls" and st :: "unit msg_state"
  have "m_sysctl traffic_request = ([], 0, None, None, None, 0)" by (simp add: traffic_request_def)
  from sysctl_error_lost [OF this, of "C\<lparr>kernel := (kernel C)\<lparr>userland_sysctl := \<lambda>_ _ _ _ _ _ s. (1, 0, s)\<rparr>\<rparr>" "st\<lparr>host_errno := 0\<rparr>" 1 0 "stack st"]
  show "msg_result (fst (handle_sysctl_msg (C\<lparr>kernel := (kernel C)\<lparr>userland_sysctl := \<lambda>_ _ _ _ _ _ s. (1, 0, s)\<rparr>\<rparr>)
     traffic_request (st\<lparr>host_errno := 0\<rparr>))) = 0" by simp
qed

text \<open>A message of type \<open>LAZYBSD_UNKNOWN\<close>, the type of every message from the pool, is answered on ring 0, the input ring: it comes back
  in every pass and never reaches its sender.\<close>

lemma unknown_message_recirculates:
  assumes "ring st 0 = [m]" "msg_type m = LAZYBSD_UNKNOWN" "0 < ring_size C"
  shows "process_msg_ring B C st = Inr (st\<lparr>ring := (ring st)(0 := [m\<lparr>msg_result := HOST_ENOTSUP\<rparr>])\<rparr>)"
  using assms by (simp add: process_msg_ring_def handle_msg_def handle_type_def handle_default_msg_def Let_def)

end
