(* ===== verification/LB_Kevent.thy ===== *)
theory LB_Kevent
  imports LB_Socket
begin

text \<open>
  \<^verbatim>\<open>bsd/lib/lazybsd_kevent.c\<close>: \<open>lazybsd_kqueue\<close>, \<open>lazybsd_kevent\<close> and the callbacks through which FreeBSD's \<open>kern_kevent\<close> reads changes and
  returns events.  The kernel is a tree of the callbacks it makes: \<open>Copyin n f\<close> asks for \<open>n\<close> changes and goes on with \<open>f\<close> of them, \<open>Copyout\<close>
  delivers events, \<open>Kdone\<close> returns.  The caller's event array is a pointer, counted in events, into an array.
\<close>

section \<open>The code\<close>

type_synonym 'v events = "nat \<times> (nat \<Rightarrow> 'v)"

record 'v sys_kevent_args =
  changelist :: "'v list"
  eventlist :: "'v events"
  do_each :: "('v events \<Rightarrow> 'v \<Rightarrow> 'v events) option"

definition kevent_copyout :: "'v list \<Rightarrow> 'v sys_kevent_args \<Rightarrow> int \<times> 'v sys_kevent_args" where
  "kevent_copyout kevp uap =
     (0, uap\<lparr>eventlist :=
        (case do_each uap of
           None \<Rightarrow>
             (case eventlist uap of
                (p, a) \<Rightarrow> (p + length kevp, \<lambda>i. if p \<le> i \<and> i < p + length kevp then kevp ! (i - p) else a i))
         | Some f \<Rightarrow> foldl f (eventlist uap) kevp)\<rparr>)"

text \<open>Asking for more changes than there are reads behind the caller's array.\<close>

definition kevent_copyin :: "nat \<Rightarrow> 'v sys_kevent_args \<Rightarrow> (int \<times> 'v list \<times> 'v sys_kevent_args) kresult" where
  "kevent_copyin cnt uap =
     (if cnt > length (changelist uap) then Inl (Panic ''read past the change list'')
      else Inr (0, take cnt (changelist uap), uap\<lparr>changelist := drop cnt (changelist uap)\<rparr>))"

datatype ('v, 's) kprog = Kdone int 's | Copyin nat "'v list \<Rightarrow> ('v, 's) kprog" | Copyout "'v list" "('v, 's) kprog"

primrec run_kprog :: "('v, 's) kprog \<Rightarrow> 'v sys_kevent_args \<Rightarrow> (int \<times> 's \<times> 'v sys_kevent_args) kresult" where
  "run_kprog (Kdone rc s) uap = Inr (rc, s, uap)"
| "run_kprog (Copyin n f) uap =
     (case kevent_copyin n uap of Inl e \<Rightarrow> Inl e | Inr (_, kevs, uap) \<Rightarrow> run_kprog (f kevs) uap)"
| "run_kprog (Copyout kevs k) uap = run_kprog k (snd (kevent_copyout kevs uap))"

text \<open>\<open>kern_kevent\<close> is given a zero timeout, whatever the caller passed.\<close>

type_synonym ('v, 'k) kern_kevent_fn = "int \<Rightarrow> int \<Rightarrow> int \<Rightarrow> int \<times> int \<Rightarrow> 'k sock \<Rightarrow> ('v, 'k sock) kprog"

definition lazybsd_kevent_do_each ::
    "('v, 'k) kern_kevent_fn \<Rightarrow> int \<Rightarrow> 'v list \<Rightarrow> int \<Rightarrow> 'v events \<Rightarrow> int \<Rightarrow> (int \<times> int) option \<Rightarrow>
     ('v events \<Rightarrow> 'v \<Rightarrow> 'v events) option \<Rightarrow> 'k sock \<Rightarrow> (int \<times> 'v events \<times> 'k sock) kresult" where
  "lazybsd_kevent_do_each kern_kevent kq chgs nchanges ev nevents timeout each st =
     map_sum id (\<lambda>(rc, st, uap). if rc \<noteq> 0 then case kern_fail rc st of (r, st) \<Rightarrow> (r, eventlist uap, st)
                                else (retval st, eventlist uap, st))
       (run_kprog (kern_kevent kq nchanges nevents (0, 0) st) \<lparr>changelist = chgs, eventlist = ev, do_each = each\<rparr>)"

definition lazybsd_kevent ::
    "('v, 'k) kern_kevent_fn \<Rightarrow> int \<Rightarrow> 'v list \<Rightarrow> int \<Rightarrow> 'v events \<Rightarrow> int \<Rightarrow> (int \<times> int) option \<Rightarrow> 'k sock \<Rightarrow>
     (int \<times> 'v events \<times> 'k sock) kresult" where
  "lazybsd_kevent kern_kevent kq chgs nchanges ev nevents timeout st =
     lazybsd_kevent_do_each kern_kevent kq chgs nchanges ev nevents timeout None st"

definition lazybsd_kqueue :: "'k kcall \<Rightarrow> 'k sock \<Rightarrow> int \<times> 'k sock" where
  "lazybsd_kqueue kern_kqueue st = end_retval (kern_kqueue st)"

section \<open>What the kernel sees and delivers\<close>

text \<open>The kernel run on the change list alone: the events it delivers, its result, and the most changes it asks for.\<close>

primrec kernel_run :: "('v, 's) kprog \<Rightarrow> 'v list \<Rightarrow> 'v list \<times> int \<times> 's" where
  "kernel_run (Kdone rc s) cs = ([], rc, s)"
| "kernel_run (Copyin n f) cs = kernel_run (f (take n cs)) (drop n cs)"
| "kernel_run (Copyout kevs k) cs = (case kernel_run k cs of (evs, r) \<Rightarrow> (kevs @ evs, r))"

primrec asks_at_most :: "('v, 's) kprog \<Rightarrow> 'v list \<Rightarrow> bool" where
  "asks_at_most (Kdone rc s) cs \<longleftrightarrow> True"
| "asks_at_most (Copyin n f) cs \<longleftrightarrow> n \<le> length cs \<and> asks_at_most (f (take n cs)) (drop n cs)"
| "asks_at_most (Copyout kevs k) cs \<longleftrightarrow> asks_at_most k cs"

definition stored :: "'v events \<Rightarrow> 'v list \<Rightarrow> 'v events" where
  "stored ev kevs = (case ev of (p, a) \<Rightarrow> (p + length kevs, \<lambda>i. if p \<le> i \<and> i < p + length kevs then kevs ! (i - p) else a i))"

lemma stored_append: "stored (stored ev xs) ys = stored ev (xs @ ys)"
proof -
  obtain p a where ev: "ev = (p, a)" by force
  have "(if p + length xs \<le> i \<and> i < p + length xs + length ys then ys ! (i - (p + length xs))
      else if p \<le> i \<and> i < p + length xs then xs ! (i - p) else a i) =
      (if p \<le> i \<and> i < p + length (xs @ ys) then (xs @ ys) ! (i - p) else a i)" for i
    by (auto simp: nth_append)
  then show ?thesis by (simp add: stored_def ev fun_eq_iff)
qed

lemma stored_Nil [simp]: "stored ev [] = ev"
  by (cases ev) (auto simp: stored_def fun_eq_iff)

text \<open>Events delivered to the caller.\<close>

definition delivered :: "('v events \<Rightarrow> 'v \<Rightarrow> 'v events) option \<Rightarrow> 'v events \<Rightarrow> 'v list \<Rightarrow> 'v events" where
  "delivered each ev kevs = (case each of None \<Rightarrow> stored ev kevs | Some f \<Rightarrow> foldl f ev kevs)"

lemma delivered_simps [simp]:
  "delivered each ev [] = ev" "delivered each (delivered each ev xs) ys = delivered each ev (xs @ ys)"
  by (cases each; simp add: delivered_def stored_append)+

lemma copyout_delivers: "kevent_copyout kevs uap = (0, uap\<lparr>eventlist := delivered (do_each uap) (eventlist uap) kevs\<rparr>)"
  by (cases "do_each uap") (auto simp: kevent_copyout_def delivered_def stored_def split: prod.splits)

lemma run_kprog_spec:
  "asks_at_most k (changelist uap) \<Longrightarrow> kernel_run k (changelist uap) = (evs, rc, s) \<Longrightarrow>
    \<exists>uap'. run_kprog k uap = Inr (rc, s, uap') \<and> eventlist uap' = delivered (do_each uap) (eventlist uap) evs"
proof (induction k arbitrary: uap evs)
  case (Copyin n f)
  let ?uap = "uap\<lparr>changelist := drop n (changelist uap)\<rparr>"
  have "asks_at_most (f (take n (changelist uap))) (changelist ?uap)" "n \<le> length (changelist uap)"
      "kernel_run (f (take n (changelist uap))) (changelist ?uap) = (evs, rc, s)"
    using Copyin.prems by auto
  with Copyin.IH [of "f (take n (changelist uap))" ?uap evs] show ?case by (auto simp: kevent_copyin_def)
next
  case (Copyout kevs k)
  obtain evs' where e: "kernel_run k (changelist uap) = (evs', rc, s)" "evs = kevs @ evs'"
    using Copyout.prems(2) by (auto split: prod.splits)
  show ?case using Copyout.IH [of "snd (kevent_copyout kevs uap)" evs'] Copyout.prems(1) e by (simp add: copyout_delivers)
qed auto

text \<open>C33: \<open>lazybsd_kevent_do_each\<close> is a faithful pipe between the caller and the kernel.  However the kernel cuts its reads and
  deliveries, as long as it does not ask for more changes than it was given, it sees the change list in order, without gaps or
  repetitions, and the caller gets the delivered events in order: stored one after the other from the pointer on, or given to the
  callback one by one; the result is the kernel's.\<close>

theorem kevent_pipe:
  assumes "asks_at_most (kern_kevent kq nchanges nevents (0, 0) st) chgs"
    and "kernel_run (kern_kevent kq nchanges nevents (0, 0) st) chgs = (evs, rc, st')"
  shows "lazybsd_kevent_do_each kern_kevent kq chgs nchanges ev nevents timeout each st =
    Inr (if rc \<noteq> 0 then -1 else retval st', case each of None \<Rightarrow> stored ev evs | Some f \<Rightarrow> foldl f ev evs,
         if rc \<noteq> 0 then lazybsd_os_errno rc st' else st')"
proof -
  obtain uap where "run_kprog (kern_kevent kq nchanges nevents (0, 0) st) \<lparr>changelist = chgs, eventlist = ev, do_each = each\<rparr> =
      Inr (rc, st', uap)" "eventlist uap = delivered each ev evs"
    using run_kprog_spec [of "kern_kevent kq nchanges nevents (0, 0) st" "\<lparr>changelist = chgs, eventlist = ev, do_each = each\<rparr>" evs rc st']
      assms by auto
  then show ?thesis by (auto simp: lazybsd_kevent_do_each_def kern_fail_def delivered_def)
qed

theorem kevent_pipe_witness:
  "\<forall>st :: unit sock. lazybsd_kevent_do_each (\<lambda>_ _ _ _ st. Copyin 2 (\<lambda>cs. Copyout [hd cs] (Copyin 1 (\<lambda>ds. Copyout ds (Kdone 0 st)))))
     3 [10, 20, 30 :: nat] 3 (5, \<lambda>_. 0) 8 None None (st\<lparr>td_retval := 2\<rparr>) =
     Inr (2, stored (5, \<lambda>_. 0) [10, 30], st\<lparr>td_retval := 2\<rparr>)"
proof
  fix st :: "unit sock"
  show "lazybsd_kevent_do_each (\<lambda>_ _ _ _ st. Copyin 2 (\<lambda>cs. Copyout [hd cs] (Copyin 1 (\<lambda>ds. Copyout ds (Kdone 0 st)))))
     3 [10, 20, 30 :: nat] 3 (5, \<lambda>_. 0) 8 None None (st\<lparr>td_retval := 2\<rparr>) =
     Inr (2, stored (5, \<lambda>_. 0) [10, 30], st\<lparr>td_retval := 2\<rparr>)"
    by (subst kevent_pipe [where evs = "[10, 30]" and rc = 0 and st' = "st\<lparr>td_retval := 2\<rparr>"]) (simp_all add: retval_def)
qed

end
