(* ===== verification/LB_Route.thy ===== *)
theory LB_Route
  imports LB_Sockaddr LB_Sockopt
begin

text \<open>
  Route messages, \<^verbatim>\<open>bsd/lib/lazybsd_route.c\<close>: taking the addresses of a request apart (\<open>rt_xaddrs\<close>), normalising them
  (\<open>cleanup_xaddrs\<close>) and writing a reply (\<open>rtsock_msg_buffer\<close>), on byte memory.

  The layouts are FreeBSD's: a \<open>sockaddr\<close> has its length at 0 and its family at 1; a \<open>sockaddr_in\<close> has 16 bytes with the address at
  4, a \<open>sockaddr_in6\<close> 28 bytes with the address at 8 and the scope at 24, a \<open>sockaddr_dl\<close> its index at 2, the lengths of name and address at 5 and 6 and its
  data at 8.  Addresses of a message are numbered: destination 0, gateway 1, netmask 2.  \<open>SZ\<close> is the address of the static \<open>sa_zero\<close>.  The conversions of IPv6 scopes
  are FreeBSD's and arguments.
\<close>

section \<open>Addresses\<close>

abbreviation (input) F_INET :: u8 where "F_INET \<equiv> 2"
abbreviation (input) F_LINK :: u8 where "F_LINK \<equiv> 18"
abbreviation (input) F_INET6 :: u8 where "F_INET6 \<equiv> 28"

text \<open>\<open>SA_SIZE\<close>: the length rounded up to a multiple of 8, and 8 for the length 0.\<close>

definition SA_SIZE :: "mem \<Rightarrow> nat \<Rightarrow> nat" where
  "SA_SIZE m sa = (if m sa = 0 then 8 else 1 + ((unat (m sa) - 1) OR 7))"

abbreviation (input) RTAX_DST :: nat where "RTAX_DST \<equiv> 0"
abbreviation (input) RTAX_GATEWAY :: nat where "RTAX_GATEWAY \<equiv> 1"
abbreviation (input) RTAX_NETMASK :: nat where "RTAX_NETMASK \<equiv> 2"
abbreviation (input) RTAX_GENMASK :: nat where "RTAX_GENMASK \<equiv> 3"
abbreviation (input) RTAX_IFP :: nat where "RTAX_IFP \<equiv> 4"
abbreviation (input) RTAX_IFA :: nat where "RTAX_IFA \<equiv> 5"
abbreviation (input) RTAX_BRD :: nat where "RTAX_BRD \<equiv> 7"
abbreviation (input) RTAX_MAX :: nat where "RTAX_MAX \<equiv> 8"

abbreviation (input) RTF_GATEWAY :: u32 where "RTF_GATEWAY \<equiv> 0x2"
abbreviation (input) RTF_HOST :: u32 where "RTF_HOST \<equiv> 0x4"
abbreviation (input) RTF_REJECT :: u32 where "RTF_REJECT \<equiv> 0x8"
abbreviation (input) RTF_DONE :: u32 where "RTF_DONE \<equiv> 0x40"
abbreviation (input) RTF_LLDATA :: u32 where "RTF_LLDATA \<equiv> 0x400"
abbreviation (input) RTF_BLACKHOLE :: u32 where "RTF_BLACKHOLE \<equiv> 0x1000"
abbreviation (input) RTF_ANNOUNCE :: u32 where "RTF_ANNOUNCE \<equiv> 0x4000"
abbreviation (input) RTF_RNH_LOCKED :: u32 where "RTF_RNH_LOCKED \<equiv> 0x40000000"
abbreviation (input) RTF_GWFLAG_COMPAT :: u32 where "RTF_GWFLAG_COMPAT \<equiv> 0x80000000"

record addrinfo =
  rti_addrs :: u32
  rti_flags :: u32
  rti_info :: "nat \<Rightarrow> nat option"

section \<open>Taking a message apart\<close>

type_synonym scope_fn = "nat \<Rightarrow> mem \<Rightarrow> mem"

function rt_xaddrs_from :: "scope_fn \<Rightarrow> nat \<Rightarrow> nat \<Rightarrow> nat \<Rightarrow> nat \<Rightarrow> addrinfo \<Rightarrow> mem \<Rightarrow> int \<times> addrinfo \<times> mem" where
  "rt_xaddrs_from emb SZ cplim i cp rtinfo m =
     (if i < RTAX_MAX \<and> cp < cplim then
        if \<not> bit (rti_addrs rtinfo) i then rt_xaddrs_from emb SZ cplim (i + 1) cp rtinfo m
        else if cp + unat (m cp) > cplim then (22, rtinfo, m)
        else if m cp = 0 then (0, rtinfo\<lparr>rti_info := (rti_info rtinfo)(i \<mapsto> SZ)\<rparr>, m)
        else
          let m = (if m (cp + 1) = F_INET6 then emb cp m else m)
          in rt_xaddrs_from emb SZ cplim (i + 1) (cp + SA_SIZE m cp) (rtinfo\<lparr>rti_info := (rti_info rtinfo)(i \<mapsto> cp)\<rparr>) m
      else (0, rtinfo, m))"
  by pat_completeness auto
termination
  by (relation "measure (\<lambda>(_, _, _, i, _). RTAX_MAX - i)") auto

declare rt_xaddrs_from.simps [simp del]

definition rt_xaddrs :: "scope_fn \<Rightarrow> nat \<Rightarrow> nat \<Rightarrow> nat \<Rightarrow> addrinfo \<Rightarrow> mem \<Rightarrow> int \<times> addrinfo \<times> mem" where
  "rt_xaddrs emb SZ cp cplim rtinfo m = rt_xaddrs_from emb SZ cplim 0 cp rtinfo m"

section \<open>Normalising addresses\<close>

definition fill_sockaddr_inet :: "nat \<Rightarrow> u8 list \<Rightarrow> mem \<Rightarrow> mem" where
  "fill_sockaddr_inet sin addr = mwrite sin ([16, F_INET, 0, 0] @ addr @ replicate 8 0)"

definition fill_sockaddr_inet6 :: "nat \<Rightarrow> u8 list \<Rightarrow> u8 list \<Rightarrow> mem \<Rightarrow> mem" where
  "fill_sockaddr_inet6 sin6 addr6 scopeid = mwrite sin6 ([28, F_INET6, 0, 0, 0, 0, 0, 0] @ addr6 @ scopeid)"

definition cleanup_xaddrs_lladdr :: "nat \<Rightarrow> mem \<Rightarrow> int" where
  "cleanup_xaddrs_lladdr sdl m =
     (if m (sdl + 1) \<noteq> F_LINK then 22
      else if ld16 m (sdl + 2) = 0 then 22
      else if 8 + unat (m (sdl + 5)) + unat (m (sdl + 6)) > unat (m sdl) then 22
      else 0)"

text \<open>\<open>sizeof (struct sockaddr_dl_short)\<close> is 16.\<close>

definition cleanup_xaddrs_gateway :: "addrinfo \<Rightarrow> nat \<Rightarrow> mem \<Rightarrow> int \<times> mem" where
  "cleanup_xaddrs_gateway info gw m =
     (if rti_flags info AND RTF_LLDATA \<noteq> 0 then (cleanup_xaddrs_lladdr gw m, m)
      else if m (gw + 1) = F_INET then
        (if m gw < 16 then (22, m) else (0, fill_sockaddr_inet gw (mread m (gw + 4) 4) m))
      else if m (gw + 1) = F_INET6 then
        (if m gw < 28 then (22, m) else (0, fill_sockaddr_inet6 gw (mread m (gw + 8) 16) [0, 0, 0, 0] m))
      else if m (gw + 1) = F_LINK then
        (if m gw < 16 then (22, m)
         else (0, mwrite gw ([16, F_LINK, m (gw + 2), m (gw + 3)] @ replicate 12 0) m))
      else (0, m))"

definition remove_netmask :: "addrinfo \<Rightarrow> addrinfo" where
  "remove_netmask info =
     info\<lparr>rti_info := (rti_info info)(RTAX_NETMASK := None), rti_flags := rti_flags info OR RTF_HOST,
         rti_addrs := rti_addrs info AND NOT (push_bit RTAX_NETMASK 1)\<rparr>"

text \<open>Addresses as their four bytes: the conjunction of two numbers in host order is that of the bytes.\<close>

definition and_bytes :: "u8 list \<Rightarrow> u8 list \<Rightarrow> u8 list" where
  "and_bytes as bs = map2 (AND) as bs"

definition check_gateway :: "addrinfo \<Rightarrow> mem \<Rightarrow> int \<times> addrinfo \<times> mem" where
  "check_gateway info m =
     (case rti_info info RTAX_GATEWAY of
        Some gw \<Rightarrow> (case cleanup_xaddrs_gateway info gw m of (err, m) \<Rightarrow> (err, info, m))
      | None \<Rightarrow> (0, info, m))"

definition cleanup_xaddrs_inet :: "addrinfo \<Rightarrow> nat \<Rightarrow> mem \<Rightarrow> int \<times> addrinfo \<times> mem" where
  "cleanup_xaddrs_inet info dst_sa m =
     (let mask_sa = rti_info info RTAX_NETMASK;
          msk = (case mask_sa of Some p \<Rightarrow> mread m (p + 4) 4 | None \<Rightarrow> replicate 4 0xff);
          dst = and_bytes (mread m (dst_sa + 4) 4) msk
      in if m dst_sa < 16 then (22, info, m)
         else if (case mask_sa of Some p \<Rightarrow> m p < 16 | None \<Rightarrow> False) then (22, info, m)
         else
           let m = fill_sockaddr_inet dst_sa dst m;
               (info, m) = (if msk \<noteq> replicate 4 0xff
                            then (info, case mask_sa of Some p \<Rightarrow> fill_sockaddr_inet p msk m | None \<Rightarrow> m)
                            else (remove_netmask info, m))
           in check_gateway info m)"

text \<open>\<open>IN6_MASK_ADDR\<close> writes the address before its length is checked.\<close>

definition cleanup_xaddrs_inet6 :: "addrinfo \<Rightarrow> nat \<Rightarrow> mem \<Rightarrow> int \<times> addrinfo \<times> mem" where
  "cleanup_xaddrs_inet6 info dst_sa m =
     (let mask_sa = rti_info info RTAX_NETMASK;
          msk = (case mask_sa of Some p \<Rightarrow> mread m (p + 8) 16 | None \<Rightarrow> replicate 16 0xff);
          m = mwrite (dst_sa + 8) (and_bytes (mread m (dst_sa + 8) 16) msk) m
      in if m dst_sa < 28 then (22, info, m)
         else if (case mask_sa of Some p \<Rightarrow> m p < 28 | None \<Rightarrow> False) then (22, info, m)
         else
           let m = fill_sockaddr_inet6 dst_sa (mread m (dst_sa + 8) 16) [0, 0, 0, 0] m;
               (info, m) = (if msk \<noteq> replicate 16 0xff
                            then (info, case mask_sa of Some p \<Rightarrow> fill_sockaddr_inet6 p msk [0, 0, 0, 0] m | None \<Rightarrow> m)
                            else (remove_netmask info, m))
           in check_gateway info m)"

text \<open>\<open>EAFNOSUPPORT\<close> is 47.\<close>

definition cleanup_xaddrs :: "addrinfo \<Rightarrow> mem \<Rightarrow> int \<times> addrinfo \<times> mem" where
  "cleanup_xaddrs info m =
     (case rti_info info RTAX_DST of
        None \<Rightarrow> (22, info, m)
      | Some dst \<Rightarrow>
          let info = (if rti_flags info AND RTF_LLDATA \<noteq> 0 then remove_netmask info else info)
          in if m (dst + 1) = F_INET then cleanup_xaddrs_inet info dst m
             else if m (dst + 1) = F_INET6 then cleanup_xaddrs_inet6 info dst m
             else (47, info, m))"

section \<open>Writing a message\<close>

text \<open>The length of the header of a message: sizes of FreeBSD structures, given by \<open>H\<close>.\<close>

definition msg_hdrlen :: "fbsd_headers \<Rightarrow> int \<Rightarrow> int option \<Rightarrow> int" where
  "msg_hdrlen H type w_op =
     (if type = H ''RTM_DELADDR'' \<or> type = H ''RTM_NEWADDR''
      then (if w_op = Some (H ''NET_RT_IFLISTL'') then H ''sizeof ifa_msghdrl'' else H ''sizeof ifa_msghdr'')
      else if type = H ''RTM_IFINFO''
      then (if w_op = Some (H ''NET_RT_IFLISTL'') then H ''sizeof if_msghdrl'' else H ''sizeof if_msghdr'')
      else if type = H ''RTM_NEWMADDR'' then H ''sizeof ifma_msghdr''
      else H ''sizeof rt_msghdr'')"

text \<open>What is copied for an address: an IPv6 address goes through a \<open>sockaddr_storage\<close> in which the scope is recovered; \<open>stale\<close> are the bytes of that variable
  behind the \<open>sockaddr_in6\<close>, which are not initialised.\<close>

definition sa_copy :: "(u8 list \<Rightarrow> u8 list option) \<Rightarrow> u8 list \<Rightarrow> mem \<Rightarrow> nat \<Rightarrow> nat \<Rightarrow> u8 list" where
  "sa_copy recover stale m sa dlen =
     (if m (sa + 1) = F_INET6
      then (case recover (mread m sa 28) of Some b \<Rightarrow> take dlen (b @ stale) | None \<Rightarrow> mread m sa dlen)
      else mread m sa dlen)"

text \<open>The loop: \<open>cp\<close> is NULL without a buffer or once an address did not fit.\<close>

function msg_addrs ::
    "(u8 list \<Rightarrow> u8 list option) \<Rightarrow> u8 list \<Rightarrow> nat \<Rightarrow> nat option \<Rightarrow> int \<Rightarrow> int \<Rightarrow> addrinfo \<Rightarrow> mem \<Rightarrow> nat option \<times> int \<times> int \<times> addrinfo \<times> mem" where
  "msg_addrs recover stale i cp buflen len info m =
     (if i < RTAX_MAX then
        case rti_info info i of
          None \<Rightarrow> msg_addrs recover stale (i + 1) cp buflen len info m
        | Some sa \<Rightarrow>
            let info = info\<lparr>rti_addrs := rti_addrs info OR push_bit i 1\<rparr>;
                dlen = SA_SIZE m sa
            in (case cp of
                  Some p \<Rightarrow>
                    if buflen \<ge> int dlen
                    then msg_addrs recover stale (i + 1) (Some (p + dlen)) (buflen - int dlen) (len + int dlen) info
                           (mwrite p (sa_copy recover stale m sa dlen) m)
                    else msg_addrs recover stale (i + 1) None buflen (len + int dlen) info m
                | None \<Rightarrow> msg_addrs recover stale (i + 1) None buflen (len + int dlen) info m)
      else (cp, buflen, len, info, m))"
  by pat_completeness auto
termination
  by (relation "measure (\<lambda>(_, _, i, _). RTAX_MAX - i)") auto

declare msg_addrs.simps [simp del]

definition ALIGN :: "int \<Rightarrow> int" where
  "ALIGN n = 8 * ((n + 7) div 8)"

text \<open>\<open>w\<close> is the buffer, its address, size and operation; \<open>rtm_msglen\<close> is at 0, the version at 2 and the type at 3.\<close>

definition rtsock_msg_buffer ::
    "fbsd_headers \<Rightarrow> (u8 list \<Rightarrow> u8 list option) \<Rightarrow> u8 list \<Rightarrow> int \<Rightarrow> addrinfo \<Rightarrow> (nat \<times> int \<times> int) option \<Rightarrow> mem \<Rightarrow> int \<times> int \<times> addrinfo \<times> mem" where
  "rtsock_msg_buffer H recover stale type info w m =
     (let len = msg_hdrlen H type (map_option (\<lambda>(_, _, op). op) w);
          (cp, buflen) = (case w of Some (tmem, tmemsize, _) \<Rightarrow> (Some (tmem + nat len), tmemsize - len) | None \<Rightarrow> (None, 0));
          (cp, buflen, len, info, m) = msg_addrs recover stale 0 cp buflen len (info\<lparr>rti_addrs := 0\<rparr>) m;
          cp = (if cp \<noteq> None \<and> buflen < ALIGN len - len then None else cp);
          len = ALIGN len;
          m = (case (cp, w) of
                 (Some _, Some (tmem, _)) \<Rightarrow>
                   mwrite tmem [word_of_int len, word_of_int (len div 256), word_of_int (H ''RTM_VERSION''), word_of_int type] m
               | _ \<Rightarrow> m)
      in (if w \<noteq> None \<and> cp = None then 55 else 0, len, info, m))"

end
