(* ===== verification/LB_Rtioctl.thy ===== *)
theory LB_Rtioctl
  imports LB_Route
begin

text \<open>
  \<open>lazybsd_rtioctl\<close> of \<^verbatim>\<open>bsd/lib/lazybsd_route.c\<close>: a route message is copied in, checked, carried out and answered in place.

  A \<open>struct rt_msghdr\<close> has 152 bytes: the length at 0, version 2, type 3, interface index 4, flags 8, addresses 12, process 16, error 24, and the metrics
  from 40 on (MTU at 8, expiry at 24, weight at 80 and next-hop index at 88 of them).  The message, the caller's buffer and the variables of the stack, whose addresses
  are the record \<open>rt_stack\<close>, lie in one byte memory, as pointers into them are exchanged.  FreeBSD's routing tables are the record \<open>rt_kernel\<close>: functions that
  read memory and the state \<open>'k\<close> of the kernel and return a new state; they do not write the message.  A lookup reads a \<open>sockaddr\<close>, the bytes it is given.
  \<open>ROUTE_MPATH\<close> is off in this build.
\<close>

section \<open>Data\<close>

abbreviation (input) SIZEOF_RTM :: nat where "SIZEOF_RTM \<equiv> 152"

abbreviation (input) rtm_type :: "nat \<Rightarrow> nat" where "rtm_type rtm \<equiv> rtm + 3"
abbreviation (input) rtm_index :: "nat \<Rightarrow> nat" where "rtm_index rtm \<equiv> rtm + 4"
abbreviation (input) rtm_flags :: "nat \<Rightarrow> nat" where "rtm_flags rtm \<equiv> rtm + 8"
abbreviation (input) rtm_addrs :: "nat \<Rightarrow> nat" where "rtm_addrs rtm \<equiv> rtm + 12"
abbreviation (input) rtm_pid :: "nat \<Rightarrow> nat" where "rtm_pid rtm \<equiv> rtm + 16"
abbreviation (input) rtm_errno :: "nat \<Rightarrow> nat" where "rtm_errno rtm \<equiv> rtm + 24"
abbreviation (input) rtm_rmx :: "nat \<Rightarrow> nat" where "rtm_rmx rtm \<equiv> rtm + 40"

abbreviation (input) RTM_VERSION :: u8 where "RTM_VERSION \<equiv> 5"
abbreviation (input) RTM_ADD :: u8 where "RTM_ADD \<equiv> 1"
abbreviation (input) RTM_DELETE :: u8 where "RTM_DELETE \<equiv> 2"
abbreviation (input) RTM_CHANGE :: u8 where "RTM_CHANGE \<equiv> 3"
abbreviation (input) RTM_GET :: u8 where "RTM_GET \<equiv> 4"

abbreviation (input) RTA_NETMASK :: u32 where "RTA_NETMASK \<equiv> 0x4"
abbreviation (input) RTA_IFP :: u32 where "RTA_IFP \<equiv> 0x10"
abbreviation (input) RTA_IFA :: u32 where "RTA_IFA \<equiv> 0x20"

record rt_ifaddr =
  ifa_addr :: nat
  ifa_netmask :: "nat option"
  ifa_dstaddr :: "nat option"

record rt_ifnet =
  if_index :: u16
  propvirtual :: bool
  pointopoint :: bool
  if_addr :: rt_ifaddr
  if_addrhead :: "rt_ifaddr list"

text \<open>\<open>gw_sa\<close> is the address of the next hop's gateway.  \<open>rt_prefix\<close> is what \<open>rt_get_inet_prefix_pmask\<close> and its IPv6 version return: address, mask and scope.\<close>

record nhop_object =
  nh_ifp :: "rt_ifnet option"
  nh_ifa :: rt_ifaddr
  gw_sa :: nat
  nh_mtu :: u16
  nhop_idx :: u32
  nhop_rtflags :: u32
  nh_is_nhgrp :: bool

record rtentry =
  rt_weight :: u32
  rt_expire :: u64
  rte_flags :: u32
  rt_is_host :: bool
  rt_raw_nhop :: nhop_object
  rt_prefix :: "u8 list \<times> u8 list \<times> u8 list"

record rib_cmd_info =
  rc_rt :: rtentry
  rc_nh_new :: "nhop_object option"
  rc_nh_old :: "nhop_object option"
  rc_nh_weight :: u32

record rt_stack =
  sa_dst :: nat
  sa_mask :: nat
  saun :: nat
  gw_saun :: nat
  laddr :: nat
  w_op :: int

text \<open>\<open>rt_malloc\<close> and \<open>rt_realloc\<close> answer the two allocations of a call.  \<open>rib_lookup_info\<close> gives the family of the gateway it found and whether its interface is the loopback.
  \<open>rib_act\<close> gets the loopback's interface and address when the route is a black hole.\<close>

record 'k rt_kernel =
  rt_headers :: fbsd_headers
  rt_malloc :: "u64 \<Rightarrow> nat option"
  rt_realloc :: "int \<Rightarrow> nat option"
  sa_zero :: nat
  embedscope :: scope_fn
  recoverscope :: "u8 list \<Rightarrow> u8 list option"
  stale_ss :: "u8 list"
  p_pid :: u32
  time_uptime :: u64
  time_second :: u64
  loif :: "rt_ifnet option"
  rib_lookup_info :: "int \<Rightarrow> u8 list \<Rightarrow> 'k \<Rightarrow> (u8 \<times> bool) option"
  rt_tables_get_rnh :: "int \<Rightarrow> u8 \<Rightarrow> bool"
  rnh_matchaddr :: "int \<Rightarrow> u8 list \<Rightarrow> 'k \<Rightarrow> rtentry option"
  rnh_lookup :: "int \<Rightarrow> u8 list \<Rightarrow> u8 list option \<Rightarrow> 'k \<Rightarrow> rtentry option"
  ifa_ifwithnet :: "u8 list \<Rightarrow> 'k \<Rightarrow> rt_ifaddr option"
  rt_maskedcopy :: "u8 list \<Rightarrow> u8 list option \<Rightarrow> u8 list"
  lla_rt_output :: "nat \<Rightarrow> addrinfo \<Rightarrow> mem \<Rightarrow> 'k \<Rightarrow> int \<times> 'k"
  rib_act :: "int \<Rightarrow> u8 \<Rightarrow> nat \<Rightarrow> addrinfo \<Rightarrow> (rt_ifnet \<times> rt_ifaddr) option \<Rightarrow> mem \<Rightarrow> 'k \<Rightarrow> int \<times> rib_cmd_info \<times> addrinfo \<times> 'k"

definition sockaddr_at :: "mem \<Rightarrow> nat \<Rightarrow> u8 list" where
  "sockaddr_at m sa = mread m sa (unat (m sa))"

section \<open>Jails and privileges\<close>

text \<open>The stubs of \<^verbatim>\<open>bsd/lib/lazybsd_patch.c\<close>: there are no jails and everything is allowed.\<close>

definition prison_if :: "u8 list \<Rightarrow> int" where "prison_if sa = 0"
definition prison_check_ip4 :: "u8 list \<Rightarrow> int" where "prison_check_ip4 ia = 0"
definition prison_get_ip4 :: "u8 list \<Rightarrow> int" where "prison_get_ip4 ia = 0"
definition prison_check_ip6 :: "u8 list \<Rightarrow> int" where "prison_check_ip6 ia = 0"
definition prison_get_ip6 :: "u8 list \<Rightarrow> int" where "prison_get_ip6 ia = 0"
definition jailed_without_vnet :: int where "jailed_without_vnet = 0"
definition priv_check :: int where "priv_check = 0"

text \<open>The last resort of \<open>rtm_get_jailed\<close>: \<open>None\<close> when the jail has no address.\<close>

definition jail_address :: "(u8 list \<Rightarrow> int) \<Rightarrow> (u8 list \<Rightarrow> int) \<Rightarrow> u8 \<Rightarrow> nat \<Rightarrow> nat \<Rightarrow> rt_ifnet \<Rightarrow> nhop_object \<Rightarrow> mem \<Rightarrow> u8 list option" where
  "jail_address check get_ip family off n ifp nh m =
     (case find (\<lambda>ifa. m (ifa_addr ifa + 1) = family \<and> check (mread m (ifa_addr ifa + off) n) = 0) (if_addrhead ifp) of
        Some ifa \<Rightarrow> Some (mread m (ifa_addr ifa + off) n)
      | None \<Rightarrow>
          let ia = mread m (ifa_addr (nh_ifa nh) + off) n
          in if get_ip ia \<noteq> 0 then None else Some ia)"

definition rtm_get_jailed ::
    "'k rt_kernel \<Rightarrow> rt_stack \<Rightarrow> addrinfo \<Rightarrow> u8 \<Rightarrow> rt_ifnet \<Rightarrow> nhop_object \<Rightarrow> mem \<Rightarrow> int \<times> addrinfo \<times> mem" where
  "rtm_get_jailed K S info family ifp nh m =
     (if prison_if (sockaddr_at m (ifa_addr (nh_ifa nh))) = 0
      then (0, info\<lparr>rti_info := (rti_info info)(RTAX_IFA \<mapsto> ifa_addr (nh_ifa nh))\<rparr>, m)
      else if family = F_INET then
        (case jail_address prison_check_ip4 prison_get_ip4 F_INET 4 4 ifp nh m of
           None \<Rightarrow> (3, info, m)
         | Some ia \<Rightarrow> (0, info\<lparr>rti_info := (rti_info info)(RTAX_IFA \<mapsto> saun S)\<rparr>, fill_sockaddr_inet (saun S) ia m))
      else if family = F_INET6 then
        (case jail_address prison_check_ip6 prison_get_ip6 F_INET6 8 16 ifp nh m of
           None \<Rightarrow> (3, info, m)
         | Some ia6 \<Rightarrow>
             let m = fill_sockaddr_inet6 (saun S) ia6 [0, 0, 0, 0] m
             in case recoverscope K (mread m (saun S) 28) of
                  None \<Rightarrow> (3, info, m)
                | Some b \<Rightarrow> (0, info\<lparr>rti_info := (rti_info info)(RTAX_IFA \<mapsto> saun S)\<rparr>, mwrite (saun S) b m))
      else (3, info, m))"

section \<open>Requests\<close>

definition fill_blackholeinfo ::
    "'k rt_kernel \<Rightarrow> rt_stack \<Rightarrow> addrinfo \<Rightarrow> u8 \<Rightarrow> mem \<Rightarrow> int \<times> addrinfo \<times> (rt_ifnet \<times> rt_ifaddr) option \<times> mem" where
  "fill_blackholeinfo K S info saf m =
     (case loif K of
        None \<Rightarrow> (45, info, None, m)
      | Some ifp \<Rightarrow>
          (case find (\<lambda>ifa. m (ifa_addr ifa + 1) = saf) (if_addrhead ifp) of
             None \<Rightarrow> (45, info, None, m)
           | Some ifa \<Rightarrow>
               let m = mwrite (gw_saun S) (replicate 28 0) m;
                   info' = info\<lparr>rti_info := (rti_info info)(RTAX_GATEWAY \<mapsto> gw_saun S), rti_flags := rti_flags info OR RTF_GATEWAY\<rparr>
               in if saf = F_INET then (0, info', Some (ifp, ifa), fill_sockaddr_inet (gw_saun S) [127, 0, 0, 1] m)
                  else if saf = F_INET6
                  then (0, info', Some (ifp, ifa), fill_sockaddr_inet6 (gw_saun S) (replicate 15 0 @ [1]) [0, 0, 0, 0] m)
                  else (45, info, Some (ifp, ifa), m)))"

text \<open>A gateway that is an address of this host is no gateway.\<close>

definition local_gateway :: "'k rt_kernel \<Rightarrow> int \<Rightarrow> 'k \<Rightarrow> addrinfo \<Rightarrow> mem \<Rightarrow> addrinfo" where
  "local_gateway K fibnum k info m =
     (case rti_info info RTAX_GATEWAY of
        Some gdst \<Rightarrow>
          if m (gdst + 1) \<noteq> F_LINK
          then (case rib_lookup_info K fibnum (sockaddr_at m gdst) k of
                  Some (family, loopback) \<Rightarrow>
                    if family = F_LINK \<and> loopback
                    then info\<lparr>rti_flags := rti_flags info AND NOT RTF_GATEWAY OR RTF_GWFLAG_COMPAT\<rparr>
                    else info
                | None \<Rightarrow> info)
          else info
      | None \<Rightarrow> info)"

definition fill_addrinfo :: "'k rt_kernel \<Rightarrow> nat \<Rightarrow> nat \<Rightarrow> int \<Rightarrow> 'k \<Rightarrow> mem \<Rightarrow> int \<times> addrinfo \<times> mem" where
  "fill_addrinfo K rtm len fibnum k m =
     (let m = st32 (rtm_pid rtm) (p_pid K) m;
          info = \<lparr>rti_addrs = ld32 m (rtm_addrs rtm), rti_flags = 0, rti_info = (\<lambda>_. None)\<rparr>
      in case rt_xaddrs (embedscope K) (sa_zero K) (rtm + SIZEOF_RTM) (rtm + len) info m of
           (err, info, m) \<Rightarrow>
             if err \<noteq> 0 then (22, info, m)
             else if ld32 m (rtm_flags rtm) AND RTF_RNH_LOCKED \<noteq> 0 then (22, info, m)
             else case cleanup_xaddrs (info\<lparr>rti_flags := ld32 m (rtm_flags rtm)\<rparr>) m of
                    (err, info, m) \<Rightarrow>
                      if err \<noteq> 0 then (err, info, m)
                      else if m (rtm_type rtm) \<noteq> RTM_GET \<and> priv_check \<noteq> 0 then (priv_check, info, m)
                      else (0, local_gateway K fibnum k info m, m))"

section \<open>Lookups\<close>

definition select_nhop :: "nhop_object \<Rightarrow> nhop_object option" where
  "select_nhop nh = (if \<not> nh_is_nhgrp nh then Some nh else None)"

text \<open>The second lookup of an announcement, of the masked local address.\<close>

definition announce_addr :: "'k rt_kernel \<Rightarrow> rt_stack \<Rightarrow> nat \<Rightarrow> nhop_object \<Rightarrow> 'k \<Rightarrow> mem \<Rightarrow> mem" where
  "announce_addr K S dst nh k m =
     (let copy = (\<lambda>ifa. mwrite (laddr S) (rt_maskedcopy K (sockaddr_at m (ifa_addr ifa)) (map_option (sockaddr_at m) (ifa_netmask ifa))) m)
      in case nh_ifp nh of
           Some ifp \<Rightarrow>
             if propvirtual ifp
             then (case ifa_ifwithnet K (sockaddr_at m dst) k of Some ifa \<Rightarrow> copy ifa | None \<Rightarrow> m)
             else copy (nh_ifa nh)
         | None \<Rightarrow> copy (nh_ifa nh))"

definition handle_rtm_get ::
    "'k rt_kernel \<Rightarrow> rt_stack \<Rightarrow> addrinfo \<Rightarrow> nat \<Rightarrow> int \<Rightarrow> nat \<Rightarrow> 'k \<Rightarrow> mem \<Rightarrow> (int + rib_cmd_info) \<times> mem" where
  "handle_rtm_get K S info dst fibnum rtm k m =
     (if \<not> rt_tables_get_rnh K fibnum (m (dst + 1)) then (Inl 47, m)
      else
        case (if ld32 m (rtm_addrs rtm) AND RTA_NETMASK = 0 then rnh_matchaddr K fibnum (sockaddr_at m dst) k
              else rnh_lookup K fibnum (sockaddr_at m dst) (map_option (sockaddr_at m) (rti_info info RTAX_NETMASK)) k) of
          None \<Rightarrow> (Inl 3, m)
        | Some rt \<Rightarrow>
            (case select_nhop (rt_raw_nhop rt) of
               None \<Rightarrow> (Inl 3, m)
             | Some nh \<Rightarrow>
                 if ld32 m (rtm_flags rtm) AND RTF_ANNOUNCE \<noteq> 0
                 then let m = announce_addr K S dst nh k m
                      in case rnh_matchaddr K fibnum (sockaddr_at m (laddr S)) k of
                           None \<Rightarrow> (Inl 3, m)
                         | Some rt \<Rightarrow>
                             (case select_nhop (rt_raw_nhop rt) of
                                None \<Rightarrow> (Inl 3, m)
                              | Some nh \<Rightarrow> (Inr \<lparr>rc_rt = rt, rc_nh_new = Some nh, rc_nh_old = None, rc_nh_weight = rt_weight rt\<rparr>, m))
                 else (Inr \<lparr>rc_rt = rt, rc_nh_new = Some nh, rc_nh_old = None, rc_nh_weight = rt_weight rt\<rparr>, m)))"

section \<open>Replies\<close>

definition rt_getmetrics :: "'k rt_kernel \<Rightarrow> rtentry \<Rightarrow> nhop_object \<Rightarrow> nat \<Rightarrow> mem \<Rightarrow> mem" where
  "rt_getmetrics K rt nh out m =
     (let m = mwrite out (replicate 112 0) m;
          m = st64 (out + 8) (ucast (nh_mtu nh)) m;
          m = st64 (out + 80) (ucast (rt_weight rt)) m;
          m = st64 (out + 88) (ucast (nhop_idx nh)) m
      in st64 (out + 24) (if rt_expire rt \<noteq> 0 then rt_expire rt - time_uptime K + time_second K else 0) m)"

definition init_sockaddrs_family :: "u8 \<Rightarrow> nat \<Rightarrow> nat \<Rightarrow> mem \<Rightarrow> mem" where
  "init_sockaddrs_family family dst msk m =
     (if family = F_INET then fill_sockaddr_inet msk [0, 0, 0, 0] (fill_sockaddr_inet dst [0, 0, 0, 0] m)
      else if family = F_INET6
      then fill_sockaddr_inet6 msk (replicate 16 0) [0, 0, 0, 0] (fill_sockaddr_inet6 dst (replicate 16 0) [0, 0, 0, 0] m)
      else m)"

definition export_rtaddrs :: "rtentry \<Rightarrow> nat \<Rightarrow> nat \<Rightarrow> mem \<Rightarrow> mem" where
  "export_rtaddrs rt dst msk m =
     (case rt_prefix rt of
        (addr, pmask, scope) \<Rightarrow>
          if m (dst + 1) = F_INET then mwrite (msk + 4) pmask (mwrite (dst + 4) addr m)
          else if m (dst + 1) = F_INET6 then mwrite (dst + 24) scope (mwrite (msk + 8) pmask (mwrite (dst + 8) addr m))
          else m)"

text \<open>The addresses of the interface, when the request asks for them.\<close>

definition export_ifp ::
    "'k rt_kernel \<Rightarrow> rt_stack \<Rightarrow> addrinfo \<Rightarrow> nat \<Rightarrow> nhop_object \<Rightarrow> mem \<Rightarrow> int \<times> addrinfo \<times> mem" where
  "export_ifp K S info rtm nh m =
     (if ld32 m (rtm_addrs rtm) AND (RTA_IFP OR RTA_IFA) \<noteq> 0
      then (case nh_ifp nh of
              Some ifp \<Rightarrow>
                (case rtm_get_jailed K S (info\<lparr>rti_info := (rti_info info)(RTAX_IFP \<mapsto> ifa_addr (if_addr ifp))\<rparr>) (m (sa_dst S + 1)) ifp nh m of
                   (err, info, m) \<Rightarrow>
                     if err \<noteq> 0 then (err, info, m)
                     else (0, (if pointopoint ifp then info\<lparr>rti_info := (rti_info info)(RTAX_BRD := ifa_dstaddr (nh_ifa nh))\<rparr> else info),
                           st16 (rtm_index rtm) (if_index ifp) m))
            | None \<Rightarrow> (0, info\<lparr>rti_info := (rti_info info)(RTAX_IFP := None, RTAX_IFA := None)\<rparr>, m))
      else (0, info, case nh_ifp nh of Some ifp \<Rightarrow> st16 (rtm_index rtm) (if_index ifp) m | None \<Rightarrow> m))"

text \<open>The header of the reply behind what \<open>rtsock_msg_buffer\<close> wrote.\<close>

definition finish_rtm :: "'k rt_kernel \<Rightarrow> rib_cmd_info \<Rightarrow> nhop_object \<Rightarrow> u32 \<Rightarrow> nat \<Rightarrow> mem \<Rightarrow> mem" where
  "finish_rtm K rc nh addrs rtm m =
     (let flags = rte_flags (rc_rt rc) OR nhop_rtflags nh;
          flags = (if flags AND RTF_GWFLAG_COMPAT \<noteq> 0 then RTF_GATEWAY OR (flags AND NOT RTF_GWFLAG_COMPAT) else flags);
          m = st32 (rtm_flags rtm) flags m;
          m = rt_getmetrics K (rc_rt rc) nh (rtm_rmx rtm) m;
          m = st64 (rtm_rmx rtm + 80) (ucast (rc_nh_weight rc)) m
      in st32 (rtm_addrs rtm) addrs m)"

definition update_rtm_from_rc ::
    "'k rt_kernel \<Rightarrow> rt_stack \<Rightarrow> addrinfo \<Rightarrow> nat \<Rightarrow> nat \<Rightarrow> int \<Rightarrow> rib_cmd_info \<Rightarrow> nhop_object \<Rightarrow> u32 \<Rightarrow> mem \<Rightarrow> int \<times> nat \<times> mem" where
  "update_rtm_from_rc K S info dst rtm alloc_len rc nh maxlen m =
     (let m = init_sockaddrs_family (m (dst + 1)) (sa_dst S) (sa_mask S) m;
          m = export_rtaddrs (rc_rt rc) (sa_dst S) (sa_mask S) m;
          info = info\<lparr>rti_info := (rti_info info)(RTAX_DST \<mapsto> sa_dst S,
                                                RTAX_NETMASK := (if rt_is_host (rc_rt rc) then None else Some (sa_mask S)),
                                                RTAX_GATEWAY \<mapsto> gw_sa nh, RTAX_GENMASK := None)\<rparr>
      in case export_ifp K S info rtm nh m of
           (err, info, m) \<Rightarrow>
             if err \<noteq> 0 then (err, rtm, m)
             else
               let len = fst (snd (rtsock_msg_buffer (rt_headers K) (recoverscope K) (stale_ss K) (uint (m (rtm_type rtm))) info None m))
               in if len > uint maxlen then (55, rtm, m)
                  else
                    case (if len > alloc_len then map_option (\<lambda>tmp. (tmp, bcopy rtm tmp (unat (ld16 m rtm)) m, len)) (rt_realloc K len)
                          else Some (rtm, m, alloc_len)) of
                      None \<Rightarrow> (55, rtm, m)
                    | Some (rtm, m, alloc_len) \<Rightarrow>
                        (case rtsock_msg_buffer (rt_headers K) (recoverscope K) (stale_ss K) (uint (m (rtm_type rtm))) info (Some (rtm, alloc_len, w_op S)) m of
                           (_, _, info, m) \<Rightarrow> (0, rtm, finish_rtm K rc nh (rti_addrs info) rtm m)))"

definition can_export_rte :: "bool \<Rightarrow> u8 list \<Rightarrow> bool" where
  "can_export_rte is_host rt_dst \<longleftrightarrow> \<not> (if \<not> is_host then jailed_without_vnet \<noteq> 0 else prison_if rt_dst \<noteq> 0)"

section \<open>The call\<close>

definition deembed_one :: "'k rt_kernel \<Rightarrow> addrinfo \<Rightarrow> nat \<Rightarrow> mem \<Rightarrow> mem" where
  "deembed_one K info i m =
     (case rti_info info i of
        Some sa \<Rightarrow>
          if m (sa + 1) = F_INET6
          then (case recoverscope K (mread m sa 28) of Some b \<Rightarrow> mwrite sa b m | None \<Rightarrow> m)
          else m
      | None \<Rightarrow> m)"

text \<open>The label \<open>flush\<close>: the answer, the length of the message and the state.\<close>

definition rt_flush ::
    "'k rt_kernel \<Rightarrow> nat \<Rightarrow> u32 \<Rightarrow> int \<Rightarrow> nat option \<Rightarrow> addrinfo \<Rightarrow> bool \<Rightarrow> mem \<times> 'k \<times> errno_tls \<Rightarrow> int \<times> u32 \<times> mem \<times> 'k \<times> errno_tls" where
  "rt_flush K data plen err rtm info deembed st =
     (case st of
        (m, k, tls) \<Rightarrow>
          let (plen, m) =
                (case rtm of
                   Some rtm \<Rightarrow>
                     let m = (if deembed then fold (deembed_one K info) [0..<RTAX_MAX] m else m);
                         m = (if err \<noteq> 0 then st32 (rtm_errno rtm) (word_of_int err) m
                              else st32 (rtm_flags rtm) (ld32 m (rtm_flags rtm) OR RTF_DONE) m)
                     in (ucast (ld16 m rtm), bcopy rtm data (unat (ld16 m rtm)) m)
                 | None \<Rightarrow> (plen, m))
          in if err \<noteq> 0 then (- 1, plen, m, k, lazybsd_os_errno err tls) else (0, plen, m, k, tls))"

text \<open>The label \<open>report\<close>.\<close>

definition rt_report ::
    "'k rt_kernel \<Rightarrow> rt_stack \<Rightarrow> nat \<Rightarrow> u32 \<Rightarrow> u32 \<Rightarrow> nat \<Rightarrow> int \<Rightarrow> addrinfo \<Rightarrow> nat \<Rightarrow> rib_cmd_info \<Rightarrow> nhop_object option \<Rightarrow>
     mem \<times> 'k \<times> errno_tls \<Rightarrow> (int \<times> u32 \<times> mem \<times> 'k \<times> errno_tls) kresult" where
  "rt_report K S data plen maxlen rtm alloc_len info dst rc nh st =
     (case st of
        (m, k, tls) \<Rightarrow>
          if \<not> can_export_rte (rti_info info RTAX_NETMASK = None) (sockaddr_at m dst)
          then Inr (rt_flush K data plen 3 (Some rtm) info False (m, k, tls))
          else case nh of
                 None \<Rightarrow> Inl (Panic ''null next hop'')
               | Some nh \<Rightarrow>
                   (case update_rtm_from_rc K S info dst rtm alloc_len rc nh maxlen m of
                      (err, rtm, m) \<Rightarrow> Inr (rt_flush K data plen err (Some rtm) info False (m, k, tls))))"

text \<open>The switch over the type of the message.\<close>

definition rt_dispatch ::
    "'k rt_kernel \<Rightarrow> rt_stack \<Rightarrow> int \<Rightarrow> nat \<Rightarrow> u32 \<Rightarrow> u32 \<Rightarrow> nat \<Rightarrow> int \<Rightarrow> addrinfo \<Rightarrow> nat \<Rightarrow> (rt_ifnet \<times> rt_ifaddr) option \<Rightarrow>
     mem \<times> 'k \<times> errno_tls \<Rightarrow> (int \<times> u32 \<times> mem \<times> 'k \<times> errno_tls) kresult" where
  "rt_dispatch K S fibnum data plen maxlen rtm alloc_len info dst ifs st =
     (case st of
        (m, k, tls) \<Rightarrow>
          let type = m (rtm_type rtm)
          in if type = RTM_ADD \<or> type = RTM_CHANGE then
               if type = RTM_ADD \<and> rti_info info RTAX_GATEWAY = None
               then Inr (rt_flush K data plen 22 (Some rtm) info False (m, k, tls))
               else case rib_act K fibnum type rtm info ifs m k of
                      (err, rc, info, k) \<Rightarrow>
                        if err \<noteq> 0 then Inr (rt_flush K data plen err (Some rtm) info False (m, k, tls))
                        else case rc_nh_new rc of
                               Some nh \<Rightarrow>
                                 (case nh_ifp nh of
                                    Some ifp \<Rightarrow>
                                      let m = st16 (rtm_index rtm) (if_index ifp) m;
                                          m = st32 (rtm_flags rtm) (rte_flags (rc_rt rc) OR nhop_rtflags nh) m
                                      in Inr (rt_flush K data plen 0 (Some rtm) info True (m, k, tls))
                                  | None \<Rightarrow> Inl (Panic ''null interface''))
                             | None \<Rightarrow> Inl (Panic ''null next hop'')
             else if type = RTM_DELETE then
               (case rib_act K fibnum RTM_DELETE rtm info ifs m k of
                  (err, rc, info, k) \<Rightarrow>
                    if err = 0
                    then (case rti_info info RTAX_DST of
                            None \<Rightarrow> Inl (Panic ''null destination'')
                          | Some dst \<Rightarrow> rt_report K S data plen maxlen rtm alloc_len info dst rc (rc_nh_old rc) (m, k, tls))
                    else Inr (rt_flush K data plen err (Some rtm) info True (m, k, tls)))
             else if type = RTM_GET then
               (case handle_rtm_get K S info dst fibnum rtm k m of
                  (Inl err, m) \<Rightarrow> Inr (rt_flush K data plen err (Some rtm) info False (m, k, tls))
                | (Inr rc, m) \<Rightarrow> rt_report K S data plen maxlen rtm alloc_len info dst rc (rc_nh_new rc) (m, k, tls))
             else Inr (rt_flush K data plen 45 (Some rtm) info False (m, k, tls)))"

text \<open>Between the checks of the header and the switch.\<close>

definition rt_process ::
    "'k rt_kernel \<Rightarrow> rt_stack \<Rightarrow> int \<Rightarrow> nat \<Rightarrow> u32 \<Rightarrow> u32 \<Rightarrow> nat \<Rightarrow> int \<Rightarrow> nat \<Rightarrow>
     mem \<times> 'k \<times> errno_tls \<Rightarrow> (int \<times> u32 \<times> mem \<times> 'k \<times> errno_tls) kresult" where
  "rt_process K S fibnum data plen maxlen rtm alloc_len len st =
     (case st of
        (m, k, tls) \<Rightarrow>
          (case fill_addrinfo K rtm len fibnum k m of
             (err, info, m) \<Rightarrow>
               if err \<noteq> 0 then Inr (rt_flush K data plen err (Some rtm) info False (m, k, tls))
               else case rti_info info RTAX_DST of
                      None \<Rightarrow> Inl (Panic ''null destination'')
                    | Some dst \<Rightarrow>
                        let flags = ld32 m (rtm_flags rtm)
                        in if flags AND RTF_LLDATA \<noteq> 0
                           then (case lla_rt_output K rtm info m k of
                                   (err, k) \<Rightarrow> Inr (rt_flush K data plen err (Some rtm) info (err = 0) (m, k, tls)))
                           else if flags AND (RTF_BLACKHOLE OR RTF_REJECT) = 0
                           then rt_dispatch K S fibnum data plen maxlen rtm alloc_len info dst None (m, k, tls)
                           else if flags AND (RTF_BLACKHOLE OR RTF_REJECT) = RTF_BLACKHOLE OR RTF_REJECT
                           then Inr (rt_flush K data plen 22 (Some rtm) info False (m, k, tls))
                           else (case fill_blackholeinfo K S info (m (dst + 1)) m of
                                   (err, info, ifs, m) \<Rightarrow>
                                     if err \<noteq> 0 then Inr (rt_flush K data plen err (Some rtm) info False (m, k, tls))
                                     else rt_dispatch K S fibnum data plen maxlen rtm alloc_len info dst ifs (m, k, tls))))"

text \<open>\<open>roundup2 (len, 1024)\<close> is computed in \<open>int\<close> and becomes a \<open>size_t\<close>.  A negative \<open>len\<close> is a copy of most of the address space.\<close>

definition lazybsd_rtioctl ::
    "'k rt_kernel \<Rightarrow> rt_stack \<Rightarrow> int \<Rightarrow> nat \<Rightarrow> u32 \<Rightarrow> u32 \<Rightarrow> mem \<times> 'k \<times> errno_tls \<Rightarrow> (int \<times> u32 \<times> mem \<times> 'k \<times> errno_tls) kresult" where
  "lazybsd_rtioctl K S fibnum data plen maxlen st =
     (case st of
        (m, k, tls) \<Rightarrow>
          let alloc_len = (plen + 1023) AND NOT 1023;
              info = \<lparr>rti_addrs = 0, rti_flags = 0, rti_info = (\<lambda>_. None)\<rparr>
          in case rt_malloc K (scast alloc_len) of
               None \<Rightarrow> Inr (rt_flush K data plen 55 None info False (m, k, tls))
             | Some rtm \<Rightarrow>
                 if sint plen < 0 then Inl (Panic ''bcopy'')
                 else
                   let len = unat plen;
                       m = bcopy data rtm len m
                   in if len < SIZEOF_RTM \<or> len \<noteq> unat (ld16 m rtm)
                      then Inr (rt_flush K data plen 22 (Some rtm) info False (m, k, tls))
                      else if m (rtm + 2) \<noteq> RTM_VERSION
                      then Inr (rt_flush K data plen 43 None info False (m, k, tls))
                      else rt_process K S fibnum data plen maxlen rtm (sint alloc_len) len (m, k, tls))"

end
