(* ===== verification/LB_Route_Props.thy ===== *)
theory LB_Route_Props
  imports LB_Route
begin

text \<open>
  Route messages: a request is taken apart within its bounds, a reply is written within its buffer, and taking a written message
  apart gives the addresses it was made of.
\<close>

section \<open>Sizes\<close>

lemma nat_or_7: "(x :: nat) OR 7 = 8 * (x div 8) + 7"
proof -
  have "8 * (x div 8) = push_bit 3 (drop_bit 3 x)" by (simp add: push_bit_nat_def drop_bit_nat_def)
  moreover have "(7 :: nat) = mask 3" by (simp add: mask_eq_exp_minus_1)
  moreover have "push_bit 3 (drop_bit 3 x) + mask 3 = push_bit 3 (drop_bit 3 x) OR mask 3"
    by (rule disjunctive_add_eq_or) (auto intro!: bit_eqI simp: bit_simps)
  moreover have "push_bit 3 (drop_bit 3 x) OR mask 3 = x OR mask 3"
    by (rule bit_eqI) (auto simp: bit_simps)
  ultimately show ?thesis by simp
qed

lemma SA_SIZE_alt: "m sa \<noteq> 0 \<Longrightarrow> SA_SIZE m sa = 8 * ((unat (m sa) + 7) div 8)"
proof -
  assume "m sa \<noteq> 0"
  then have "unat (m sa) \<ge> 1" by (simp add: unat_gt_0 Suc_le_eq)
  then obtain l where "unat (m sa) = Suc l" by (cases "unat (m sa)") auto
  moreover have "8 + 8 * (l div 8) = 8 * ((8 + l) div 8)" by presburger
  ultimately show ?thesis using \<open>m sa \<noteq> 0\<close> by (simp add: SA_SIZE_def nat_or_7)
qed

lemma SA_SIZE_bounds: "unat (m sa) \<le> SA_SIZE m sa" "8 \<le> SA_SIZE m sa" "8 dvd SA_SIZE m sa"
proof -
  show "8 dvd SA_SIZE m sa" by (cases "m sa = 0") (auto simp: SA_SIZE_alt, simp add: SA_SIZE_def)
  have "x \<le> 8 * ((x + 7) div 8)" for x :: nat by presburger
  moreover have "1 \<le> x \<Longrightarrow> 8 \<le> 8 * ((x + 7) div 8)" for x :: nat by presburger
  moreover have "m sa \<noteq> 0 \<Longrightarrow> 1 \<le> unat (m sa)" by (simp add: unat_gt_0 Suc_le_eq)
  ultimately show "unat (m sa) \<le> SA_SIZE m sa" "8 \<le> SA_SIZE m sa"
    by (cases "m sa = 0"; simp add: SA_SIZE_alt; simp add: SA_SIZE_def)+
qed

section \<open>Requests\<close>

text \<open>FreeBSD's \<open>sa6_embedscope\<close> changes only bytes of the \<open>sockaddr_in6\<close> behind its length and family.\<close>

definition scope_local :: "scope_fn \<Rightarrow> bool" where
  "scope_local emb \<longleftrightarrow> (\<forall>p m a. a < p + 2 \<or> p + 28 \<le> a \<longrightarrow> emb p m a = m a)"

text \<open>The addresses found so far, up to number \<open>i\<close> and address \<open>cp\<close>: inside the message, one behind the other.\<close>

definition placed :: "nat \<Rightarrow> nat \<Rightarrow> nat \<Rightarrow> nat \<Rightarrow> (nat \<Rightarrow> nat option) \<Rightarrow> mem \<Rightarrow> bool" where
  "placed lo cplim i cp info m \<longleftrightarrow>
     (\<forall>j p. info j = Some p \<longrightarrow> j < i \<and> lo \<le> p \<and> m p \<noteq> 0 \<and> p + unat (m p) \<le> cplim \<and> p + SA_SIZE m p \<le> cp) \<and>
     (\<forall>j k p q. j < k \<longrightarrow> info j = Some p \<longrightarrow> info k = Some q \<longrightarrow> p + SA_SIZE m p \<le> q)"

definition located :: "nat \<Rightarrow> nat \<Rightarrow> nat \<Rightarrow> (nat \<Rightarrow> nat option) \<Rightarrow> mem \<Rightarrow> bool" where
  "located lo cplim SZ info m \<longleftrightarrow>
     (\<exists>i cp found. placed lo cplim i cp found m \<and> (info = found \<or> (\<exists>k. info = found(k \<mapsto> SZ))))"

lemma placed_located: "placed lo cplim i cp found m \<Longrightarrow> located lo cplim SZ found m"
  "placed lo cplim i cp found m \<Longrightarrow> located lo cplim SZ (found(k \<mapsto> SZ)) m"
  unfolding located_def by blast+

lemma placed_step:
  assumes "placed lo cplim i cp info m" "lo \<le> cp" "m cp \<noteq> 0" "cp + unat (m cp) \<le> cplim"
    and "\<forall>a. a \<le> cp \<longrightarrow> m' a = m a"
  shows "placed lo cplim (i + 1) (cp + SA_SIZE m' cp) (info(i \<mapsto> cp)) m'"
proof -
  have eq: "m' p = m p \<and> SA_SIZE m' p = SA_SIZE m p" if "p \<le> cp" for p using assms(5) that by (simp add: SA_SIZE_def)
  have le: "p \<le> cp" if "info j = Some p" for j p
    using assms(1) that unfolding placed_def by (meson add_leE)
  show ?thesis
    unfolding placed_def
  proof (intro conjI allI impI)
    fix j p assume "(info(i \<mapsto> cp)) j = Some p"
    then consider "j = i" "p = cp" | "j \<noteq> i" "info j = Some p" by (auto split: if_splits)
    then show "j < i + 1" "lo \<le> p" "m' p \<noteq> 0" "p + unat (m' p) \<le> cplim" "p + SA_SIZE m' p \<le> cp + SA_SIZE m' cp"
      using assms(1-4) eq [of p] eq [of cp] le [of j p] unfolding placed_def by (cases; fastforce)+
  next
    fix j k p q assume "j < k" "(info(i \<mapsto> cp)) j = Some p" "(info(i \<mapsto> cp)) k = Some q"
    then show "p + SA_SIZE m' p \<le> q"
      using assms(1) eq [of p] le [of j p] unfolding placed_def by (auto split: if_splits) fastforce+
  qed
qed

lemma rt_xaddrs_from_placed:
  assumes "scope_local emb" "placed lo cplim i cp (rti_info info) m" "lo \<le> cp"
    and "rt_xaddrs_from emb SZ cplim i cp info m = (err, info', m')"
  shows "err \<in> {0, 22} \<and> rti_addrs info' = rti_addrs info \<and> (\<forall>a<lo. m' a = m a) \<and>
    located lo cplim SZ (rti_info info') m'"
  using assms
proof (induction emb SZ cplim i cp info m rule: rt_xaddrs_from.induct)
  case (1 emb SZ cplim i cp info m)
  note r = "1.prems"(4) [unfolded rt_xaddrs_from.simps [of emb SZ cplim i cp info m]]
  have pl: "placed lo cplim (i + 1) cp (rti_info info) m" using "1.prems"(2) unfolding placed_def by (meson less_SucI Suc_eq_plus1 add.commute trans_less_add1)
  show ?case
  proof (cases "i < RTAX_MAX \<and> cp < cplim")
    case False
    then show ?thesis using r placed_located(1) [OF "1.prems"(2)] by auto
  next
    case go: True
    show ?thesis
    proof (cases "bit (rti_addrs info) i")
      case False
      then show ?thesis using "1.IH"(1) [OF go False "1.prems"(1) pl "1.prems"(3)] r go by simp
    next
      case set: True
      show ?thesis
      proof (cases "cp + unat (m cp) > cplim \<or> m cp = 0")
        case True
        then show ?thesis
          using r go set placed_located [OF "1.prems"(2)] by (auto split: if_splits simp del: fun_upd_apply)
      next
        case False
        define m1 where "m1 = (if m (cp + 1) = F_INET6 then emb cp m else m)"
        let ?info = "info\<lparr>rti_info := (rti_info info)(i \<mapsto> cp)\<rparr>"
        have keep: "\<forall>a. a \<le> cp \<longrightarrow> m1 a = m a" using "1.prems"(1) by (auto simp: m1_def scope_local_def)
        have p: "placed lo cplim (i + 1) (cp + SA_SIZE m1 cp) (rti_info ?info) m1"
          using placed_step [OF "1.prems"(2,3) _ _ keep] False by simp
        have "rt_xaddrs_from emb SZ cplim (i + 1) (cp + SA_SIZE m1 cp) ?info m1 = (err, info', m')"
          using r go set False by (simp add: m1_def Let_def)
        from "1.IH"(2) [OF go _ _ _ m1_def "1.prems"(1) p _ this] set False "1.prems"(3) keep
        show ?thesis by auto
      qed
    qed
  qed
qed

text \<open>C14: A request is taken apart within its bounds.  Whatever bytes the message has, \<open>rt_xaddrs\<close> returns 0 or \<open>EINVAL\<close>, touches no byte
  before the message, and every address it accepts, the static zero address apart, starts inside the message, ends
  inside it by its own length, and lies behind the addresses of smaller number.\<close>

theorem rt_xaddrs_in_bounds:
  assumes "scope_local emb" and "rti_info info = (\<lambda>_. None)"
    and "rt_xaddrs emb SZ cp cplim info m = (err, info', m')"
  shows "err \<in> {0, 22} \<and> (\<forall>a<cp. m' a = m a) \<and>
    (\<exists>found. (rti_info info' = found \<or> (\<exists>k. rti_info info' = found(k \<mapsto> SZ))) \<and>
       (\<forall>j p. found j = Some p \<longrightarrow> cp \<le> p \<and> m' p \<noteq> 0 \<and> p + unat (m' p) \<le> cplim) \<and>
       (\<forall>j k p q. j < k \<longrightarrow> found j = Some p \<longrightarrow> found k = Some q \<longrightarrow> p + SA_SIZE m' p \<le> q))"
proof -
  have "placed cp cplim 0 cp (rti_info info) m" using assms(2) by (simp add: placed_def)
  from rt_xaddrs_from_placed [OF assms(1) this _ assms(3) [unfolded rt_xaddrs_def]]
  have r: "err \<in> {0, 22}" "\<forall>a<cp. m' a = m a" "located cp cplim SZ (rti_info info') m'" by auto
  from r(3) obtain i c found where "placed cp cplim i c found m'" "rti_info info' = found \<or> (\<exists>k. rti_info info' = found(k \<mapsto> SZ))"
    unfolding located_def by blast
  then show ?thesis using r(1,2) unfolding placed_def by (intro conjI exI [of _ found]) blast+
qed

theorem rt_xaddrs_in_bounds_witness:
  "fst (rt_xaddrs (\<lambda>_ m. m) 999 100 108 \<lparr>rti_addrs = 1, rti_flags = 0, rti_info = \<lambda>_. None\<rparr> (\<lambda>a. if a = 100 then 200 else 0)) \<in> {0, 22}"
proof -
  have s: "scope_local (\<lambda>_ m. m)" by (simp add: scope_local_def)
  obtain e i m where "rt_xaddrs (\<lambda>_ m. m) 999 100 108 \<lparr>rti_addrs = 1, rti_flags = 0, rti_info = \<lambda>_. None\<rparr> (\<lambda>a. if a = 100 then 200 else 0) = (e, i, m)"
    by (metis prod_cases3)
  with rt_xaddrs_in_bounds [OF s _ this] show ?thesis by simp
qed

section \<open>Messages as lists of blocks\<close>

text \<open>The bytes of the addresses from number \<open>i\<close> on.\<close>

definition blocks :: "(nat \<Rightarrow> u8 list option) \<Rightarrow> nat \<Rightarrow> u8 list" where
  "blocks bl i = concat (map (\<lambda>j. case bl j of None \<Rightarrow> [] | Some b \<Rightarrow> b) [i..<RTAX_MAX])"

lemma blocks_end: "\<not> i < RTAX_MAX \<Longrightarrow> blocks bl i = []"
  by (simp add: blocks_def)

lemma blocks_step: "i < RTAX_MAX \<Longrightarrow> blocks bl i = (case bl i of None \<Rightarrow> [] | Some b \<Rightarrow> b) @ blocks bl (i + 1)"
  by (simp add: blocks_def upt_rec [of i])

text \<open>A block is a \<open>sockaddr\<close> padded to its size, not of IPv6.\<close>

definition block_ok :: "u8 list \<Rightarrow> bool" where
  "block_ok b \<longleftrightarrow> hd b \<noteq> 0 \<and> length b = 8 * ((unat (hd b) + 7) div 8) \<and> b ! 1 \<noteq> F_INET6"

lemma block_ok_length: "block_ok b \<Longrightarrow> 8 \<le> length b \<and> unat (hd b) \<le> length b"
proof -
  assume b: "block_ok b"
  then have "1 \<le> unat (hd b)" by (simp add: block_ok_def unat_gt_0 Suc_le_eq)
  moreover have "x \<le> 8 * ((x + 7) div 8)" "1 \<le> x \<Longrightarrow> 8 \<le> 8 * ((x + 7) div 8)" for x :: nat by presburger+
  ultimately show ?thesis using b by (simp add: block_ok_def)
qed

lemma rt_xaddrs_blocks:
  assumes "\<forall>j<RTAX_MAX. bit (rti_addrs info) j \<longleftrightarrow> bl j \<noteq> None" "\<forall>j b. bl j = Some b \<longrightarrow> block_ok b"
    and "mread m cp (length (blocks bl i)) = blocks bl i" "cp + length (blocks bl i) \<le> cplim"
  shows "\<exists>info'. rt_xaddrs_from emb SZ cplim i cp info m = (0, info', m) \<and> (\<forall>j<i. rti_info info' j = rti_info info j) \<and>
    (\<forall>j. i \<le> j \<longrightarrow> j < RTAX_MAX \<longrightarrow> (case bl j of None \<Rightarrow> rti_info info' j = rti_info info j
       | Some b \<Rightarrow> \<exists>q. rti_info info' j = Some q \<and> mread m q (length b) = b))"
  using assms
proof (induction "RTAX_MAX - i" arbitrary: i cp info)
  case 0
  then show ?case by (simp add: rt_xaddrs_from.simps)
next
  case (Suc n)
  then have i: "i < RTAX_MAX" and n: "n = RTAX_MAX - (i + 1)" by simp_all
  show ?case
  proof (cases "bl i")
    case None
    then have b: "blocks bl i = blocks bl (i + 1)" using blocks_step [OF i, of bl] by simp
    have nb: "\<not> bit (rti_addrs info) i" using Suc.prems(1) i None by simp
    obtain info' where r: "rt_xaddrs_from emb SZ cplim (i + 1) cp info m = (0, info', m)" "\<forall>j<i + 1. rti_info info' j = rti_info info j"
        "\<forall>j. i + 1 \<le> j \<longrightarrow> j < RTAX_MAX \<longrightarrow> (case bl j of None \<Rightarrow> rti_info info' j = rti_info info j
          | Some b \<Rightarrow> \<exists>q. rti_info info' j = Some q \<and> mread m q (length b) = b)"
      using Suc.hyps(1) [OF n Suc.prems(1,2), of cp] Suc.prems(3,4) b by auto
    have "rt_xaddrs_from emb SZ cplim i cp info m = (0, info', m) \<or> \<not> cp < cplim"
      using r(1) nb i by (subst rt_xaddrs_from.simps) simp
    moreover have ?thesis if "\<not> cp < cplim"
    proof -
      have "length (blocks bl (i + 1)) = 0" using Suc.prems(4) that unfolding b by linarith
      then have "blocks bl (i + 1) = []" by (simp only: length_0_conv)
      have "bl j = None" if "i \<le> j" "j < RTAX_MAX" for j
      proof (rule ccontr)
        assume "bl j \<noteq> None"
        then obtain c where c: "bl j = Some c" by auto
        then have "set c \<subseteq> set (blocks bl i)" using that by (force simp: blocks_def)
        moreover have "c \<noteq> []" using block_ok_length [of c] Suc.prems(2) c by auto
        ultimately show False using \<open>blocks bl (i + 1) = []\<close> b by simp
      qed
      then show ?thesis using that by (intro exI [of _ info]) (simp add: rt_xaddrs_from.simps)
    qed
    moreover have "\<forall>j. i \<le> j \<longrightarrow> j < RTAX_MAX \<longrightarrow> (case bl j of None \<Rightarrow> rti_info info' j = rti_info info j
          | Some b \<Rightarrow> \<exists>q. rti_info info' j = Some q \<and> mread m q (length b) = b)"
    proof (intro allI impI)
      fix j assume "i \<le> j" "j < RTAX_MAX"
      then show "case bl j of None \<Rightarrow> rti_info info' j = rti_info info j
          | Some b \<Rightarrow> \<exists>q. rti_info info' j = Some q \<and> mread m q (length b) = b"
        using r(2,3) None by (cases "j = i") auto
    qed
    ultimately show ?thesis using r(2) by auto
  next
    case (Some b)
    have ok: "block_ok b" "8 \<le> length b" "unat (hd b) \<le> length b" using Suc.prems(2) Some block_ok_length [of b] by auto
    have bs: "blocks bl i = b @ blocks bl (i + 1)" using blocks_step [OF i, of bl] Some by simp
    have mr: "mread m cp (length b) = b" "mread m (cp + length b) (length (blocks bl (i + 1))) = blocks bl (i + 1)"
      using Suc.prems(3) mread_append [of m cp "length b" "length (blocks bl (i + 1))"] unfolding bs by auto
    have "b \<noteq> []" using ok(2) by auto
    moreover from this have "b ! 0 = m cp" "m (cp + 1) = b ! 1"
      using nth_mread [of 0 "length b" m cp] nth_mread [of 1 "length b" m cp] ok(2) unfolding mr(1) by auto
    ultimately have "m cp = hd b" "m (cp + 1) = b ! 1" by (simp_all add: hd_conv_nth)
    then have h: "m cp \<noteq> 0" "unat (m cp) \<le> length b" "SA_SIZE m cp = length b" "m (cp + 1) \<noteq> F_INET6"
      using ok SA_SIZE_alt [of m cp] by (auto simp: block_ok_def)
    let ?info = "info\<lparr>rti_info := (rti_info info)(i \<mapsto> cp)\<rparr>"
    have st: "rt_xaddrs_from emb SZ cplim i cp info m = rt_xaddrs_from emb SZ cplim (i + 1) (cp + length b) ?info m"
      using h i ok(2) bs Suc.prems(1,4) Some by (subst rt_xaddrs_from.simps) (auto simp: Let_def)
    obtain info' where r: "rt_xaddrs_from emb SZ cplim (i + 1) (cp + length b) ?info m = (0, info', m)"
        "\<forall>j<i + 1. rti_info info' j = rti_info ?info j"
        "\<forall>j. i + 1 \<le> j \<longrightarrow> j < RTAX_MAX \<longrightarrow> (case bl j of None \<Rightarrow> rti_info info' j = rti_info ?info j
          | Some b \<Rightarrow> \<exists>q. rti_info info' j = Some q \<and> mread m q (length b) = b)"
      using Suc.hyps(1) [OF n _ Suc.prems(2) mr(2), of ?info] Suc.prems(1,4) bs by auto
    have "\<forall>j. i \<le> j \<longrightarrow> j < RTAX_MAX \<longrightarrow> (case bl j of None \<Rightarrow> rti_info info' j = rti_info info j
          | Some b \<Rightarrow> \<exists>q. rti_info info' j = Some q \<and> mread m q (length b) = b)"
    proof (intro allI impI)
      fix j assume "i \<le> j" "j < RTAX_MAX"
      then show "case bl j of None \<Rightarrow> rti_info info' j = rti_info info j
          | Some b \<Rightarrow> \<exists>q. rti_info info' j = Some q \<and> mread m q (length b) = b"
        using r(2) spec [OF r(3), of j] Some mr(1) by (cases "j = i"; cases "bl j") auto
    qed
    then show ?thesis using st r(1,2) by auto
  qed
qed

section \<open>Replies\<close>

text \<open>The blocks of the addresses of a structure.\<close>

definition sources :: "addrinfo \<Rightarrow> mem \<Rightarrow> nat \<Rightarrow> u8 list option" where
  "sources info m = (\<lambda>j. map_option (\<lambda>sa. mread m sa (SA_SIZE m sa)) (rti_info info j))"

text \<open>Addresses that are copied as they are, from outside the buffer \<open>[lo, hi)\<close>.\<close>

definition plain :: "nat \<Rightarrow> nat \<Rightarrow> addrinfo \<Rightarrow> mem \<Rightarrow> bool" where
  "plain lo hi info m \<longleftrightarrow> (\<forall>j sa. rti_info info j = Some sa \<longrightarrow> m sa \<noteq> 0 \<and> m (sa + 1) \<noteq> F_INET6 \<and>
     (sa + SA_SIZE m sa \<le> lo \<or> hi \<le> sa))"

lemma plain_sources: "plain lo hi info m \<Longrightarrow> sources info m j = Some b \<Longrightarrow> block_ok b"
proof -
  assume p: "plain lo hi info m" and b: "sources info m j = Some b"
  then obtain sa where sa: "rti_info info j = Some sa" "b = mread m sa (SA_SIZE m sa)" by (auto simp: sources_def)
  have m: "m sa \<noteq> 0" "m (sa + 1) \<noteq> F_INET6" using p sa(1) by (auto simp: plain_def)
  have "8 \<le> SA_SIZE m sa" by (rule SA_SIZE_bounds)
  then have "hd b = m sa" "b ! 1 = m (sa + 1)" "length b = SA_SIZE m sa" using sa(2) by (auto simp: hd_conv_nth mread_def)
  then show ?thesis using m SA_SIZE_alt [of m sa] by (simp add: block_ok_def)
qed

lemma plain_mwrite:
  assumes "plain lo hi info m" "lo \<le> p" "p + length bs \<le> hi"
  shows "plain lo hi info (mwrite p bs m)" "sources info (mwrite p bs m) = sources info m"
proof -
  have k: "mwrite p bs m a = m a" if "rti_info info j = Some sa" "sa \<le> a" "a < sa + SA_SIZE m sa" for j sa a
    using assms that unfolding plain_def by (intro mwrite_outside) fastforce
  have s: "SA_SIZE (mwrite p bs m) sa = SA_SIZE m sa \<and> mwrite p bs m sa = m sa \<and> mwrite p bs m (sa + 1) = m (sa + 1)"
    if "rti_info info j = Some sa" for j sa
    using k [OF that, of sa] k [OF that, of "sa + 1"] SA_SIZE_bounds(2) [of m sa] by (simp add: SA_SIZE_def)
  show "plain lo hi info (mwrite p bs m)" using assms(1) s unfolding plain_def by metis
  have "mread (mwrite p bs m) sa (SA_SIZE m sa) = mread m sa (SA_SIZE m sa)" if "rti_info info j = Some sa" for j sa
    using k [OF that] by (intro mread_cong) simp
  then show "sources info (mwrite p bs m) = sources info m"
    using s by (auto simp: sources_def fun_eq_iff intro!: option.map_cong)
qed

lemma rti_addrs_irrelevant: "sources (info\<lparr>rti_addrs := a\<rparr>) m = sources info m" "plain lo hi (info\<lparr>rti_addrs := a\<rparr>) m = plain lo hi info m"
  by (simp_all add: sources_def plain_def)

lemma msg_addrs_writes:
  assumes "plain lo hi info m" "lo \<le> p" "p + length (blocks (sources info m) i) \<le> hi" "int (length (blocks (sources info m) i)) \<le> buflen"
  shows "\<exists>ad. msg_addrs recover stale i (Some p) buflen len info m =
      (Some (p + length (blocks (sources info m) i)), buflen - int (length (blocks (sources info m) i)),
       len + int (length (blocks (sources info m) i)), info\<lparr>rti_addrs := ad\<rparr>, mwrite p (blocks (sources info m) i) m) \<and>
    (\<forall>j<RTAX_MAX. bit ad j \<longleftrightarrow> bit (rti_addrs info) j \<or> i \<le> j \<and> rti_info info j \<noteq> None)"
  using assms
proof (induction "RTAX_MAX - i" arbitrary: i p buflen len info m)
  case 0
  then have i: "\<not> i < RTAX_MAX" by simp
  have "info\<lparr>rti_addrs := rti_addrs info\<rparr> = info" by simp
  then show ?case using i by (intro exI [of _ "rti_addrs info"]) (auto simp: msg_addrs.simps [of recover stale i] blocks_end [OF i])
next
  case (Suc n)
  then have i: "i < RTAX_MAX" and n: "n = RTAX_MAX - (i + 1)" by simp_all
  show ?case
  proof (cases "rti_info info i")
    case None
    then have b: "blocks (sources info m) i = blocks (sources info m) (i + 1)"
      using blocks_step [OF i, of "sources info m"] by (simp add: sources_def)
    have c: "i \<le> j \<and> rti_info info j \<noteq> None \<longleftrightarrow> i + 1 \<le> j \<and> rti_info info j \<noteq> None" for j
      using None by (cases "j = i") auto
    have "msg_addrs recover stale i (Some p) buflen len info m = msg_addrs recover stale (i + 1) (Some p) buflen len info m"
      using i None by (subst msg_addrs.simps) simp
    then show ?thesis using Suc.hyps(1) [OF n Suc.prems(1,2), of buflen len] Suc.prems(3,4) unfolding b c by simp
  next
    case (Some sa)
    let ?d = "SA_SIZE m sa" and ?b = "mread m sa (SA_SIZE m sa)" and ?info = "info\<lparr>rti_addrs := rti_addrs info OR push_bit i 1\<rparr>"
    let ?m = "mwrite p ?b m" and ?B = "blocks (sources info m) (i + 1)"
    have b: "blocks (sources info m) i = ?b @ ?B"
      using blocks_step [OF i, of "sources info m"] Some by (simp add: sources_def)
    have pm: "plain lo hi ?info ?m" "sources ?info ?m = sources info m"
      using plain_mwrite [OF Suc.prems(1,2), of ?b] Suc.prems(3) b by (simp_all add: rti_addrs_irrelevant)
    have "sa_copy recover stale m sa ?d = ?b" using Suc.prems(1) Some by (simp add: sa_copy_def plain_def)
    moreover have "int ?d \<le> buflen" using Suc.prems(4) b by simp
    ultimately have st: "msg_addrs recover stale i (Some p) buflen len info m =
        msg_addrs recover stale (i + 1) (Some (p + ?d)) (buflen - int ?d) (len + int ?d) ?info ?m"
      using i Some by (subst msg_addrs.simps) (simp add: Let_def)
    obtain ad where r: "msg_addrs recover stale (i + 1) (Some (p + ?d)) (buflen - int ?d) (len + int ?d) ?info ?m =
        (Some (p + ?d + length ?B), buflen - int ?d - int (length ?B), len + int ?d + int (length ?B), ?info\<lparr>rti_addrs := ad\<rparr>, mwrite (p + ?d) ?B ?m)"
        "\<forall>j<RTAX_MAX. bit ad j \<longleftrightarrow> bit (rti_addrs ?info) j \<or> i + 1 \<le> j \<and> rti_info ?info j \<noteq> None"
      using Suc.hyps(1) [OF n pm(1), of "p + ?d" "buflen - int ?d" "len + int ?d"] Suc.prems(2-4) b unfolding pm(2) by auto
    have "mwrite (p + ?d) ?B ?m = mwrite p (?b @ ?B) m" using mwrite_append [of p ?b ?B m] by simp
    moreover have "\<forall>j<RTAX_MAX. bit ad j \<longleftrightarrow> bit (rti_addrs info) j \<or> i \<le> j \<and> rti_info info j \<noteq> None"
      using r(2) Some by (auto simp: bit_simps le_less_Suc_eq)
    ultimately show ?thesis using st r(1) unfolding b by (intro exI [of _ ad]) (simp add: add.assoc)
  qed
qed

lemma dvd_blocks: "(\<And>j b. bl j = Some b \<Longrightarrow> block_ok b) \<Longrightarrow> 8 dvd length (blocks bl i)"
proof (induction "RTAX_MAX - i" arbitrary: i)
  case 0
  then show ?case by (simp add: blocks_end)
next
  case (Suc n)
  then have i: "i < RTAX_MAX" and "n = RTAX_MAX - (i + 1)" by simp_all
  then have "8 dvd length (blocks bl (i + 1))" using Suc by blast
  moreover have "8 dvd length (case bl i of None \<Rightarrow> [] | Some b \<Rightarrow> b)"
    using Suc.prems [of i] by (auto simp: block_ok_def split: option.splits)
  ultimately show ?case unfolding blocks_step [OF i] by simp
qed

lemma rtsock_msg_buffer_plain:
  assumes "plain tmem (tmem + nat bufsize) info m" and "h = msg_hdrlen H type (Some oper)" "4 \<le> h" "h mod 8 = 0"
    and "B = blocks (sources info m) 0" "h + int (length B) \<le> bufsize"
  shows "\<exists>ad. rtsock_msg_buffer H recover stale type info (Some (tmem, bufsize, oper)) m = (0, h + int (length B), info\<lparr>rti_addrs := ad\<rparr>,
      mwrite tmem [word_of_int (h + int (length B)), word_of_int ((h + int (length B)) div 256), word_of_int (H ''RTM_VERSION''), word_of_int type]
        (mwrite (tmem + nat h) B m)) \<and> (\<forall>j<RTAX_MAX. bit ad j \<longleftrightarrow> rti_info info j \<noteq> None)"
proof -
  let ?p = "tmem + nat h" and ?info = "info\<lparr>rti_addrs := 0\<rparr>"
  have src: "sources ?info m = sources info m" "plain tmem (tmem + nat bufsize) ?info m" using assms(1) by (simp_all add: rti_addrs_irrelevant)
  have "nat h + length B \<le> nat bufsize" using assms(3,6) by linarith
  then obtain ad where w: "msg_addrs recover stale 0 (Some ?p) (bufsize - h) h ?info m =
      (Some (?p + length B), bufsize - h - int (length B), h + int (length B), ?info\<lparr>rti_addrs := ad\<rparr>, mwrite ?p B m)"
      "\<forall>j<RTAX_MAX. bit ad j \<longleftrightarrow> rti_info info j \<noteq> None"
    using msg_addrs_writes [OF src(2), of ?p 0 "bufsize - h" recover stale h] assms(3,6) unfolding src(1) assms(5) by auto
  have "8 dvd length B" unfolding assms(5) using dvd_blocks plain_sources [OF assms(1)] by blast
  then have al: "ALIGN (h + int (length B)) = h + int (length B)"
    using assms(4) unfolding ALIGN_def by presburger
  show ?thesis
    using w al assms(6) by (intro exI [of _ ad]) (simp add: rtsock_msg_buffer_def assms(2) [symmetric] Let_def)
qed

text \<open>Taking the blocks of a message apart.\<close>

lemma rt_xaddrs_message:
  assumes "\<forall>j<RTAX_MAX. bit ad j \<longleftrightarrow> bl j \<noteq> None" "\<forall>j b. bl j = Some b \<longrightarrow> block_ok b" "mread m p (length (blocks bl 0)) = blocks bl 0"
  shows "\<exists>info. rt_xaddrs emb SZ p (p + length (blocks bl 0)) \<lparr>rti_addrs = ad, rti_flags = 0, rti_info = \<lambda>_. None\<rparr> m = (0, info, m) \<and>
    (\<forall>j<RTAX_MAX. case bl j of None \<Rightarrow> rti_info info j = None | Some b \<Rightarrow> \<exists>q. rti_info info j = Some q \<and> mread m q (length b) = b)"
  using rt_xaddrs_blocks [of "\<lparr>rti_addrs = ad, rti_flags = 0, rti_info = \<lambda>_. None\<rparr>" bl m p 0 "p + length (blocks bl 0)" emb SZ] assms
  unfolding rt_xaddrs_def addrinfo.simps by auto

text \<open>C28: a reply can be taken apart again.  For a structure of addresses that are not empty, not IPv6 (whose scope is taken out on the way)
  and lie outside the buffer (\<open>plain\<close>), and a header whose length is a multiple of 8, as those of FreeBSD: when the buffer has room for the
  header and the addresses, each padded to its size, \<open>rtsock_msg_buffer\<close> succeeds, reports the length it used, and \<open>rt_xaddrs\<close> on the
  written message finds exactly the addresses the reply was made of, each with the same bytes under the same number, and no others.\<close>

theorem route_message_round_trip:
  assumes "plain tmem (tmem + nat bufsize) info m" and "h = msg_hdrlen H type (Some oper)" "4 \<le> h" "h mod 8 = 0"
    and "h + int (length (blocks (sources info m) 0)) \<le> bufsize"
  shows "\<exists>len info' m' info''. rtsock_msg_buffer H recover stale type info (Some (tmem, bufsize, oper)) m = (0, len, info', m') \<and>
    len = h + int (length (blocks (sources info m) 0)) \<and>
    rt_xaddrs emb SZ (tmem + nat h) (tmem + nat len) \<lparr>rti_addrs = rti_addrs info', rti_flags = 0, rti_info = \<lambda>_. None\<rparr> m' = (0, info'', m') \<and>
    (\<forall>j<RTAX_MAX. case rti_info info j of None \<Rightarrow> rti_info info'' j = None
       | Some sa \<Rightarrow> \<exists>q. rti_info info'' j = Some q \<and> mread m' q (SA_SIZE m sa) = mread m sa (SA_SIZE m sa))"
proof -
  let ?B = "blocks (sources info m) 0" and ?p = "tmem + nat h"
  define m' where "m' = mwrite tmem [word_of_int (h + int (length ?B)), word_of_int ((h + int (length ?B)) div 256),
      word_of_int (H ''RTM_VERSION''), word_of_int type] (mwrite ?p ?B m)"
  from rtsock_msg_buffer_plain [OF assms(1-4) refl assms(5), of recover stale] obtain ad where
    r: "rtsock_msg_buffer H recover stale type info (Some (tmem, bufsize, oper)) m = (0, h + int (length ?B), info\<lparr>rti_addrs := ad\<rparr>, m')"
      "\<forall>j<RTAX_MAX. bit ad j \<longleftrightarrow> rti_info info j \<noteq> None" unfolding m'_def by blast
  have mr: "mread m' ?p (length ?B) = ?B"
    unfolding m'_def using assms(3) by (subst mread_mwrite_outside) (auto simp: mem_simps nat_le_iff le_nat_iff)
  have "\<forall>j<RTAX_MAX. bit ad j \<longleftrightarrow> sources info m j \<noteq> None" using r(2) by (simp add: sources_def)
  moreover have "\<forall>j b. sources info m j = Some b \<longrightarrow> block_ok b" using plain_sources [OF assms(1)] by blast
  ultimately obtain info'' where x: "rt_xaddrs emb SZ ?p (?p + length ?B) \<lparr>rti_addrs = ad, rti_flags = 0, rti_info = \<lambda>_. None\<rparr> m' = (0, info'', m')"
      "\<forall>j<RTAX_MAX. case sources info m j of None \<Rightarrow> rti_info info'' j = None | Some b \<Rightarrow> \<exists>q. rti_info info'' j = Some q \<and> mread m' q (length b) = b"
    using rt_xaddrs_message [OF _ _ mr] by blast
  have y: "\<forall>j<RTAX_MAX. case rti_info info j of None \<Rightarrow> rti_info info'' j = None
       | Some sa \<Rightarrow> \<exists>q. rti_info info'' j = Some q \<and> mread m' q (SA_SIZE m sa) = mread m sa (SA_SIZE m sa)"
    using x(2) by (auto simp: sources_def split: option.splits)
  have n: "tmem + nat (h + int (length ?B)) = ?p + length ?B" using assms(3) by (simp add: nat_add_distrib)
  have a: "rti_addrs (info\<lparr>rti_addrs := ad\<rparr>) = ad" by simp
  show ?thesis by (intro exI conjI) (rule r(1), rule refl, unfold n a, rule x(1), rule y)
qed

text \<open>A header of 152 bytes, FreeBSD's \<open>struct rt_msghdr\<close>, for the example.\<close>

definition route_headers :: fbsd_headers where
  "route_headers s = (if s = ''sizeof rt_msghdr'' then 152 else if s = ''RTM_VERSION'' then 5 else - 1)"

theorem route_message_round_trip_witness:
  "\<exists>len info' m' info'' q. rtsock_msg_buffer route_headers (\<lambda>b. None) [] 4 \<lparr>rti_addrs = 0, rti_flags = 0, rti_info = [0 \<mapsto> 5000]\<rparr>
       (Some (1000, 1024, 0)) (fill_sockaddr_inet 5000 [10, 0, 0, 1] (\<lambda>_. 0)) = (0, len, info', m') \<and>
     rt_xaddrs (\<lambda>_ m. m) 9 1152 (1000 + nat len) \<lparr>rti_addrs = rti_addrs info', rti_flags = 0, rti_info = \<lambda>_. None\<rparr> m' = (0, info'', m') \<and>
     rti_info info'' 0 = Some q \<and> mread m' q 16 = [16, 2, 0, 0, 10, 0, 0, 1, 0, 0, 0, 0, 0, 0, 0, 0]"
proof -
  let ?bs = "[16, 2, 0, 0, 10, 0, 0, 1, 0, 0, 0, 0, 0, 0, 0, 0] :: u8 list"
  let ?m = "fill_sockaddr_inet 5000 [10, 0, 0, 1] (\<lambda>_. 0)"
  let ?info = "\<lparr>rti_addrs = 0, rti_flags = 0, rti_info = [0 \<mapsto> 5000]\<rparr>"
  have m: "?m = mwrite 5000 ?bs (\<lambda>_. 0)" by (simp add: fill_sockaddr_inet_def eval_nat_numeral)
  have v: "?m 5000 = 16" "?m 5001 = 2" unfolding m by (simp_all add: mwrite_def)
  have sz: "SA_SIZE ?m 5000 = 16" using SA_SIZE_alt [of ?m 5000] v by simp
  have "length ?bs = 16" by simp
  then have mr: "mread ?m 5000 16 = ?bs" using mread_mwrite [of 5000 ?bs "\<lambda>_. 0"] unfolding m by (simp only:)
  have pl: "plain 1000 (1000 + nat 1024) ?info ?m" using v sz by (simp add: plain_def)
  have "sources ?info ?m = (\<lambda>j. if j = 0 then Some ?bs else None)"
    using sz mr by (auto simp: sources_def fun_eq_iff)
  then have bl: "length (blocks (sources ?info ?m) 0) = 16" by (simp add: blocks_def upt_rec)
  have h: "152 = msg_hdrlen route_headers 4 (Some 0)" by (simp add: msg_hdrlen_def route_headers_def)
  obtain len info' m' info'' where r: "rtsock_msg_buffer route_headers (\<lambda>b. None) [] 4 ?info (Some (1000, 1024, 0)) ?m = (0, len, info', m')"
      "rt_xaddrs (\<lambda>_ m. m) 9 (1000 + nat 152) (1000 + nat len) \<lparr>rti_addrs = rti_addrs info', rti_flags = 0, rti_info = \<lambda>_. None\<rparr> m' = (0, info'', m')"
      "\<forall>j<RTAX_MAX. case rti_info ?info j of None \<Rightarrow> rti_info info'' j = None
        | Some sa \<Rightarrow> \<exists>q. rti_info info'' j = Some q \<and> mread m' q (SA_SIZE ?m sa) = mread ?m sa (SA_SIZE ?m sa)"
    using route_message_round_trip [OF pl h, of "\<lambda>b. None" "[]" "\<lambda>_ m. m" 9] bl by auto
  obtain q where "rti_info info'' 0 = Some q" "mread m' q 16 = ?bs" using r(3) [rule_format, of 0] sz mr by auto
  then show ?thesis using r(1,2) by auto
qed

section \<open>Small buffers\<close>

lemma msg_addrs_bounds:
  assumes "msg_addrs recover stale i cp buflen len info m = (cp', buflen', len', info', m')"
  shows "(\<forall>a. m' a \<noteq> m a \<longrightarrow> (\<exists>p. cp = Some p \<and> p \<le> a \<and> int a < int p + buflen)) \<and> (cp' \<noteq> None \<longrightarrow> cp \<noteq> None \<and> buflen' \<le> buflen) \<and> len \<le> len'"
  using assms
proof (induction "RTAX_MAX - i" arbitrary: i cp buflen len info m)
  case 0
  then show ?case by (simp add: msg_addrs.simps [of recover stale i])
next
  case (Suc n)
  then have i: "i < RTAX_MAX" and n: "n = RTAX_MAX - (i + 1)" by simp_all
  note r = Suc.prems [unfolded msg_addrs.simps [of recover stale i cp]]
  show ?case
  proof (cases "rti_info info i")
    case None
    then show ?thesis using r i Suc.hyps(1) [OF n, of cp buflen len info m] by simp
  next
    case (Some sa)
    let ?d = "SA_SIZE m sa" and ?info = "info\<lparr>rti_addrs := rti_addrs info OR push_bit i 1\<rparr>"
    show ?thesis
    proof (cases "\<exists>p. cp = Some p \<and> int ?d \<le> buflen")
      case True
      then obtain p where p: "cp = Some p" "int ?d \<le> buflen" by blast
      let ?c = "sa_copy recover stale m sa ?d"
      have l: "length ?c \<le> ?d" by (auto simp: sa_copy_def split: option.splits)
      have "msg_addrs recover stale (i + 1) (Some (p + ?d)) (buflen - int ?d) (len + int ?d) ?info (mwrite p ?c m) = (cp', buflen', len', info', m')"
        using r i Some p by (simp add: Let_def)
      from Suc.hyps(1) [OF n this]
      have h: "\<forall>a. m' a \<noteq> mwrite p ?c m a \<longrightarrow> p + ?d \<le> a \<and> int a < int p + buflen" "cp' \<noteq> None \<longrightarrow> buflen' \<le> buflen - int ?d" "len + int ?d \<le> len'"
        by auto
      have "p \<le> a \<and> int a < int p + buflen" if "m' a \<noteq> m a" for a
      proof (cases "m' a = mwrite p ?c m a")
        case True
        then have "p \<le> a \<and> a < p + length ?c" using that by (auto simp: mwrite_def split: if_splits)
        then show ?thesis using l p(2) by linarith
      next
        case False
        then show ?thesis using h(1) by auto
      qed
      then show ?thesis using p h(2,3) by auto
    next
      case False
      then have "msg_addrs recover stale (i + 1) None buflen (len + int ?d) ?info m = (cp', buflen', len', info', m')"
        using r i Some by (auto simp: Let_def split: option.splits)
      from Suc.hyps(1) [OF n this] show ?thesis by auto
    qed
  qed
qed

text \<open>Writing a reply never leaves the buffer.  For every set of addresses, IPv6 ones included, and every size of the buffer, however small, the bytes
  \<open>rtsock_msg_buffer\<close> changes lie inside the buffer; it answers \<open>ENOBUFS\<close> (55) or 0.\<close>

theorem rtsock_writes_in_buffer:
  assumes "4 \<le> msg_hdrlen H type (Some oper)"
    and "rtsock_msg_buffer H recover stale type info (Some (tmem, bufsize, oper)) m = (err, len, info', m')"
  shows "err \<in> {0, 55} \<and> (\<forall>a. m' a \<noteq> m a \<longrightarrow> tmem \<le> a \<and> int a < int tmem + bufsize)"
proof -
  let ?h = "msg_hdrlen H type (Some oper)"
  obtain cp1 buflen1 len1 info1 m1 where a: "msg_addrs recover stale 0 (Some (tmem + nat ?h)) (bufsize - ?h) ?h (info\<lparr>rti_addrs := 0\<rparr>) m =
      (cp1, buflen1, len1, info1, m1)" by (metis prod_cases5)
  have b: "\<forall>a. m1 a \<noteq> m a \<longrightarrow> tmem + nat ?h \<le> a \<and> int a < int (tmem + nat ?h) + (bufsize - ?h)" "cp1 \<noteq> None \<longrightarrow> buflen1 \<le> bufsize - ?h" "?h \<le> len1"
    using msg_addrs_bounds [OF a] by auto
  have in1: "tmem \<le> a \<and> int a < int tmem + bufsize" if "m1 a \<noteq> m a" for a
    using b(1) that assms(1) by fastforce
  have al: "len1 \<le> ALIGN len1" unfolding ALIGN_def by presburger
  show ?thesis
  proof (cases "cp1 \<noteq> None \<and> \<not> buflen1 < ALIGN len1 - len1")
    case True
    let ?hd = "[word_of_int (ALIGN len1), word_of_int (ALIGN len1 div 256), word_of_int (H ''RTM_VERSION''), word_of_int type] :: u8 list"
    have m': "m' = mwrite tmem ?hd m1" "err = 0" using assms(2) a True by (auto simp: rtsock_msg_buffer_def Let_def split: option.splits)
    have size: "4 \<le> bufsize" using True b(2) al assms(1) by simp
    have "tmem \<le> a \<and> int a < int tmem + bufsize" if "m' a \<noteq> m a" for a
    proof (cases "m1 a = m a")
      case True
      then have "tmem \<le> a \<and> a < tmem + length ?hd" using that m'(1) by (auto simp: mwrite_def split: if_splits)
      then show ?thesis using size by simp
    qed (use in1 in auto)
    then show ?thesis using m'(2) by auto
  next
    case False
    then have "m' = m1 \<and> err = 55" using assms(2) a by (auto simp: rtsock_msg_buffer_def Let_def split: option.splits if_splits)
    then show ?thesis using in1 by auto
  qed
qed

theorem rtsock_writes_in_buffer_witness:
  "\<exists>len info' m'. rtsock_msg_buffer route_headers (\<lambda>b. None) [] 4 \<lparr>rti_addrs = 0, rti_flags = 0, rti_info = [0 \<mapsto> 5000]\<rparr> (Some (1000, 156, 0)) (\<lambda>_. 16) =
     (55, len, info', m') \<and> (\<forall>a. m' a \<noteq> 16 \<longrightarrow> 1000 \<le> a \<and> int a < 1156)"
proof -
  let ?r = "rtsock_msg_buffer route_headers (\<lambda>b. None) [] 4 \<lparr>rti_addrs = 0, rti_flags = 0, rti_info = [0 \<mapsto> 5000]\<rparr> (Some (1000, 156, 0)) (\<lambda>_. 16)"
  have h: "msg_hdrlen route_headers 4 (Some 0) = 152" by (simp add: msg_hdrlen_def route_headers_def)
  have sz: "SA_SIZE (\<lambda>_. 16) 5000 = 16" using SA_SIZE_alt [of "\<lambda>_. 16" 5000] by simp
  obtain e len info' m' where r: "?r = (e, len, info', m')" by (metis prod_cases4)
  have "e = 55" using r h sz by (simp add: rtsock_msg_buffer_def msg_addrs.simps Let_def)
  then show ?thesis using r rtsock_writes_in_buffer [OF _ r] h by auto
qed

end
