(* ===== verification/LB_Rtioctl_Props.thy ===== *)
theory LB_Rtioctl_Props
  imports LB_Rtioctl LB_Route_Props
begin

text \<open>
  The route call: which bytes it writes, how long its answer is, and what it answers to a lookup.
\<close>

section \<open>Where addresses lie\<close>

text \<open>Every address of a structure is the static \<open>sa_zero\<close>, 16 bytes at \<open>z\<close>, or lies, with the 28 bytes of the longest form, in \<open>B\<close>.\<close>

definition addrs_in :: "nat set \<Rightarrow> nat \<Rightarrow> addrinfo \<Rightarrow> bool" where
  "addrs_in B z info \<longleftrightarrow> (\<forall>j p. rti_info info j = Some p \<longrightarrow> p = z \<or> {p..<p + 28} \<subseteq> B)"

lemma addrs_inD: "addrs_in B z info \<Longrightarrow> rti_info info j = Some p \<Longrightarrow> p = z \<or> {p..<p + 28} \<subseteq> B"
  unfolding addrs_in_def by blast

lemma addrs_in_update:
  "addrs_in B z info \<Longrightarrow> {p..<p + 28} \<subseteq> B \<Longrightarrow> addrs_in B z (info\<lparr>rti_info := (rti_info info)(j \<mapsto> p)\<rparr>)"
  "addrs_in B z (info\<lparr>rti_flags := f\<rparr>) = addrs_in B z info"
  "addrs_in B z (info\<lparr>rti_addrs := u\<rparr>) = addrs_in B z info"
  "addrs_in B z info \<Longrightarrow> addrs_in B z (info\<lparr>rti_info := (rti_info info)(j := None)\<rparr>)"
  by (auto simp: addrs_in_def)

lemma addrs_in_remove_netmask: "addrs_in B z info \<Longrightarrow> addrs_in B z (remove_netmask info)"
  by (auto simp: addrs_in_def remove_netmask_def)

text \<open>\<open>sa_zero\<close> is an IPv4 address of 16 bytes and stays one.\<close>

definition zspan :: "nat \<Rightarrow> nat set" where
  "zspan z = {z..<z + 16}"

definition zero_ok :: "nat \<Rightarrow> mem \<Rightarrow> bool" where
  "zero_ok z m \<longleftrightarrow> m z = 16 \<and> m (z + 1) = F_INET"

definition moves :: "nat set \<Rightarrow> nat \<Rightarrow> mem \<Rightarrow> mem \<Rightarrow> bool" where
  "moves B z m m' \<longleftrightarrow> changes (B \<union> zspan z) m m' \<and> (zero_ok z m \<longrightarrow> zero_ok z m')"

lemma moves_refl [simp, intro]: "moves B z m m"
  by (simp add: moves_def)

lemma moves_trans: "moves B z m m' \<Longrightarrow> moves B z m' m'' \<Longrightarrow> moves B z m m''"
  unfolding moves_def by (blast intro: changes_trans)

lemma zero_ok_changes: "changes W m m' \<Longrightarrow> W \<inter> zspan z = {} \<Longrightarrow> zero_ok z m' = zero_ok z m"
  unfolding changes_def zero_ok_def zspan_def by (metis IntI atLeastLessThan_iff emptyE le_add1 le_refl less_add_same_cancel1 nat_add_left_cancel_less one_less_numeral_iff semiring_norm(76) zero_less_numeral)

lemma moves_changes: "changes B m m' \<Longrightarrow> B \<inter> zspan z = {} \<Longrightarrow> moves B z m m'"
  using zero_ok_changes [of B m m' z] changes_mono [of B m m' "B \<union> zspan z"] by (simp add: moves_def)

lemma rt_xaddrs_changes:
  assumes "scope_local emb" "lo \<le> cp" "rt_xaddrs_from emb SZ cplim i cp info m = (err, info', m')"
  shows "changes {lo..<cplim + 28} m m'"
  using assms
proof (induction emb SZ cplim i cp info m rule: rt_xaddrs_from.induct)
  case (1 emb SZ cplim i cp info m)
  note r = "1.prems"(3) [unfolded rt_xaddrs_from.simps [of emb SZ cplim i cp info m]]
  show ?case
  proof (cases "i < RTAX_MAX \<and> cp < cplim \<and> bit (rti_addrs info) i \<and> \<not> cp + unat (m cp) > cplim \<and> m cp \<noteq> 0")
    case False
    then consider "\<not> (i < RTAX_MAX \<and> cp < cplim)" | "i < RTAX_MAX \<and> cp < cplim" "\<not> bit (rti_addrs info) i"
      | "i < RTAX_MAX \<and> cp < cplim" "bit (rti_addrs info) i" "cp + unat (m cp) > cplim \<or> m cp = 0" by blast
    then show ?thesis
    proof cases
      case 2
      then show ?thesis using r "1.IH"(1) [OF 2 "1.prems"(1,2)] by simp
    qed (use r in \<open>auto split: if_splits\<close>)
  next
    case True
    define m1 where "m1 = (if m (cp + 1) = F_INET6 then emb cp m else m)"
    have "emb cp m a = m a" if "a \<notin> {lo..<cplim + 28}" for a
    proof -
      have "a < lo \<or> cplim + 28 \<le> a" using that by (auto simp: not_less)
      then have "a < cp + 2 \<or> cp + 28 \<le> a" using "1.prems"(2) True by linarith
      then show ?thesis using "1.prems"(1) unfolding scope_local_def by blast
    qed
    then have "changes {lo..<cplim + 28} m m1" unfolding m1_def changes_def by (metis (full_types))
    moreover have "rt_xaddrs_from emb SZ cplim (i + 1) (cp + SA_SIZE m1 cp) (info\<lparr>rti_info := (rti_info info)(i \<mapsto> cp)\<rparr>) m1 = (err, info', m')"
      using r True by (simp add: m1_def Let_def)
    from "1.IH"(2) [OF _ _ _ _ m1_def "1.prems"(1) _ this] True "1.prems"(2) have "changes {lo..<cplim + 28} m1 m'" by simp
    ultimately show ?thesis by (rule changes_trans)
  qed
qed

lemma rt_xaddrs_addrs:
  assumes "scope_local emb" "rti_info info = (\<lambda>_. None)" "rt_xaddrs emb z cp cplim info m = (err, info', m')"
    and "{cp..<cplim + 28} \<subseteq> B"
  shows "changes B m m' \<and> addrs_in B z info'"
proof
  show "changes B m m'"
    using rt_xaddrs_changes [OF assms(1) order_refl assms(3) [unfolded rt_xaddrs_def]] assms(4) by (rule changes_mono)
  have "placed cp cplim 0 cp (rti_info info) m" using assms(2) by (simp add: placed_def)
  from rt_xaddrs_from_placed [OF assms(1) this _ assms(3) [unfolded rt_xaddrs_def]]
  obtain i c found where f: "placed cp cplim i c found m'" "rti_info info' = found \<or> (\<exists>k. rti_info info' = found(k \<mapsto> z))"
    unfolding located_def by auto
  have "{p..<p + 28} \<subseteq> B" if "found j = Some p" for j p
  proof -
    have "cp \<le> p" "m' p \<noteq> 0" "p + unat (m' p) \<le> cplim" using f(1) that unfolding placed_def by blast+
    moreover from this have "0 < unat (m' p)" by (simp add: unat_gt_0)
    ultimately have "p < cplim" by linarith
    then show ?thesis using assms(4) \<open>cp \<le> p\<close> by fastforce
  qed
  then show "addrs_in B z info'" using f(2) unfolding addrs_in_def by (metis fun_upd_apply option.inject)
qed

section \<open>Normalisation\<close>

lemma fill_changes [intro]:
  "length a = 4 \<Longrightarrow> {p..<p + 28} \<subseteq> A \<Longrightarrow> changes A m (fill_sockaddr_inet p a m)"
  "length b = 16 \<Longrightarrow> length s = 4 \<Longrightarrow> {p..<p + 28} \<subseteq> A \<Longrightarrow> changes A m (fill_sockaddr_inet6 p b s m)"
  unfolding fill_sockaddr_inet_def fill_sockaddr_inet6_def by (rule changes_stores(1); auto)+

lemma fill_steps:
  "changes A m x \<Longrightarrow> length a = 4 \<Longrightarrow> {p..<p + 28} \<subseteq> A \<Longrightarrow> changes A m (fill_sockaddr_inet p a x)"
  "changes A m x \<Longrightarrow> length b = 16 \<Longrightarrow> length s = 4 \<Longrightarrow> {p..<p + 28} \<subseteq> A \<Longrightarrow> changes A m (fill_sockaddr_inet6 p b s x)"
  by (blast intro: changes_trans fill_changes)+

text \<open>A clean IPv4 address fits in \<open>sa_zero\<close> too, and keeps it what it is; a clean IPv6 address is never written there.\<close>

lemma inet_moves:
  assumes "p = z \<or> {p..<p + 28} \<subseteq> B" "B \<inter> zspan z = {}" "length a = 4"
  shows "moves B z m (fill_sockaddr_inet p a m)"
proof (cases "p = z")
  case True
  have "changes (B \<union> zspan z) m (fill_sockaddr_inet p a m)"
    using True assms(3) unfolding fill_sockaddr_inet_def by (intro changes_stores) (auto simp: zspan_def)
  moreover have "zero_ok z (fill_sockaddr_inet p a m)"
    using True by (simp add: zero_ok_def fill_sockaddr_inet_def mwrite_def)
  ultimately show ?thesis by (simp add: moves_def)
next
  case False
  then show ?thesis using assms by (intro moves_changes fill_changes) auto
qed

lemma inet6_moves:
  "{p..<p + 28} \<subseteq> B \<Longrightarrow> B \<inter> zspan z = {} \<Longrightarrow> length b = 16 \<Longrightarrow> length s = 4 \<Longrightarrow> moves B z m (fill_sockaddr_inet6 p b s m)"
  by (intro moves_changes fill_changes) auto

lemma moves_zero: "moves B z m m' \<Longrightarrow> zero_ok z m \<Longrightarrow> zero_ok z m'"
  by (simp add: moves_def)

lemma cleanup_gateway_moves:
  assumes "gw = z \<or> {gw..<gw + 28} \<subseteq> B" "B \<inter> zspan z = {}" "zero_ok z m" "cleanup_xaddrs_gateway info gw m = (err, m')"
  shows "moves B z m m'"
proof (cases "gw = z")
  case True
  then have "m' = m \<or> m' = fill_sockaddr_inet gw (mread m (gw + 4) 4) m"
    using assms(3,4) by (auto simp: cleanup_xaddrs_gateway_def zero_ok_def split: if_splits)
  then show ?thesis using inet_moves [OF assms(1,2), of "mread m (gw + 4) 4" m] by auto
next
  case False
  then have gw: "{gw..<gw + 28} \<subseteq> B" using assms(1) by blast
  have "changes B m (mwrite gw ([16, F_LINK, m (gw + 2), m (gw + 3)] @ replicate 12 0) m)"
    using gw by (intro changes_stores(1)) auto
  then have "changes B m m'" using gw assms(4) by (auto simp: cleanup_xaddrs_gateway_def split: if_splits)
  then show ?thesis using assms(2) by (rule moves_changes)
qed

lemma check_gateway_moves:
  assumes "addrs_in B z info" "B \<inter> zspan z = {}" "zero_ok z m" "check_gateway info m = (err, info', m')"
  shows "moves B z m m' \<and> info' = info"
  using assms(4) cleanup_gateway_moves [OF addrs_inD [OF assms(1)] assms(2,3)]
  by (auto simp: check_gateway_def split: option.splits prod.splits)

lemma cleanup_inet_moves:
  assumes "addrs_in B z info" "B \<inter> zspan z = {}" "zero_ok z m" "rti_info info RTAX_DST = Some d"
    and "cleanup_xaddrs_inet info d m = (err, info', m')"
  shows "moves B z m m' \<and> addrs_in B z info'"
proof -
  let ?msk = "case rti_info info RTAX_NETMASK of Some p \<Rightarrow> mread m (p + 4) 4 | None \<Rightarrow> replicate 4 0xff"
  let ?m1 = "fill_sockaddr_inet d (and_bytes (mread m (d + 4) 4) ?msk) m"
  let ?s2 = "if ?msk \<noteq> replicate 4 0xff then (info, case rti_info info RTAX_NETMASK of Some p \<Rightarrow> fill_sockaddr_inet p ?msk ?m1 | None \<Rightarrow> ?m1)
             else (remove_netmask info, ?m1)"
  have len: "length ?msk = 4" by (auto split: option.splits)
  have c1: "moves B z m ?m1" using len by (intro inet_moves [OF addrs_inD [OF assms(1,4)] assms(2)]) (simp add: and_bytes_def)
  have "moves B z ?m1 (fill_sockaddr_inet p ?msk ?m1)" if "rti_info info RTAX_NETMASK = Some p" for p
    by (rule inet_moves [OF addrs_inD [OF assms(1) that] assms(2) len])
  then have c2: "moves B z ?m1 (snd ?s2)" by (auto split: option.splits)
  have a2: "addrs_in B z (fst ?s2)" using assms(1) addrs_in_remove_netmask by simp
  have c: "moves B z m (snd ?s2)" by (rule moves_trans [OF c1 c2])
  have "cleanup_xaddrs_inet info d m = (if m d < 16 then (22, info, m)
      else if (case rti_info info RTAX_NETMASK of Some p \<Rightarrow> m p < 16 | None \<Rightarrow> False) then (22, info, m) else check_gateway (fst ?s2) (snd ?s2))"
    unfolding cleanup_xaddrs_inet_def Let_def split_beta by (rule refl)
  then consider "m' = m" "info' = info" | "check_gateway (fst ?s2) (snd ?s2) = (err, info', m')"
    using assms(5) by (metis prod.inject)
  then show ?thesis
  proof cases
    case 2
    from check_gateway_moves [OF a2 assms(2) moves_zero [OF c assms(3)] this] show ?thesis using c a2 moves_trans by blast
  qed (use assms(1) in auto)
qed

lemma cleanup_inet6_moves:
  assumes "addrs_in B z info" "B \<inter> zspan z = {}" "zero_ok z m" "rti_info info RTAX_DST = Some d" "m (d + 1) = F_INET6"
    and "cleanup_xaddrs_inet6 info d m = (err, info', m')"
  shows "moves B z m m' \<and> addrs_in B z info'"
proof -
  let ?msk = "case rti_info info RTAX_NETMASK of Some p \<Rightarrow> mread m (p + 8) 16 | None \<Rightarrow> replicate 16 0xff"
  let ?m0 = "mwrite (d + 8) (and_bytes (mread m (d + 8) 16) ?msk) m"
  let ?m1 = "fill_sockaddr_inet6 d (mread ?m0 (d + 8) 16) [0, 0, 0, 0] ?m0"
  let ?s2 = "if ?msk \<noteq> replicate 16 0xff then (info, case rti_info info RTAX_NETMASK of Some p \<Rightarrow> fill_sockaddr_inet6 p ?msk [0, 0, 0, 0] ?m1 | None \<Rightarrow> ?m1)
             else (remove_netmask info, ?m1)"
  let ?short = "case rti_info info RTAX_NETMASK of Some p \<Rightarrow> ?m0 p < 28 | None \<Rightarrow> False"
  have len: "length ?msk = 16" by (auto split: option.splits)
  have "d \<noteq> z" using assms(3,5) by (auto simp: zero_ok_def)
  then have d: "{d..<d + 28} \<subseteq> B" using addrs_inD [OF assms(1,4)] by blast
  have "changes B m ?m0" using len d by (intro changes_stores(1)) (auto simp: and_bytes_def)
  then have c0: "moves B z m ?m0" using assms(2) by (rule moves_changes)
  have c1: "moves B z ?m0 ?m1" by (rule inet6_moves [OF d assms(2)]) simp_all
  have a2: "addrs_in B z (fst ?s2)" using assms(1) addrs_in_remove_netmask by simp
  have c2: "moves B z ?m1 (snd ?s2)" if "\<not> ?short"
  proof -
    have "moves B z ?m1 (fill_sockaddr_inet6 p ?msk [0, 0, 0, 0] ?m1)" if "rti_info info RTAX_NETMASK = Some p" for p
    proof -
      have "?m0 z = 16" using moves_zero [OF c0 assms(3)] by (simp add: zero_ok_def)
      then have "p \<noteq> z" using \<open>\<not> ?short\<close> that by auto
      then show ?thesis using addrs_inD [OF assms(1) that] len by (intro inet6_moves [OF _ assms(2)]) auto
    qed
    then show ?thesis by (auto split: option.splits)
  qed
  have "cleanup_xaddrs_inet6 info d m = (if ?m0 d < 28 then (22, info, ?m0)
      else if ?short then (22, info, ?m0) else check_gateway (fst ?s2) (snd ?s2))"
    unfolding cleanup_xaddrs_inet6_def Let_def split_beta by (rule refl)
  then consider "m' = ?m0" "info' = info" | "\<not> ?short" "check_gateway (fst ?s2) (snd ?s2) = (err, info', m')"
    using assms(6) by (metis prod.inject)
  then show ?thesis
  proof cases
    case 2
    have c: "moves B z m (snd ?s2)" by (rule moves_trans [OF c0 moves_trans [OF c1 c2 [OF 2(1)]]])
    from check_gateway_moves [OF a2 assms(2) moves_zero [OF c assms(3)] 2(2)] show ?thesis using c a2 moves_trans by blast
  qed (use assms(1) c0 in auto)
qed

lemma cleanup_xaddrs_moves:
  assumes "addrs_in B z info" "B \<inter> zspan z = {}" "zero_ok z m" "cleanup_xaddrs info m = (err, info', m')"
  shows "moves B z m m' \<and> addrs_in B z info'"
proof (cases "rti_info info RTAX_DST")
  case None
  then show ?thesis using assms by (auto simp: cleanup_xaddrs_def)
next
  case (Some d)
  define i where "i = (if rti_flags info AND RTF_LLDATA \<noteq> 0 then remove_netmask info else info)"
  have a: "addrs_in B z i" "rti_info i RTAX_DST = Some d"
    using assms(1) addrs_in_remove_netmask Some by (auto simp: i_def remove_netmask_def)
  show ?thesis
    using assms(4) a cleanup_inet_moves [OF a(1) assms(2,3) a(2)] cleanup_inet6_moves [OF a(1) assms(2,3) a(2)]
    by (auto simp: cleanup_xaddrs_def Some i_def [symmetric] Let_def split: if_splits)
qed

section \<open>What the kernel promises\<close>

text \<open>The lengths FreeBSD's functions write: a scope keeps the length of an address, a prefix fits in the longest address.  \<open>rib_action\<close> leaves
  in the structure addresses of \<open>B\<close>, those it was given or, where it has some, its own.\<close>

definition rt_ok :: "rtentry \<Rightarrow> bool" where
  "rt_ok rt \<longleftrightarrow> (case rt_prefix rt of (addr, pmask, scope) \<Rightarrow> length addr \<le> 16 \<and> length pmask \<le> 16 \<and> length scope \<le> 4)"

definition rt_kernel_ok :: "'k rt_kernel \<Rightarrow> nat set \<Rightarrow> bool" where
  "rt_kernel_ok K B \<longleftrightarrow> scope_local (embedscope K) \<and> (\<forall>b b'. recoverscope K b = Some b' \<longrightarrow> length b' = length b) \<and>
     (\<forall>w. msg_hdrlen (rt_headers K) 2 w = 152 \<and> msg_hdrlen (rt_headers K) 4 w = 152) \<and>
     (\<forall>fib b k rt. rnh_matchaddr K fib b k = Some rt \<longrightarrow> rt_ok rt) \<and> (\<forall>fib b c k rt. rnh_lookup K fib b c k = Some rt \<longrightarrow> rt_ok rt) \<and>
     (\<forall>fib t rtm info ifs m k rc info' k'. rib_act K fib t rtm info ifs m k = (0, rc, info', k') \<longrightarrow> rt_ok (rc_rt rc)) \<and>
     (\<forall>fib t rtm info ifs m k err rc info' k'. rib_act K fib t rtm info ifs m k = (err, rc, info', k') \<longrightarrow>
        addrs_in B (sa_zero K) info \<longrightarrow> addrs_in B (sa_zero K) info')"

text \<open>The variables of the call, at their sizes: four \<open>union sockaddr_union\<close> of 28 bytes and a \<open>struct sockaddr\<close> of 16.\<close>

definition rt_vars :: "rt_stack \<Rightarrow> nat set" where
  "rt_vars S = {sa_dst S..<sa_dst S + 28} \<union> {sa_mask S..<sa_mask S + 28} \<union> {saun S..<saun S + 28} \<union> {gw_saun S..<gw_saun S + 28} \<union>
     {laddr S..<laddr S + 16}"

text \<open>With the addresses of the message; the last may be read and written 28 bytes long.\<close>

definition rt_areas :: "rt_stack \<Rightarrow> nat \<Rightarrow> nat \<Rightarrow> nat set" where
  "rt_areas S rtm len = {rtm + 152..<rtm + len + 28} \<union> rt_vars S"

definition own :: "'k rt_kernel \<Rightarrow> nat set \<Rightarrow> nat set" where
  "own K B = B \<union> zspan (sa_zero K)"

definition rt_safe :: "'k rt_kernel \<Rightarrow> rt_stack \<Rightarrow> nat \<Rightarrow> nat \<Rightarrow> nat set \<Rightarrow> bool" where
  "rt_safe K S rtm len B \<longleftrightarrow> rt_kernel_ok K B \<and> rt_areas S rtm len \<subseteq> B \<and> B \<inter> zspan (sa_zero K) = {} \<and> {rtm..<rtm + 152} \<inter> own K B = {}"

lemma rt_safe_areas:
  assumes "rt_safe K S rtm len B"
  shows "{rtm + 152..<rtm + len + 28} \<subseteq> B" "{sa_dst S..<sa_dst S + 28} \<subseteq> B" "{sa_mask S..<sa_mask S + 28} \<subseteq> B"
    "{saun S..<saun S + 28} \<subseteq> B" "{gw_saun S..<gw_saun S + 28} \<subseteq> B" "{laddr S..<laddr S + 16} \<subseteq> B"
    "B \<inter> zspan (sa_zero K) = {}" "B \<subseteq> own K B"
  using assms unfolding rt_safe_def rt_areas_def rt_vars_def own_def by (simp_all only: Un_subset_iff Un_upper1)

lemma rt_safe_kernel:
  assumes "rt_safe K S rtm len B"
  shows "scope_local (embedscope K)" "recoverscope K b = Some b' \<Longrightarrow> length b' = length b"
    "msg_hdrlen (rt_headers K) 2 w = 152" "msg_hdrlen (rt_headers K) 4 w = 152"
    "rnh_matchaddr K fib c k = Some rt \<Longrightarrow> rt_ok rt" "rnh_lookup K fib c d k = Some rt \<Longrightarrow> rt_ok rt"
    "rib_act K fib t r info ifs m k = (0, rc, info', k') \<Longrightarrow> rt_ok (rc_rt rc)"
    "rib_act K fib t r info ifs m k = (err, rc, info', k') \<Longrightarrow> addrs_in B (sa_zero K) info \<Longrightarrow> addrs_in B (sa_zero K) info'"
  by (insert assms, unfold rt_safe_def rt_kernel_ok_def, elim conjE; metis)+

lemma rt_safe_header: "rt_safe K S rtm len B \<Longrightarrow> i < 152 \<Longrightarrow> rtm + i \<notin> own K B"
  unfolding rt_safe_def by (auto simp: disjoint_iff)

lemma header_keeps_zero:
  assumes "rt_safe K S rtm len B" "changes {rtm..<rtm + 152} m m'"
  shows "zero_ok (sa_zero K) m' = zero_ok (sa_zero K) m"
  by (rule zero_ok_changes [OF assms(2)]) (use assms(1) in \<open>auto simp: rt_safe_def own_def\<close>)

text \<open>The request does not ask for an announcement, or the masked copy of an interface's address, which goes to \<open>laddr\<close>, fits there: the
  addresses announced are IPv4.\<close>

definition announce_fits :: "'k rt_kernel \<Rightarrow> nat \<Rightarrow> mem \<Rightarrow> bool" where
  "announce_fits K rtm m \<longleftrightarrow> ld32 m (rtm + 8) AND RTF_ANNOUNCE = 0 \<or> (\<forall>a b. length (rt_maskedcopy K a b) \<le> 16)"

lemma announce_fits_changes:
  assumes "changes W m m'" "W \<inter> {rtm + 8..<rtm + 12} = {}"
  shows "announce_fits K rtm m' = announce_fits K rtm m"
proof -
  have "m' (rtm + 8 + i) = m (rtm + 8 + i)" if "i < 4" for i
  proof -
    have "rtm + 8 + i \<in> {rtm + 8..<rtm + 12}" using that by simp
    then have "rtm + 8 + i \<notin> W" using assms(2) by blast
    then show ?thesis using assms(1) unfolding changes_def by blast
  qed
  then have "ld32 m' (rtm + 8) = ld32 m (rtm + 8)" by (intro ld32_cong) (metis atLeastLessThan_iff le_iff_add nat_add_left_cancel_less)
  then show ?thesis by (simp add: announce_fits_def)
qed

section \<open>The steps\<close>

lemma fill_addrinfo_changes:
  assumes "rt_safe K S rtm len B" "zero_ok (sa_zero K) m" "fill_addrinfo K rtm len fib k m = (err, info', m')"
  shows "changes (own K B \<union> {rtm + 16..<rtm + 20}) m m' \<and> addrs_in B (sa_zero K) info' \<and> zero_ok (sa_zero K) m'"
proof -
  let ?W = "own K B \<union> {rtm + 16..<rtm + 20}"
  let ?m = "st32 (rtm + 16) (p_pid K) m"
  let ?info = "\<lparr>rti_addrs = ld32 ?m (rtm + 12), rti_flags = 0, rti_info = (\<lambda>_. None)\<rparr>"
  have "changes {rtm..<rtm + 152} m ?m" by (rule changes_stores) simp
  then have z0: "zero_ok (sa_zero K) ?m" using header_keeps_zero [OF assms(1)] assms(2) by blast
  obtain e1 i1 m1 where x: "rt_xaddrs (embedscope K) (sa_zero K) (rtm + SIZEOF_RTM) (rtm + len) ?info ?m = (e1, i1, m1)" by (metis prod_cases3)
  have a1: "changes B ?m m1" "addrs_in B (sa_zero K) i1"
    using rt_xaddrs_addrs [OF rt_safe_kernel(1) [OF assms(1)] _ x] rt_safe_areas(1) [OF assms(1)] by simp_all
  have m1: "moves B (sa_zero K) ?m m1" by (rule moves_changes [OF a1(1) rt_safe_areas(7) [OF assms(1)]])
  let ?i1 = "i1\<lparr>rti_flags := ld32 m1 (rtm + 8)\<rparr>"
  obtain e2 i2 m2 where c: "cleanup_xaddrs ?i1 m1 = (e2, i2, m2)" by (metis prod_cases3)
  have a2: "moves B (sa_zero K) m1 m2" "addrs_in B (sa_zero K) i2"
    using cleanup_xaddrs_moves [OF _ rt_safe_areas(7) [OF assms(1)] moves_zero [OF m1 z0] c] a1(2) by (simp_all add: addrs_in_update)
  have lg: "addrs_in B (sa_zero K) (local_gateway K fib k i2 m2)" using a2(2) by (simp add: addrs_in_def local_gateway_def split: option.splits)
  have "(m' = m1 \<or> m' = m2) \<and> (info' = i1 \<or> info' = i2 \<or> info' = local_gateway K fib k i2 m2)"
    using assms(3) x c by (auto simp: fill_addrinfo_def Let_def split: if_splits)
  moreover have "changes ?W m ?m" by (rule changes_stores) auto
  moreover have "changes ?W ?m m1" "changes ?W m1 m2"
    using m1 a2(1) by (auto simp: moves_def own_def intro: changes_mono)
  moreover have "zero_ok (sa_zero K) m1" "zero_ok (sa_zero K) m2" using moves_zero m1 a2(1) z0 by blast+
  ultimately show ?thesis using a1(2) a2(2) lg changes_trans [of ?W] by blast
qed

lemma fill_blackholeinfo_changes:
  assumes "rt_safe K S rtm len B" "addrs_in B (sa_zero K) info" "fill_blackholeinfo K S info saf m = (err, info', ifs, m')"
  shows "changes B m m' \<and> addrs_in B (sa_zero K) info'"
proof -
  let ?m = "mwrite (gw_saun S) (replicate 28 0) m"
  have g: "{gw_saun S..<gw_saun S + 28} \<subseteq> B" by (rule rt_safe_areas(5) [OF assms(1)])
  then have c: "changes B m ?m" by (intro changes_stores) simp
  have "changes B ?m (fill_sockaddr_inet (gw_saun S) [127, 0, 0, 1] ?m)"
    "changes B ?m (fill_sockaddr_inet6 (gw_saun S) (replicate 15 0 @ [1]) [0, 0, 0, 0] ?m)" using g by (intro fill_changes; simp)+
  then have c': "changes B m (fill_sockaddr_inet (gw_saun S) [127, 0, 0, 1] ?m)"
    "changes B m (fill_sockaddr_inet6 (gw_saun S) (replicate 15 0 @ [1]) [0, 0, 0, 0] ?m)" using c changes_trans by blast+
  have "addrs_in B (sa_zero K) (info\<lparr>rti_info := (rti_info info)(RTAX_GATEWAY \<mapsto> gw_saun S), rti_flags := rti_flags info OR RTF_GATEWAY\<rparr>)"
    using assms(2) g by (simp add: addrs_in_update)
  then show ?thesis
    using assms(2,3) c c' unfolding fill_blackholeinfo_def Let_def by (auto split: option.splits if_splits)
qed

lemma announce_addr_changes:
  assumes "rt_safe K S rtm len B" "\<forall>a b. length (rt_maskedcopy K a b) \<le> 16"
  shows "changes B m (announce_addr K S dst nh k m)"
proof -
  have "changes B m (mwrite (laddr S) (rt_maskedcopy K (sockaddr_at m x) y) m)" for x y
  proof (rule changes_stores(1))
    have "length (rt_maskedcopy K (sockaddr_at m x) y) \<le> 16" using assms(2) by blast
    then show "{laddr S..<laddr S + length (rt_maskedcopy K (sockaddr_at m x) y)} \<subseteq> B" using rt_safe_areas(6) [OF assms(1)] by fastforce
  qed
  then show ?thesis by (auto simp: announce_addr_def Let_def split: option.splits)
qed

lemma handle_rtm_get_changes:
  assumes "rt_safe K S rtm len B" "announce_fits K rtm m" "handle_rtm_get K S info dst fib rtm k m = (r, m')"
  shows "changes B m m' \<and> (\<forall>rc. r = Inr rc \<longrightarrow> rt_ok (rc_rt rc))"
  using assms(2,3) announce_addr_changes [OF assms(1), of m dst _ k] rt_safe_kernel(5,6) [OF assms(1)]
  unfolding handle_rtm_get_def Let_def announce_fits_def by (auto split: if_splits option.splits)

section \<open>Replies\<close>

lemma msg_addrs_len:
  assumes "msg_addrs recover stale i cp buflen len info m = (cp', buflen', len', info', m')" "cp' \<noteq> None"
  shows "len' + buflen' = len + buflen"
  using assms
proof (induction "RTAX_MAX - i" arbitrary: i cp buflen len info m)
  case 0
  then show ?case by (simp add: msg_addrs.simps [of recover stale i])
next
  case (Suc n)
  then have i: "i < RTAX_MAX" and n: "n = RTAX_MAX - (i + 1)" by simp_all
  note r = Suc.prems(1) [unfolded msg_addrs.simps [of recover stale i cp]]
  have none: False if "msg_addrs recover stale (i + 1) None b l inf x = (cp', buflen', len', info', m')" for b l inf x
    using msg_addrs_bounds [OF that] Suc.prems(2) by simp
  show ?case
  proof (cases "rti_info info i")
    case None
    then show ?thesis using r i Suc.hyps(1) [OF n _ Suc.prems(2), of cp buflen len info m] by simp
  next
    case (Some sa)
    then show ?thesis
      using r i Suc.hyps(1) [OF n _ Suc.prems(2)] none by (fastforce simp: Let_def split: option.splits if_splits)
  qed
qed

lemma ld16_mwrite_int: "ld16 (mwrite p (word_of_int l # word_of_int (l div 256) # bs) m) p = word_of_int l"
proof -
  have "l div 256 = drop_bit 8 l" by (simp add: drop_bit_int_def)
  then show ?thesis
    by (intro bit_word_eqI) (auto simp: ld16_def mwrite_def bit_simps not_less not_le)
qed

text \<open>The length in the header of a reply is within the buffer, or was not written.\<close>

lemma rtsock_msglen:
  assumes "4 \<le> msg_hdrlen H type (Some oper)"
    and "rtsock_msg_buffer H recover stale type info (Some (tmem, bufsize, oper)) m = (err, len, info', m')"
  shows "int (unat (ld16 m' tmem)) \<le> bufsize \<or> ld16 m' tmem = ld16 m tmem"
proof -
  let ?h = "msg_hdrlen H type (Some oper)"
  obtain cp1 buflen1 len1 info1 m1 where a: "msg_addrs recover stale 0 (Some (tmem + nat ?h)) (bufsize - ?h) ?h (info\<lparr>rti_addrs := 0\<rparr>) m =
      (cp1, buflen1, len1, info1, m1)" by (metis prod_cases5)
  have "\<forall>a. m1 a \<noteq> m a \<longrightarrow> tmem + nat ?h \<le> a" "?h \<le> len1" using msg_addrs_bounds [OF a] by auto
  then have keep: "ld16 m1 tmem = ld16 m tmem" using assms(1) changes_ld16 [of "{tmem + nat ?h..}" m m1 tmem] by (auto simp: changes_def)
  show ?thesis
  proof (cases "cp1 \<noteq> None \<and> \<not> buflen1 < ALIGN len1 - len1")
    case True
    have al: "len1 \<le> ALIGN len1" unfolding ALIGN_def by presburger
    have "len1 + buflen1 = bufsize" using msg_addrs_len [OF a] True by simp
    then have "ALIGN len1 \<le> bufsize" using True by linarith
    moreover have "ld16 m' tmem = word_of_int (ALIGN len1)"
      using assms(2) a True by (auto simp: rtsock_msg_buffer_def Let_def ld16_mwrite_int split: option.splits)
    moreover have "int (unat (word_of_int l :: u16)) \<le> l" if "0 \<le> l" for l
      using that by (simp add: unsigned_of_int take_bit_int_eq_self_iff take_bit_int_less_eq_self_iff)
    moreover have "0 \<le> ALIGN len1" using al assms(1) \<open>?h \<le> len1\<close> by linarith
    ultimately show ?thesis by (metis order_trans)
  next
    case False
    then have "m' = m1" using assms(2) a by (auto simp: rtsock_msg_buffer_def Let_def split: option.splits if_splits)
    then show ?thesis using keep by simp
  qed
qed

lemma area_sub: "{q..<q + n} \<subseteq> A \<Longrightarrow> i + l \<le> n \<Longrightarrow> {q + i..<q + i + l} \<subseteq> (A :: nat set)"
  by (rule subset_trans [of _ "{q..<q + n}"]) auto

lemma export_changes:
  assumes "rt_safe K S rtm len B" "rt_ok rt"
  shows "changes B m (export_rtaddrs rt (sa_dst S) (sa_mask S) (init_sockaddrs_family fam (sa_dst S) (sa_mask S) m))"
proof -
  let ?m = "init_sockaddrs_family fam (sa_dst S) (sa_mask S) m"
  note d = rt_safe_areas(2) [OF assms(1)] and k = rt_safe_areas(3) [OF assms(1)]
  have "changes B m ?m"
    unfolding init_sockaddrs_family_def using d k by (simp add: fill_steps)
  moreover obtain a pm s where p: "rt_prefix rt = (a, pm, s)" "length a \<le> 16" "length pm \<le> 16" "length s \<le> 4"
    using assms(2) unfolding rt_ok_def by (cases "rt_prefix rt") auto
  have "changes B x (export_rtaddrs rt (sa_dst S) (sa_mask S) x)" for x
    unfolding export_rtaddrs_def p(1) prod.case using p(2-4)
    by (auto intro!: changes_steps(1) area_sub [OF d] area_sub [OF k])
  ultimately show ?thesis using changes_trans by blast
qed

lemma rtm_get_jailed_simp: "rtm_get_jailed K S info fam ifp nh m = (0, info\<lparr>rti_info := (rti_info info)(RTAX_IFA \<mapsto> ifa_addr (nh_ifa nh))\<rparr>, m)"
  by (simp add: rtm_get_jailed_def prison_if_def)

lemma export_ifp_changes:
  assumes "export_ifp K S info rtm nh m = (err, info', m')"
  shows "err = 0 \<and> changes {rtm + 4..<rtm + 6} m m'"
  using assms by (auto simp: export_ifp_def rtm_get_jailed_simp split: if_splits option.splits intro!: changes_stores)

lemma finish_rtm_changes: "changes {rtm + 4..<rtm + 152} m (finish_rtm K rc nh u rtm m)"
  unfolding finish_rtm_def rt_getmetrics_def Let_def by (intro changes_steps changes_refl) auto

text \<open>The memory of a second buffer.\<close>

definition tmp_area :: "'k rt_kernel \<Rightarrow> u32 \<Rightarrow> nat set" where
  "tmp_area K maxlen = {a. \<exists>l tmp. rt_realloc K l = Some tmp \<and> l \<le> uint maxlen \<and> tmp \<le> a \<and> int a < int tmp + l}"

lemma rtsock_changes:
  assumes "4 \<le> msg_hdrlen H type (Some oper)"
    and "rtsock_msg_buffer H recover stale type info (Some (tmem, bufsize, oper)) m = (err, len, info', m')"
  shows "changes {a. tmem \<le> a \<and> int a < int tmem + bufsize} m m'"
  using rtsock_writes_in_buffer [OF assms] by (simp add: changes_def)

lemma update_rtm_bounds:
  assumes "rt_safe K S rtm len B" "rt_ok (rc_rt rc)" "152 \<le> alloc_len" "m (rtm + 3) \<in> {2, 4}" "152 \<le> unat (ld16 m rtm)" "int (unat (ld16 m rtm)) \<le> alloc_len"
    and "update_rtm_from_rc K S info dst rtm alloc_len rc nh maxlen m = (err, rtm', m')"
  defines "W \<equiv> own K B \<union> {rtm..<rtm + nat alloc_len} \<union> tmp_area K maxlen"
  shows "changes W m m' \<and> int (unat (ld16 m' rtm')) \<le> max alloc_len (uint maxlen) \<and> {rtm'..<rtm' + 152} \<subseteq> W"
proof -
  define m1 where "m1 = export_rtaddrs (rc_rt rc) (sa_dst S) (sa_mask S) (init_sockaddrs_family (m (dst + 1)) (sa_dst S) (sa_mask S) m)"
  define info1 where "info1 = info\<lparr>rti_info := (rti_info info)(RTAX_DST \<mapsto> sa_dst S,
      RTAX_NETMASK := (if rt_is_host (rc_rt rc) then None else Some (sa_mask S)), RTAX_GATEWAY \<mapsto> gw_sa nh, RTAX_GENMASK := None)\<rparr>"
  obtain e2 info2 m2 where x: "export_ifp K S info1 rtm nh m1 = (e2, info2, m2)" by (metis prod_cases3)
  have c1: "changes B m m1" unfolding m1_def by (rule export_changes [OF assms(1,2)])
  have c2: "e2 = 0" "changes {rtm + 4..<rtm + 6} m1 m2" using export_ifp_changes [OF x] by auto
  have r1: "{rtm..<rtm + 152} \<subseteq> W" and w: "B \<subseteq> W" "{rtm + 4..<rtm + 6} \<subseteq> W" using assms(3) by (auto simp: W_def own_def)
  have c12: "changes W m m2" by (rule changes_trans [OF changes_mono [OF c1 w(1)] changes_mono [OF c2(2) w(2)]])
  have h: "m2 (rtm + i) = m (rtm + i)" if "i < 4" for i
  proof -
    have "rtm + i \<notin> B" "rtm + i \<notin> {rtm + 4..<rtm + 6}" using rt_safe_header [OF assms(1), of i] that by (simp_all add: own_def)
    then show ?thesis using c1 c2(2) unfolding changes_def by metis
  qed
  have ty: "m2 (rtm + 3) \<in> {2, 4}" and l2: "ld16 m2 rtm = ld16 m rtm"
    using assms(4) h [of 0] h [of 1] h [of 3] by (auto simp: ld16_def)
  have hdr: "msg_hdrlen (rt_headers K) (uint t) w = 152" if "t \<in> {2, 4}" for t :: u8 and w
    using that rt_safe_kernel(3,4) [OF assms(1)] by auto
  define l where "l = fst (snd (rtsock_msg_buffer (rt_headers K) (recoverscope K) (stale_ss K) (uint (m2 (rtm + 3))) info2 None m2))"
  define ab where "ab = (if l > alloc_len then map_option (\<lambda>tmp. (tmp, bcopy rtm tmp (unat (ld16 m2 rtm)) m2, l)) (rt_realloc K l) else Some (rtm, m2, alloc_len))"
  have u: "(err, rtm', m') = (if l > uint maxlen then (55, rtm, m2) else case ab of None \<Rightarrow> (55, rtm, m2) | Some (rtm, m, al) \<Rightarrow>
      (case rtsock_msg_buffer (rt_headers K) (recoverscope K) (stale_ss K) (uint (m (rtm + 3))) info2 (Some (rtm, al, w_op S)) m of
         (_, _, info, m) \<Rightarrow> (0, rtm, finish_rtm K rc nh (rti_addrs info) rtm m)))"
    unfolding assms(7) [symmetric] update_rtm_from_rc_def Let_def m1_def [symmetric] info1_def [symmetric] x prod.case c2(1) ab_def l_def by simp
  consider "rtm' = rtm" "m' = m2" | rtm1 m3 al info4 m4 where
      "(rtm1, m3, al) = (rtm, m2, alloc_len) \<or> l \<le> uint maxlen \<and> alloc_len < l \<and> rt_realloc K l = Some rtm1 \<and> m3 = bcopy rtm rtm1 (unat (ld16 m2 rtm)) m2 \<and> al = l"
      "rtm' = rtm1" "\<exists>e n. rtsock_msg_buffer (rt_headers K) (recoverscope K) (stale_ss K) (uint (m3 (rtm1 + 3))) info2 (Some (rtm1, al, w_op S)) m3 = (e, n, info4, m4)"
      "m' = finish_rtm K rc nh (rti_addrs info4) rtm1 m4"
  proof (cases "l > uint maxlen \<or> ab = None")
    case True
    then have "(err, rtm', m') = (55, rtm, m2)" using u by (auto split: if_splits)
    then show ?thesis using that(1) by simp
  next
    case False
    then obtain rtm1 m3 al where ab: "ab = Some (rtm1, m3, al)" by auto
    obtain e n info4 m4 where r: "rtsock_msg_buffer (rt_headers K) (recoverscope K) (stale_ss K) (uint (m3 (rtm1 + 3))) info2 (Some (rtm1, al, w_op S)) m3 = (e, n, info4, m4)"
      by (metis prod_cases4)
    have "(rtm1, m3, al) = (rtm, m2, alloc_len) \<or> l \<le> uint maxlen \<and> alloc_len < l \<and> rt_realloc K l = Some rtm1 \<and> m3 = bcopy rtm rtm1 (unat (ld16 m2 rtm)) m2 \<and> al = l"
      using ab False by (auto simp: ab_def split: if_splits)
    then show ?thesis using that(2) u False ab r by auto
  qed
  then show ?thesis
  proof cases
    case 1
    then show ?thesis using c12 l2 assms(6) r1 by auto
  next
    case 2
    have n: "unat (ld16 m2 rtm) \<le> nat alloc_len" "152 \<le> unat (ld16 m2 rtm)" "int (unat (ld16 m2 rtm)) \<le> alloc_len" unfolding l2 using assms(5,6) by linarith+
    have "changes W m2 m3 \<and> m3 (rtm1 + 3) \<in> {2, 4} \<and> int (unat (ld16 m3 rtm1)) \<le> alloc_len \<and> {a. rtm1 \<le> a \<and> int a < int rtm1 + al} \<subseteq> W \<and>
        152 \<le> al \<and> al \<le> max alloc_len (uint maxlen)"
    proof (cases "(rtm1, m3, al) = (rtm, m2, alloc_len)")
      case True
      then show ?thesis using ty n assms(3) by (auto simp: W_def)
    next
      case False
      then have a: "l \<le> uint maxlen \<and> alloc_len < l \<and> rt_realloc K l = Some rtm1 \<and> m3 = bcopy rtm rtm1 (unat (ld16 m2 rtm)) m2 \<and> al = l" using 2(1) by blast
      then have sub: "{a. rtm1 \<le> a \<and> int a < int rtm1 + al} \<subseteq> W" by (auto simp: W_def tmp_area_def)
      have b: "m3 (rtm1 + i) = m2 (rtm + i)" if "i < 152" for i using a n(2) that by (simp add: bcopy_def)
      have "{rtm1..<rtm1 + unat (ld16 m2 rtm)} \<subseteq> W" using a n(1) by (intro subset_trans [OF _ sub]) auto
      then have "changes W m2 m3" using a by (auto intro: changes_stores)
      moreover have "ld16 m3 rtm1 = ld16 m2 rtm" "m3 (rtm1 + 3) \<in> {2, 4}" using b [of 0] b [of 1] b [of 3] ty by (simp_all add: ld16_def)
      ultimately show ?thesis using sub a assms(3) n(3) by simp
    qed
    then have s: "changes W m2 m3" "m3 (rtm1 + 3) \<in> {2, 4}" "int (unat (ld16 m3 rtm1)) \<le> alloc_len" "{a. rtm1 \<le> a \<and> int a < int rtm1 + al} \<subseteq> W"
        "152 \<le> al" "al \<le> max alloc_len (uint maxlen)" by blast+
    obtain e n' where rb: "rtsock_msg_buffer (rt_headers K) (recoverscope K) (stale_ss K) (uint (m3 (rtm1 + 3))) info2 (Some (rtm1, al, w_op S)) m3 = (e, n', info4, m4)"
      using 2(3) by blast
    have h4: "4 \<le> msg_hdrlen (rt_headers K) (uint (m3 (rtm1 + 3))) (Some (w_op S))" using hdr [OF s(2)] by simp
    have c4: "changes W m3 m4" by (rule changes_mono [OF rtsock_changes [OF h4 rb] s(4)])
    have sub: "{rtm1..<rtm1 + 152} \<subseteq> W" using s(4,5) by (intro subset_trans [OF _ s(4)]) auto
    have f: "changes {rtm1 + 4..<rtm1 + 152} m4 m'" unfolding 2(4) by (rule finish_rtm_changes)
    have c5: "changes W m4 m'" by (rule changes_mono [OF f]) (use sub in auto)
    have "ld16 m' rtm1 = ld16 m4 rtm1" using changes_ld16 [OF f] by simp
    then have "int (unat (ld16 m' rtm1)) \<le> max alloc_len (uint maxlen)" using rtsock_msglen [OF h4 rb] s(3,6) by auto
    then show ?thesis using c12 s(1) c4 c5 sub 2(2) changes_trans [of W] by blast
  qed
qed

section \<open>The whole call\<close>

text \<open>An answer is at most \<open>n\<close> bytes long, and only \<open>W\<close> and that many bytes of the caller's buffer have changed.\<close>

definition fits :: "nat set \<Rightarrow> nat \<Rightarrow> nat \<Rightarrow> mem \<Rightarrow> (int \<times> u32 \<times> mem \<times> 'k \<times> errno_tls) kresult \<Rightarrow> bool" where
  "fits W data n m r \<longleftrightarrow> (\<forall>x plen' m' k' tls'. r = Inr (x, plen', m', k', tls') \<longrightarrow> unat plen' \<le> n \<and> changes (W \<union> {data..<data + n}) m m')"

lemma fits_Inl [simp]: "fits W data n m (Inl e)"
  by (simp add: fits_def)

lemma fits_trans: "changes W m m1 \<Longrightarrow> fits W data n m1 r \<Longrightarrow> fits W data n m r"
  unfolding fits_def by (blast intro: changes_trans [OF changes_mono [OF _ Un_upper1]])

lemma deembed_changes:
  assumes "rt_safe K S rtm len B" "addrs_in B (sa_zero K) info" "zero_ok (sa_zero K) m"
  shows "changes B m (fold (deembed_one K info) is m)"
  using assms(3)
proof (induction "is" arbitrary: m)
  case (Cons i "is")
  have "changes B m (mwrite sa b m)"
    if "rti_info info i = Some sa" "m (sa + 1) = F_INET6" "recoverscope K (mread m sa 28) = Some b" for sa b
  proof -
    have "sa \<noteq> sa_zero K" using that(2) Cons.prems by (auto simp: zero_ok_def)
    then have "{sa..<sa + 28} \<subseteq> B" using addrs_inD [OF assms(2) that(1)] by blast
    then show ?thesis using rt_safe_kernel(2) [OF assms(1) that(3)] by (intro changes_stores) simp
  qed
  then have c: "changes B m (deembed_one K info i m)" by (auto simp: deembed_one_def split: option.splits)
  then have "zero_ok (sa_zero K) (deembed_one K info i m)"
    using zero_ok_changes [OF c rt_safe_areas(7) [OF assms(1)]] Cons.prems by blast
  then show ?case using Cons.IH changes_trans [OF c] by simp
qed simp

lemma rt_flush_fits:
  assumes "deembed \<Longrightarrow> rt_safe K S rtm len B \<and> addrs_in B (sa_zero K) info \<and> zero_ok (sa_zero K) m" "own K B \<subseteq> W"
    and "{rtm..<rtm + 152} \<subseteq> W" "unat (ld16 m rtm) \<le> n"
  shows "fits W data n m (Inr (rt_flush K data plen err (Some rtm) info deembed (m, k, tls)))"
proof -
  define m1 where "m1 = (if deembed then fold (deembed_one K info) [0..<RTAX_MAX] m else m)"
  define m2 where "m2 = (if err \<noteq> 0 then st32 (rtm + 24) (word_of_int err) m1 else st32 (rtm + 8) (ld32 m1 (rtm + 8) OR RTF_DONE) m1)"
  have r: "\<exists>x tls'. rt_flush K data plen err (Some rtm) info deembed (m, k, tls) = (x, ucast (ld16 m2 rtm), bcopy rtm data (unat (ld16 m2 rtm)) m2, k, tls')"
    unfolding rt_flush_def Let_def option.case prod.case m1_def [symmetric] m2_def [symmetric] by simp
  have c1: "changes B m m1" using deembed_changes assms(1) by (auto simp: m1_def)
  have B: "B \<subseteq> W" using assms(2) by (simp add: own_def)
  have h: "{rtm + 8..<rtm + 28} \<subseteq> W" using assms(3) by (rule subset_trans [rotated]) auto
  have c2: "changes {rtm + 8..<rtm + 28} m1 m2" unfolding m2_def by (auto intro!: changes_stores)
  have "ld16 m1 rtm = ld16 m rtm"
    using assms(1) changes_ld16 [OF c1] rt_safe_header [of K S rtm len B 0] rt_safe_header [of K S rtm len B 1]
    by (cases deembed) (auto simp: m1_def own_def)
  moreover have "ld16 m2 rtm = ld16 m1 rtm" using changes_ld16 [OF c2] by simp
  ultimately have l: "unat (ld16 m2 rtm) \<le> n" using assms(4) by simp
  have "changes (W \<union> {data..<data + n}) m m2"
    using changes_trans [OF changes_mono [OF c1, of "W \<union> {data..<data + n}"] changes_mono [OF c2]] B h by blast
  moreover have "changes (W \<union> {data..<data + n}) m2 (bcopy rtm data (unat (ld16 m2 rtm)) m2)" using l by (intro changes_stores) auto
  ultimately have "changes (W \<union> {data..<data + n}) m (bcopy rtm data (unat (ld16 m2 rtm)) m2)" by (rule changes_trans)
  moreover have "unat (ucast (ld16 m2 rtm) :: u32) = unat (ld16 m2 rtm)" by (rule unat_ucast_up) simp
  ultimately show ?thesis using r l by (auto simp: fits_def)
qed

lemma can_export_rte_simp [simp]: "can_export_rte h d"
  by (simp add: can_export_rte_def jailed_without_vnet_def prison_if_def)

lemma rt_report_fits:
  assumes "rt_safe K S rtm len B" "rt_ok (rc_rt rc)" "152 \<le> alloc_len" "m (rtm + 3) \<in> {2, 4}" "152 \<le> unat (ld16 m rtm)" "int (unat (ld16 m rtm)) \<le> alloc_len"
  shows "fits (own K B \<union> {rtm..<rtm + nat alloc_len} \<union> tmp_area K maxlen) data (nat (max alloc_len (uint maxlen))) m
    (rt_report K S data plen maxlen rtm alloc_len info dst rc nh (m, k, tls))"
proof (cases nh)
  case (Some nh')
  let ?W = "own K B \<union> {rtm..<rtm + nat alloc_len} \<union> tmp_area K maxlen"
  obtain err rtm' m' where u: "update_rtm_from_rc K S info dst rtm alloc_len rc nh' maxlen m = (err, rtm', m')" by (metis prod_cases3)
  from update_rtm_bounds [OF assms u] have b: "changes ?W m m'" "unat (ld16 m' rtm') \<le> nat (max alloc_len (uint maxlen))" "{rtm'..<rtm' + 152} \<subseteq> ?W"
    by (blast, linarith, blast)
  have "fits ?W data (nat (max alloc_len (uint maxlen))) m' (Inr (rt_flush K data plen err (Some rtm') info False (m', k, tls)))"
    by (rule rt_flush_fits [OF _ _ b(3,2), where B = B]) auto
  then have "fits ?W data (nat (max alloc_len (uint maxlen))) m (Inr (rt_flush K data plen err (Some rtm') info False (m', k, tls)))"
    by (rule fits_trans [OF b(1)])
  then show ?thesis using u Some by (simp add: rt_report_def)
qed (simp add: rt_report_def)

text \<open>The state between the steps: the header still has the type and the length it was checked for.\<close>

definition at_header :: "nat \<Rightarrow> nat \<Rightarrow> int \<Rightarrow> mem \<Rightarrow> bool" where
  "at_header rtm len alloc_len m \<longleftrightarrow> unat (ld16 m rtm) = len \<and> 152 \<le> len \<and> int len \<le> alloc_len"

lemma at_header_changes:
  assumes "at_header rtm len alloc_len m" "rt_safe K S rtm len B" "changes (own K B \<union> {rtm + 4..<rtm + 152}) m m'"
  shows "at_header rtm len alloc_len m'" "m' (rtm + 3) = m (rtm + 3)"
proof -
  have n: "rtm + i \<notin> own K B \<union> {rtm + 4..<rtm + 152}" if "i < 4" for i using rt_safe_header [OF assms(2), of i] that by simp
  show "m' (rtm + 3) = m (rtm + 3)" using assms(3) n [of 3] unfolding changes_def by auto
  have "ld16 m' rtm = ld16 m rtm" using changes_ld16 [OF assms(3)] n [of 0] n [of 1] by simp
  then show "at_header rtm len alloc_len m'" using assms(1) by (simp add: at_header_def)
qed

lemma rt_dispatch_fits:
  assumes "rt_safe K S rtm len B" "addrs_in B (sa_zero K) info" "at_header rtm len alloc_len m" "zero_ok (sa_zero K) m" "announce_fits K rtm m"
  shows "fits (own K B \<union> {rtm..<rtm + nat alloc_len} \<union> tmp_area K maxlen) data (nat (max alloc_len (uint maxlen))) m
    (rt_dispatch K S fib data plen maxlen rtm alloc_len info dst ifs (m, k, tls))"
proof -
  let ?W = "own K B \<union> {rtm..<rtm + nat alloc_len} \<union> tmp_area K maxlen" and ?n = "nat (max alloc_len (uint maxlen))"
  have al: "152 \<le> alloc_len" "unat (ld16 m rtm) \<le> ?n" "152 \<le> unat (ld16 m rtm)" "int (unat (ld16 m rtm)) \<le> alloc_len"
    using assms(3) unfolding at_header_def by linarith+
  have W: "own K B \<subseteq> ?W" "{rtm..<rtm + 152} \<subseteq> ?W" "{rtm + 4..<rtm + 152} \<subseteq> ?W" using al(1) by auto
  have fl: "fits ?W data ?n m (Inr (rt_flush K data plen err (Some rtm) info' b (m, k', tls)))" if "b \<Longrightarrow> addrs_in B (sa_zero K) info'" for err info' b k'
    by (rule rt_flush_fits [OF _ W(1,2) al(2)]) (use that assms(1,4) in blast)
  let ?t = "m (rtm + 3)"
  consider (add) "?t = RTM_ADD \<or> ?t = RTM_CHANGE" | (del) "?t = RTM_DELETE" | (get) "?t = RTM_GET"
    | (other) "?t \<noteq> RTM_ADD" "?t \<noteq> RTM_CHANGE" "?t \<noteq> RTM_DELETE" "?t \<noteq> RTM_GET" by blast
  then show ?thesis
  proof cases
    case add
    obtain err rc info' k' where r: "rib_act K fib ?t rtm info ifs m k = (err, rc, info', k')" by (metis prod_cases4)
    have a: "addrs_in B (sa_zero K) info'" by (rule rt_safe_kernel(8) [OF assms(1) r assms(2)])
    have "fits ?W data ?n m (Inr (rt_flush K data plen 0 (Some rtm) info' True (st32 (rtm + 8) f (st16 (rtm + 4) x m), k', tls)))" for f x
    proof -
      let ?m = "st32 (rtm + 8) f (st16 (rtm + 4) x m)"
      have c: "changes (own K B \<union> {rtm + 4..<rtm + 152}) m ?m" by (intro changes_steps changes_refl) auto
      have "changes {rtm..<rtm + 152} m ?m" by (intro changes_steps changes_refl) auto
      then have z: "zero_ok (sa_zero K) ?m" using header_keeps_zero [OF assms(1)] assms(4) by blast
      have "unat (ld16 ?m rtm) \<le> ?n" using at_header_changes(1) [OF assms(3,1) c] unfolding at_header_def by linarith
      then have "fits ?W data ?n ?m (Inr (rt_flush K data plen 0 (Some rtm) info' True (?m, k', tls)))"
        by (rule rt_flush_fits [OF _ W(1,2), rotated]) (use assms(1) a z in blast)
      then show ?thesis by (rule fits_trans [rotated]) (rule changes_mono [OF c], use W in blast)
    qed
    then show ?thesis using add r fl [of False] by (auto simp: rt_dispatch_def Let_def split: option.splits)
  next
    case del
    obtain err rc info' k' where r: "rib_act K fib RTM_DELETE rtm info ifs m k = (err, rc, info', k')" by (metis prod_cases4)
    have a: "addrs_in B (sa_zero K) info'" by (rule rt_safe_kernel(8) [OF assms(1) r assms(2)])
    have "rt_ok (rc_rt rc)" if "err = 0" using rt_safe_kernel(7) [OF assms(1)] r that by blast
    then have "fits ?W data ?n m (rt_report K S data plen maxlen rtm alloc_len info' d rc nh (m, k', tls))" if "err = 0" for d nh
      using rt_report_fits [OF assms(1) _ al(1) _ al(3,4)] that del by simp
    then show ?thesis using del r fl [of True info'] a by (auto simp: rt_dispatch_def Let_def split: option.splits)
  next
    case get
    obtain r m1 where h: "handle_rtm_get K S info dst fib rtm k m = (r, m1)" by fastforce
    from handle_rtm_get_changes [OF assms(1,5) h] have c: "changes B m m1" "\<And>rc. r = Inr rc \<Longrightarrow> rt_ok (rc_rt rc)" by auto
    have c': "changes (own K B \<union> {rtm + 4..<rtm + 152}) m m1" by (rule changes_mono [OF c(1)]) (auto simp: own_def)
    note hd = at_header_changes [OF assms(3,1) c']
    have al1: "unat (ld16 m1 rtm) \<le> ?n" "152 \<le> unat (ld16 m1 rtm)" "int (unat (ld16 m1 rtm)) \<le> alloc_len"
      using hd(1) unfolding at_header_def by linarith+
    have "fits ?W data ?n m1 (case r of Inl err \<Rightarrow> Inr (rt_flush K data plen err (Some rtm) info False (m1, k, tls))
        | Inr rc \<Rightarrow> rt_report K S data plen maxlen rtm alloc_len info dst rc (rc_nh_new rc) (m1, k, tls))"
    proof (cases r)
      case (Inl err)
      then show ?thesis using rt_flush_fits [OF _ W(1,2) al1(1), of False] by simp
    next
      case (Inr rc)
      then show ?thesis using rt_report_fits [OF assms(1) c(2) al(1) _ al1(2,3)] hd(2) get by simp
    qed
    then have "fits ?W data ?n m (case r of Inl err \<Rightarrow> Inr (rt_flush K data plen err (Some rtm) info False (m1, k, tls))
        | Inr rc \<Rightarrow> rt_report K S data plen maxlen rtm alloc_len info dst rc (rc_nh_new rc) (m1, k, tls))"
      by (rule fits_trans [OF changes_mono [OF c(1) subset_trans [OF rt_safe_areas(8) [OF assms(1)] W(1)]]])
    then show ?thesis using get h by (cases r) (simp_all add: rt_dispatch_def)
  next
    case other
    then show ?thesis using fl [of False] by (simp add: rt_dispatch_def)
  qed
qed

lemma rt_process_fits:
  assumes "rt_safe K S rtm len B" "at_header rtm len alloc_len m" "zero_ok (sa_zero K) m" "announce_fits K rtm m"
  shows "fits (own K B \<union> {rtm..<rtm + nat alloc_len} \<union> tmp_area K maxlen) data (nat (max alloc_len (uint maxlen))) m
    (rt_process K S fib data plen maxlen rtm alloc_len len (m, k, tls))"
proof -
  let ?W = "own K B \<union> {rtm..<rtm + nat alloc_len} \<union> tmp_area K maxlen" and ?n = "nat (max alloc_len (uint maxlen))"
  obtain err info m1 where f: "fill_addrinfo K rtm len fib k m = (err, info, m1)" by (metis prod_cases3)
  have c: "changes (own K B \<union> {rtm + 16..<rtm + 20}) m m1" and a: "addrs_in B (sa_zero K) info" and z: "zero_ok (sa_zero K) m1"
    using fill_addrinfo_changes [OF assms(1,3) f] by auto
  have "x \<notin> own K B" if "x \<in> {rtm + 8..<rtm + 12}" for x
  proof -
    have "rtm + 8 \<le> x" "x < rtm + 12" using that by simp_all
    then have "x = rtm + (x - rtm)" "x - rtm < 152" by linarith+
    then have "rtm + (x - rtm) \<notin> own K B" by (intro rt_safe_header [OF assms(1)])
    then show ?thesis using \<open>x = rtm + (x - rtm)\<close> by metis
  qed
  then have apart: "own K B \<inter> {rtm + 8..<rtm + 12} = {}" by blast
  have q: "announce_fits K rtm m1"
  proof -
    have "(own K B \<union> {rtm + 16..<rtm + 20}) \<inter> {rtm + 8..<rtm + 12} = {}" using apart by auto
    then show ?thesis using announce_fits_changes [OF c] assms(4) by blast
  qed
  have c': "changes (own K B \<union> {rtm + 4..<rtm + 152}) m m1" by (rule changes_mono [OF c]) auto
  have h: "at_header rtm len alloc_len m1" by (rule at_header_changes(1) [OF assms(2,1) c'])
  have al: "unat (ld16 m1 rtm) \<le> ?n" "152 \<le> alloc_len" using h unfolding at_header_def by linarith+
  have W: "own K B \<subseteq> ?W" "{rtm..<rtm + 152} \<subseteq> ?W" "own K B \<union> {rtm + 4..<rtm + 152} \<subseteq> ?W" using al(2) by auto
  have fl: "fits ?W data ?n m1 (Inr (rt_flush K data plen e (Some rtm) info b (m1, k1, tls)))" for e b k1
    by (rule rt_flush_fits [OF _ W(1,2) al(1)]) (use a z assms(1) in blast)
  have bh: "fits ?W data ?n m1 (if e \<noteq> 0 then Inr (rt_flush K data plen e (Some rtm) i2 False (m2, k, tls))
      else rt_dispatch K S fib data plen maxlen rtm alloc_len i2 dst ifs (m2, k, tls))"
    if "fill_blackholeinfo K S info saf m1 = (e, i2, ifs, m2)" for saf e i2 ifs m2 dst
  proof -
    from fill_blackholeinfo_changes [OF assms(1) a that] have b: "changes B m1 m2" "addrs_in B (sa_zero K) i2" by auto
    have b': "changes (own K B) m1 m2" by (rule changes_mono [OF b(1) rt_safe_areas(8) [OF assms(1)]])
    then have h2: "at_header rtm len alloc_len m2" using at_header_changes(1) [OF h assms(1)] changes_mono by blast
    then have n2: "unat (ld16 m2 rtm) \<le> ?n" unfolding at_header_def by linarith
    have z2: "zero_ok (sa_zero K) m2" using zero_ok_changes [OF b(1) rt_safe_areas(7) [OF assms(1)]] z by blast
    have q2: "announce_fits K rtm m2" using announce_fits_changes [OF b' apart] q by blast
    have "fits ?W data ?n m2 (Inr (rt_flush K data plen e (Some rtm) i2 False (m2, k, tls)))"
      by (rule rt_flush_fits [OF _ W(1,2) n2]) simp
    then have "fits ?W data ?n m2 (if e \<noteq> 0 then Inr (rt_flush K data plen e (Some rtm) i2 False (m2, k, tls))
      else rt_dispatch K S fib data plen maxlen rtm alloc_len i2 dst ifs (m2, k, tls))"
      using rt_dispatch_fits [OF assms(1) b(2) h2 z2 q2] by simp
    then show ?thesis by (rule fits_trans [OF changes_mono [OF b' W(1)]])
  qed
  have "fits ?W data ?n m1 (rt_process K S fib data plen maxlen rtm alloc_len len (m, k, tls))"
    using fl bh rt_dispatch_fits [OF assms(1) a h z q, of maxlen data fib plen]
    unfolding rt_process_def prod.case f Let_def by (auto split: option.splits prod.splits)
  then show ?thesis by (rule fits_trans [OF changes_mono [OF c' W(3)]])
qed

lemma sint_small:
  assumes "unat (x :: u32) < 2 ^ 31"
  shows "sint x = int (unat x)"
proof -
  have "int (unat x) < int (2 ^ 31)" using assms by (simp only: of_nat_less_iff)
  then have "uint x < 2 ^ 31" "- (2 ^ 31) \<le> uint x" using order_trans [of "- (2 ^ 31)" 0 "uint x"] by simp_all
  then have "signed_take_bit 31 (uint x) = uint x" by (rule signed_take_bit_int_eq_self [rotated])
  then show ?thesis by (simp add: sint_uint)
qed

text \<open>The size of the buffer: the length rounded up to a multiple of 1024.\<close>

lemma roundup2_1024:
  assumes "unat plen < 65536"
  shows "sint ((plen + 1023) AND NOT 1023 :: u32) = int (1024 * ((unat plen + 1023) div 1024))"
proof -
  have u: "unat (plen + 1023) = unat plen + 1023" using assms by (simp add: unat_word_ariths unsigned_of_nat)
  have m: "(1023 :: u32) = mask 10" by (simp add: mask_eq_exp_minus_1)
  have "(plen + 1023) AND NOT (mask 10) = push_bit 10 (drop_bit 10 (plen + 1023))"
    by (rule bit_word_eqI) (auto simp: bit_simps)
  then have "unat ((plen + 1023) AND NOT 1023) = unat (push_bit 10 (drop_bit 10 (plen + 1023)))" unfolding m by simp
  also have "\<dots> = 1024 * ((unat plen + 1023) div 1024)"
  proof -
    have "unat (drop_bit 10 (plen + 1023)) = (unat plen + 1023) div 1024" by (simp add: drop_bit_eq_div unat_div u)
    moreover have "(unat plen + 1023) div 1024 < 2 ^ 7" using assms by simp
    ultimately show ?thesis by (simp add: push_bit_eq_mult unat_word_ariths mult.commute)
  qed
  finally have e: "unat ((plen + 1023) AND NOT 1023) = 1024 * ((unat plen + 1023) div 1024)" .
  moreover have "1024 * ((unat plen + 1023) div 1024) < 2 ^ 31" using assms by simp
  ultimately have "unat ((plen + 1023) AND NOT 1023) < 2 ^ 31" by (simp only:)
  from sint_small [OF this] show ?thesis unfolding e .
qed

lemma roundup_ge:
  assumes "1024 * q + r = y + 1023" "r < 1024" "2 \<le> (y :: nat)"
  shows "y \<le> 1024 * q" "1024 \<le> 1024 * q"
  using assms by (cases q; simp)+

abbreviation (input) roundup_1024 :: "u32 \<Rightarrow> nat" where "roundup_1024 plen \<equiv> 1024 * ((unat plen + 1023) div 1024)"

text \<open>What belongs to a call: the buffer of the request, \<open>sa_zero\<close>, its variables at their sizes, and the addresses \<open>N\<close> that the routing
  tables put into the request.\<close>

definition call_memory :: "'k rt_kernel \<Rightarrow> rt_stack \<Rightarrow> nat \<Rightarrow> nat \<Rightarrow> nat set \<Rightarrow> nat set" where
  "call_memory K S rtm bufsize N = {rtm..<rtm + bufsize} \<union> zspan (sa_zero K) \<union> rt_vars S \<union> N"

lemma bcopy_request:
  assumes "rt_safe K S rtm len B" "12 \<le> len" "zero_ok (sa_zero K) m" "announce_fits K data m"
  shows "zero_ok (sa_zero K) (bcopy data rtm len m)" "announce_fits K rtm (bcopy data rtm len m)"
proof -
  have sub: "{rtm..<rtm + len} \<subseteq> {rtm..<rtm + 152} \<union> B"
    by (rule subset_trans [of _ "{rtm..<rtm + 152} \<union> {rtm + 152..<rtm + len + 28}"]) (use rt_safe_areas(1) [OF assms(1)] in auto)
  have "({rtm..<rtm + 152} \<union> B) \<inter> zspan (sa_zero K) = {}" using assms(1) by (auto simp: rt_safe_def own_def)
  then show "zero_ok (sa_zero K) (bcopy data rtm len m)"
    using zero_ok_changes [OF changes_stores(5) [OF sub]] assms(3) by blast
  have "bcopy data rtm len m (rtm + 8 + i) = m (data + 8 + i)" if "i < 4" for i
    using that assms(2) by (simp add: bcopy_def add.assoc)
  then have "ld32 (bcopy data rtm len m) (rtm + 8) = ld32 m (data + 8)" by (intro bit_word_eqI) (simp add: bit_ld32)
  then show "announce_fits K rtm (bcopy data rtm len m)" using assms(4) by (simp add: announce_fits_def)
qed

text \<open>C13: a route message is carried out within its memory.  When the length in the header is the length the caller gave, and that length is at
  least 28 below the size of the buffer, the next multiple of 1024 (the code touches 28 bytes of an IPv6 address before it looks at its
  length), and the request does not announce an IPv6 interface (whose masked address would not fit the 16 bytes of \<open>laddr\<close>), then for
  every request and every answer of the routing tables the only bytes that change are those of the request's buffer, of the second
  buffer where one is allocated, of \<open>sa_zero\<close>, of the call's variables, each at its size, of the addresses \<open>N\<close> the tables put into the
  request, and the first \<open>max (roundup_1024 plen) maxlen\<close> of the caller's buffer, which is also the most the reply is long.\<close>

theorem rtioctl_in_bounds:
  assumes safe: "rt_safe K S rtm (unat plen) (rt_areas S rtm (unat plen) \<union> N)"
    and "rt_malloc K (scast ((plen + 1023) AND NOT 1023)) = Some rtm"
    and "unat (ld16 m data) = unat plen" "2 \<le> unat plen" and room: "unat plen + 28 \<le> roundup_1024 plen"
    and zero: "zero_ok (sa_zero K) m" and announce: "announce_fits K data m"
    and run: "lazybsd_rtioctl K S fib data plen maxlen (m, k, tls) = Inr (x, plen', m', k', tls')"
  shows "unat plen' \<le> max (roundup_1024 plen) (unat maxlen) \<and>
    (\<forall>a. m' a \<noteq> m a \<longrightarrow> a \<in> call_memory K S rtm (roundup_1024 plen) N \<or> a \<in> tmp_area K maxlen \<or>
       data \<le> a \<and> a < data + max (roundup_1024 plen) (unat maxlen))"
proof -
  let ?B = "rt_areas S rtm (unat plen) \<union> N"
  let ?al = "int (roundup_1024 plen)" and ?len = "unat plen" and ?m = "bcopy data rtm (unat plen) m"
  let ?W = "own K ?B \<union> {rtm..<rtm + nat ?al} \<union> tmp_area K maxlen" and ?n = "nat (max ?al (uint maxlen))"
  let ?i0 = "\<lparr>rti_addrs = 0, rti_flags = 0, rti_info = (\<lambda>_. None)\<rparr>"
  have l16: "?len < 65536" using assms(3) unsigned_less [of "ld16 m data", where ?'a = nat] by simp
  have "(?len + 1023) mod 1024 < 1024" by simp
  note al = roundup_ge [OF mult_div_mod_eq this assms(4)]
  have "max ?al (uint maxlen) = int (max (roundup_1024 plen) (unat maxlen))" by (simp add: of_nat_max)
  then have n: "?n = max (roundup_1024 plen) (unat maxlen)" by (simp only: nat_int)
  have b: "?m rtm = m data" "?m (rtm + 1) = m (data + 1)" using assms(4) by (simp_all add: bcopy_def)
  then have l: "unat (ld16 ?m rtm) = ?len" using assms(3) by (simp add: ld16_def)
  have W: "own K ?B \<subseteq> ?W" "{rtm..<rtm + 152} \<subseteq> ?W" "{rtm..<rtm + ?len} \<subseteq> ?W" using al by auto
  have l': "unat (ld16 ?m rtm) \<le> ?n" "?len \<le> ?n" using l al(1) n by simp_all
  have pr: "fits ?W data ?n ?m (rt_process K S fib data plen maxlen rtm ?al ?len (?m, k, tls))" if "152 \<le> ?len"
  proof (rule rt_process_fits [OF safe])
    have "int ?len \<le> ?al" using al(1) by (simp only: of_nat_le_iff)
    then show "at_header rtm ?len ?al ?m" using that l unfolding at_header_def by blast
    have "12 \<le> ?len" using that by simp
    from bcopy_request [OF safe this zero announce]
    show "zero_ok (sa_zero K) ?m" "announce_fits K rtm ?m" .
  qed
  have fl: "fits ?W data ?n ?m (Inr (rt_flush K data plen 22 (Some rtm) ?i0 False (?m, k, tls)))"
    by (rule rt_flush_fits [OF _ W(1,2) l'(1)]) simp
  have ve: "fits ?W data ?n ?m (Inr (rt_flush K data plen 43 None ?i0 False (?m, k, tls)))"
    using l'(2) by (simp add: rt_flush_def fits_def)
  have "\<not> sint plen < 0" using sint_small [of plen] l16 by simp
  then have "lazybsd_rtioctl K S fib data plen maxlen (m, k, tls) =
      (if ?len < 152 then Inr (rt_flush K data plen 22 (Some rtm) ?i0 False (?m, k, tls))
       else if ?m (rtm + 2) \<noteq> RTM_VERSION then Inr (rt_flush K data plen 43 None ?i0 False (?m, k, tls))
       else rt_process K S fib data plen maxlen rtm ?al ?len (?m, k, tls))"
    unfolding lazybsd_rtioctl_def Let_def prod.case assms(2) option.case roundup2_1024 [OF l16] l by simp
  then have "fits ?W data ?n ?m (lazybsd_rtioctl K S fib data plen maxlen (m, k, tls))" using pr fl ve by (simp del: nat_le_iff)
  then have "fits ?W data ?n m (lazybsd_rtioctl K S fib data plen maxlen (m, k, tls))"
    by (rule fits_trans [rotated]) (rule changes_stores(5) [OF W(3)])
  then have c: "unat plen' \<le> ?n \<and> changes (?W \<union> {data..<data + ?n}) m m'" using run unfolding fits_def by blast
  have "{rtm + 152..<rtm + ?len + 28} \<subseteq> {rtm..<rtm + roundup_1024 plen}" using room by auto
  then have "?W \<subseteq> call_memory K S rtm (roundup_1024 plen) N \<union> tmp_area K maxlen"
    unfolding own_def rt_areas_def call_memory_def nat_int by blast
  then show ?thesis using c unfolding n changes_def by fastforce
qed

text \<open>A kernel without routes, for examples: the buffer is at 10000, the variables are above 50000.\<close>

definition empty_kernel :: "unit rt_kernel" where
  "empty_kernel = \<lparr>rt_headers = route_headers, rt_malloc = (\<lambda>_. Some 10000), rt_realloc = (\<lambda>_. None), sa_zero = 50000, embedscope = (\<lambda>_ m. m),
     recoverscope = (\<lambda>_. None), stale_ss = [], p_pid = 7, time_uptime = 0, time_second = 0, loif = None, rib_lookup_info = (\<lambda>_ _ _. None),
     rt_tables_get_rnh = (\<lambda>_ _. True), rnh_matchaddr = (\<lambda>_ _ _. None), rnh_lookup = (\<lambda>_ _ _ _. None), ifa_ifwithnet = (\<lambda>_ _. None),
     rt_maskedcopy = (\<lambda>b _. b), lla_rt_output = (\<lambda>_ _ _ k. (22, k)), rib_act = (\<lambda>_ _ _ info _ _ k. (3, undefined, info, k))\<rparr>"

definition stack_at_60000 :: rt_stack where
  "stack_at_60000 = \<lparr>sa_dst = 60000, sa_mask = 60100, saun = 60200, gw_saun = 60300, laddr = 60400, w_op = 0\<rparr>"

lemma empty_kernel_safe: "rt_safe empty_kernel stack_at_60000 10000 168 (rt_areas stack_at_60000 10000 168 \<union> {})"
  by (auto simp: rt_safe_def rt_kernel_ok_def empty_kernel_def rt_areas_def rt_vars_def own_def zspan_def stack_at_60000_def scope_local_def
      msg_hdrlen_def route_headers_def)

theorem rtioctl_in_bounds_witness:
  "\<exists>plen' m' tls'. lazybsd_rtioctl empty_kernel stack_at_60000 0 200 168 512 (mwrite 200 [168, 0, 4] (mwrite 50000 [16, 2] (\<lambda>_. 0)), (), \<lparr>lazybsd_errno = 0\<rparr>) =
     Inr (- 1, plen', m', (), tls') \<and> unat plen' \<le> 1024"
proof -
  let ?m = "mwrite 200 [168, 0, 4] (mwrite 50000 [16, 2] (\<lambda>_. 0)) :: mem"
  have l: "unat (ld16 ?m 200) = unat (168 :: u32)" by (simp add: ld16_def mwrite_def)
  have s: "rt_safe empty_kernel stack_at_60000 10000 (unat (168 :: u32)) (rt_areas stack_at_60000 10000 (unat (168 :: u32)) \<union> {})"
    using empty_kernel_safe by simp
  have a: "rt_malloc empty_kernel (scast (((168 :: u32) + 1023) AND NOT 1023)) = Some 10000" by (simp add: empty_kernel_def)
  have z: "zero_ok (sa_zero empty_kernel) ?m" by (simp add: zero_ok_def empty_kernel_def mwrite_def)
  have q: "announce_fits empty_kernel 200 ?m" by (simp add: announce_fits_def ld32_def mwrite_def)
  have "\<exists>plen' m' tls'. lazybsd_rtioctl empty_kernel stack_at_60000 0 200 168 512 (?m, (), \<lparr>lazybsd_errno = 0\<rparr>) = Inr (- 1, plen', m', (), tls')"
    by (simp add: lazybsd_rtioctl_def rt_flush_def empty_kernel_def Let_def bcopy_def ld16_def mwrite_def)
  then obtain plen' m' tls' where r: "lazybsd_rtioctl empty_kernel stack_at_60000 0 200 168 512 (?m, (), \<lparr>lazybsd_errno = 0\<rparr>) = Inr (- 1, plen', m', (), tls')"
    by blast
  from rtioctl_in_bounds [OF s a l _ _ z q r] have "unat plen' \<le> 1024" by simp
  then show ?thesis using r by blast
qed

text \<open>C38: A message whose header does not give its length is answered with memory of the kernel.  When the length in the header differs from the length the caller gave, the call
  fails with \<open>EINVAL\<close>, but it copies as many bytes as the header claims to the caller: behind the caller's message these are bytes of the kernel's memory behind the buffer, whatever
  \<open>maxlen\<close> allows.\<close>

theorem rtioctl_length_mismatch:
  assumes "rt_malloc K (scast ((plen + 1023) AND NOT 1023)) = Some rtm" "0 \<le> sint plen" "152 \<le> unat plen" "unat (ld16 m data) \<noteq> unat plen"
  shows "\<exists>m'. lazybsd_rtioctl K S fib data plen maxlen (m, k, tls) = Inr (- 1, ucast (ld16 m data), m', k, lazybsd_os_errno 22 tls) \<and>
    (\<forall>i. unat plen \<le> i \<longrightarrow> i < unat (ld16 m data) \<longrightarrow> m' (data + i) = m (rtm + i))"
proof -
  let ?m = "bcopy data rtm (unat plen) m" and ?n = "unat (ld16 m data)"
  let ?m2 = "st32 (rtm + 24) (word_of_int 22) ?m"
  have b: "?m (rtm + i) = m (data + i)" if "i < unat plen" for i using that by (simp add: bcopy_def)
  have l: "ld16 ?m rtm = ld16 m data" using b [of 0] b [of 1] assms(3) by (simp add: ld16_def)
  have "changes {rtm + 24..<rtm + 28} ?m ?m2" by (rule changes_stores) simp
  from changes_ld16 [OF this, of rtm] l have l2: "ld16 ?m2 rtm = ld16 m data" by simp
  have "lazybsd_rtioctl K S fib data plen maxlen (m, k, tls) =
      Inr (rt_flush K data plen 22 (Some rtm) \<lparr>rti_addrs = 0, rti_flags = 0, rti_info = (\<lambda>_. None)\<rparr> False (?m, k, tls))"
    unfolding lazybsd_rtioctl_def Let_def prod.case assms(1) option.case l using assms(2,4) by auto
  also have "\<dots> = Inr (- 1, ucast (ld16 m data), bcopy rtm data ?n ?m2, k, lazybsd_os_errno 22 tls)"
    using l2 by (simp add: rt_flush_def Let_def)
  finally have r: "lazybsd_rtioctl K S fib data plen maxlen (m, k, tls) = Inr (- 1, ucast (ld16 m data), bcopy rtm data ?n ?m2, k, lazybsd_os_errno 22 tls)" .
  have "bcopy rtm data ?n ?m2 (data + i) = m (rtm + i)" if "unat plen \<le> i" "i < ?n" for i
    using that assms(3) by (simp add: bcopy_def st32_def)
  then show ?thesis using r by blast
qed

theorem rtioctl_length_mismatch_witness:
  "\<exists>m'. lazybsd_rtioctl empty_kernel stack_at_60000 0 200 168 168 (mwrite 200 [0, 16, 5, 4] (\<lambda>a. if a < 10000 then 0 else 9), (), \<lparr>lazybsd_errno = 0\<rparr>) =
       Inr (- 1, 4096, m', (), lazybsd_os_errno 22 \<lparr>lazybsd_errno = 0\<rparr>) \<and> (\<forall>i. 168 \<le> i \<longrightarrow> i < 4096 \<longrightarrow> m' (200 + i) = 9)"
proof -
  let ?m = "mwrite 200 [0, 16, 5, 4] (\<lambda>a. if a < 10000 then 0 else 9) :: mem"
  have l: "ld16 ?m 200 = 4096" by (simp add: ld16_def mwrite_def)
  have a: "rt_malloc empty_kernel (scast (((168 :: u32) + 1023) AND NOT 1023)) = Some 10000" by (simp add: empty_kernel_def)
  from rtioctl_length_mismatch [OF a, of ?m 200 stack_at_60000 0 168 "()" "\<lparr>lazybsd_errno = 0\<rparr>"] l
  obtain m' where r: "lazybsd_rtioctl empty_kernel stack_at_60000 0 200 168 168 (?m, (), \<lparr>lazybsd_errno = 0\<rparr>) = Inr (- 1, 4096, m', (), lazybsd_os_errno 22 \<lparr>lazybsd_errno = 0\<rparr>)"
      "\<forall>i. 168 \<le> i \<longrightarrow> i < 4096 \<longrightarrow> m' (200 + i) = ?m (10000 + i)" by auto
  have "?m (10000 + i) = 9" for i by (simp add: mwrite_def)
  then show ?thesis using r by metis
qed

end
