(* ===== verification/LB_Rtreply.thy ===== *)
theory LB_Rtreply
  imports LB_Rtioctl_Props
begin

text \<open>
  The answer to a lookup: a request \<open>RTM_GET\<close> for one IPv4 address, through every step of \<open>lazybsd_rtioctl\<close>, is answered with a message from which the route's prefix, mask and
  gateway can be read back.
\<close>

section \<open>Requests\<close>

definition ipv4_sa :: "u8 list \<Rightarrow> u8 list" where
  "ipv4_sa a = [16, F_INET, 0, 0] @ a @ replicate 8 0"

lemma length_ipv4_sa: "length a = 4 \<Longrightarrow> length (ipv4_sa a) = 16"
  by (simp add: ipv4_sa_def)

lemma fill_is_mwrite: "fill_sockaddr_inet p a m = mwrite p (ipv4_sa a) m"
  by (simp add: fill_sockaddr_inet_def ipv4_sa_def)

text \<open>Flags that ask for nothing but the lookup.\<close>

definition plain_flags :: "u32 \<Rightarrow> bool" where
  "plain_flags f \<longleftrightarrow> f AND RTF_RNH_LOCKED = 0 \<and> f AND RTF_LLDATA = 0 \<and> f AND (RTF_BLACKHOLE OR RTF_REJECT) = 0 \<and> f AND RTF_ANNOUNCE = 0"

text \<open>A request of 168 bytes for the route of the address \<open>a\<close>.\<close>

definition get_request :: "nat \<Rightarrow> u8 list \<Rightarrow> mem \<Rightarrow> bool" where
  "get_request p a m \<longleftrightarrow> ld16 m p = 168 \<and> m (p + 2) = RTM_VERSION \<and> m (p + 3) = RTM_GET \<and> ld32 m (p + 12) = 1 \<and> plain_flags (ld32 m (p + 8)) \<and>
     m (p + 152) = 16 \<and> m (p + 153) = F_INET \<and> mread m (p + 156) 4 = a"

lemma get_request_cong: "(\<And>i. i < 168 \<Longrightarrow> m' (q + i) = m (p + i)) \<Longrightarrow> get_request p a m \<Longrightarrow> get_request q a m'"
proof -
  assume e: "\<And>i. i < 168 \<Longrightarrow> m' (q + i) = m (p + i)" and g: "get_request p a m"
  have "ld16 m' q = ld16 m p" using e [of 0] e [of 1] by (simp add: ld16_def)
  moreover have "ld32 m' (q + j) = ld32 m (p + j)" if "j + 3 < 168" for j
    using e [of j] e [of "j + 1"] e [of "j + 2"] e [of "j + 3"] that by (simp add: ld32_def add.assoc)
  moreover have "mread m' (q + 156) 4 = mread m (p + 156) 4" using e [of "156 + i" for i] by (intro mread_cong) (simp add: add.assoc)
  ultimately show ?thesis using g e [of 2] e [of 3] e [of 152] e [of 153] by (simp add: get_request_def)
qed

lemma and_bytes_ff: "and_bytes xs (replicate (length xs) 0xff) = xs"
proof -
  have "(0xff :: u8) = - 1" by simp
  then have "x AND 0xff = x" for x :: u8 by (simp only: and.right_neutral)
  then show ?thesis by (induction xs) (simp_all add: and_bytes_def)
qed

lemma fill_addrinfo_get:
  assumes "get_request rtm a m"
  shows "fill_addrinfo K rtm 168 fib k m = (0, \<lparr>rti_addrs = 1, rti_flags = ld32 m (rtm + 8) OR RTF_HOST, rti_info = [RTAX_DST \<mapsto> rtm + 152]\<rparr>,
    mwrite (rtm + 152) (ipv4_sa a) (st32 (rtm + 16) (p_pid K) m))"
proof -
  let ?m = "st32 (rtm + 16) (p_pid K) m"
  have v: "ld32 ?m (rtm + 12) = 1" "ld32 ?m (rtm + 8) = ld32 m (rtm + 8)" "?m (rtm + 152) = 16" "?m (rtm + 153) = F_INET" "?m (rtm + 3) = RTM_GET"
    using assms by (auto simp: get_request_def mem_simps)
  have "mread ?m (rtm + 156) 4 = a" using assms by (auto simp: get_request_def mem_simps intro!: mread_cong)
  then have a: "mread ?m (rtm + 152 + 4) 4 = a" by (simp add: add.assoc)
  then have la: "length a = 4" using length_mread by metis
  have sz: "SA_SIZE ?m (rtm + 152) = 16" using SA_SIZE_alt [of ?m "rtm + 152"] v(3) by simp
  have "rt_xaddrs (embedscope K) (sa_zero K) (rtm + 152) (rtm + 168) \<lparr>rti_addrs = 1, rti_flags = 0, rti_info = \<lambda>_. None\<rparr> ?m =
      (0, \<lparr>rti_addrs = 1, rti_flags = 0, rti_info = [0 \<mapsto> rtm + 152]\<rparr>, ?m)"
    using v(3,4) v(4) [unfolded add.commute [of rtm 153]] sz by (simp add: rt_xaddrs_def rt_xaddrs_from.simps [of _ _ _ 0] rt_xaddrs_from.simps [of _ _ _ "Suc 0"] Let_def add.assoc)
  moreover have upd: "([0 \<mapsto> x] :: nat \<Rightarrow> nat option)(2 := None) = [0 \<mapsto> x]" for x by (auto simp: fun_eq_iff)
  moreover have "cleanup_xaddrs \<lparr>rti_addrs = 1, rti_flags = ld32 m (rtm + 8), rti_info = [0 \<mapsto> rtm + 152]\<rparr> ?m =
      (0, \<lparr>rti_addrs = 1, rti_flags = ld32 m (rtm + 8) OR RTF_HOST, rti_info = [0 \<mapsto> rtm + 152]\<rparr>, mwrite (rtm + 152) (ipv4_sa a) ?m)"
    using assms v(3,4) v(4) [unfolded add.commute [of rtm 153]] and_bytes_ff [of a] la a
    by (simp add: cleanup_xaddrs_def cleanup_xaddrs_inet_def get_request_def plain_flags_def Let_def remove_netmask_def check_gateway_def fill_is_mwrite add.assoc upd)
  moreover have "ld32 m (rtm + 8) AND RTF_RNH_LOCKED = 0" using assms by (simp add: get_request_def plain_flags_def)
  ultimately show ?thesis
    using v(1,2) by (simp add: fill_addrinfo_def Let_def local_gateway_def priv_check_def)
qed

section \<open>The addresses of the reply\<close>

lemma msg_addrs_None:
  "\<exists>ad. msg_addrs recover stale i None buflen len info m = (None, buflen, len + int (length (blocks (sources info m) i)), info\<lparr>rti_addrs := ad\<rparr>, m)"
proof (induction "RTAX_MAX - i" arbitrary: i len info)
  case 0
  then have i: "\<not> i < RTAX_MAX" by simp
  have "info\<lparr>rti_addrs := rti_addrs info\<rparr> = info" by simp
  then show ?case using i by (intro exI [of _ "rti_addrs info"]) (simp add: msg_addrs.simps [of recover stale i] blocks_end [OF i])
next
  case (Suc n)
  then have i: "i < RTAX_MAX" and n: "n = RTAX_MAX - (i + 1)" by simp_all
  show ?case
  proof (cases "rti_info info i")
    case None
    then show ?thesis
      using Suc.hyps(1) [OF n, of len info] i blocks_step [OF i, of "sources info m"] by (simp add: msg_addrs.simps [of recover stale i] sources_def)
  next
    case (Some sa)
    have "blocks (sources info m) i = mread m sa (SA_SIZE m sa) @ blocks (sources info m) (i + 1)"
      using blocks_step [OF i, of "sources info m"] Some by (simp add: sources_def)
    then show ?thesis
      using Suc.hyps(1) [OF n, of "len + int (SA_SIZE m sa)" "info\<lparr>rti_addrs := rti_addrs info OR push_bit i 1\<rparr>"] i Some
      by (simp add: msg_addrs.simps [of recover stale i None] Let_def rti_addrs_irrelevant add.assoc)
  qed
qed

lemma rtsock_msg_buffer_None:
  assumes "h = msg_hdrlen H type None" "h mod 8 = 0" "\<And>j b. sources info m j = Some b \<Longrightarrow> block_ok b"
  shows "fst (snd (rtsock_msg_buffer H recover stale type info None m)) = h + int (length (blocks (sources info m) 0))"
proof -
  let ?B = "blocks (sources info m) 0"
  obtain ad where w: "msg_addrs recover stale 0 None 0 h (info\<lparr>rti_addrs := 0\<rparr>) m =
      (None, 0, h + int (length ?B), info\<lparr>rti_addrs := ad\<rparr>, m)"
    using msg_addrs_None [of recover stale 0 0 h "info\<lparr>rti_addrs := 0\<rparr>" m] by (auto simp: rti_addrs_irrelevant)
  have "8 dvd length ?B" using dvd_blocks assms(3) by blast
  then have "ALIGN (h + int (length ?B)) = h + int (length ?B)" using assms(2) unfolding ALIGN_def by presburger
  then show ?thesis using w by (simp add: rtsock_msg_buffer_def assms(1) [symmetric] Let_def)
qed

text \<open>The variables and the gateway lie apart from each other and from the buffer of 1024 bytes.\<close>

definition apart :: "rt_stack \<Rightarrow> nat \<Rightarrow> nat \<Rightarrow> nat \<Rightarrow> bool" where
  "apart S rtm gw n \<longleftrightarrow>
     (let D = {sa_dst S..<sa_dst S + 28}; M = {sa_mask S..<sa_mask S + 28}; G = {gw..<gw + n}; R = {rtm..<rtm + 1024}
      in D \<inter> M = {} \<and> D \<inter> G = {} \<and> M \<inter> G = {} \<and> D \<inter> R = {} \<and> M \<inter> R = {} \<and> G \<inter> R = {})"

lemma ipv4_sa_addr: "length b = 4 \<Longrightarrow> mwrite (p + 4) b (mwrite p (ipv4_sa [0, 0, 0, 0]) m) = mwrite p (ipv4_sa b) m"
proof -
  assume b: "length b = 4"
  have l: "length [16, F_INET, 0, 0 :: u8] = 4" "length [0, 0, 0, 0 :: u8] = length b" using b by simp_all
  from mwrite_middle [OF l(2), of p "[16, F_INET, 0, 0]" "replicate 8 0" m] show ?thesis unfolding l(1) ipv4_sa_def .
qed

lemma export_ipv4:
  assumes "rt_prefix rt = (p, q, s)" "length p = 4" "length q = 4" "{d..<d + 28} \<inter> {k..<k + 28} = {}"
  shows "export_rtaddrs rt d k (init_sockaddrs_family F_INET d k m) = mwrite k (ipv4_sa q) (mwrite d (ipv4_sa p) m)"
proof -
  let ?z = "[0, 0, 0, 0] :: u8 list"
  let ?m = "mwrite k (ipv4_sa ?z) (mwrite d (ipv4_sa ?z) m)"
  have dk: "d + 28 \<le> k \<or> k + 28 \<le> d" using apart_ivl [OF assms(4)] by simp
  have z: "length (ipv4_sa ?z) = 16" by (simp add: length_ipv4_sa)
  have "?m (d + 1) = mwrite d (ipv4_sa ?z) m (d + 1)" using dk z by (intro mwrite_outside) auto
  also have "\<dots> = F_INET" using z by (simp add: mwrite_def ipv4_sa_def)
  finally have "export_rtaddrs rt d k (init_sockaddrs_family F_INET d k m) = mwrite (k + 4) q (mwrite (d + 4) p ?m)"
    by (simp add: export_rtaddrs_def init_sockaddrs_family_def assms(1) fill_is_mwrite)
  also have "mwrite (d + 4) p ?m = mwrite k (ipv4_sa ?z) (mwrite (d + 4) p (mwrite d (ipv4_sa ?z) m))"
    using dk z assms(2) by (intro mwrite_comm) auto
  also have "mwrite (k + 4) q \<dots> = mwrite k (ipv4_sa q) (mwrite (d + 4) p (mwrite d (ipv4_sa ?z) m))"
    by (rule ipv4_sa_addr [OF assms(3)])
  also have "mwrite (d + 4) p (mwrite d (ipv4_sa ?z) m) = mwrite d (ipv4_sa p) m"
    by (rule ipv4_sa_addr [OF assms(2)])
  finally show ?thesis .
qed

text \<open>The addresses of a reply: the prefix, the gateway and, for a network, the mask.\<close>

definition reply_addrs :: "rtentry \<Rightarrow> mem \<Rightarrow> nat \<Rightarrow> u8 list option" where
  "reply_addrs rt m j =
     (case rt_prefix rt of (p, q, _) \<Rightarrow>
        let gw = gw_sa (rt_raw_nhop rt)
        in if j = RTAX_DST then Some (ipv4_sa p)
           else if j = RTAX_GATEWAY then Some (mread m gw (SA_SIZE m gw))
           else if j = RTAX_NETMASK \<and> \<not> rt_is_host rt then Some (ipv4_sa q)
           else None)"

definition reply_flags :: "rtentry \<Rightarrow> u32" where
  "reply_flags rt =
     (let f = rte_flags rt OR nhop_rtflags (rt_raw_nhop rt)
      in if f AND RTF_GWFLAG_COMPAT \<noteq> 0 then RTF_GATEWAY OR (f AND NOT RTF_GWFLAG_COMPAT) else f)"

lemma finish_rtm_fields:
  assumes "rc_rt rc = rt" "nh = rt_raw_nhop rt"
  shows "ld32 (finish_rtm K rc nh u rtm m) (rtm + 8) = reply_flags rt" "ld32 (finish_rtm K rc nh u rtm m) (rtm + 12) = u"
  unfolding finish_rtm_def rt_getmetrics_def Let_def assms reply_flags_def by (simp_all add: mem_simps mread_mwrite_outside ld32_cong)

lemma SA_SIZE_le: "SA_SIZE m sa \<le> 256"
proof -
  have "unat (m sa) < 256" using unsigned_less [of "m sa", where ?'a = nat] by simp
  then show ?thesis by (cases "m sa = 0") (auto simp: SA_SIZE_alt, simp add: SA_SIZE_def)
qed

lemma reply_addrs_length:
  assumes "rt_prefix rt = (p, q, s)" "length p = 4" "length q = 4"
  shows "length (blocks (reply_addrs rt m) 0) \<le> 288"
proof -
  have "blocks (reply_addrs rt m) 0 = ipv4_sa p @ mread m (gw_sa (rt_raw_nhop rt)) (SA_SIZE m (gw_sa (rt_raw_nhop rt))) @ (if rt_is_host rt then [] else ipv4_sa q)"
    using assms by (simp add: blocks_def reply_addrs_def upt_rec Let_def)
  then show ?thesis using SA_SIZE_le [of m "gw_sa (rt_raw_nhop rt)"] assms by (simp add: length_ipv4_sa)
qed

lemma mread_block: "mread m sa 16 = ipv4_sa a \<Longrightarrow> m sa = 16 \<and> m (sa + 1) = F_INET \<and> SA_SIZE m sa = 16"
proof -
  assume r: "mread m sa 16 = ipv4_sa a"
  have "mread m sa 16 ! 0 = m sa" "mread m sa 16 ! 1 = m (sa + 1)" by simp_all
  then have "m sa = 16" "m (sa + 1) = F_INET" unfolding r by (simp_all add: ipv4_sa_def)
  then show ?thesis using SA_SIZE_alt [of m sa] by simp
qed

lemma reply_sources:
  assumes "rt_prefix rt = (p, q, s)" "length p = 4" "length q = 4" "m gw \<noteq> 0" "m (gw + 1) \<noteq> F_INET6" "apart S rtm gw (SA_SIZE m gw)" "gw = gw_sa (rt_raw_nhop rt)"
    and "rti_info info = [RTAX_DST \<mapsto> sa_dst S, RTAX_GATEWAY \<mapsto> gw](RTAX_NETMASK := (if rt_is_host rt then None else Some (sa_mask S)))"
    and "mread m2 (sa_dst S) 16 = ipv4_sa p" "mread m2 (sa_mask S) 16 = ipv4_sa q" "mread m2 gw (SA_SIZE m gw) = mread m gw (SA_SIZE m gw)"
  shows "sources info m2 = reply_addrs rt m" "plain rtm (rtm + 1024) info m2"
proof -
  note d = mread_block [OF assms(9)] and k = mread_block [OF assms(10)]
  have g8: "8 \<le> SA_SIZE m gw" by (rule SA_SIZE_bounds)
  have g: "m2 gw = m gw" "m2 (gw + 1) = m (gw + 1)"
    using arg_cong [OF assms(11), of "\<lambda>xs. xs ! 0"] arg_cong [OF assms(11), of "\<lambda>xs. xs ! 1"] g8 by simp_all
  have gs: "SA_SIZE m2 gw = SA_SIZE m gw" using g(1) by (simp add: SA_SIZE_def)
  show "sources info m2 = reply_addrs rt m"
    using assms(1) d k gs assms(8-11) by (auto simp: sources_def reply_addrs_def fun_eq_iff Let_def simp flip: assms(7))
  have "{sa_dst S..<sa_dst S + 28} \<inter> {rtm..<rtm + 1024} = {}" "{sa_mask S..<sa_mask S + 28} \<inter> {rtm..<rtm + 1024} = {}"
    "{gw..<gw + SA_SIZE m gw} \<inter> {rtm..<rtm + 1024} = {}" using assms(6) by (simp_all add: apart_def Let_def)
  then have "sa_dst S + 28 \<le> rtm \<or> rtm + 1024 \<le> sa_dst S" "sa_mask S + 28 \<le> rtm \<or> rtm + 1024 \<le> sa_mask S" "gw + SA_SIZE m gw \<le> rtm \<or> rtm + 1024 \<le> gw"
    using apart_ivl g8 by (metis zero_less_numeral less_le_trans)+
  then show "plain rtm (rtm + 1024) info m2"
    using assms(4,5,8) d k g gs by (auto simp: plain_def split: if_splits)
qed

lemma update_get:
  assumes "rt_prefix rt = (p, q, s)" "length p = 4" "length q = 4" "m gw \<noteq> 0" "m (gw + 1) \<noteq> F_INET6" "apart S rtm gw (SA_SIZE m gw)" "gw = gw_sa (rt_raw_nhop rt)"
    and "m (rtm + 3) = RTM_GET" "ld32 m (rtm + 12) = 1" "m (rtm + 152 + 1) = F_INET" "\<And>w. msg_hdrlen (rt_headers K) 4 w = 152"
    and "B = blocks (reply_addrs rt m) 0" "152 + length B \<le> unat maxlen" "rti_info info = [RTAX_DST \<mapsto> rtm + 152]" "rc_rt rc = rt"
  shows "\<exists>ad m1. update_rtm_from_rc K S info (rtm + 152) rtm 1024 rc (rt_raw_nhop rt) maxlen m = (0, rtm, m1) \<and>
    ld16 m1 rtm = of_nat (152 + length B) \<and> mread m1 (rtm + 152) (length B) = B \<and> ld32 m1 (rtm + 8) = reply_flags rt \<and> ld32 m1 (rtm + 12) = ad \<and>
    (\<forall>j<RTAX_MAX. bit ad j \<longleftrightarrow> reply_addrs rt m j \<noteq> None) \<and> (\<forall>j b. reply_addrs rt m j = Some b \<longrightarrow> block_ok b)"
proof -
  let ?nh = "rt_raw_nhop rt" and ?D = "sa_dst S" and ?M = "sa_mask S"
  let ?area = "{?D..<?D + 28} \<union> {?M..<?M + 28}"
  have ap: "{?D..<?D + 28} \<inter> {?M..<?M + 28} = {}" "{rtm..<rtm + 1024} \<inter> ?area = {}" "{gw..<gw + SA_SIZE m gw} \<inter> (?area \<union> {rtm..<rtm + 1024}) = {}"
    using assms(6) unfolding apart_def Let_def by blast+
  define m1 where "m1 = mwrite ?M (ipv4_sa q) (mwrite ?D (ipv4_sa p) m)"
  have l16: "length (ipv4_sa p) = 16" "length (ipv4_sa q) = 16" using assms(2,3) by (simp_all add: length_ipv4_sa)
  have dm: "?D + 28 \<le> ?M \<or> ?M + 28 \<le> ?D" using apart_ivl [OF ap(1)] by simp
  have c1: "changes ?area m m1" unfolding m1_def using l16 by (intro changes_steps changes_refl) auto
  have r1: "mread m1 ?M 16 = ipv4_sa q" using mread_mwrite [of ?M "ipv4_sa q"] l16(2) unfolding m1_def by simp
  have "mread m1 ?D 16 = mread (mwrite ?D (ipv4_sa p) m) ?D 16" unfolding m1_def using dm l16(2) by (intro mread_mwrite_outside) auto
  then have r2: "mread m1 ?D 16 = ipv4_sa p" using mread_mwrite [of ?D "ipv4_sa p" m] l16(1) by simp
  have k1: "m1 a = m a" if "a \<in> {rtm..<rtm + 1024}" for a using c1 ap(2) that unfolding changes_def by blast
  define info1 where "info1 = info\<lparr>rti_info := (rti_info info)(RTAX_DST \<mapsto> ?D, RTAX_NETMASK := (if rt_is_host rt then None else Some ?M), RTAX_GATEWAY \<mapsto> gw, RTAX_GENMASK := None)\<rparr>"
  define m2 where "m2 = (case nh_ifp ?nh of Some ifp \<Rightarrow> st16 (rtm + 4) (if_index ifp) m1 | None \<Rightarrow> m1)"
  have "ld32 m1 (rtm + 12) = 1" using assms(9) k1 ld32_cong [of m1 "rtm + 12" m] by simp
  then have x: "export_ifp K S info1 rtm ?nh m1 = (0, info1, m2)" by (simp add: export_ifp_def m2_def)
  have c2: "changes {rtm + 4..<rtm + 6} m1 m2" unfolding m2_def by (auto split: option.splits intro: changes_stores)
  have k2: "m2 a = m1 a" if "a \<notin> {rtm..<rtm + 1024}" for a using c2 that unfolding changes_def by force
  have i1: "rti_info info1 = [RTAX_DST \<mapsto> ?D, RTAX_GATEWAY \<mapsto> gw](RTAX_NETMASK := (if rt_is_host rt then None else Some ?M))"
    using assms(14) by (auto simp: info1_def fun_eq_iff)
  have out: "mread m2 x 16 = mread m1 x 16" if "{x..<x + 28} \<inter> {rtm..<rtm + 1024} = {}" for x
    using k2 that by (intro mread_cong) (auto simp: disjoint_iff)
  have "mread m2 ?D 16 = ipv4_sa p" "mread m2 ?M 16 = ipv4_sa q" unfolding r1 [symmetric] r2 [symmetric] using ap(2) by (intro out; blast)+
  moreover have "mread m2 gw (SA_SIZE m gw) = mread m gw (SA_SIZE m gw)"
    using k2 c1 ap(3) unfolding changes_def by (intro mread_cong) (metis (no_types, lifting) UnCI atLeastLessThan_iff disjoint_iff le_add1 nat_add_left_cancel_less)
  ultimately have so: "sources info1 m2 = reply_addrs rt m" "plain rtm (rtm + 1024) info1 m2"
    using reply_sources [OF assms(1-7) i1] by blast+
  have "rtm + 3 \<notin> {rtm + 4..<rtm + 6}" by simp
  then have "m2 (rtm + 3) = m1 (rtm + 3)" using c2 unfolding changes_def by blast
  then have ty: "m2 (rtm + 3) = 4" using k1 [of "rtm + 3"] assms(8) by simp
  have LB: "length B \<le> 288" unfolding assms(12) by (rule reply_addrs_length [OF assms(1-3)])
  let ?L = "152 + int (length B)" and ?H = "rt_headers K"
  have B: "B = blocks (sources info1 m2) 0" using so(1) assms(12) by simp
  have t4: "uint (m2 (rtm + 3)) = 4" using ty by simp
  have len: "fst (snd (rtsock_msg_buffer ?H (recoverscope K) (stale_ss K) 4 info1 None m2)) = ?L"
    using rtsock_msg_buffer_None [of 152 ?H 4 info1 m2] plain_sources [OF so(2)] assms(11) B by simp
  have "plain rtm (rtm + nat 1024) info1 m2" using so(2) by simp
  from rtsock_msg_buffer_plain [OF this, of 152 ?H 4 "w_op S" B "recoverscope K" "stale_ss K"] obtain ad m3 where
    w: "rtsock_msg_buffer ?H (recoverscope K) (stale_ss K) 4 info1 (Some (rtm, 1024, w_op S)) m2 = (0, ?L, info1\<lparr>rti_addrs := ad\<rparr>, m3)"
      "m3 = mwrite rtm [word_of_int ?L, word_of_int (?L div 256), word_of_int (?H ''RTM_VERSION''), word_of_int 4] (mwrite (rtm + 152) B m2)"
      "\<forall>j<RTAX_MAX. bit ad j \<longleftrightarrow> rti_info info1 j \<noteq> None"
    using assms(11) B LB by auto
  define m4 where "m4 = finish_rtm K rc ?nh ad rtm m3"
  have fc: "changes {rtm + 4..<rtm + 152} m3 m4" unfolding m4_def by (rule finish_rtm_changes)
  have l4: "ld16 m4 rtm = of_nat (152 + length B)"
    using changes_ld16 [OF fc, of rtm] ld16_mwrite_int [of rtm ?L _ "mwrite (rtm + 152) B m2"] w(2) by simp
  have "mread m4 (rtm + 152) (length B) = mread m3 (rtm + 152) (length B)"
    using fc unfolding changes_def by (intro mread_cong) force
  also have "\<dots> = B" unfolding w(2) by (subst mread_mwrite_outside) (auto simp: mem_simps)
  finally have r4: "mread m4 (rtm + 152) (length B) = B" .
  have "\<not> ?L > uint maxlen" using assms(13) by (simp add: uint_nat del: of_nat_unat flip: of_nat_le_iff)
  then have "update_rtm_from_rc K S info (rtm + 152) rtm 1024 rc ?nh maxlen m = (0, rtm, m4)"
    unfolding update_rtm_from_rc_def Let_def assms(10,15) export_ipv4 [OF assms(1-3) ap(1)] m1_def [symmetric] assms(7) [symmetric] info1_def [symmetric] x prod.case t4 len
    using LB by (simp add: t4 w(1) m4_def)
  moreover have "\<forall>j<RTAX_MAX. bit ad j \<longleftrightarrow> reply_addrs rt m j \<noteq> None" using w(3) so(1) [symmetric] by (simp add: sources_def)
  moreover have "\<forall>j b. reply_addrs rt m j = Some b \<longrightarrow> block_ok b" using plain_sources [OF so(2)] so(1) by simp
  ultimately show ?thesis using l4 r4 finish_rtm_fields [OF assms(15) refl, of K ad rtm m3] by (auto simp: m4_def)
qed

section \<open>The reply\<close>

lemma rt_process_get:
  assumes "get_request rtm a m" "rt_tables_get_rnh K fib F_INET" "rnh_matchaddr K fib (ipv4_sa a) k = Some rt" "\<not> nh_is_nhgrp (rt_raw_nhop rt)"
  shows "\<exists>info rc m2. rt_process K S fib data plen maxlen rtm al 168 (m, k, tls) =
      (case update_rtm_from_rc K S info (rtm + 152) rtm al rc (rt_raw_nhop rt) maxlen m2 of
         (err, rtm, m) \<Rightarrow> Inr (rt_flush K data plen err (Some rtm) info False (m, k, tls))) \<and>
    rti_info info = [RTAX_DST \<mapsto> rtm + 152] \<and> rc_rt rc = rt \<and> changes {rtm..<rtm + 168} m m2 \<and>
    m2 (rtm + 3) = RTM_GET \<and> ld32 m2 (rtm + 12) = 1 \<and> m2 (rtm + 152 + 1) = F_INET"
proof -
  let ?m2 = "mwrite (rtm + 152) (ipv4_sa a) (st32 (rtm + 16) (p_pid K) m)"
  let ?info = "\<lparr>rti_addrs = 1, rti_flags = ld32 m (rtm + 8) OR RTF_HOST, rti_info = [RTAX_DST \<mapsto> rtm + 152]\<rparr>"
  let ?rc = "\<lparr>rc_rt = rt, rc_nh_new = Some (rt_raw_nhop rt), rc_nh_old = None, rc_nh_weight = rt_weight rt\<rparr>"
  have la: "length (ipv4_sa a) = 16" using assms(1) length_ipv4_sa [of a] by (auto simp: get_request_def)
  have lo: "?m2 x = st32 (rtm + 16) (p_pid K) m x" if "x < rtm + 152" for x using that by (intro mwrite_outside) simp
  have f: "ld32 ?m2 (rtm + 8) = ld32 m (rtm + 8)" "ld32 ?m2 (rtm + 12) = ld32 m (rtm + 12)" "?m2 (rtm + 3) = m (rtm + 3)"
    using lo by (auto intro!: ld32_cong simp: mem_simps)
  have "mread ?m2 (rtm + 152) 16 = ipv4_sa a" using mread_mwrite [of "rtm + 152" "ipv4_sa a"] la by simp
  from mread_block [OF this] this have s: "?m2 (rtm + 152 + 1) = F_INET" "sockaddr_at ?m2 (rtm + 152) = ipv4_sa a" by (simp_all add: sockaddr_at_def)
  have "handle_rtm_get K S ?info (rtm + 152) fib rtm k ?m2 = (Inr ?rc, ?m2)"
    using assms f s by (simp add: handle_rtm_get_def get_request_def plain_flags_def select_nhop_def)
  then have "rt_dispatch K S fib data plen maxlen rtm al ?info (rtm + 152) None (?m2, k, tls) =
      rt_report K S data plen maxlen rtm al ?info (rtm + 152) ?rc (Some (rt_raw_nhop rt)) (?m2, k, tls)"
    using assms(1) f(3) by (simp add: rt_dispatch_def get_request_def)
  moreover have "rt_process K S fib data plen maxlen rtm al 168 (m, k, tls) = rt_dispatch K S fib data plen maxlen rtm al ?info (rtm + 152) None (?m2, k, tls)"
    using assms(1) f(1) by (simp add: rt_process_def fill_addrinfo_get [OF assms(1)] Let_def get_request_def plain_flags_def)
  moreover have "changes {rtm..<rtm + 168} m ?m2" using la by (intro changes_steps changes_refl) auto
  ultimately show ?thesis
    using assms(1) f s(1) by (intro exI [of _ ?info] exI [of _ ?rc] exI [of _ ?m2]) (simp add: rt_report_def get_request_def)
qed

text \<open>C4: A lookup returns the route.  A request for the route of an IPv4 address, answered by the routing table with a route whose prefix, mask, flags and gateway are those of the
  entry and its next hop, comes back complete: the call succeeds, leaves the kernel as it was, reports the length of the reply, marks it done, and taking the reply apart
  gives the prefix, the gateway and, unless the route is a host route, the mask, each under its number and nothing else.\<close>

theorem rtioctl_get_reply:
  assumes "get_request data a m" "rt_malloc K 1024 = Some rtm" "rt_tables_get_rnh K fib F_INET" "rnh_matchaddr K fib (ipv4_sa a) k = Some rt"
    and "\<not> nh_is_nhgrp (rt_raw_nhop rt)" "rt_prefix rt = (p, q, s)" "length p = 4" "length q = 4"
    and "gw = gw_sa (rt_raw_nhop rt)" "m gw \<noteq> 0" "m (gw + 1) \<noteq> F_INET6" "apart S rtm gw (SA_SIZE m gw)"
    and "\<forall>w. msg_hdrlen (rt_headers K) 4 w = 152" "n = 152 + length (blocks (reply_addrs rt m) 0)" "n \<le> unat maxlen"
  shows "\<exists>m' info. lazybsd_rtioctl K S fib data 168 maxlen (m, k, tls) = Inr (0, of_nat n, m', k, tls) \<and>
    ld32 m' (data + 8) = reply_flags rt OR RTF_DONE \<and>
    rt_xaddrs emb SZ (data + 152) (data + n) \<lparr>rti_addrs = ld32 m' (data + 12), rti_flags = 0, rti_info = \<lambda>_. None\<rparr> m' = (0, info, m') \<and>
    (\<forall>j<RTAX_MAX. case reply_addrs rt m j of None \<Rightarrow> rti_info info j = None
       | Some b \<Rightarrow> \<exists>x. rti_info info j = Some x \<and> mread m' x (length b) = b)"
proof -
  let ?m1 = "bcopy data rtm 168 m" and ?B = "blocks (reply_addrs rt m) 0"
  have g1: "get_request rtm a ?m1" by (rule get_request_cong [OF _ assms(1)]) (simp add: bcopy_def)
  from rt_process_get [OF g1 assms(3-5), of S data 168 maxlen 1024 tls] obtain info rc m2 where
    pr: "rt_process K S fib data 168 maxlen rtm 1024 168 (?m1, k, tls) =
      (case update_rtm_from_rc K S info (rtm + 152) rtm 1024 rc (rt_raw_nhop rt) maxlen m2 of
         (err, rtm, m) \<Rightarrow> Inr (rt_flush K data 168 err (Some rtm) info False (m, k, tls)))"
      "rti_info info = [RTAX_DST \<mapsto> rtm + 152]" "rc_rt rc = rt" "changes {rtm..<rtm + 168} ?m1 m2"
      "m2 (rtm + 3) = RTM_GET" "ld32 m2 (rtm + 12) = 1" "m2 (rtm + 152 + 1) = F_INET" by blast
  have "changes {rtm..<rtm + 168} m ?m1" by (rule changes_stores) simp
  then have c2: "changes {rtm..<rtm + 168} m m2" using pr(4) by (rule changes_trans)
  have gd: "{gw..<gw + SA_SIZE m gw} \<inter> {rtm..<rtm + 1024} = {}" using assms(12) by (simp add: apart_def Let_def)
  then have gm: "m2 x = m x" if "x \<in> {gw..<gw + SA_SIZE m gw}" for x using c2 that unfolding changes_def by (force simp: disjoint_iff)
  have g8: "8 \<le> SA_SIZE m gw" by (rule SA_SIZE_bounds)
  have g2: "m2 gw = m gw" "m2 (gw + 1) = m (gw + 1)" using gm [of gw] gm [of "gw + 1"] g8 by simp_all
  then have gs: "SA_SIZE m2 gw = SA_SIZE m gw" by (simp add: SA_SIZE_def)
  have "mread m2 gw (SA_SIZE m gw) = mread m gw (SA_SIZE m gw)" using gm by (intro mread_cong) simp
  then have ra: "reply_addrs rt m2 = reply_addrs rt m" using gs assms(9) by (simp add: reply_addrs_def fun_eq_iff Let_def assms(6))
  have "m2 gw \<noteq> 0" "m2 (gw + 1) \<noteq> F_INET6" "apart S rtm gw (SA_SIZE m2 gw)" using g2 gs assms(10-12) by simp_all
  from update_get [OF assms(6-8) this assms(9) pr(5-7) _ _ _ pr(2,3), of K ?B maxlen] obtain ad m3 where
    u: "update_rtm_from_rc K S info (rtm + 152) rtm 1024 rc (rt_raw_nhop rt) maxlen m2 = (0, rtm, m3)" "ld16 m3 rtm = of_nat n"
      "mread m3 (rtm + 152) (length ?B) = ?B" "ld32 m3 (rtm + 8) = reply_flags rt" "ld32 m3 (rtm + 12) = ad"
      "\<forall>j<RTAX_MAX. bit ad j \<longleftrightarrow> reply_addrs rt m j \<noteq> None" "\<forall>j b. reply_addrs rt m j = Some b \<longrightarrow> block_ok b"
    using assms(13-15) ra by auto
  define m4 where "m4 = st32 (rtm + 8) (ld32 m3 (rtm + 8) OR RTF_DONE) m3"
  define m' where "m' = bcopy rtm data n m4"
  have n16: "n < 65536" using reply_addrs_length [OF assms(6-8), of m] assms(14) by simp
  have c4: "changes {rtm + 8..<rtm + 12} m3 m4" unfolding m4_def by (rule changes_stores) simp
  have l4: "ld16 m4 rtm = of_nat n" "ld32 m4 (rtm + 8) = reply_flags rt OR RTF_DONE" "ld32 m4 (rtm + 12) = ad"
    using changes_ld16 [OF c4, of rtm] u(2,4,5) by (simp_all add: m4_def mem_simps)
  have un: "unat (of_nat n :: u16) = n" "ucast (of_nat n :: u16) = (of_nat n :: u32)"
    using n16 by (simp_all add: unsigned_of_nat take_bit_nat_eq_self)
  have "lazybsd_rtioctl K S fib data 168 maxlen (m, k, tls) = rt_process K S fib data 168 maxlen rtm 1024 168 (?m1, k, tls)"
    using g1 assms(2) by (simp add: lazybsd_rtioctl_def Let_def get_request_def)
  also have "\<dots> = Inr (0, of_nat n, m', k, tls)"
    using u(1) l4(1) un by (simp add: pr(1) rt_flush_def Let_def m4_def [symmetric] m'_def)
  finally have res: "lazybsd_rtioctl K S fib data 168 maxlen (m, k, tls) = Inr (0, of_nat n, m', k, tls)" .
  have cp: "m' (data + i) = m4 (rtm + i)" if "i < n" for i using that by (simp add: m'_def bcopy_def)
  have "mread m' (data + 152) (length ?B) = mread m4 (rtm + 152) (length ?B)" using cp assms(14) by (intro mread_cong) (simp add: add.assoc)
  also have "\<dots> = mread m3 (rtm + 152) (length ?B)" using c4 unfolding changes_def by (intro mread_cong) force
  finally have mb: "mread m' (data + 152) (length ?B) = ?B" using u(3) by simp
  have l': "ld32 m' (data + j) = ld32 m4 (rtm + j)" if "j + 3 < n" for j
    using cp [of j] cp [of "j + 1"] cp [of "j + 2"] cp [of "j + 3"] that by (simp add: ld32_def add.assoc)
  have l12: "ld32 m' (data + 8) = reply_flags rt OR RTF_DONE" "ld32 m' (data + 12) = ad" using l' [of 8] l' [of 12] l4 assms(14) by simp_all
  from rt_xaddrs_message [OF u(6,7) mb, of emb SZ] show ?thesis using res l12 assms(14) by (auto simp: add.assoc)
qed

text \<open>The route of 10.0.0.7 in a table with the network 10.0.0.0/8 over the gateway 10.0.0.1.\<close>

definition net_10 :: rtentry where
  "net_10 = \<lparr>rt_weight = 1, rt_expire = 0, rte_flags = 1, rt_is_host = False,
     rt_raw_nhop = \<lparr>nh_ifp = None, nh_ifa = \<lparr>ifa_addr = 80000, ifa_netmask = None, ifa_dstaddr = None\<rparr>, gw_sa = 70000, nh_mtu = 1500, nhop_idx = 1, nhop_rtflags = 2,
       nh_is_nhgrp = False\<rparr>, rt_prefix = ([10, 0, 0, 0], [255, 0, 0, 0], [0, 0, 0, 0])\<rparr>"

definition request_10 :: mem where
  "request_10 = mwrite 200 [168, 0, 5, 4] (mwrite 212 [1] (mwrite 352 [16, 2] (mwrite 356 [10, 0, 0, 7] (mwrite 70000 (ipv4_sa [10, 0, 0, 1]) (\<lambda>_. 0)))))"

theorem rtioctl_get_reply_witness:
  "\<exists>m' info x. lazybsd_rtioctl (empty_kernel\<lparr>rnh_matchaddr := \<lambda>_ _ _. Some net_10\<rparr>) stack_at_60000 0 200 168 512 (request_10, (), \<lparr>lazybsd_errno = 0\<rparr>) =
       Inr (0, 200, m', (), \<lparr>lazybsd_errno = 0\<rparr>) \<and>
     rt_xaddrs (\<lambda>_ m. m) 9 352 400 \<lparr>rti_addrs = ld32 m' 212, rti_flags = 0, rti_info = \<lambda>_. None\<rparr> m' = (0, info, m') \<and>
     rti_info info RTAX_GATEWAY = Some x \<and> mread m' x 16 = ipv4_sa [10, 0, 0, 1]"
proof -
  let ?K = "empty_kernel\<lparr>rnh_matchaddr := \<lambda>_ _ _. Some net_10\<rparr>"
  let ?g = "gw_sa (rt_raw_nhop net_10)"
  have u: "[0..<4] = [0, 1, 2, 3]" by (simp add: upt_rec)
  have req: "get_request 200 [10, 0, 0, 7] request_10"
    by (simp add: get_request_def request_10_def mwrite_def ld16_def ld32_def plain_flags_def mread_def u)
  have "length (ipv4_sa [10, 0, 0, 1]) = 16" by (simp add: length_ipv4_sa)
  then have "mread (mwrite 70000 (ipv4_sa [10, 0, 0, 1]) (\<lambda>_. 0)) 70000 16 = ipv4_sa [10, 0, 0, 1]"
    using mread_mwrite [of 70000 "ipv4_sa [10, 0, 0, 1]" "\<lambda>_. 0"] by simp
  then have gr: "mread request_10 70000 16 = ipv4_sa [10, 0, 0, 1]" by (simp add: request_10_def mread_mwrite_outside)
  note gw = mread_block [OF gr]
  have ap: "apart stack_at_60000 10000 70000 16" by (auto simp: apart_def stack_at_60000_def)
  have ra: "reply_addrs net_10 request_10 = [0 \<mapsto> ipv4_sa [10, 0, 0, 0], 1 \<mapsto> ipv4_sa [10, 0, 0, 1], 2 \<mapsto> ipv4_sa [255, 0, 0, 0]]"
    using gr gw by (auto simp: reply_addrs_def net_10_def fun_eq_iff Let_def)
  have n: "200 = 152 + length (blocks (reply_addrs net_10 request_10) 0)" by (simp add: ra blocks_def upt_rec length_ipv4_sa)
  have h: "\<forall>w. msg_hdrlen (rt_headers ?K) 4 w = 152" by (simp add: empty_kernel_def msg_hdrlen_def route_headers_def)
  have k: "rt_malloc ?K 1024 = Some 10000" "rt_tables_get_rnh ?K 0 F_INET" "rnh_matchaddr ?K 0 (ipv4_sa [10, 0, 0, 7]) () = Some net_10"
    by (simp_all add: empty_kernel_def)
  have g: "\<not> nh_is_nhgrp (rt_raw_nhop net_10)" "rt_prefix net_10 = ([10, 0, 0, 0], [255, 0, 0, 0], [0, 0, 0, 0])" "?g = 70000"
    by (simp_all add: net_10_def)
  have gp: "request_10 ?g \<noteq> 0" "request_10 (?g + 1) \<noteq> F_INET6" "apart stack_at_60000 10000 ?g (SA_SIZE request_10 ?g)"
    unfolding g(3) using gw ap by simp_all
  have "200 \<le> unat (512 :: u32)" by simp
  from rtioctl_get_reply [OF req k g(1,2) _ _ refl gp h n this, of "\<lparr>lazybsd_errno = 0\<rparr>" "\<lambda>_ m. m" 9]
  obtain m' info where r: "lazybsd_rtioctl ?K stack_at_60000 0 200 168 512 (request_10, (), \<lparr>lazybsd_errno = 0\<rparr>) = Inr (0, of_nat 200, m', (), \<lparr>lazybsd_errno = 0\<rparr>)"
      "rt_xaddrs (\<lambda>_ m. m) 9 352 400 \<lparr>rti_addrs = ld32 m' 212, rti_flags = 0, rti_info = \<lambda>_. None\<rparr> m' = (0, info, m')"
      "\<forall>j<RTAX_MAX. case reply_addrs net_10 request_10 j of None \<Rightarrow> rti_info info j = None
        | Some b \<Rightarrow> \<exists>x. rti_info info j = Some x \<and> mread m' x (length b) = b" by auto
  obtain x where "rti_info info 1 = Some x" "mread m' x 16 = ipv4_sa [10, 0, 0, 1]"
    using r(3) [rule_format, of 1] by (auto simp: ra length_ipv4_sa)
  then show ?thesis using r(1,2) by auto
qed

end
