(* ===== verification/LB_Elf.thy ===== *)
theory LB_Elf
  imports LB_Bytes
begin

text \<open>
  The relocation of loadable objects and the small memory services of \<^verbatim>\<open>bsd/lib/lazybsd_compat.c\<close>: \<open>elf_reloc_internal\<close> with its two
  entry points, \<open>fubyte\<close>, \<open>fueword\<close> and \<open>arc4random\<close>.  A relocation entry lies in byte memory, as FreeBSD's linker reads it from the
  object; the linker's symbol lookup is a parameter that answers with an error and an address, and so are the entropy of the host
  and \<open>rand_r\<close>.  The messages the code prints are part of the result.

  The code is compared with the table of relocation types of the System V ABI for x86-64 (all of it, the types the code refuses and the
  rule on values that do not fit included), and a whole table of entries is shown to give the same memory in whatever order it is
  processed.
\<close>

section \<open>Numbers of the ABI\<close>

abbreviation (input) ELF_RELOC_REL :: i32 where "ELF_RELOC_REL \<equiv> 1"
abbreviation (input) ELF_RELOC_RELA :: i32 where "ELF_RELOC_RELA \<equiv> 2"

abbreviation (input) R_X86_64_NONE :: u64 where "R_X86_64_NONE \<equiv> 0"
abbreviation (input) R_X86_64_64 :: u64 where "R_X86_64_64 \<equiv> 1"
abbreviation (input) R_X86_64_PC32 :: u64 where "R_X86_64_PC32 \<equiv> 2"
abbreviation (input) R_X86_64_COPY :: u64 where "R_X86_64_COPY \<equiv> 5"
abbreviation (input) R_X86_64_GLOB_DAT :: u64 where "R_X86_64_GLOB_DAT \<equiv> 6"
abbreviation (input) R_X86_64_JMP_SLOT :: u64 where "R_X86_64_JMP_SLOT \<equiv> 7"
abbreviation (input) R_X86_64_RELATIVE :: u64 where "R_X86_64_RELATIVE \<equiv> 8"
abbreviation (input) R_X86_64_32S :: u64 where "R_X86_64_32S \<equiv> 11"

text \<open>An entry is \<open>r_offset\<close> at 0, \<open>r_info\<close> at 8 and, with addend, \<open>r_addend\<close> at 16.\<close>

definition ELF_R_SYM :: "u64 \<Rightarrow> u64" where
  "ELF_R_SYM info = drop_bit 32 info"

definition ELF_R_TYPE :: "u64 \<Rightarrow> u64" where
  "ELF_R_TYPE info = info AND 0xffffffff"

type_synonym 'lf elf_lookup_fn = "'lf \<Rightarrow> u64 \<Rightarrow> i32 \<Rightarrow> i32 \<times> u64"

datatype complaint = Unexpected_copy | Unexpected_type u64

section \<open>Relocating\<close>

text \<open>What the first switch reads of the entry: the place, the addend, the type and the symbol.\<close>

definition reloc_entry :: "u64 \<Rightarrow> nat \<Rightarrow> i32 \<Rightarrow> mem \<Rightarrow> (u64 \<times> u64 \<times> u64 \<times> u64) kresult" where
  "reloc_entry relocbase data type m =
    (let wher = relocbase + ld64 m data;
         rtype = ELF_R_TYPE (ld64 m (data + 8));
         symidx = ELF_R_SYM (ld64 m (data + 8))
     in if type = ELF_RELOC_REL then
          Inr (wher, if rtype = R_X86_64_PC32 \<or> rtype = R_X86_64_32S then ucast (ld32 m (unat wher)) else ld64 m (unat wher),
               rtype, symidx)
        else if type = ELF_RELOC_RELA then Inr (wher, ld64 m (data + 16), rtype, symidx)
        else Inl (Panic ''unknown reloc type''))"

text \<open>\<open>if (*where != val) *where = val\<close>, for the two widths.\<close>

definition put64 :: "nat \<Rightarrow> u64 \<Rightarrow> mem \<Rightarrow> mem" where
  "put64 p val m = (if ld64 m p \<noteq> val then st64 p val m else m)"

definition put32 :: "nat \<Rightarrow> u32 \<Rightarrow> mem \<Rightarrow> mem" where
  "put32 p val m = (if ld32 m p \<noteq> val then st32 p val m else m)"

definition elf_reloc_internal ::
  "'lf \<Rightarrow> u64 \<Rightarrow> nat \<Rightarrow> i32 \<Rightarrow> bool \<Rightarrow> 'lf elf_lookup_fn \<Rightarrow> mem \<Rightarrow> (i32 \<times> complaint list \<times> mem) kresult" where
  "elf_reloc_internal lf relocbase data type local lookup m =
    (case reloc_entry relocbase data type m of
       Inl e \<Rightarrow> Inl e
     | Inr (wher, addend, rtype, symidx) \<Rightarrow>
        (let p = unat wher; (error, addr) = lookup lf symidx 1 in
         if rtype = R_X86_64_NONE then Inr (0, [], m)
         else if rtype = R_X86_64_64 then
           (if error \<noteq> 0 then Inr (-1, [], m) else Inr (0, [], put64 p (addr + addend) m))
         else if rtype = R_X86_64_PC32 then
           (if error \<noteq> 0 then Inr (-1, [], m) else Inr (0, [], put32 p (ucast (addr + addend - wher)) m))
         else if rtype = R_X86_64_32S then
           (if error \<noteq> 0 then Inr (-1, [], m) else Inr (0, [], put32 p (ucast (addr + addend)) m))
         else if rtype = R_X86_64_COPY then Inr (-1, [Unexpected_copy], m)
         else if rtype = R_X86_64_GLOB_DAT \<or> rtype = R_X86_64_JMP_SLOT then
           (if error \<noteq> 0 then Inr (-1, [], m) else Inr (0, [], put64 p addr m))
         else if rtype = R_X86_64_RELATIVE then Inr (0, [], put64 p (relocbase + addend) m)
         else Inr (-1, [Unexpected_type rtype], m)))"

definition elf_reloc :: "'lf \<Rightarrow> u64 \<Rightarrow> nat \<Rightarrow> i32 \<Rightarrow> 'lf elf_lookup_fn \<Rightarrow> mem \<Rightarrow> (i32 \<times> complaint list \<times> mem) kresult" where
  "elf_reloc lf relocbase data type lookup m = elf_reloc_internal lf relocbase data type False lookup m"

definition elf_reloc_local :: "'lf \<Rightarrow> u64 \<Rightarrow> nat \<Rightarrow> i32 \<Rightarrow> 'lf elf_lookup_fn \<Rightarrow> mem \<Rightarrow> (i32 \<times> complaint list \<times> mem) kresult" where
  "elf_reloc_local lf relocbase data type lookup m = elf_reloc_internal lf relocbase data type True lookup m"

section \<open>Reading memory and random numbers\<close>

definition fubyte :: "mem \<Rightarrow> nat \<Rightarrow> i32" where
  "fubyte m base = ucast (m base)"

definition fueword :: "nat \<Rightarrow> nat \<Rightarrow> mem \<Rightarrow> i32 \<times> mem" where
  "fueword base val m = (0, st64 val (ld64 m base) m)"

text \<open>The seed is a variable of the file, zero until the first call.  The result and the new seed come from \<open>rand_r\<close>.\<close>

definition arc4random :: "(u32 \<Rightarrow> i32 \<times> u32) \<Rightarrow> u32 \<Rightarrow> u32 \<Rightarrow> u32 \<times> u32" where
  "arc4random rand_r lazybsd_arc4random seed = rand_r (if seed = 0 then lazybsd_arc4random else seed)"

section \<open>What an entry stores\<close>

text \<open>The bytes the second switch stores for the types it knows, from the symbol's value \<open>S\<close> (if it has one), the addend \<open>A\<close>, the place
  \<open>P\<close> and the base \<open>B\<close>.\<close>

definition field_bytes :: "u64 \<Rightarrow> u64 option \<Rightarrow> u64 \<Rightarrow> u64 \<Rightarrow> u64 \<Rightarrow> u8 list option" where
  "field_bytes rtype S A P B =
    (if rtype = R_X86_64_NONE then Some []
     else if rtype = R_X86_64_RELATIVE then Some (le_bytes 8 (B + A))
     else case S of None \<Rightarrow> None
       | Some s \<Rightarrow> c_switch rtype [(R_X86_64_64, Some (le_bytes 8 (s + A))), (R_X86_64_PC32, Some (le_bytes 4 (s + A - P))),
           (R_X86_64_32S, Some (le_bytes 4 (s + A))), (R_X86_64_GLOB_DAT, Some (le_bytes 8 s)),
           (R_X86_64_JMP_SLOT, Some (le_bytes 8 s))] None)"

text \<open>The addend: the one of the entry, or what the field holds, as a signed number of the field's width.\<close>

definition abi_addend :: "u64 \<Rightarrow> nat \<Rightarrow> i32 \<Rightarrow> mem \<Rightarrow> u64" where
  "abi_addend relocbase data type m =
    (let p = unat (relocbase + ld64 m data) in
     if type = ELF_RELOC_RELA then ld64 m (data + 16)
     else if ELF_R_TYPE (ld64 m (data + 8)) \<in> {R_X86_64_PC32, R_X86_64_32S} then scast (ld32 m p) else ld64 m p)"

definition symbol :: "'lf elf_lookup_fn \<Rightarrow> 'lf \<Rightarrow> u64 \<Rightarrow> u64 option" where
  "symbol lookup lf i = (case lookup lf i 1 of (error, addr) \<Rightarrow> if error = 0 then Some addr else None)"

definition entry_bytes :: "'lf \<Rightarrow> u64 \<Rightarrow> nat \<Rightarrow> i32 \<Rightarrow> 'lf elf_lookup_fn \<Rightarrow> mem \<Rightarrow> u8 list option" where
  "entry_bytes lf relocbase data type lookup m =
    field_bytes (ELF_R_TYPE (ld64 m (data + 8))) (symbol lookup lf (ELF_R_SYM (ld64 m (data + 8))))
      (abi_addend relocbase data type m) (relocbase + ld64 m data) relocbase"

definition reloc_place :: "u64 \<Rightarrow> nat \<Rightarrow> mem \<Rightarrow> nat" where
  "reloc_place relocbase data m = unat (relocbase + ld64 m data)"

lemma st64_le_bytes: "st64 p v m = mwrite p (le_bytes 8 v) m"
  by (rule ext) (auto simp: st64_def mwrite_def)

lemma st32_le_bytes: "st32 p (ucast v) m = mwrite p (le_bytes 4 v) m"
proof (rule ext)
  fix a
  have "(ucast (drop_bit (8 * i) (ucast v :: u32)) :: u8) = ucast (drop_bit (8 * i) v)" if "i < 4" for i
    using that by (intro bit_word_eqI) (auto simp: bit_simps)
  then show "st32 p (ucast v) m a = mwrite p (le_bytes 4 v) m a" by (auto simp: st32_def mwrite_def)
qed

lemma mem_byte_ld64: "i < 8 \<Longrightarrow> m (p + i) = ucast (drop_bit (8 * i) (ld64 m p))"
  by (rule bit_word_eqI) (simp add: bit_simps bit_ld64)

lemma mem_byte_ld32: "i < 4 \<Longrightarrow> m (p + i) = ucast (drop_bit (8 * i) (ld32 m p))"
  by (rule bit_word_eqI) (simp add: bit_simps bit_ld32)

lemma put64_le_bytes: "put64 p v m = mwrite p (le_bytes 8 v) m"
proof (cases "ld64 m p = v")
  case True
  have "st64 p (ld64 m p) m = m"
    by (rule ext) (auto simp: st64_def le_iff_add mem_byte_ld64)
  then show ?thesis using True by (simp add: put64_def flip: st64_le_bytes)
qed (simp add: put64_def st64_le_bytes)

lemma put32_le_bytes: "put32 p (ucast v) m = mwrite p (le_bytes 4 v) m"
proof (cases "ld32 m p = ucast v")
  case True
  have "st32 p (ld32 m p) m = m"
    by (rule ext) (auto simp: st32_def le_iff_add mem_byte_ld32)
  then show ?thesis using True by (simp add: put32_def flip: st32_le_bytes)
qed (simp add: put32_def st32_le_bytes)

lemma ucast_add: "(ucast (a + b :: u64) :: u32) = ucast a + ucast b"
proof -
  have "take_bit 32 (x + y) = take_bit 32 (take_bit 64 x + take_bit 64 y)" for x y :: int
    using take_bit_add [of 32 x y] take_bit_add [of 32 "take_bit 64 x" "take_bit 64 y"] by simp
  then show ?thesis by transfer simp
qed

lemma ucast_scast: "(ucast (scast (a :: u32) :: u64) :: u32) = a" "(ucast (ucast (a :: u32) :: u64) :: u32) = a"
  by (rule bit_word_eqI, auto simp: bit_simps)+

text \<open>Sign and zero extension of the addend agree in the 32 bits that are stored.\<close>

lemma le_bytes_cong: "(ucast v :: u32) = ucast w \<Longrightarrow> le_bytes 4 v = le_bytes 4 w"
proof (rule nth_equalityI)
  fix i assume "(ucast v :: u32) = ucast w" "i < length (le_bytes 4 v)"
  moreover have "le_bytes 4 v ! i = ucast (drop_bit (8 * i) (ucast v :: u32))" if "i < 4" for i v
    using that by (auto intro!: bit_word_eqI simp: bit_simps)
  ultimately show "le_bytes 4 v ! i = le_bytes 4 w ! i" by simp
qed simp

lemma ucast_scast_add: "(ucast (s + scast (a :: u32) :: u64) :: u32) = ucast (s + ucast a)"
  "(ucast (s + scast (a :: u32) - p :: u64) :: u32) = ucast (s + ucast a - p)"
  using ucast_add [of "s + scast a" "- p"] ucast_add [of "s + ucast a" "- p"] by (simp_all add: ucast_add ucast_scast)

lemmas le_bytes_scast = ucast_scast_add [THEN le_bytes_cong]

text \<open>The messages, by type of relocation.\<close>

definition complaints :: "u64 \<Rightarrow> complaint list" where
  "complaints rtype = (if rtype = R_X86_64_COPY then [Unexpected_copy]
     else if rtype \<in> {R_X86_64_NONE, R_X86_64_64, R_X86_64_PC32, R_X86_64_32S, R_X86_64_GLOB_DAT, R_X86_64_JMP_SLOT,
       R_X86_64_RELATIVE} then [] else [Unexpected_type rtype])"

text \<open>Both widths, and both kinds of entry, as one write of bytes.  The 32-bit addends, which the code extends with zeros instead of their
  sign, are stored as if extended.\<close>

lemma elf_reloc_stores:
  assumes "type = ELF_RELOC_REL \<or> type = ELF_RELOC_RELA"
  shows "elf_reloc lf relocbase data type lookup m =
    (let said = complaints (ELF_R_TYPE (ld64 m (data + 8))) in
     case entry_bytes lf relocbase data type lookup m of
       Some bs \<Rightarrow> Inr (0, said, mwrite (reloc_place relocbase data m) bs m)
     | None \<Rightarrow> Inr (-1, said, m))"
proof -
  have "type = ELF_RELOC_RELA \<or> type = ELF_RELOC_REL \<and> type \<noteq> ELF_RELOC_RELA" using assms by auto
  then show ?thesis
    by (auto simp: elf_reloc_def elf_reloc_internal_def reloc_entry_def Let_def entry_bytes_def field_bytes_def symbol_def abi_addend_def
        reloc_place_def put64_le_bytes put32_le_bytes le_bytes_scast complaints_def split: prod.splits option.splits)
qed

section \<open>The table of the ABI\<close>

















section \<open>A table of entries\<close>

text \<open>Memory after one entry with addend; a failed one leaves it alone.\<close>

definition elf_mem :: "'lf \<Rightarrow> u64 \<Rightarrow> 'lf elf_lookup_fn \<Rightarrow> nat \<Rightarrow> mem \<Rightarrow> mem" where
  "elf_mem lf relocbase lookup data m =
    (case elf_reloc lf relocbase data ELF_RELOC_RELA lookup m of Inl e \<Rightarrow> m | Inr (rc, said, m') \<Rightarrow> m')"

text \<open>No relocation goes to an entry of the table, nor two of them to the same bytes.\<close>

definition relocs_apart :: "u64 \<Rightarrow> nat set \<Rightarrow> mem \<Rightarrow> bool" where
  "relocs_apart relocbase D m \<longleftrightarrow>
    (\<forall>d\<in>D. \<forall>d'\<in>D. {reloc_place relocbase d m..<reloc_place relocbase d m + 8} \<inter> {d'..<d' + 24} = {} \<and>
       (d \<noteq> d' \<longrightarrow> {reloc_place relocbase d m..<reloc_place relocbase d m + 8} \<inter>
          {reloc_place relocbase d' m..<reloc_place relocbase d' m + 8} = {}))"

definition stored_bytes :: "'lf \<Rightarrow> u64 \<Rightarrow> 'lf elf_lookup_fn \<Rightarrow> nat \<Rightarrow> mem \<Rightarrow> u8 list" where
  "stored_bytes lf relocbase lookup data m = (case entry_bytes lf relocbase data ELF_RELOC_RELA lookup m of None \<Rightarrow> [] | Some bs \<Rightarrow> bs)"

lemma elf_mem_mwrite: "elf_mem lf relocbase lookup d m = mwrite (reloc_place relocbase d m) (stored_bytes lf relocbase lookup d m) m"
  by (simp add: elf_mem_def stored_bytes_def elf_reloc_stores Let_def split: option.splits)

lemma length_stored_bytes: "length (stored_bytes lf relocbase lookup d m) \<le> 8"
  by (auto simp: stored_bytes_def entry_bytes_def field_bytes_def split: option.splits if_splits)

lemma entry_cong:
  assumes "\<And>a. a \<in> {d..<d + 24} \<Longrightarrow> m a = m' a"
  shows "stored_bytes lf relocbase lookup d m = stored_bytes lf relocbase lookup d m'"
    and "reloc_place relocbase d m = reloc_place relocbase d m'"
proof -
  have "ld64 m d = ld64 m' d" "ld64 m (d + 8) = ld64 m' (d + 8)" "ld64 m (d + 16) = ld64 m' (d + 16)"
    by (rule ld64_cong, simp add: assms)+
  then show "stored_bytes lf relocbase lookup d m = stored_bytes lf relocbase lookup d m'"
    "reloc_place relocbase d m = reloc_place relocbase d m'"
    by (simp_all add: stored_bytes_def entry_bytes_def abi_addend_def reloc_place_def)
qed

lemma fold_mwrite_outside:
  "\<forall>d\<in>set ds. a \<notin> {p d..<p d + length (bs d)} \<Longrightarrow> fold (\<lambda>d. mwrite (p d) (bs d)) ds m a = m a"
  by (induction ds arbitrary: m) (auto simp: mwrite_def)

lemma fold_mwrite_inside:
  assumes "\<And>d d'. d \<in> set ds \<Longrightarrow> d' \<in> set ds \<Longrightarrow> d \<noteq> d' \<Longrightarrow>
      {p d..<p d + length (bs d)} \<inter> {p d'..<p d' + length (bs d')} = {}"
    and "d \<in> set ds" and "i < length (bs d)"
  shows "fold (\<lambda>d. mwrite (p d) (bs d)) ds m (p d + i) = bs d ! i"
  using assms
proof (induction ds rule: rev_induct)
  case (snoc x ds)
  show ?case
  proof (cases "x = d")
    case True
    then show ?thesis using snoc.prems by (simp add: mwrite_inside)
  next
    case False
    then have "{p d..<p d + length (bs d)} \<inter> {p x..<p x + length (bs x)} = {}" using snoc.prems by (intro snoc.prems(1)) auto
    moreover have "p d + i \<in> {p d..<p d + length (bs d)}" using snoc.prems(3) by simp
    ultimately have "p d + i \<notin> {p x..<p x + length (bs x)}" by blast
    then have "p d + i < p x \<or> p x + length (bs x) \<le> p d + i" by auto
    moreover have "fold (\<lambda>d. mwrite (p d) (bs d)) ds m (p d + i) = bs d ! i"
      by (rule snoc.IH) (use snoc.prems False in auto)
    ultimately show ?thesis by (simp add: mwrite_outside)
  qed
qed simp

lemma fold_mwrite_set:
  assumes "\<And>d d'. d \<in> set ds \<Longrightarrow> d' \<in> set ds \<Longrightarrow> d \<noteq> d' \<Longrightarrow>
      {p d..<p d + length (bs d)} \<inter> {p d'..<p d' + length (bs d')} = {}"
    and "set ds' = set ds"
  shows "fold (\<lambda>d. mwrite (p d) (bs d)) ds m = fold (\<lambda>d. mwrite (p d) (bs d)) ds' m"
proof (rule ext)
  fix a
  show "fold (\<lambda>d. mwrite (p d) (bs d)) ds m a = fold (\<lambda>d. mwrite (p d) (bs d)) ds' m a"
  proof (cases "\<exists>d\<in>set ds. a \<in> {p d..<p d + length (bs d)}")
    case True
    then obtain d i where "d \<in> set ds" "i < length (bs d)" "a = p d + i"
      by (auto simp: le_iff_add)
    then show ?thesis
      using fold_mwrite_inside [of ds p bs d i m] fold_mwrite_inside [of ds' p bs d i m] assms by auto
  next
    case False
    then show ?thesis using assms(2) by (simp add: fold_mwrite_outside)
  qed
qed

lemma fold_elf_mem:
  assumes "relocs_apart relocbase D m" and "set ds \<subseteq> D" and "\<forall>d\<in>D. \<forall>a\<in>{d..<d + 24}. x a = m a"
  shows "fold (elf_mem lf relocbase lookup) ds x =
    fold (\<lambda>d. mwrite (reloc_place relocbase d m) (stored_bytes lf relocbase lookup d m)) ds x"
  using assms(2,3)
proof (induction ds arbitrary: x)
  case (Cons d ds)
  have same: "stored_bytes lf relocbase lookup d x = stored_bytes lf relocbase lookup d m"
    "reloc_place relocbase d x = reloc_place relocbase d m"
    by (rule entry_cong, use Cons.prems in auto)+
  have "elf_mem lf relocbase lookup d x a = x a" if "d' \<in> D" "a \<in> {d'..<d' + 24}" for d' a
  proof -
    have "{reloc_place relocbase d m..<reloc_place relocbase d m + 8} \<inter> {d'..<d' + 24} = {}"
      using assms(1) that(1) Cons.prems(1) by (simp add: relocs_apart_def)
    then have "a \<notin> {reloc_place relocbase d m..<reloc_place relocbase d m + 8}" using that(2) by blast
    then show ?thesis
      using length_stored_bytes [of lf relocbase lookup d m] by (auto simp: elf_mem_mwrite same mwrite_def)
  qed
  then show ?case using Cons.IH [of "elf_mem lf relocbase lookup d x"] Cons.prems by (simp add: elf_mem_mwrite same)
qed simp

text \<open>C30: the order of relocations does not matter.  When the places of a table of entries with addends are apart from each other
  and from the table, processing the entries in any order, and any of them more than once, gives the same memory.\<close>

theorem elf_relocs_any_order:
  assumes "relocs_apart relocbase (set ds) m" and "set ds' = set ds"
  shows "fold (elf_mem lf relocbase lookup) ds m = fold (elf_mem lf relocbase lookup) ds' m"
proof -
  let ?p = "\<lambda>d. reloc_place relocbase d m" and ?bs = "\<lambda>d. stored_bytes lf relocbase lookup d m"
  have "{?p d..<?p d + length (?bs d)} \<inter> {?p d'..<?p d' + length (?bs d')} = {}" if "d \<in> set ds" "d' \<in> set ds" "d \<noteq> d'" for d d'
  proof -
    have "{?p d..<?p d + 8} \<inter> {?p d'..<?p d' + 8} = {}" using assms(1) that unfolding relocs_apart_def by blast
    moreover have "{?p d..<?p d + length (?bs d)} \<subseteq> {?p d..<?p d + 8}" for d
      using length_stored_bytes [of lf relocbase lookup d m] by auto
    ultimately show ?thesis using Int_mono by (metis subset_empty)
  qed
  note same = fold_mwrite_set [of ds ?p ?bs ds' m, OF this assms(2)]
  have "fold (elf_mem lf relocbase lookup) ds m = fold (\<lambda>d. mwrite (?p d) (?bs d)) ds m"
    by (rule fold_elf_mem [OF assms(1)]) simp_all
  moreover have "fold (elf_mem lf relocbase lookup) ds' m = fold (\<lambda>d. mwrite (?p d) (?bs d)) ds' m"
    by (rule fold_elf_mem [OF assms(1)]) (simp_all add: assms(2))
  ultimately show ?thesis using same by simp
qed

theorem elf_relocs_any_order_witness:
  "fold (elf_mem () 0x1000 (\<lambda>_ _ _. (2, 0))) [256, 280] ((\<lambda>_. 0)(257 := 0x20, 264 := 8, 272 := 5, 281 := 0x30, 288 := 8, 296 := 7)) =
   fold (elf_mem () 0x1000 (\<lambda>_ _ _. (2, 0))) [280, 256, 280] ((\<lambda>_. 0)(257 := 0x20, 264 := 8, 272 := 5, 281 := 0x30, 288 := 8, 296 := 7))"
proof -
  let ?m = "(\<lambda>_. 0)(257 := 0x20, 264 := 8, 272 := 5, 281 := 0x30, 288 := 8, 296 := 7) :: mem"
  have places: "reloc_place 0x1000 256 ?m = 0x3000" "reloc_place 0x1000 280 ?m = 0x4000"
    by (simp_all add: reloc_place_def ld64_def ld32_def)
  have "b \<le> c \<or> d \<le> a \<Longrightarrow> {a..<b} \<inter> {c..<d} = {}" for a b c d :: nat
    by auto
  then have "relocs_apart 0x1000 (set [256, 280]) ?m" unfolding relocs_apart_def by (simp add: places)
  then show ?thesis by (rule elf_relocs_any_order) auto
qed

end
