(* ===== verification/LB_Pcap.thy ===== *)
theory LB_Pcap
  imports LB_Tx LB_Bytes LB_Digits
begin

text \<open>
  Packet capture, \<^verbatim>\<open>src/lazybsd_pcap.c\<close> (\<^verbatim>\<open>src/lazybsd_dpdk.cc\<close> has a second copy of \<open>lazybsd_enable_pcap\<close>) and the loop of
  \<open>send_burst\<close> that captures what is sent.  The files are a map from paths to their bytes, in which \<open>fopen\<close> empties the file it opens
  and \<open>fwrite\<close> appends; whether a path can be opened is a parameter.  Writes succeed, as the code assumes.  A packet is its chain of
  segments, whose bytes lie in byte memory.

  A reader of the pcap format written from its documentation says what the files hold: they are well formed after
  any sequence of packets, and hold the packets that were captured.
\<close>

section \<open>State\<close>

text \<open>The three variables of the file, one set per core, and the files.\<close>

record pcap =
  files :: "string \<Rightarrow> u8 list option"
  g_pcap_fp :: "string option"
  seq :: u32
  g_flen :: u32

abbreviation (input) FILE_PATH_LEN :: nat where "FILE_PATH_LEN \<equiv> 64"
abbreviation (input) PCAP_FILE_NUM :: u32 where "PCAP_FILE_NUM \<equiv> 10"

definition fwrite :: "u8 list \<Rightarrow> pcap \<Rightarrow> pcap" where
  "fwrite bs st = (case g_pcap_fp st of None \<Rightarrow> st
     | Some p \<Rightarrow> st\<lparr>files := (files st)(p \<mapsto> (case files st p of None \<Rightarrow> [] | Some old \<Rightarrow> old) @ bs)\<rparr>)"

abbreviation le32 :: "u32 \<Rightarrow> u8 list" where
  "le32 v \<equiv> le_bytes 4 (ucast v)"

text \<open>\<open>struct pcap_file_header\<close> and \<open>struct pcap_pkthdr\<close> as they lie in memory.\<close>

definition pcap_file_header :: "u32 \<Rightarrow> u8 list" where
  "pcap_file_header snaplen = le32 0xA1B2C3D4 @ le_bytes 2 2 @ le_bytes 2 4 @ le32 0 @ le32 0 @ le32 snaplen @ le32 1"

definition pcap_pkthdr :: "u32 \<Rightarrow> u32 \<Rightarrow> u32 \<Rightarrow> u32 \<Rightarrow> u8 list" where
  "pcap_pkthdr sec usec caplen len = le32 sec @ le32 usec @ le32 caplen @ le32 len"

section \<open>Opening a file\<close>

text \<open>\<open>%d\<close> of an unsigned number.\<close>

definition show_d :: "u32 \<Rightarrow> string" where
  "show_d v = (if sint v < 0 then ''-'' @ show_nat (nat (- sint v)) else show_nat (nat (sint v)))"

definition pcap_path :: "string option \<Rightarrow> u32 \<Rightarrow> u32 \<Rightarrow> string" where
  "pcap_path dump_path lcore n =
    take (FILE_PATH_LEN - 1) ((case dump_path of None \<Rightarrow> ''.'' | Some d \<Rightarrow> d) @ ''/cpu'' @ show_d lcore @ ''_'' @ show_d n @ ''.pcap'')"

text \<open>\<open>rte_exit\<close> ends the process.\<close>

definition lazybsd_enable_pcap ::
  "(string \<Rightarrow> bool) \<Rightarrow> u32 \<Rightarrow> string option \<Rightarrow> u16 \<Rightarrow> pcap \<Rightarrow> (i32 \<times> pcap) kresult" where
  "lazybsd_enable_pcap can_open lcore dump_path snap_len st =
    (let path = pcap_path dump_path lcore (seq st) in
     if \<not> can_open path then Inl (Panic ''Cannot open pcap dump path'')
     else let st = st\<lparr>files := (files st)(path \<mapsto> []), g_pcap_fp := Some path, g_flen := 0\<rparr>;
              st = fwrite (pcap_file_header (ucast snap_len)) st
          in Inr (0, st\<lparr>g_flen := g_flen st + 24\<rparr>))"

section \<open>Capturing a packet\<close>

text \<open>The loop over the segments, which ends after the last of them or when more than \<open>snap_len\<close> bytes are out; it yields
  \<open>out_len\<close>.\<close>

fun dump_segments :: "mem \<Rightarrow> packet \<Rightarrow> nat \<Rightarrow> nat \<Rightarrow> pcap \<Rightarrow> nat \<times> pcap" where
  "dump_segments m [] snap_len out_len st = (out_len, st)"
| "dump_segments m (pkt # next) snap_len out_len st =
    (if out_len \<le> snap_len then
       let wr_len = snap_len - out_len;
           wr_len = (if wr_len > data_len pkt then data_len pkt else wr_len)
       in dump_segments m next snap_len (out_len + wr_len) (fwrite (mread m (rte_pktmbuf_mtod pkt) wr_len) st)
     else (out_len, st))"

text \<open>\<open>ts\<close> is what \<open>gettimeofday\<close> answers.  The file is changed for the next of the ten when it has reached \<open>f_maxlen\<close> bytes.\<close>

definition lazybsd_dump_packets ::
  "(string \<Rightarrow> bool) \<Rightarrow> u32 \<Rightarrow> mem \<Rightarrow> u64 \<times> u64 \<Rightarrow> string option \<Rightarrow> packet \<Rightarrow> u16 \<Rightarrow> u32 \<Rightarrow> pcap \<Rightarrow> (i32 \<times> pcap) kresult" where
  "lazybsd_dump_packets can_open lcore m ts dump_path pkt snap_len f_maxlen st =
    (if g_pcap_fp st = None then Inr (-1, st)
     else case pkt of [] \<Rightarrow> Inl (Panic ''null pointer'')
     | m0 # _ \<Rightarrow>
       let snap_len = (if pkt_len m0 < ucast snap_len then ucast (pkt_len m0) else snap_len);
           st = fwrite (pcap_pkthdr (ucast (fst ts)) (ucast (snd ts)) (ucast snap_len) (pkt_len m0)) st;
           st = st\<lparr>g_flen := g_flen st + 16\<rparr>;
           (out_len, st) = dump_segments m pkt (unat snap_len) 0 st;
           st = st\<lparr>g_flen := g_flen st + word_of_nat out_len\<rparr>
       in if g_flen st \<ge> f_maxlen then
            let st = st\<lparr>seq := (if seq st + 1 \<ge> PCAP_FILE_NUM then 0 else seq st + 1)\<rparr>
            in case lazybsd_enable_pcap can_open lcore dump_path snap_len st of Inl e \<Rightarrow> Inl e | Inr (_, st) \<Rightarrow> Inr (0, st)
          else Inr (0, st))"

text \<open>The packets of a burst, captured one after the other, each at its time.\<close>

fun dump_burst ::
  "(string \<Rightarrow> bool) \<Rightarrow> u32 \<Rightarrow> mem \<Rightarrow> string option \<Rightarrow> u16 \<Rightarrow> u32 \<Rightarrow> ((u64 \<times> u64) \<times> packet) list \<Rightarrow> pcap \<Rightarrow> pcap kresult" where
  "dump_burst can_open lcore m save_path snap_len save_len [] st = Inr st"
| "dump_burst can_open lcore m save_path snap_len save_len ((ts, pkt) # pkts) st =
    (case lazybsd_dump_packets can_open lcore m ts save_path pkt snap_len save_len st of
       Inl e \<Rightarrow> Inl e
     | Inr (_, st) \<Rightarrow> dump_burst can_open lcore m save_path snap_len save_len pkts st)"

section \<open>Reading a capture file\<close>

text \<open>A captured packet: the time in seconds and microseconds, the length on the wire and the bytes kept of it.\<close>

record captured =
  cap_sec :: u32
  cap_usec :: u32
  wire_len :: u32
  cap_bytes :: "u8 list"

definition rd32 :: "u8 list \<Rightarrow> u32" where
  "rd32 bs = ld32 (\<lambda>i. bs ! i) 0"

function read_records :: "u8 list \<Rightarrow> captured list option" where
  "read_records bs =
    (if bs = [] then Some []
     else if length bs < 16 then None
     else let caplen = unat (rd32 (drop 8 bs)); rest = drop 16 bs in
       if length rest < caplen then None
       else map_option (Cons \<lparr>cap_sec = rd32 bs, cap_usec = rd32 (drop 4 bs), wire_len = rd32 (drop 12 bs), cap_bytes = take caplen rest\<rparr>)
              (read_records (drop caplen rest)))"
  by pat_completeness auto
termination by (relation "measure length") auto

declare read_records.simps [simp del]

text \<open>The snapshot length and the packets of a file.\<close>

definition read_pcap :: "u8 list \<Rightarrow> (u32 \<times> captured list) option" where
  "read_pcap bs =
    (if length bs < 24 then None
     else let snaplen = rd32 (drop 16 bs) in
       if take 24 bs = pcap_file_header snaplen then map_option (Pair snaplen) (read_records (drop 24 bs)) else None)"

text \<open>What a packet becomes: the first bytes of its segments.\<close>

definition packet_bytes :: "mem \<Rightarrow> packet \<Rightarrow> u8 list" where
  "packet_bytes m pkt = concat (map (\<lambda>s. mread m (rte_pktmbuf_mtod s) (data_len s)) pkt)"

definition capture :: "mem \<Rightarrow> u16 \<Rightarrow> (u64 \<times> u64) \<times> packet \<Rightarrow> captured" where
  "capture m snap_len = (\<lambda>(ts, pkt). \<lparr>cap_sec = ucast (fst ts), cap_usec = ucast (snd ts), wire_len = pkt_len (hd pkt),
     cap_bytes = take (unat snap_len) (packet_bytes m pkt)\<rparr>)"

text \<open>A chain whose packet length is the length of its segments.\<close>

definition whole :: "packet \<Rightarrow> bool" where
  "whole pkt \<longleftrightarrow> pkt \<noteq> [] \<and> unat (pkt_len (hd pkt)) = sum_list (map data_len pkt)"

definition record_bytes :: "captured \<Rightarrow> u8 list" where
  "record_bytes c = pcap_pkthdr (cap_sec c) (cap_usec c) (word_of_nat (length (cap_bytes c))) (wire_len c) @ cap_bytes c"

section \<open>Reading what was written\<close>

lemma rd32_le32 [simp]: "rd32 (le32 v @ rest) = v"
  by (rule bit_word_eqI) (simp add: rd32_def bit_ld32 nth_append bit_simps less_mult_imp_div_less)

lemma length_pcap_file_header [simp]: "length (pcap_file_header s) = 24"
  by (simp add: pcap_file_header_def)

lemma length_pcap_pkthdr [simp]: "length (pcap_pkthdr a b c d) = 16"
  by (simp add: pcap_pkthdr_def)

lemma rd32_fields [simp]:
  "rd32 (pcap_pkthdr a b c d @ rest) = a" "rd32 (drop 4 (pcap_pkthdr a b c d @ rest)) = b"
  "rd32 (drop 8 (pcap_pkthdr a b c d @ rest)) = c" "rd32 (drop 12 (pcap_pkthdr a b c d @ rest)) = d"
  "rd32 (drop 16 (pcap_file_header s @ rest)) = s"
  by (simp_all add: pcap_pkthdr_def pcap_file_header_def)

lemma captured_eta [simp]: "\<lparr>cap_sec = cap_sec c, cap_usec = cap_usec c, wire_len = wire_len c, cap_bytes = cap_bytes c\<rparr> = c"
  by (cases c) simp

lemma read_records_record:
  assumes "length (cap_bytes c) < 2 ^ 32"
  shows "read_records (record_bytes c @ rest) = map_option (Cons c) (read_records rest)"
proof -
  have "unat (word_of_nat (length (cap_bytes c)) :: u32) = length (cap_bytes c)"
    using assms by (simp add: unat_of_nat take_bit_nat_eq_self)
  moreover have "drop 16 (pcap_pkthdr a b n d @ r) = r" "pcap_pkthdr a b n d \<noteq> []" for a b n d r
    using length_pcap_pkthdr [of a b n d] by (simp, force simp del: length_pcap_pkthdr)
  moreover have "drop (length xs) (xs @ r) = r" for xs r :: "u8 list" by simp
  ultimately show ?thesis
    by (subst read_records.simps) (simp add: record_bytes_def Let_def del: drop_append)
qed

lemma rd32_append: "4 \<le> length xs \<Longrightarrow> rd32 (xs @ ys) = rd32 xs"
  by (auto simp: rd32_def nth_append intro!: ld32_cong)

lemma read_records_append: "read_records xs = Some cs \<Longrightarrow> read_records (xs @ ys) = map_option ((@) cs) (read_records ys)"
proof (induction xs arbitrary: cs rule: read_records.induct)
  case (1 bs)
  show ?case
  proof (cases "bs = []")
    case True
    then have "cs = []" using "1.prems" by (simp add: read_records.simps)
    then show ?thesis using True by (cases "read_records ys") auto
  next
    case False
    let ?n = "unat (rd32 (drop 8 bs))"
    have long: "16 \<le> length bs" "?n \<le> length bs - 16"
      using "1.prems" False by (auto simp: read_records.simps [of bs] Let_def split: if_splits)
    from "1.prems" False obtain c cs' where "cs = c # cs'" "read_records (drop ?n (drop 16 bs)) = Some cs'"
      and c: "c = \<lparr>cap_sec = rd32 bs, cap_usec = rd32 (drop 4 bs), wire_len = rd32 (drop 12 bs), cap_bytes = take ?n (drop 16 bs)\<rparr>"
      by (auto simp: read_records.simps [of bs] Let_def split: if_splits)
    moreover from this(2) have "read_records (drop ?n (drop 16 bs) @ ys) = map_option ((@) cs') (read_records ys)"
      using False long by (intro "1.IH") auto
    moreover have "(@) (c # cs') = (\<lambda>x. c # cs' @ x)" by auto
    ultimately show ?thesis
      using long False by (subst read_records.simps) (auto simp: Let_def rd32_append option.map_comp comp_def)
  qed
qed

lemma read_pcap_append:
  assumes "read_pcap f = Some (s, cs)" and "length (cap_bytes c) < 2 ^ 32"
  shows "read_pcap (f @ record_bytes c) = Some (s, cs @ [c])"
proof -
  have f: "24 \<le> length f" "rd32 (drop 16 f) = s" "take 24 f = pcap_file_header s" "read_records (drop 24 f) = Some cs"
    using assms(1) by (auto simp: read_pcap_def Let_def split: if_splits)
  have "read_records (record_bytes c) = Some [c]"
    using read_records_record [OF assms(2), of "[]"] by (simp add: read_records.simps [of "[]"])
  then show ?thesis
    using f read_records_append [OF f(4), of "record_bytes c"] by (simp add: read_pcap_def Let_def rd32_append)
qed

lemma read_pcap_header: "read_pcap (pcap_file_header s) = Some (s, [])"
  using rd32_fields(5) [of s "[]"] by (simp add: read_pcap_def read_records.simps [of "[]"])

section \<open>What is written\<close>

lemma fwrite_open:
  "g_pcap_fp st = Some p \<Longrightarrow> files st p = Some f \<Longrightarrow> fwrite bs st = st\<lparr>files := (files st)(p \<mapsto> f @ bs)\<rparr>"
  by (simp add: fwrite_def)

lemma dump_segments_writes:
  "g_pcap_fp st = Some p \<Longrightarrow> files st p = Some f \<Longrightarrow> out_len \<le> s \<Longrightarrow>
    dump_segments m pkt s out_len st = (min s (out_len + sum_list (map data_len pkt)),
      st\<lparr>files := (files st)(p \<mapsto> f @ take (s - out_len) (packet_bytes m pkt))\<rparr>)"
proof (induction pkt arbitrary: out_len st f)
  case Nil
  then show ?case by (simp add: packet_bytes_def fun_upd_idem)
next
  case (Cons x pkt)
  have take': "k \<le> n \<Longrightarrow> take k (mread m a n) = mread m a k" for a k n
    by (rule nth_equalityI) auto
  let ?w = "min (s - out_len) (data_len x)"
  have "dump_segments m (x # pkt) s out_len st =
      dump_segments m pkt s (out_len + ?w) (fwrite (mread m (rte_pktmbuf_mtod x) ?w) st)"
    using Cons.prems(3) by (simp add: Let_def min_def not_le)
  also have "\<dots> = (min s (out_len + ?w + sum_list (map data_len pkt)),
      st\<lparr>files := (files st)(p \<mapsto> f @ mread m (rte_pktmbuf_mtod x) ?w @ take (s - (out_len + ?w)) (packet_bytes m pkt))\<rparr>)"
    using Cons.prems by (subst Cons.IH) (simp_all add: fwrite_open, simp only: append_assoc)
  also have "min s (out_len + ?w + sum_list (map data_len pkt)) = min s (out_len + sum_list (map data_len (x # pkt)))"
    using Cons.prems(3) by simp
  also have "f @ mread m (rte_pktmbuf_mtod x) ?w @ take (s - (out_len + ?w)) (packet_bytes m pkt) =
      f @ take (s - out_len) (packet_bytes m (x # pkt))"
    using Cons.prems(3) by (cases "data_len x \<le> s - out_len") (auto simp: packet_bytes_def take')
  finally show ?case .
qed

text \<open>One packet: its record is appended; when the file has reached its size the next one is opened, with the length of the
  record just written as its snapshot length.\<close>

lemma length_packet_bytes: "length (packet_bytes m pkt) = sum_list (map data_len pkt)"
  by (induction pkt) (auto simp: packet_bytes_def)

lemma unat_less_u16: "unat (s :: u16) < 65536"
  using unsigned_less [of s, where ?'a = nat] by simp

lemma unat_ucast_u16: "unat (ucast (s :: u16) :: u32) = unat s"
  unfolding unsigned_ucast_eq using unat_less_u16 [of s] by (intro take_bit_nat_eq_self) simp

lemma snap_length:
  "unat (if (n :: u32) < ucast (s :: u16) then ucast n else s) = min (unat n) (unat s)"
proof (cases "n < ucast s")
  case True
  then have "unat n < unat s" by (simp add: word_less_nat_alt unat_ucast_u16)
  moreover from this have "unat (ucast n :: u16) = unat n"
    using unat_less_u16 [of s] by (simp add: unsigned_ucast_eq take_bit_nat_eq_self)
  ultimately show ?thesis using True by simp
next
  case False
  then show ?thesis by (simp add: word_less_nat_alt unat_ucast_u16)
qed

lemma dump_packet:
  assumes "g_pcap_fp st = Some p" and "files st p = Some f" and "whole pkt" and c: "c = capture m snap_len (ts, pkt)"
    and st1: "st1 = st\<lparr>files := (files st)(p \<mapsto> f @ record_bytes c), g_flen := g_flen st + word_of_nat (length (record_bytes c))\<rparr>"
  shows "lazybsd_dump_packets can_open lcore m ts dump_path pkt snap_len f_maxlen st =
     (if g_flen st1 \<ge> f_maxlen then
        map_sum id (\<lambda>x. (0, snd x)) (lazybsd_enable_pcap can_open lcore dump_path (word_of_nat (length (cap_bytes c)))
          (st1\<lparr>seq := (if seq st1 + 1 \<ge> PCAP_FILE_NUM then 0 else seq st1 + 1)\<rparr>))
      else Inr (0, st1))"
    and "length (cap_bytes c) < 2 ^ 16"
proof -
  obtain x rest where pkt: "pkt = x # rest" and len: "unat (pkt_len x) = sum_list (map data_len pkt)"
    using assms(3) by (cases pkt) (auto simp: whole_def)
  define s where "s = (if pkt_len x < ucast snap_len then ucast (pkt_len x) else snap_len)"
  have s: "unat s = min (unat (pkt_len x)) (unat snap_len)" by (simp only: s_def snap_length)
  have bytes: "cap_bytes c = take (unat s) (packet_bytes m pkt)" and n: "length (cap_bytes c) = unat s"
    by (auto simp: c capture_def s length_packet_bytes len min_def)
  then show "length (cap_bytes c) < 2 ^ 16" using unat_less_u16 [of s] by simp
  have ns: "(word_of_nat (length (cap_bytes c)) :: u32) = ucast s" "(word_of_nat (length (cap_bytes c)) :: u16) = s"
    by (simp_all add: n)
  have c': "record_bytes c = pcap_pkthdr (ucast (fst ts)) (ucast (snd ts)) (ucast s) (pkt_len x) @ take (unat s) (packet_bytes m pkt)"
    unfolding record_bytes_def ns unfolding bytes by (simp add: c capture_def pkt)
  have all: "min (unat s) (sum_list (map data_len pkt)) = unat s" using s len by simp
  have flen: "(word_of_nat (length (record_bytes c)) :: u32) = 16 + ucast s"
    by (simp add: record_bytes_def n)
  have st1': "st1 = st\<lparr>files := (files st)(p \<mapsto> f @ pcap_pkthdr (ucast (fst ts)) (ucast (snd ts)) (ucast s) (pkt_len x) @
      take (unat s) (packet_bytes m pkt)), g_flen := g_flen st + (16 + ucast s)\<rparr>"
    using flen unfolding st1 c' by simp
  have reopen: "(case r of Inl e \<Rightarrow> Inl e | Inr (rc, st) \<Rightarrow> Inr (0, st)) = map_sum id (\<lambda>x. (0, snd x)) r" for r :: "(i32 \<times> pcap) kresult"
    by (cases r) auto
  show "lazybsd_dump_packets can_open lcore m ts dump_path pkt snap_len f_maxlen st =
     (if g_flen st1 \<ge> f_maxlen then
        map_sum id (\<lambda>x. (0, snd x)) (lazybsd_enable_pcap can_open lcore dump_path (word_of_nat (length (cap_bytes c)))
          (st1\<lparr>seq := (if seq st1 + 1 \<ge> PCAP_FILE_NUM then 0 else seq st1 + 1)\<rparr>))
      else Inr (0, st1))"
    unfolding lazybsd_dump_packets_def Let_def pkt list.case s_def [symmetric]
    unfolding pkt [symmetric] st1' reopen ns
    by (simp add: assms(1,2) fwrite_open dump_segments_writes all add.assoc)
qed

lemma enable_opens:
  assumes "can_open (pcap_path dump_path lcore (seq st))"
  shows "lazybsd_enable_pcap can_open lcore dump_path s st =
    Inr (0, st\<lparr>files := (files st)(pcap_path dump_path lcore (seq st) \<mapsto> pcap_file_header (ucast s)),
      g_pcap_fp := Some (pcap_path dump_path lcore (seq st)), g_flen := 24\<rparr>)"
  using assms by (simp add: lazybsd_enable_pcap_def Let_def fwrite_def)

section \<open>The files\<close>

text \<open>A file is open, and every file is a capture file.\<close>

definition pcap_ok :: "pcap \<Rightarrow> bool" where
  "pcap_ok st \<longleftrightarrow> (\<exists>p f. g_pcap_fp st = Some p \<and> files st p = Some f) \<and> (\<forall>p f. files st p = Some f \<longrightarrow> read_pcap f \<noteq> None)"

lemma enable_ok:
  assumes "can_open (pcap_path dump_path lcore (seq st))" and "\<forall>p f. files st p = Some f \<longrightarrow> read_pcap f \<noteq> None"
  shows "\<exists>st'. lazybsd_enable_pcap can_open lcore dump_path s st = Inr (0, st') \<and> pcap_ok st'"
  using assms by (simp add: enable_opens pcap_ok_def read_pcap_header)

lemma dump_ok:
  assumes "\<forall>path. can_open path" and "pcap_ok st" and "whole pkt"
  shows "\<exists>st'. lazybsd_dump_packets can_open lcore m ts dump_path pkt snap_len f_maxlen st = Inr (0, st') \<and> pcap_ok st'"
proof -
  obtain p f where f: "g_pcap_fp st = Some p" "files st p = Some f" "read_pcap f \<noteq> None"
    and ok: "\<forall>p f. files st p = Some f \<longrightarrow> read_pcap f \<noteq> None"
    using assms(2) by (auto simp: pcap_ok_def)
  obtain c where c: "c = capture m snap_len (ts, pkt)" by simp
  obtain st1 where st1: "st1 = st\<lparr>files := (files st)(p \<mapsto> f @ record_bytes c), g_flen := g_flen st + word_of_nat (length (record_bytes c))\<rparr>"
    by simp
  note dump = dump_packet [OF f(1,2) assms(3) c st1]
  obtain s cs where "read_pcap f = Some (s, cs)" using f(3) by auto
  then have "read_pcap (f @ record_bytes c) \<noteq> None"
    using read_pcap_append [of f s cs c] dump(2) by simp
  then have ok1: "\<forall>p f. files st1 p = Some f \<longrightarrow> read_pcap f \<noteq> None" using ok by (simp add: st1)
  obtain st2 where "lazybsd_enable_pcap can_open lcore dump_path (word_of_nat (length (cap_bytes c)))
      (st1\<lparr>seq := (if seq st1 + 1 \<ge> PCAP_FILE_NUM then 0 else seq st1 + 1)\<rparr>) = Inr (0, st2)" "pcap_ok st2"
    using enable_ok [of can_open dump_path lcore "st1\<lparr>seq := (if seq st1 + 1 \<ge> PCAP_FILE_NUM then 0 else seq st1 + 1)\<rparr>"
        "word_of_nat (length (cap_bytes c))"] assms(1) ok1 by force
  moreover have "pcap_ok st1" using ok1 f by (auto simp: pcap_ok_def st1)
  ultimately show ?thesis unfolding dump(1) by simp
qed

text \<open>C31: capture files are well formed.  From any set of capture files (none, say), opening a file and capturing any burst of
  packets ends with every file on disk a capture file with a header and complete records, whatever the snapshot length and the size at
  which the file is changed, as long as the files can be opened and each packet is as long as its segments together.\<close>

theorem pcap_files_well_formed:
  assumes "\<forall>path. can_open path" and "\<forall>p f. files st p = Some f \<longrightarrow> read_pcap f \<noteq> None"
    and "\<forall>(ts, pkt)\<in>set pkts. whole pkt"
  shows "\<exists>st0 st'. lazybsd_enable_pcap can_open lcore dump_path s st = Inr (0, st0) \<and>
    dump_burst can_open lcore m dump_path snap_len save_len pkts st0 = Inr st' \<and>
    (\<forall>p f. files st' p = Some f \<longrightarrow> read_pcap f \<noteq> None)"
proof -
  have run: "\<exists>st'. dump_burst can_open lcore m dump_path snap_len save_len pkts st0 = Inr st' \<and> pcap_ok st'" if "pcap_ok st0" for st0
    using that assms(3)
  proof (induction pkts arbitrary: st0)
    case (Cons tp pkts)
    obtain ts pkt where tp: "tp = (ts, pkt)" by (cases tp)
    then obtain st1 where "lazybsd_dump_packets can_open lcore m ts dump_path pkt snap_len save_len st0 = Inr (0, st1)" "pcap_ok st1"
      using dump_ok [OF assms(1) Cons.prems(1), of pkt lcore m ts dump_path snap_len save_len] Cons.prems(2) by auto
    then show ?case using Cons.IH [of st1] Cons.prems(2) tp by simp
  qed simp
  obtain st0 where "lazybsd_enable_pcap can_open lcore dump_path s st = Inr (0, st0)" "pcap_ok st0"
    using enable_ok [of can_open dump_path lcore st s] assms(1,2) by auto
  then show ?thesis using run [of st0] by (auto simp: pcap_ok_def)
qed

definition demo_packet :: packet where
  "demo_packet = [\<lparr>addr = 1, buf_addr = 4096, buf_iova = 0, data_off = 128, data_len = 4, pkt_len = 7, nb_segs = 2, ol_flags = {},
     vlan_tci = 0, l2_len = 0, l3_len = 0, l4_len = 0, tso_segsz = 0\<rparr>,
     \<lparr>addr = 2, buf_addr = 8192, buf_iova = 0, data_off = 0, data_len = 3, pkt_len = 3, nb_segs = 1, ol_flags = {},
     vlan_tci = 0, l2_len = 0, l3_len = 0, l4_len = 0, tso_segsz = 0\<rparr>]"

lemma whole_demo: "whole demo_packet"
  by (simp add: whole_def demo_packet_def)

definition demo_pcap :: pcap where
  "demo_pcap = \<lparr>files = Map.empty, g_pcap_fp = None, seq = 0, g_flen = 0\<rparr>"

theorem pcap_files_well_formed_witness:
  "\<exists>st0 st'. lazybsd_enable_pcap (\<lambda>_. True) 1 None 64 demo_pcap = Inr (0, st0) \<and>
    dump_burst (\<lambda>_. True) 1 (\<lambda>a. word_of_nat a) None 64 60 [((1, 2), demo_packet), ((1, 3), demo_packet)] st0 = Inr st' \<and>
    (\<forall>p f. files st' p = Some f \<longrightarrow> read_pcap f \<noteq> None)"
  by (rule pcap_files_well_formed) (simp_all add: demo_pcap_def whole_demo)

text \<open>C16: what was captured can be read back.  As long as the file stays below its size limit, the file holds after a burst
  exactly the packets of the burst in order, each with its time, its length on the wire and its first \<open>snap_len\<close> bytes, cut out of
  its segments; no other file changes.\<close>

theorem pcap_round_trip:
  assumes "can_open (pcap_path dump_path lcore (seq st))" and "\<forall>(ts, pkt)\<in>set pkts. whole pkt"
    and "24 + length (concat (map (\<lambda>p. record_bytes (capture m snap_len p)) pkts)) < unat save_len"
  shows "\<exists>st0 st' f. lazybsd_enable_pcap can_open lcore dump_path snap_len st = Inr (0, st0) \<and>
    dump_burst can_open lcore m dump_path snap_len save_len pkts st0 = Inr st' \<and>
    files st' = (files st)(pcap_path dump_path lcore (seq st) \<mapsto> f) \<and> read_pcap f = Some (ucast snap_len, map (capture m snap_len) pkts)"
proof -
  let ?p = "pcap_path dump_path lcore (seq st)"
  have run: "\<exists>st' f. dump_burst can_open lcore m dump_path snap_len save_len pkts x = Inr st' \<and>
      files st' = (files x)(?p \<mapsto> f) \<and> read_pcap f = Some (ucast snap_len, cs @ map (capture m snap_len) pkts)"
    if "g_pcap_fp x = Some ?p" "files x ?p = Some f0" "read_pcap f0 = Some (ucast snap_len, cs)" "\<forall>(ts, pkt)\<in>set pkts. whole pkt"
      "unat (g_flen x) + length (concat (map (\<lambda>p. record_bytes (capture m snap_len p)) pkts)) < unat save_len" for x f0 cs
    using that
  proof (induction pkts arbitrary: x f0 cs)
    case Nil
    then show ?case by (intro exI [of _ x] exI [of _ f0]) (simp add: fun_upd_idem)
  next
    case (Cons tp pkts)
    obtain ts pkt where tp: "tp = (ts, pkt)" by (cases tp)
    obtain c where c: "c = capture m snap_len (ts, pkt)" by simp
    obtain x1 where x1: "x1 = x\<lparr>files := (files x)(?p \<mapsto> f0 @ record_bytes c), g_flen := g_flen x + word_of_nat (length (record_bytes c))\<rparr>"
      by simp
    have "whole pkt" using Cons.prems(4) tp by simp
    note dump = dump_packet [OF Cons.prems(1,2) this c x1]
    have sum: "unat (g_flen x) + length (record_bytes c) + length (concat (map (\<lambda>p. record_bytes (capture m snap_len p)) pkts)) < unat save_len"
      using Cons.prems(5) by (simp add: tp c)
    moreover have "unat save_len < 2 ^ 32" using unsigned_less [of save_len, where ?'a = nat] by simp
    ultimately have "unat (g_flen x + word_of_nat (length (record_bytes c))) = unat (g_flen x) + length (record_bytes c)"
      by (simp add: unat_word_ariths unat_of_nat)
    then have n: "unat (g_flen x1) = unat (g_flen x) + length (record_bytes c)" by (simp add: x1)
    then have "\<not> g_flen x1 \<ge> save_len" using sum by (simp add: word_le_nat_alt)
    then have step: "lazybsd_dump_packets can_open lcore m ts dump_path pkt snap_len save_len x = Inr (0, x1)"
      unfolding dump(1) by simp
    have "read_pcap (f0 @ record_bytes c) = Some (ucast snap_len, cs @ [c])"
      using read_pcap_append [OF Cons.prems(3)] dump(2) by simp
    moreover have "g_pcap_fp x1 = Some ?p" "files x1 ?p = Some (f0 @ record_bytes c)" "\<forall>(ts, pkt)\<in>set pkts. whole pkt"
      using Cons.prems by (auto simp: x1)
    ultimately have "\<exists>st' f. dump_burst can_open lcore m dump_path snap_len save_len pkts x1 = Inr st' \<and>
        files st' = (files x1)(?p \<mapsto> f) \<and> read_pcap f = Some (ucast snap_len, (cs @ [c]) @ map (capture m snap_len) pkts)"
      by (intro Cons.IH) (simp_all add: n sum)
    then obtain st' f where "dump_burst can_open lcore m dump_path snap_len save_len pkts x1 = Inr st'"
        "files st' = (files x1)(?p \<mapsto> f)" "read_pcap f = Some (ucast snap_len, (cs @ [c]) @ map (capture m snap_len) pkts)"
      by (elim exE conjE)
    then show ?case using step by (intro exI [of _ st'] exI [of _ f]) (simp add: tp c x1)
  qed
  have "\<exists>st' f. dump_burst can_open lcore m dump_path snap_len save_len pkts x = Inr st' \<and>
      files st' = (files x)(?p \<mapsto> f) \<and> read_pcap f = Some (ucast snap_len, map (capture m snap_len) pkts)"
    if "x = st\<lparr>files := (files st)(?p \<mapsto> pcap_file_header (ucast snap_len)), g_pcap_fp := Some ?p, g_flen := 24\<rparr>" for x
    using that assms(2,3) run [of x "pcap_file_header (ucast snap_len)" "[]"] by (simp add: read_pcap_header)
  from this [OF refl] show ?thesis using assms(1) by (simp add: enable_opens)
qed

theorem pcap_round_trip_witness:
  "\<exists>st0 st' f. lazybsd_enable_pcap (\<lambda>_. True) 1 None 5 demo_pcap = Inr (0, st0) \<and>
    dump_burst (\<lambda>_. True) 1 (\<lambda>a. word_of_nat a) None 5 1000 [((1, 2), demo_packet), ((1, 3), demo_packet)] st0 = Inr st' \<and>
    files st' = [''./cpu1_0.pcap'' \<mapsto> f] \<and> read_pcap f = Some (5,
      [\<lparr>cap_sec = 1, cap_usec = 2, wire_len = 7, cap_bytes = [128, 129, 130, 131, 0]\<rparr>,
       \<lparr>cap_sec = 1, cap_usec = 3, wire_len = 7, cap_bytes = [128, 129, 130, 131, 0]\<rparr>])"
proof -
  let ?pkts = "[((1, 2), demo_packet), ((1, 3), demo_packet)]" and ?m = "\<lambda>a. word_of_nat a :: u8"
  have path: "pcap_path None 1 0 = ''./cpu1_0.pcap''"
    by code_simp
  have cap: "map (capture ?m 5) ?pkts = [\<lparr>cap_sec = 1, cap_usec = 2, wire_len = 7, cap_bytes = [128, 129, 130, 131, 0]\<rparr>,
      \<lparr>cap_sec = 1, cap_usec = 3, wire_len = 7, cap_bytes = [128, 129, 130, 131, 0]\<rparr>]"
    by (simp add: capture_def demo_packet_def packet_bytes_def rte_pktmbuf_mtod_def mread_def upt_rec)
  have "24 + length (concat (map (\<lambda>p. record_bytes (capture ?m 5 p)) ?pkts)) < unat (1000 :: u32)"
    using cap by (simp add: record_bytes_def)
  from pcap_round_trip [OF _ _ this, of "\<lambda>_. True" None 1 demo_pcap] show ?thesis
    unfolding cap by (simp add: whole_demo demo_pcap_def path)
qed

lemma ucast_ucast_u16: "unat (n :: u32) < 65536 \<Longrightarrow> (ucast (ucast n :: u16) :: u32) = n"
  by (simp add: word_unat_eq_iff unsigned_ucast_eq unsigned_take_bit_eq take_bit_nat_eq_self)

text \<open>When the file is changed the new one announces the length of the last record as its snapshot length, not the configured one.\<close>

lemma pcap_snaplen_shrinks:
  assumes "\<forall>path. can_open path" and "g_pcap_fp st = Some p" and "files st p = Some f" and "whole pkt"
    and n_def: "n = min (pkt_len (hd pkt)) (ucast snap_len)" and "f_maxlen \<le> g_flen st + (16 + n)"
  shows "\<exists>st' p' f'. lazybsd_dump_packets can_open lcore m ts dump_path pkt snap_len f_maxlen st = Inr (0, st') \<and>
    g_pcap_fp st' = Some p' \<and> files st' p' = Some f' \<and> read_pcap f' = Some (n, [])"
proof -
  obtain c where c: "c = capture m snap_len (ts, pkt)" by simp
  note dump = dump_packet [OF assms(2,3,4) c refl]
  have len: "length (cap_bytes c) = unat n"
    using assms(4) by (auto simp: c capture_def whole_def length_packet_bytes n_def min_def word_le_nat_alt unat_ucast_u16)
  then have n: "(word_of_nat (length (cap_bytes c)) :: u32) = n" "(ucast (word_of_nat (length (cap_bytes c)) :: u16) :: u32) = n"
    using dump(2) by (simp_all add: ucast_ucast_u16)
  then have "(word_of_nat (length (record_bytes c)) :: u32) = 16 + n" by (simp add: record_bytes_def)
  then show ?thesis
    using assms(1,6) n unfolding dump(1) by (simp add: enable_opens read_pcap_header)
qed

end
