(* ===== verification/LB_Conf.thy ===== *)
theory LB_Conf
  imports LB_Pcap LB_Rx
begin

text \<open>
  How a process finds its receive queues, \<open>init_lcore_conf\<close> of \<^verbatim>\<open>src/lazybsd_dpdk.cc\<close>, with \<open>get_kni_action\<close> and the address callback
  \<open>lazybsd_in_pcbladdr\<close>.  The configuration is the part of the global record the code reads; the answers of DPDK about ports and cores
  are parameters, and \<open>rte_exit\<close> ends the process.  Every port has a list of the cores that poll it; the position of a core in the list is the
  number of its queue.
\<close>

section \<open>Definitions\<close>

record dpdk_cfg =
  max_portid :: nat
  nb_ports :: nat
  portid_list :: "nat \<Rightarrow> nat"
  cfg_proc_id :: nat
  proc_lcore :: "nat \<Rightarrow> nat"
  nb_lcores :: "nat \<Rightarrow> nat"
  lcore_list :: "nat \<Rightarrow> nat \<Rightarrow> nat"
  pcap_enable :: bool
  pcap_save_path :: "string option"
  pcap_snap_len :: u16

record dpdk_calls =
  eth_dev_count_avail :: nat
  lcore_is_enabled :: "nat \<Rightarrow> bool"
  lcore_to_socket_id :: "u32 \<Rightarrow> nat"
  this_lcore :: u32
  can_open :: "string \<Rightarrow> bool"

text \<open>The members of \<open>struct lcore_conf\<close> that are set here; an array with its counter is a list.\<close>

record lcore_conf =
  proc_id :: nat
  core_socket :: nat
  rx_queue_list :: "(nat \<times> nat) list"
  tx_port_id :: "nat list"
  tx_queue_id :: "nat \<Rightarrow> nat"
  port_queues :: "nat \<Rightarrow> nat"

abbreviation (input) MAX_RX_QUEUE_PER_LCORE :: nat where "MAX_RX_QUEUE_PER_LCORE \<equiv> 16"

text \<open>The search keeps the last position.\<close>

fun find_queue :: "(nat \<Rightarrow> nat) \<Rightarrow> nat \<Rightarrow> nat list \<Rightarrow> int \<Rightarrow> int" where
  "find_queue cores lcore_id [] queueid = queueid"
| "find_queue cores lcore_id (i # is) queueid = find_queue cores lcore_id is (if cores i = lcore_id then int i else queueid)"

definition init_port_conf :: "dpdk_calls \<Rightarrow> dpdk_cfg \<Rightarrow> nat \<Rightarrow> nat \<Rightarrow> lcore_conf \<times> pcap \<Rightarrow> (lcore_conf \<times> pcap) kresult" where
  "init_port_conf D cfg lcore_id port = (\<lambda>(lc, pc).
     let queueid = find_queue (lcore_list cfg port) lcore_id [0..<nb_lcores cfg port] (-1)
     in if queueid < 0 then Inr (lc, pc)
        else if length (rx_queue_list lc) \<ge> MAX_RX_QUEUE_PER_LCORE then Inl (Panic ''rx_queue_list: index out of bounds'')
        else
          let q = nat queueid;
              lc = lc\<lparr>rx_queue_list := rx_queue_list lc @ [(port, q)], tx_queue_id := (tx_queue_id lc)(port := q),
                tx_port_id := tx_port_id lc @ [port]\<rparr>
          in case (if pcap_enable cfg then lazybsd_enable_pcap (can_open D) (this_lcore D) (pcap_save_path cfg) (pcap_snap_len cfg) pc
                   else Inr (0, pc)) of
               Inl e \<Rightarrow> Inl e
             | Inr (_, pc) \<Rightarrow> Inr (lc\<lparr>port_queues := (port_queues lc)(port := nb_lcores cfg port)\<rparr>, pc))"

fun init_ports :: "dpdk_calls \<Rightarrow> dpdk_cfg \<Rightarrow> nat \<Rightarrow> nat list \<Rightarrow> lcore_conf \<times> pcap \<Rightarrow> (lcore_conf \<times> pcap) kresult" where
  "init_ports D cfg lcore_id [] x = Inr x"
| "init_ports D cfg lcore_id (port # ports) x =
     (case init_port_conf D cfg lcore_id port x of Inl e \<Rightarrow> Inl e | Inr x \<Rightarrow> init_ports D cfg lcore_id ports x)"

text \<open>\<open>nb_dev_ports\<close> is a variable of the file, 0 until it is known.\<close>

definition init_lcore_conf ::
  "dpdk_calls \<Rightarrow> dpdk_cfg \<Rightarrow> bool \<Rightarrow> nat \<times> lcore_conf \<times> pcap \<Rightarrow> (int \<times> nat \<times> lcore_conf \<times> pcap) kresult" where
  "init_lcore_conf D cfg numa = (\<lambda>(nb_dev_ports, lc, pc).
     let nb_dev_ports = (if nb_dev_ports = 0 then eth_dev_count_avail D else nb_dev_ports)
     in if nb_dev_ports = 0 then Inl (Panic ''No probed ethernet devices'')
        else if max_portid cfg \<ge> nb_dev_ports then Inl (Panic ''this machine doesn't have port'')
        else
          let lc = lc\<lparr>proc_id := cfg_proc_id cfg, core_socket := (if numa then lcore_to_socket_id D (this_lcore D) else 0)\<rparr>;
              lcore_id = proc_lcore cfg (proc_id lc)
          in if \<not> lcore_is_enabled D lcore_id then Inl (Panic ''lcore unavailable'')
             else case init_ports D cfg lcore_id (map (portid_list cfg) [0..<nb_ports cfg]) (lc, pc) of
                 Inl e \<Rightarrow> Inl e
               | Inr (lc, pc) \<Rightarrow>
                   if rx_queue_list lc = [] then Inl (Panic ''lcore has nothing to do'') else Inr (0, nb_dev_ports, lc, pc))"

text \<open>\<open>strcasecmp\<close> compares letters regardless of their case.\<close>

definition to_lower :: "char \<Rightarrow> char" where
  "to_lower c = (if 65 \<le> (of_char c :: nat) \<and> (of_char c :: nat) \<le> 90 then char_of ((of_char c :: nat) + 32) else c)"

definition strcaseeq :: "string \<Rightarrow> string \<Rightarrow> bool" where
  "strcaseeq a b \<longleftrightarrow> map to_lower a = map to_lower b"

definition get_kni_action :: "string option \<Rightarrow> knictl_action" where
  "get_kni_action c =
    (case c of None \<Rightarrow> ACTION_DEFAULT
     | Some c \<Rightarrow>
         if strcaseeq c ''alltokni'' then ACTION_ALL_TO_KNI
         else if strcaseeq c ''alltoff'' then ACTION_ALL_TO_FF
         else if strcaseeq c ''default'' then ACTION_DEFAULT
         else ACTION_DEFAULT)"

text \<open>The number of IPv6 is 28 in FreeBSD, 10 in Linux; \<open>EADDRNOTAVAIL\<close> is that of the host.\<close>

definition lazybsd_in_pcbladdr ::
  "(u16 \<Rightarrow> 'f \<Rightarrow> u16 \<Rightarrow> 'l \<Rightarrow> int \<times> 'l) option \<Rightarrow> u16 \<Rightarrow> 'f \<Rightarrow> u16 \<Rightarrow> 'l \<Rightarrow> int \<times> 'l" where
  "lazybsd_in_pcbladdr pcblddr_fun family faddr fport laddr =
    (case pcblddr_fun of None \<Rightarrow> (0, laddr)
     | Some f \<Rightarrow>
         if family = 2 then f 2 faddr fport laddr
         else if family = 28 then f 10 faddr fport laddr
         else (99, laddr))"

section \<open>One core per queue\<close>

text \<open>Every core occurs once in the list of a port.\<close>

definition lists_distinct :: "dpdk_cfg \<Rightarrow> bool" where
  "lists_distinct cfg \<longleftrightarrow> distinct (map (portid_list cfg) [0..<nb_ports cfg]) \<and>
     (\<forall>i < nb_ports cfg. distinct (map (lcore_list cfg (portid_list cfg i)) [0..<nb_lcores cfg (portid_list cfg i)]))"

lemma find_queue_absent: "\<forall>i\<in>set is. cores i \<noteq> l \<Longrightarrow> find_queue cores l is q = q"
  by (induction "is" arbitrary: q) auto

lemma find_queue_present:
  "distinct (map cores is) \<Longrightarrow> i \<in> set is \<Longrightarrow> cores i = l \<Longrightarrow> find_queue cores l is q = int i"
proof (induction "is" arbitrary: q)
  case (Cons j "is")
  show ?case
  proof (cases "j = i")
    case True
    then have "\<forall>k\<in>set is. cores k \<noteq> l" using Cons.prems(1,3) by (metis distinct.simps(2) image_eqI image_set list.simps(9))
    then show ?thesis using True Cons.prems(3) by (simp add: find_queue_absent)
  qed (use Cons in auto)
qed simp

lemma init_port_conf_queues:
  assumes "distinct (map (lcore_list cfg port) [0..<nb_lcores cfg port])"
    and "init_port_conf D cfg l port (lc, pc) = Inr (lc', pc')"
  shows "\<exists>qs. rx_queue_list lc' = rx_queue_list lc @ qs \<and> tx_port_id lc' = tx_port_id lc @ map fst qs \<and>
     set qs = {(port, q) | q. q < nb_lcores cfg port \<and> lcore_list cfg port q = l} \<and> distinct qs \<and>
     (\<forall>p. tx_queue_id lc' p = (case map_of qs p of Some q \<Rightarrow> q | None \<Rightarrow> tx_queue_id lc p))"
proof (cases "\<exists>q < nb_lcores cfg port. lcore_list cfg port q = l")
  case True
  then obtain q where q: "q < nb_lcores cfg port" "lcore_list cfg port q = l" by blast
  then have find: "find_queue (lcore_list cfg port) l [0..<nb_lcores cfg port] (-1) = int q"
    using assms(1) by (intro find_queue_present) auto
  have "\<not> MAX_RX_QUEUE_PER_LCORE \<le> length (rx_queue_list lc)"
    using assms(2) by (rule contrapos_pn) (simp add: init_port_conf_def find)
  note step = assms(2) [unfolded init_port_conf_def Let_def prod.case find of_nat_less_0_iff nat_int if_not_P [OF this] if_False]
  have lc': "rx_queue_list lc' = rx_queue_list lc @ [(port, q)] \<and> tx_port_id lc' = tx_port_id lc @ [port] \<and>
      tx_queue_id lc' = (tx_queue_id lc)(port := q)"
    using step by (auto split: sum.splits)
  have uniq: "q' = q" if "q' < nb_lcores cfg port" "lcore_list cfg port q' = l" for q'
  proof -
    have "inj_on (lcore_list cfg port) {0..<nb_lcores cfg port}" using assms(1) by (simp add: distinct_map)
    from inj_onD [OF this, of q' q] show ?thesis using that q by simp
  qed
  have "{(port, q) | q. q < nb_lcores cfg port \<and> lcore_list cfg port q = l} = {(port, q)}"
  proof (intro equalityI subsetI)
    fix x assume "x \<in> {(port, q) | q. q < nb_lcores cfg port \<and> lcore_list cfg port q = l}"
    then obtain q' where "x = (port, q')" "q' < nb_lcores cfg port" "lcore_list cfg port q' = l" by blast
    then show "x \<in> {(port, q)}" using uniq [of q'] by simp
  qed (use q in simp)
  then show ?thesis by (intro exI [of _ "[(port, q)]"]) (simp add: lc')
next
  case False
  then have "find_queue (lcore_list cfg port) l [0..<nb_lcores cfg port] (-1) = -1" by (intro find_queue_absent) auto
  then show ?thesis using assms(2) False by (intro exI [of _ "[]"]) (auto simp: init_port_conf_def)
qed

lemma init_ports_queues:
  assumes "distinct ports" and "\<forall>p\<in>set ports. distinct (map (lcore_list cfg p) [0..<nb_lcores cfg p])"
    and "init_ports D cfg l ports (lc, pc) = Inr (lc', pc')"
  shows "\<exists>qs. rx_queue_list lc' = rx_queue_list lc @ qs \<and> tx_port_id lc' = tx_port_id lc @ map fst qs \<and>
     set qs = {(p, q) | p q. p \<in> set ports \<and> q < nb_lcores cfg p \<and> lcore_list cfg p q = l} \<and> distinct qs \<and>
     (\<forall>p. tx_queue_id lc' p = (case map_of qs p of Some q \<Rightarrow> q | None \<Rightarrow> tx_queue_id lc p))"
  using assms
proof (induction ports arbitrary: lc pc)
  case (Cons port ports)
  obtain lc1 pc1 where 1: "init_port_conf D cfg l port (lc, pc) = Inr (lc1, pc1)"
    and 2: "init_ports D cfg l ports (lc1, pc1) = Inr (lc', pc')"
    using Cons.prems(3) by (auto split: sum.splits)
  obtain qs1 where qs1: "rx_queue_list lc1 = rx_queue_list lc @ qs1" "tx_port_id lc1 = tx_port_id lc @ map fst qs1"
     "set qs1 = {(port, q) | q. q < nb_lcores cfg port \<and> lcore_list cfg port q = l}" "distinct qs1"
     "\<forall>p. tx_queue_id lc1 p = (case map_of qs1 p of Some q \<Rightarrow> q | None \<Rightarrow> tx_queue_id lc p)"
    using init_port_conf_queues [OF _ 1] Cons.prems(2) by auto
  obtain qs2 where qs2: "rx_queue_list lc' = rx_queue_list lc1 @ qs2" "tx_port_id lc' = tx_port_id lc1 @ map fst qs2"
     "set qs2 = {(p, q) | p q. p \<in> set ports \<and> q < nb_lcores cfg p \<and> lcore_list cfg p q = l}" "distinct qs2"
     "\<forall>p. tx_queue_id lc' p = (case map_of qs2 p of Some q \<Rightarrow> q | None \<Rightarrow> tx_queue_id lc1 p)"
    using Cons.IH [OF _ _ 2] Cons.prems by auto
  have apart: "map_of qs1 p = None \<or> map_of qs2 p = None" for p
  proof (rule ccontr)
    assume "\<not> ?thesis"
    then obtain q q' where "map_of qs1 p = Some q" "map_of qs2 p = Some q'" by auto
    then have "(p, q) \<in> set qs1" "(p, q') \<in> set qs2" by (auto dest: map_of_SomeD)
    then show False using qs1(3) qs2(3) Cons.prems(1) by simp
  qed
  have "tx_queue_id lc' p = (case map_of (qs1 @ qs2) p of Some q \<Rightarrow> q | None \<Rightarrow> tx_queue_id lc p)" for p
    using apart [of p] qs1(5) qs2(5) by (cases "map_of qs1 p"; cases "map_of qs2 p") (simp_all add: map_add_def)
  moreover have "set qs1 \<inter> set qs2 = {}" using qs1(3) qs2(3) Cons.prems(1) by auto
  moreover have "set (qs1 @ qs2) = {(p, q) | p q. p \<in> set (port # ports) \<and> q < nb_lcores cfg p \<and> lcore_list cfg p q = l}"
    unfolding set_append qs1(3) qs2(3) by auto
  ultimately show ?case
    by (intro exI [of _ "qs1 @ qs2"]) (simp add: qs1(1,2,4) qs2(1,2,4))
qed auto

lemma init_lcore_conf_queues:
  assumes "lists_distinct cfg" and "rx_queue_list lc = []"
    and "init_lcore_conf D cfg numa (n, lc, pc) = Inr (rc, n', lc', pc')"
  shows "set (rx_queue_list lc') = {(portid_list cfg i, q) | i q. i < nb_ports cfg \<and> q < nb_lcores cfg (portid_list cfg i) \<and>
      lcore_list cfg (portid_list cfg i) q = proc_lcore cfg (cfg_proc_id cfg)}"
    and "distinct (rx_queue_list lc')" and "tx_port_id lc = [] \<Longrightarrow> tx_port_id lc' = map fst (rx_queue_list lc')"
    and "\<And>p q. (p, q) \<in> set (rx_queue_list lc') \<Longrightarrow> tx_queue_id lc' p = q"
proof -
  obtain lc0 where lc0: "lc0 = lc\<lparr>proc_id := cfg_proc_id cfg, core_socket := (if numa then lcore_to_socket_id D (this_lcore D) else 0)\<rparr>"
    by simp
  have run: "init_ports D cfg (proc_lcore cfg (cfg_proc_id cfg)) (map (portid_list cfg) [0..<nb_ports cfg]) (lc0, pc) = Inr (lc', pc')"
    using assms(3) by (simp add: init_lcore_conf_def Let_def lc0 split: if_splits sum.splits prod.splits)
  have "distinct (map (portid_list cfg) [0..<nb_ports cfg])"
    and "\<forall>p\<in>set (map (portid_list cfg) [0..<nb_ports cfg]). distinct (map (lcore_list cfg p) [0..<nb_lcores cfg p])"
    using assms(1) by (auto simp: lists_distinct_def)
  note queues = init_ports_queues [OF this run]
  have lc0': "rx_queue_list lc0 = []" "tx_port_id lc0 = tx_port_id lc" "tx_queue_id lc0 = tx_queue_id lc"
    using assms(2) by (simp_all add: lc0)
  from queues obtain qs where qs: "rx_queue_list lc' = qs" "tx_port_id lc' = tx_port_id lc @ map fst qs"
      "set qs = {(p, q) | p q. p \<in> set (map (portid_list cfg) [0..<nb_ports cfg]) \<and> q < nb_lcores cfg p \<and>
         lcore_list cfg p q = proc_lcore cfg (cfg_proc_id cfg)}" "distinct qs"
      "\<forall>p. tx_queue_id lc' p = (case map_of qs p of Some q \<Rightarrow> q | None \<Rightarrow> tx_queue_id lc p)"
    unfolding lc0' append_Nil by blast
  show "set (rx_queue_list lc') = {(portid_list cfg i, q) | i q. i < nb_ports cfg \<and> q < nb_lcores cfg (portid_list cfg i) \<and>
      lcore_list cfg (portid_list cfg i) q = proc_lcore cfg (cfg_proc_id cfg)}"
    unfolding qs(1,3) by auto
  show "distinct (rx_queue_list lc')" "tx_port_id lc = [] \<Longrightarrow> tx_port_id lc' = map fst (rx_queue_list lc')"
    using qs by simp_all
  fix p q assume "(p, q) \<in> set (rx_queue_list lc')"
  then have pq: "(p, q) \<in> set qs" by (simp only: qs(1))
  have uniq: "q' = q" if "(p, q') \<in> set qs" "(p, q) \<in> set qs" for q'
  proof -
    have "p \<in> portid_list cfg ` {0..<nb_ports cfg}" using that(1) unfolding qs(3) by auto
    then have "distinct (map (lcore_list cfg p) [0..<nb_lcores cfg p])" using assms(1) unfolding lists_distinct_def by auto
    then have "inj_on (lcore_list cfg p) {0..<nb_lcores cfg p}" by (simp add: distinct_map)
    from inj_onD [OF this, of q' q] show ?thesis using that unfolding qs(3) by simp
  qed
  obtain q' where "map_of qs p = Some q'" using weak_map_of_SomeI [OF pq] by blast
  then show "tx_queue_id lc' p = q" using uniq [OF _ pq, of q'] map_of_SomeD [of qs p q'] spec [OF qs(5), of p] by simp
qed

text \<open>C21: every receive queue has one core.  When the cores of the processes are different and the lists of ports and cores have no
  repetitions, and every process comes through \<open>init_lcore_conf\<close>, each queue of each configured port whose core belongs to a process
  is polled by exactly one process, whose transmit queue on that port is the one of the same number.\<close>

theorem queues_have_one_core:
  assumes "lists_distinct cfg" and "inj_on (proc_lcore cfg) P" and "rx_queue_list lc = []"
    and "\<forall>p\<in>P. init_lcore_conf D (cfg\<lparr>cfg_proc_id := p\<rparr>) numa (n, lc, pc) = Inr (0, n', conf p, pcap p)"
    and "i < nb_ports cfg" and "q < nb_lcores cfg (portid_list cfg i)" and "lcore_list cfg (portid_list cfg i) q \<in> proc_lcore cfg ` P"
  shows "(\<exists>!p. p \<in> P \<and> (portid_list cfg i, q) \<in> set (rx_queue_list (conf p))) \<and>
    (\<forall>p\<in>P. \<forall>(port, q')\<in>set (rx_queue_list (conf p)). tx_queue_id (conf p) port = q')"
proof -
  have queues: "set (rx_queue_list (conf p)) = {(portid_list cfg i, q) | i q. i < nb_ports cfg \<and> q < nb_lcores cfg (portid_list cfg i) \<and>
      lcore_list cfg (portid_list cfg i) q = proc_lcore cfg p}" if "p \<in> P" for p
    using init_lcore_conf_queues(1) [of "cfg\<lparr>cfg_proc_id := p\<rparr>", OF _ assms(3) bspec [OF assms(4) that]] assms(1)
    by (simp add: lists_distinct_def)
  obtain r where r: "r \<in> P" "lcore_list cfg (portid_list cfg i) q = proc_lcore cfg r" using assms(7) by blast
  have "\<exists>!p. p \<in> P \<and> (portid_list cfg i, q) \<in> set (rx_queue_list (conf p))"
  proof (rule ex1I [of _ r])
    show "r \<in> P \<and> (portid_list cfg i, q) \<in> set (rx_queue_list (conf r))"
      using r assms(5,6) queues [OF r(1)] by auto
    fix p' assume p': "p' \<in> P \<and> (portid_list cfg i, q) \<in> set (rx_queue_list (conf p'))"
    then have "lcore_list cfg (portid_list cfg i) q = proc_lcore cfg p'" using queues [of p'] by auto
    then show "p' = r" using r p' assms(2) by (simp add: inj_on_def)
  qed
  moreover have "tx_queue_id (conf p) port = q'" if "p \<in> P" "(port, q') \<in> set (rx_queue_list (conf p))" for p port q'
    using init_lcore_conf_queues(4) [of "cfg\<lparr>cfg_proc_id := p\<rparr>", OF _ assms(3) bspec [OF assms(4) that(1)] that(2)] assms(1)
    by (simp add: lists_distinct_def)
  ultimately show ?thesis by blast
qed

theorem queues_have_one_core_witness:
  "\<exists>!p. p \<in> {0, 1} \<and> (5, 1) \<in> set (rx_queue_list (if p = (0 :: nat)
     then \<lparr>proc_id = 0, core_socket = 0, rx_queue_list = [(5, 0)], tx_port_id = [5], tx_queue_id = (\<lambda>_. 0), port_queues = (\<lambda>_. 0)(5 := 2)\<rparr>
     else \<lparr>proc_id = 1, core_socket = 0, rx_queue_list = [(5, 1)], tx_port_id = [5], tx_queue_id = (\<lambda>_. 0)(5 := 1), port_queues = (\<lambda>_. 0)(5 := 2)\<rparr>))"
proof -
  let ?cfg = "\<lparr>max_portid = 5, nb_ports = 1, portid_list = (\<lambda>_. 5), cfg_proc_id = 0, proc_lcore = (\<lambda>p. p + 2), nb_lcores = (\<lambda>_. 2),
    lcore_list = (\<lambda>_ i. i + 2), pcap_enable = False, pcap_save_path = None, pcap_snap_len = 0\<rparr>"
  let ?D = "\<lparr>eth_dev_count_avail = 6, lcore_is_enabled = (\<lambda>_. True), lcore_to_socket_id = (\<lambda>_. 0), this_lcore = 0, can_open = (\<lambda>_. False)\<rparr>"
  let ?lc = "\<lparr>proc_id = 0, core_socket = 0, rx_queue_list = [], tx_port_id = [], tx_queue_id = (\<lambda>_. 0), port_queues = (\<lambda>_. 0)\<rparr>"
  let ?conf = "\<lambda>p. if p = (0 :: nat)
     then \<lparr>proc_id = 0, core_socket = 0, rx_queue_list = [(5, 0)], tx_port_id = [5], tx_queue_id = (\<lambda>_. 0), port_queues = (\<lambda>_. 0)(5 := 2)\<rparr>
     else \<lparr>proc_id = 1, core_socket = 0, rx_queue_list = [(5, 1)], tx_port_id = [5], tx_queue_id = (\<lambda>_. 0)(5 := 1), port_queues = (\<lambda>_. 0)(5 := 2)\<rparr>"
  have "lists_distinct ?cfg" by (simp add: lists_distinct_def upt_rec)
  moreover have "\<forall>p\<in>{0, 1}. init_lcore_conf ?D (?cfg\<lparr>cfg_proc_id := p\<rparr>) False (0, ?lc, demo_pcap) = Inr (0, 6, ?conf p, demo_pcap)"
    by (simp add: init_lcore_conf_def init_port_conf_def Let_def upt_rec fun_eq_iff)
  ultimately show ?thesis
    using queues_have_one_core [of ?cfg "{0, 1}" ?lc ?D False 0 demo_pcap 6 ?conf "\<lambda>_. demo_pcap" 0 1] by simp
qed

end
