(* ===== verification/LB_Loop.thy ===== *)
theory LB_Loop
  imports LB_Rx_Props LB_Msg_Props
begin

text \<open>
  The main loop of a core, \<open>main_loop\<close> of \<^verbatim>\<open>src/lazybsd_dpdk.cc\<close>, as a whole: timers, packets, requests of other processes, the loop
  of the application and the account of time.  The timers and the application are code outside the driver: functions on a state of their
  own and on the state of the core, since both may call into the stack, which transmits.  What happens outside the core in a
  round, the readings of the clock, new requests and received packets, is an argument of the round.
\<close>

section \<open>Definitions\<close>

record ('k, 't, 'a) main_state =
  packets :: loop_state
  msgs :: "'k msg_state"
  usch_tsc :: u64
  timers :: 't
  app :: 'a

record ('k, 't, 'a) main_env =
  dpdk :: env
  conf :: rx_conf
  veth_ctx :: "nat \<Rightarrow> if_context"
  kni_ports :: "nat \<Rightarrow> nat"
  tx_ports :: "nat list"
  msg_switches :: msg_build
  calls_out :: "'k msg_calls"
  drain_tsc :: u64
  timer_expire :: "'t \<Rightarrow> u64"
  rte_timer_manage :: "'t \<Rightarrow> lcore \<Rightarrow> 't \<times> lcore"
  user_loop :: "('a \<Rightarrow> lcore \<Rightarrow> 'a \<times> lcore) option"
  idle_sleep :: u32

text \<open>The clock at the start, after the requests, after the application and after the pause, and the time the packet dispatcher took.\<close>

record loop_input =
  cur_tsc :: u64
  div_tsc :: u64
  idle_sleep_tsc :: u64
  woken_tsc :: u64
  usr_cb_tsc :: u64
  new_msgs :: "lazybsd_msg list"
  received :: "rx_input list"

text \<open>The cycles between two drains, from the frequency of the clock and the delay of the configuration in microseconds.\<close>

definition drain_cycles :: "u64 \<Rightarrow> u32 \<Rightarrow> u64" where
  "drain_cycles tsc_hz pkt_tx_delay =
     (if pkt_tx_delay \<noteq> 0 then (tsc_hz + 1000000 - 1) div 1000000 * ucast pkt_tx_delay else 0)"

definition action_of :: "int \<Rightarrow> knictl_action" where
  "action_of n = c_switch n [(0, ACTION_DEFAULT), (1, ACTION_ALL_TO_KNI), (2, ACTION_ALL_TO_FF)] ACTION_OTHER"

definition traffic_of :: "lcore \<Rightarrow> lazybsd_traffic_args" where
  "traffic_of s = \<lparr>rx_packets = lcore.rx_packets s, rx_bytes = lcore.rx_bytes s, tx_packets = lcore.tx_packets s, tx_bytes = lcore.tx_bytes s\<rparr>"

definition add_times :: "u64 \<Rightarrow> u64 \<Rightarrow> u64 \<Rightarrow> lazybsd_top_args \<Rightarrow> lazybsd_top_args" where
  "add_times all_tsc usr sys t =
     t\<lparr>sys_tsc := sys_tsc t + sys, usr_tsc := usr_tsc t + usr, work_tsc := work_tsc t + all_tsc,
       idle_tsc := idle_tsc t + (all_tsc - usr - sys), loops := loops t + 1\<rparr>"

definition run_timers :: "('k, 't, 'a) main_env \<Rightarrow> u64 \<Rightarrow> ('k, 't, 'a) main_state \<Rightarrow> ('k, 't, 'a) main_state" where
  "run_timers M cur st =
     (if timer_expire M (timers st) < cur
      then case rte_timer_manage M (timers st) (core (packets st)) of
             (t, s) \<Rightarrow> st\<lparr>timers := t, packets := (packets st)\<lparr>core := s\<rparr>\<rparr>
      else st)"

text \<open>The application is called when there was work, and at the latest \<open>drain_tsc\<close> cycles after its last call.\<close>

definition run_app :: "('k, 't, 'a) main_env \<Rightarrow> u64 \<Rightarrow> ('k, 't, 'a) main_state \<Rightarrow> ('k, 't, 'a) main_state" where
  "run_app M cur st =
     (case user_loop M of
        None \<Rightarrow> st
      | Some f \<Rightarrow>
          if \<not> idle (packets st) \<or> cur - usch_tsc st \<ge> drain_tsc M
          then case f (app st) (core (packets st)) of
                 (a, s) \<Rightarrow> st\<lparr>usch_tsc := cur, app := a, packets := (packets st)\<lparr>core := s\<rparr>\<rparr>
          else st)"

definition account :: "('k, 't, 'a) main_env \<Rightarrow> loop_input \<Rightarrow> ('k, 't, 'a) main_state \<Rightarrow> ('k, 't, 'a) main_state" where
  "account M inp st =
     (let end_tsc = (if idle (packets st) \<and> idle_sleep M \<noteq> 0 then woken_tsc inp else idle_sleep_tsc inp);
          usr = usr_cb_tsc inp + (if usch_tsc st = cur_tsc inp then idle_sleep_tsc inp - div_tsc inp else 0);
          sys = (if \<not> idle (packets st) then div_tsc inp - cur_tsc inp - usr_cb_tsc inp else 0)
      in st\<lparr>msgs := (msgs st)\<lparr>lazybsd_top_status := add_times (end_tsc - cur_tsc inp) usr sys (lazybsd_top_status (msgs st))\<rparr>\<rparr>)"

text \<open>A round.  The handlers of requests see the traffic counters of the core, and the action for exceptional packets they set
  is in force from the next packet on.\<close>

definition main_loop_round ::
  "('k, 't, 'a) main_env \<Rightarrow> loop_input \<Rightarrow> ('k, 't, 'a) main_state \<Rightarrow> ('k, 't, 'a) main_state kresult" where
  "main_loop_round M inp st =
     (let st = run_timers M (cur_tsc inp) st in
      case main_loop_packets (dpdk M) ((conf M)\<lparr>knictl_action := action_of (knictl (msgs st))\<rparr>) (veth_ctx M) (kni_ports M) (tx_ports M)
             (drain_tsc M) (cur_tsc inp) (received inp) (packets st) of
        Inl e \<Rightarrow> Inl e
      | Inr L \<Rightarrow>
          (case process_msg_ring (msg_switches M) (calls_out M)
             ((msgs st)\<lparr>lazybsd_traffic := traffic_of (core L), ring := (ring (msgs st))(0 := ring (msgs st) 0 @ new_msgs inp)\<rparr>) of
             Inl e \<Rightarrow> Inl e
           | Inr g \<Rightarrow> Inr (account M inp (run_app M (cur_tsc inp) (st\<lparr>packets := L, msgs := g\<rparr>)))))"


section \<open>What a round keeps\<close>




text \<open>Requests of the types the array of rings has an entry for.\<close>

definition typed :: "lazybsd_msg list \<Rightarrow> bool" where
  "typed ms \<longleftrightarrow> (\<forall>m\<in>set ms. msg_type m < LAZYBSD_MSG_NUM)"

lemma typed_append [simp]: "typed (a @ b) \<longleftrightarrow> typed a \<and> typed b"
  by (auto simp: typed_def)



lemma round_input_action [simp]: "round_input (C\<lparr>knictl_action := a\<rparr>) = round_input C"
  by (rule ext) (simp add: round_input_def)








text \<open>The application is never kept waiting longer than \<open>drain_tsc\<close> cycles and one round.\<close>

lemma app_is_served:
  assumes "user_loop M = Some f" and "main_loop_round M inp st = Inr st'"
  shows "usch_tsc st' = cur_tsc inp \<or> cur_tsc inp - usch_tsc st' < drain_tsc M"
  using assms by (auto simp: main_loop_round_def Let_def account_def run_app_def not_le split: sum.splits prod.splits if_splits)













end
