(* ===== verification/LB_Callstat.thy ===== *)
theory LB_Callstat
  imports LB_Callout_Props
begin

text \<open>
  The snapshot of the scheduled callouts that the system control \<open>kern.callout_stat\<close> prints, \<open>sysctl_kern_callout_stat\<close> of
  \<^verbatim>\<open>bsd/lib/lazybsd_kern_timeout.c\<close>.  What is printed is a record of the numbers given to \<open>printf\<close>.  The snapshot is compared with the set of
  pending callouts: it counts each once, and when there is none it divides by zero.
\<close>

section \<open>Definitions\<close>

text \<open>\<open>flssbt\<close>: a \<open>long\<close> has the size of an \<open>sbintime_t\<close>, so the other branch is never taken.\<close>

definition flssbt :: "i64 \<Rightarrow> nat" where
  "flssbt sbt = fls (unat (sbt + drop_bit 1 sbt))"

abbreviation (input) CC_HASH_SHIFT :: nat where "CC_HASH_SHIFT \<equiv> 8"
abbreviation (input) SBT_1S :: int where "SBT_1S \<equiv> 4294967296"

text \<open>Division truncates towards zero; the divisors that may be zero are tested where the code divides by them.\<close>

definition c_div :: "int \<Rightarrow> int \<Rightarrow> int" where
  "c_div a b = sgn a * sgn b * (\<bar>a\<bar> div \<bar>b\<bar>)"

definition c_mod :: "int \<Rightarrow> int \<Rightarrow> int" where
  "c_mod a b = a - c_div a b * b"

record stat_tables =
  st_sum :: i32
  maxt :: i32
  ct :: "nat \<Rightarrow> nat"
  ccpbk :: "nat \<Rightarrow> nat"
  maxc :: nat
  stat_count :: nat

definition stat_tick :: "i32 \<Rightarrow> i32 \<Rightarrow> i32" where
  "stat_tick now t = (if t - now <s 0 then 0 else t - now)"

text \<open>One callout, one bucket, all buckets.\<close>

definition stat_callout :: "i32 \<Rightarrow> i32 \<Rightarrow> i32 \<Rightarrow> stat_tables \<Rightarrow> stat_tables" where
  "stat_callout now tick_ms t s =
     (let tick = stat_tick now t; k = flssbt (scast tick)
      in s\<lparr>st_sum := st_sum s + tick * tick_ms, maxt := (if maxt s <s tick then tick else maxt s), ct := (ct s)(k := ct s k + 1)\<rparr>)"

definition stat_bucket :: "i32 \<Rightarrow> i32 \<Rightarrow> i32 list \<Rightarrow> stat_tables \<Rightarrow> stat_tables" where
  "stat_bucket now tick_ms ts s =
     (let s = fold (stat_callout now tick_ms) ts s; c = length ts; k = fls (c + c div 2)
      in s\<lparr>maxc := (if c > maxc s then c else maxc s), ccpbk := (ccpbk s)(k := ccpbk s k + 1), stat_count := stat_count s + c\<rparr>)"

definition no_stats :: stat_tables where
  "no_stats = \<lparr>st_sum = 0, maxt = 0, ct = (\<lambda>_. 0), ccpbk = (\<lambda>_. 0), maxc = 0, stat_count = 0\<rparr>"

definition callout_stats :: "i32 \<Rightarrow> 'w cst \<Rightarrow> stat_tables" where
  "callout_stats hz st =
     fold (\<lambda>i. stat_bucket (ticks st) (word_of_int (c_div 1000 (sint hz))) (map (ctime st) (cc_callwheel st i))) [0..<unat (callwheelsize st)] no_stats"

text \<open>The position at which the running sum of a table has reached half of the callouts, and the middle of that class.\<close>

fun half_point :: "(nat \<Rightarrow> nat) \<Rightarrow> nat \<Rightarrow> nat list \<Rightarrow> nat \<Rightarrow> nat \<Rightarrow> nat" where
  "half_point tab half [] i cum = i"
| "half_point tab half (j # js) i cum = (if cum < half then half_point tab half js (j + 1) (cum + tab j) else i)"

definition class_start :: "nat \<Rightarrow> int" where
  "class_start i = (if i \<ge> 2 then 2 ^ (i - 2) else 0)"

text \<open>The line of a class of times: seconds, microseconds, exponent, number, running sum.\<close>

fun dist_lines :: "(nat \<Rightarrow> nat) \<Rightarrow> nat list \<Rightarrow> nat \<Rightarrow> (int \<times> int \<times> int \<times> nat \<times> nat) list" where
  "dist_lines tab [] tcum = []"
| "dist_lines tab (i # is) tcum =
     (if tab i = 0 then dist_lines tab is tcum
      else let t = (if i \<noteq> 0 then 2 ^ (i - 1) else 0 :: int); tcum = tcum + tab i
           in (t div SBT_1S, (t mod SBT_1S) * 1000000 div 2 ^ 32, int i - 1 - (32 - int CC_HASH_SHIFT), tab i, tcum) # dist_lines tab is tcum)"

record stat_report =
  r_count :: nat
  r_size :: nat
  r_medc :: int
  r_avg :: nat
  r_avg_frac :: nat
  r_maxc :: nat
  r_med :: "int \<times> int"
  r_mean :: "int \<times> int"
  r_maxt :: i32
  r_lines :: "(int \<times> int \<times> int \<times> nat \<times> nat) list"

text \<open>\<open>hz\<close> and \<open>mp_ncpus\<close> are variables of FreeBSD; \<open>written\<close> is what \<open>sysctl_handle_int\<close> answers: its error, and whether a value was
  written.  Without one nothing is printed.\<close>

definition sysctl_kern_callout_stat :: "int \<times> bool \<Rightarrow> i32 \<Rightarrow> nat \<Rightarrow> 'w cst \<Rightarrow> (int \<times> stat_report option) kresult" where
  "sysctl_kern_callout_stat written hz mp_ncpus st =
     (case written of (error, newptr) \<Rightarrow>
        if error \<noteq> 0 \<or> \<not> newptr then Inr (error, None)
        else
          let s = callout_stats hz st; count = stat_count s; size = unat (callwheelsize st);
              medt = class_start (half_point (ct s) (count div 2) [0..<64] 0 0);
              medc = class_start (half_point (ccpbk s) (count div 2) [0..<32] 0 0)
          in if count = 0 \<or> hz = 0 \<or> mp_ncpus = 0 then Inl (Panic ''division by zero'')
             else Inr (error, Some
               \<lparr>r_count = count, r_size = size, r_medc = medc, r_avg = count div size div mp_ncpus,
                r_avg_frac = count * 1000000 div size div mp_ncpus mod 1000000, r_maxc = maxc s,
                r_med = (medt div SBT_1S, (medt mod SBT_1S) * 1000000 div 2 ^ 32),
                r_mean = (c_div (c_div (sint (st_sum s)) (int count)) 1000, c_mod (c_div (sint (st_sum s)) (int count)) 1000),
                r_maxt = maxt s, r_lines = dist_lines (ct s) [0..<64] 0\<rparr>))"

section \<open>The tables\<close>

text \<open>The ticks a callout still has, and its class.\<close>

definition time_class :: "'w cst \<Rightarrow> nat \<Rightarrow> nat" where
  "time_class st c = flssbt (scast (stat_tick (ticks st) (ctime st c)))"

definition all_pending :: "'w cst \<Rightarrow> nat list" where
  "all_pending st = concat (map (cc_callwheel st) [0..<unat (callwheelsize st)])"

lemma stat_tick_small: "unat (stat_tick now t) < 2 ^ 31"
proof -
  have "unat v < 2 ^ 31" if "\<not> v <s 0" for v :: i32
    using that unat_nonneg_i32(2) [of v] by (simp add: word_sless_alt)
  then show ?thesis by (simp add: stat_tick_def)
qed

text \<open>The classes are at most 32, so the table of 64 is never left.\<close>

lemma time_class_less: "time_class st c < 64"
proof -
  let ?t = "stat_tick (ticks st) (ctime st c)"
  let ?w = "scast ?t :: i64"
  have t: "unat ?t < 2 ^ 31" by (rule stat_tick_small)
  have "sint ?t = int (unat ?t)"
  proof -
    have "0 \<le> sint ?t" by (auto simp: stat_tick_def word_sless_alt)
    then show ?thesis using unat_nonneg_i32(1) [of ?t] by simp
  qed
  then have "?w = word_of_nat (unat ?t)" by (simp add: scast_eq)
  then have w: "unat ?w = unat ?t" using t by (simp add: unat_ucast_up)
  have "unat (drop_bit 1 ?w) = unat ?t div 2" unfolding unat_drop_bit_eq w by (simp add: drop_bit_eq_div)
  then have "unat (?w + drop_bit 1 ?w) = unat ?t + unat ?t div 2" using t by (simp add: unat_word_ariths w)
  then have "unat (?w + drop_bit 1 ?w) < 2 ^ 32" using t by simp
  then have "fls (unat (?w + drop_bit 1 ?w)) \<le> 32" by (rule fls_le)
  then show ?thesis by (simp add: time_class_def flssbt_def)
qed

lemma fold_stat_callout:
  "ct (fold (stat_callout now ms) ts s) k = ct s k + length (filter (\<lambda>t. flssbt (scast (stat_tick now t)) = k) ts)"
  "stat_count (fold (stat_callout now ms) ts s) = stat_count s"
  by (induction ts arbitrary: s) (auto simp: stat_callout_def Let_def)

lemma fold_stat_bucket:
  "ct (fold (\<lambda>i. stat_bucket now ms (f i)) is s) k = ct s k + length (filter (\<lambda>t. flssbt (scast (stat_tick now t)) = k) (concat (map f is)))"
  "stat_count (fold (\<lambda>i. stat_bucket now ms (f i)) is s) = stat_count s + length (concat (map f is))"
  by (induction "is" arbitrary: s) (auto simp: stat_bucket_def Let_def fold_stat_callout)

lemma callout_stats_tables:
  "ct (callout_stats hz st) k = length (filter (\<lambda>c. time_class st c = k) (all_pending st))"
  "stat_count (callout_stats hz st) = length (all_pending st)"
proof -
  have m: "concat (map (\<lambda>i. map (ctime st) (cc_callwheel st i)) is) = map (ctime st) (concat (map (cc_callwheel st) is))" for "is"
    by (simp add: map_concat comp_def)
  show "ct (callout_stats hz st) k = length (filter (\<lambda>c. time_class st c = k) (all_pending st))"
    "stat_count (callout_stats hz st) = length (all_pending st)"
    unfolding callout_stats_def fold_stat_bucket m all_pending_def
    by (simp_all add: no_stats_def filter_map comp_def time_class_def)
qed

lemma all_pending_set:
  assumes "wheel_inv st"
  shows "set (all_pending st) = {c. pending st c}" and "distinct (all_pending st)"
proof -
  have lt: "unat (callout_get_bucket st t) < unat (callwheelsize st)" for t
  proof -
    obtain k where k: "k \<le> 31" "callwheelsize st = 2 ^ k" "callwheelmask st = 2 ^ k - 1"
      using assms by (auto simp: wheel_inv_def)
    have "unat (t AND callwheelmask st) < 2 ^ k" using k by (simp add: unat_and_mask)
    then show ?thesis using k by (simp add: callout_get_bucket_def unat_two_power)
  qed
  then show "set (all_pending st) = {c. pending st c}"
    by (auto simp: all_pending_def wheel_inv_mem [OF assms])
  show "distinct (all_pending st)"
    unfolding all_pending_def
  proof (induction "unat (callwheelsize st)")
    case 0
    then show ?case by simp
  next
    case (Suc n)
    have "distinct (concat (map (cc_callwheel st) [0..<n]))" for n
    proof (induction n)
      case (Suc n)
      have "set (cc_callwheel st n) \<inter> set (concat (map (cc_callwheel st) [0..<n])) = {}"
        by (auto simp: wheel_inv_mem [OF assms])
      then show ?case using Suc wheel_inv_distinct [OF assms, of n] by auto
    qed simp
    then show ?case by simp
  qed
qed

lemma class_card:
  assumes "wheel_inv st"
  shows "length (filter P (all_pending st)) = card {c. pending st c \<and> P c}"
proof -
  have "distinct (filter P (all_pending st))" using all_pending_set(2) [OF assms] by simp
  from distinct_card [OF this] show ?thesis using all_pending_set(1) [OF assms] by (simp add: conj_commute)
qed

lemma dist_lines_classes:
  "map (\<lambda>(_, _, e, n, _). (e, n)) (dist_lines tab is cum) = map (\<lambda>k. (int k - 25, tab k)) (filter (\<lambda>k. tab k \<noteq> 0) is)"
  "sum_list (map (\<lambda>(_, _, _, n, _). n) (dist_lines tab is cum)) = sum_list (map tab is)"
  by (induction "is" arbitrary: cum) (auto simp: Let_def)

lemma sum_classes: "\<forall>x\<in>set xs. f x < (n :: nat) \<Longrightarrow> (\<Sum>k<n. length (filter (\<lambda>x. f x = k) xs)) = length xs"
proof (induction xs)
  case (Cons x xs)
  have "length (filter (\<lambda>y. f y = k) (x # xs)) = (if k = f x then 1 else 0) + length (filter (\<lambda>y. f y = k) xs)" for k
    by simp
  then have "(\<Sum>k<n. length (filter (\<lambda>y. f y = k) (x # xs))) = (\<Sum>k<n. if k = f x then 1 else 0) + (\<Sum>k<n. length (filter (\<lambda>y. f y = k) xs))"
    by (simp only: sum.distrib)
  also have "(\<Sum>k<n. if k = f x then 1 else 0 :: nat) = 1" using Cons.prems by (subst sum.delta) auto
  also have "(\<Sum>k<n. length (filter (\<lambda>y. f y = k) xs)) = length xs" using Cons by simp
  finally show ?case by simp
qed simp

text \<open>C40: the snapshot counts every scheduled callout once.  When no callout is pending, or when the clock rate \<open>hz\<close> or the number
  of processors is 0, the request divides by zero; else it
  reports the number of pending callouts, and the lines of the distribution are, in the order of time, the classes that have callouts, each
  with the number of callouts in it; together they are all pending callouts.\<close>

theorem callout_stat_correct:
  assumes "wheel_inv st"
  shows "if (\<forall>c. \<not> pending st c) \<or> hz = 0 \<or> ncpus = 0 then sysctl_kern_callout_stat (0, True) hz ncpus st = Inl (Panic ''division by zero'')
    else \<exists>r. sysctl_kern_callout_stat (0, True) hz ncpus st = Inr (0, Some r) \<and> r_count r = card {c. pending st c} \<and>
      map (\<lambda>(_, _, e, n, _). (e, n)) (r_lines r) =
        map (\<lambda>k. (int k - 25, card {c. pending st c \<and> time_class st c = k}))
          (filter (\<lambda>k. \<exists>c. pending st c \<and> time_class st c = k) [0..<64]) \<and>
      sum_list (map (\<lambda>(_, _, _, n, _). n) (r_lines r)) = card {c. pending st c}"
proof -
  let ?s = "callout_stats hz st"
  have fin: "finite {c. pending st c}" using all_pending_set(1) [OF assms] by (metis List.finite_set)
  have tab: "ct ?s k = card {c. pending st c \<and> time_class st c = k}" for k
    by (simp add: callout_stats_tables class_card [OF assms])
  have count: "stat_count ?s = card {c. pending st c}"
    using class_card [OF assms, of "\<lambda>_. True"] by (simp add: callout_stats_tables)
  have classes: "ct ?s k \<noteq> 0 \<longleftrightarrow> (\<exists>c. pending st c \<and> time_class st c = k)" for k
    using fin by (auto simp: tab card_eq_0_iff)
  have "sum_list (map (ct ?s) [0..<64]) = (\<Sum>k<64. length (filter (\<lambda>c. time_class st c = k) (all_pending st)))"
    by (simp add: callout_stats_tables interv_sum_list_conv_sum_set_nat lessThan_atLeast0)
  also have "\<dots> = card {c. pending st c}"
    using sum_classes [of "all_pending st" "time_class st" 64] time_class_less [of st] count by (simp add: callout_stats_tables)
  finally have sum: "sum_list (map (ct ?s) [0..<64]) = card {c. pending st c}" .
  show ?thesis
  proof (cases "(\<forall>c. \<not> pending st c) \<or> hz = 0 \<or> ncpus = 0")
    case True
    then have "stat_count ?s = 0 \<or> hz = 0 \<or> ncpus = 0" using count by auto
    then show ?thesis using True by (simp only: sysctl_kern_callout_stat_def Let_def) simp
  next
    case False
    then have "stat_count ?s \<noteq> 0" "hz \<noteq> 0" "ncpus \<noteq> 0" using fin count by auto
    then obtain r where r: "sysctl_kern_callout_stat (0, True) hz ncpus st = Inr (0, Some r)" "r_count r = stat_count ?s"
        "r_lines r = dist_lines (ct ?s) [0..<64] 0"
      by (simp add: sysctl_kern_callout_stat_def Let_def)
    have "\<exists>r. sysctl_kern_callout_stat (0, True) hz ncpus st = Inr (0, Some r) \<and> r_count r = card {c. pending st c} \<and>
      map (\<lambda>(_, _, e, n, _). (e, n)) (r_lines r) =
        map (\<lambda>k. (int k - 25, card {c. pending st c \<and> time_class st c = k}))
          (filter (\<lambda>k. \<exists>c. pending st c \<and> time_class st c = k) [0..<64]) \<and>
      sum_list (map (\<lambda>(_, _, _, n, _). n) (r_lines r)) = card {c. pending st c}"
      using r by (intro exI [of _ r]) (simp only: dist_lines_classes classes [unfolded tab] count sum tab simp_thms)
    then show ?thesis by (simp only: False if_False)
  qed
qed

theorem callout_stat_correct_witness:
  "\<exists>r. sysctl_kern_callout_stat (0, True) 100 1 (demo_armed ()) = Inr (0, Some r) \<and> r_count r = 1"
proof -
  have "{c. pending (demo_armed ()) c} = {2}" by (auto simp: demo_armed_fields)
  moreover have "\<not> ((\<forall>c. \<not> pending (demo_armed ()) c) \<or> (100 :: i32) = 0 \<or> (1 :: nat) = 0)" by (simp add: demo_armed_fields)
  ultimately show ?thesis
    using callout_stat_correct [OF demo_armed_fields(1), of "()" 100 1] by (simp only: if_False) auto
qed

end
