(* ===== verification/LB_Rings.thy ===== *)
theory LB_Rings
  imports LB_Conf
begin

text \<open>
  The rings between processes, \<open>create_ring\<close>, \<open>init_dispatch_ring\<close> and \<open>init_msg_ring\<close> of \<^verbatim>\<open>src/lazybsd_dpdk.cc\<close>, and the size
  of the packet pools, \<open>init_mem_pool\<close>.  Rings are DPDK's: the primary process creates each under a name, the others look it up.  The registry of
  names is a parameter with its two operations; what they promise is \<open>ring_laws\<close>.  A ring is a number.
\<close>

section \<open>Rings\<close>

record 'g ring_calls =
  ring_create :: "string \<Rightarrow> nat \<Rightarrow> nat \<Rightarrow> 'g \<Rightarrow> nat option \<times> 'g"
  ring_lookup :: "string \<Rightarrow> 'g \<Rightarrow> nat option"
  zmalloc_ok :: "nat \<Rightarrow> bool"
  msg_pool :: bool

abbreviation (input) RTE_RING_NAMESIZE :: nat where "RTE_RING_NAMESIZE \<equiv> 29"
abbreviation (input) DISPATCH_RING_SIZE :: nat where "DISPATCH_RING_SIZE \<equiv> 2048"
abbreviation (input) MSG_RING_SIZE :: nat where "MSG_RING_SIZE \<equiv> 32"
abbreviation (input) LAZYBSD_MSG_NUM :: nat where "LAZYBSD_MSG_NUM \<equiv> 10"

definition create_ring :: "'g ring_calls \<Rightarrow> bool \<Rightarrow> string option \<Rightarrow> nat \<Rightarrow> nat \<Rightarrow> 'g \<Rightarrow> (nat \<times> 'g) kresult" where
  "create_ring R primary name cnt sock g =
     (case name of
        None \<Rightarrow> Inl (Panic ''create ring failed, no name!'')
      | Some name \<Rightarrow>
          (case (if primary then ring_create R name cnt sock g else (ring_lookup R name g, g)) of
             (None, g) \<Rightarrow> Inl (Panic ''create ring failed!'')
           | (Some r, g) \<Rightarrow> Inr (r, g)))"

definition dispatch_name :: "nat \<Rightarrow> nat \<Rightarrow> string" where
  "dispatch_name port q = take (RTE_RING_NAMESIZE - 1) (''dispatch_ring_p'' @ show_nat port @ ''_q'' @ show_nat q)"

text \<open>\<open>dispatch_ring\<close>: for each port no array, or an array of rings.\<close>

type_synonym dispatch_rings = "nat \<Rightarrow> (nat \<Rightarrow> nat option) option"

definition put_ring :: "nat \<Rightarrow> nat \<Rightarrow> nat \<Rightarrow> dispatch_rings \<Rightarrow> dispatch_rings" where
  "put_ring port q r d = d(port := map_option (\<lambda>a. a(q := Some r)) (d port))"

fun dispatch_queues :: "'g ring_calls \<Rightarrow> bool \<Rightarrow> nat \<Rightarrow> nat \<Rightarrow> nat list \<Rightarrow> dispatch_rings \<times> 'g \<Rightarrow> (dispatch_rings \<times> 'g) kresult" where
  "dispatch_queues R primary sock port [] x = Inr x"
| "dispatch_queues R primary sock port (q # qs) (d, g) =
     (case create_ring R primary (Some (dispatch_name port q)) DISPATCH_RING_SIZE sock g of
        Inl e \<Rightarrow> Inl e
      | Inr (r, g) \<Rightarrow> dispatch_queues R primary sock port qs (put_ring port q r d, g))"

fun dispatch_ports ::
  "'g ring_calls \<Rightarrow> bool \<Rightarrow> nat \<Rightarrow> (nat \<Rightarrow> nat) \<Rightarrow> nat list \<Rightarrow> dispatch_rings \<times> 'g \<Rightarrow> (dispatch_rings \<times> 'g) kresult" where
  "dispatch_ports R primary sock queues [] x = Inr x"
| "dispatch_ports R primary sock queues (port # ports) (d, g) =
     (if d port = None \<and> \<not> zmalloc_ok R port then Inl (Panic ''rte_zmalloc failed'')
      else
        let d = (if d port = None then d(port := Some (\<lambda>_. None)) else d)
        in case dispatch_queues R primary sock port [0..<queues port] (d, g) of
             Inl e \<Rightarrow> Inl e
           | Inr x \<Rightarrow> dispatch_ports R primary sock queues ports x)"

definition init_dispatch_ring ::
  "'g ring_calls \<Rightarrow> bool \<Rightarrow> dpdk_cfg \<Rightarrow> nat \<Rightarrow> dispatch_rings \<times> 'g \<Rightarrow> (dispatch_rings \<times> 'g) kresult" where
  "init_dispatch_ring R primary cfg sock x =
     dispatch_ports R primary sock (nb_lcores cfg) (map (portid_list cfg) [0..<nb_ports cfg]) x"

definition msg_ring_name :: "nat \<Rightarrow> nat \<Rightarrow> string" where
  "msg_ring_name i j = take (RTE_RING_NAMESIZE - 1)
     (if j = 0 then ''lazybsd_msg_ring_in_'' @ show_nat i else ''lazybsd_msg_ring_out_'' @ show_nat i @ ''_'' @ show_nat j)"

text \<open>The rings of a process: number 0 for requests, the others for the answers of each type.\<close>

fun msg_rings :: "'g ring_calls \<Rightarrow> bool \<Rightarrow> nat \<Rightarrow> (nat \<times> nat) list \<Rightarrow> (nat \<Rightarrow> nat \<Rightarrow> nat option) \<times> 'g
    \<Rightarrow> ((nat \<Rightarrow> nat \<Rightarrow> nat option) \<times> 'g) kresult" where
  "msg_rings R primary sock [] x = Inr x"
| "msg_rings R primary sock ((i, j) # ijs) (ring, g) =
     (case create_ring R primary (Some (msg_ring_name i j)) MSG_RING_SIZE sock g of
        Inl e \<Rightarrow> Inl e
      | Inr (r, g) \<Rightarrow> msg_rings R primary sock ijs (ring(i := (ring i)(j := Some r)), g))"

definition init_msg_ring :: "'g ring_calls \<Rightarrow> bool \<Rightarrow> nat \<Rightarrow> nat \<Rightarrow> (nat \<Rightarrow> nat \<Rightarrow> nat option) \<times> 'g
    \<Rightarrow> ((nat \<Rightarrow> nat \<Rightarrow> nat option) \<times> 'g) kresult" where
  "init_msg_ring R primary nb_procs sock x =
     (if \<not> msg_pool R then Inl (Panic ''Create msg mempool failed'')
      else msg_rings R primary sock (concat (map (\<lambda>i. map (Pair i) (0 # [1..<LAZYBSD_MSG_NUM])) [0..<nb_procs])) x)"

section \<open>Pools\<close>

record pool_cfg =
  p_nb_ports :: "8 word"
  p_nb_procs :: u32
  p_max_portid :: u16
  p_nb_rx_queue :: u16
  p_kni :: bool

definition align_ceil :: "u32 \<Rightarrow> u32 \<Rightarrow> u32" where
  "align_ceil v a = (v + (a - 1)) AND NOT (a - 1)"

definition pool_size :: "pool_cfg \<Rightarrow> u32" where
  "pool_size P =
     (let ports = ucast (p_nb_ports P); procs = p_nb_procs P; ids = ucast (p_max_portid P) + 1; rxq = ucast (p_nb_rx_queue P) * procs
      in align_ceil (rxq * ids * 2 * 512 + ports * ids * 2 * procs * 32 + ports * ids * 2 * procs * 512 + procs * 256
           + (if p_kni P then ports * 2048 + ports * 2048 else 0) + procs * ports * 2048) 8192)"

definition ref_pool_size :: "pool_cfg \<Rightarrow> u32" where
  "ref_pool_size P =
     (let ports = ucast (p_nb_ports P); procs = p_nb_procs P
      in align_ceil (ports * procs * 32 + ports * procs * 512 + procs * 256) 4096)"

text \<open>The loop over the processes yields the pools created, with their sizes: the packet pool and the pool of references of a socket.
  \<open>nb_mbuf\<close> is the variable the code uses for both sizes.\<close>

fun pool_loop :: "pool_cfg \<Rightarrow> (nat \<Rightarrow> bool) \<Rightarrow> nat list \<Rightarrow> u32 \<Rightarrow> (nat \<times> u32 \<times> u32) list \<Rightarrow> (nat \<times> u32 \<times> u32) list kresult" where
  "pool_loop P created [] nb_mbuf out = Inr out"
| "pool_loop P created (sock # socks) nb_mbuf out =
     (if sock \<ge> 8 then Inl (Panic ''Socket out of range'')
      else if sock \<in> fst ` set out then pool_loop P created socks nb_mbuf out
      else if \<not> created sock then Inl (Panic ''Cannot create mbuf pool'')
      else pool_loop P created socks (ref_pool_size P) (out @ [(sock, nb_mbuf, ref_pool_size P)]))"

definition init_mem_pool :: "pool_cfg \<Rightarrow> (nat \<Rightarrow> bool) \<Rightarrow> nat list \<Rightarrow> (nat \<times> u32 \<times> u32) list kresult" where
  "init_mem_pool P created socks = pool_loop P created socks (pool_size P) []"

section \<open>Names\<close>

lemma show_nat_inject [simp]: "show_nat m = show_nat n \<longleftrightarrow> m = n"
proof
  assume "show_nat m = show_nat n"
  then have "digits 10 m = digits 10 n" by (simp only: flip: show_nat_values)
  then have "base_val 10 (digits 10 m) = base_val 10 (digits 10 n)" by (rule arg_cong)
  then show "m = n" by simp
qed simp

lemma length_show_nat: "n < 10 ^ k \<Longrightarrow> 0 < k \<Longrightarrow> length (show_nat n) \<le> k"
  unfolding show_nat_def length_map by (rule digits_length) simp_all

lemma show_nat_split:
  assumes "show_nat a @ CHR ''_'' # r = show_nat b @ CHR ''_'' # r'"
  shows "a = b" "r = r'"
proof -
  have c: "\<not> is_dec (hd (CHR ''_'' # x))" for x by (simp add: is_dec_def)
  have "show_nat a = show_nat b"
    using takeWhile_show_nat(1) [OF disjI2 [OF c], of a r] takeWhile_show_nat(1) [OF disjI2 [OF c], of b r'] assms by simp
  then show "a = b" "r = r'" using assms by simp_all
qed

lemma length_show_u16: "n < 2 ^ 16 \<Longrightarrow> length (show_nat n) \<le> 5"
  by (rule length_show_nat) simp_all

text \<open>Names of ports and queues, and of processes, fit: nothing is cut off, and different rings have different names.\<close>

lemma dispatch_name_inject:
  assumes "p < 2 ^ 16" "q < 2 ^ 16" "p' < 2 ^ 16" "q' < 2 ^ 16" and "dispatch_name p q = dispatch_name p' q'"
  shows "p = p' \<and> q = q'"
proof -
  have "dispatch_name p q = ''dispatch_ring_p'' @ show_nat p @ CHR ''_'' # CHR ''q'' # show_nat q" if "p < 2 ^ 16" "q < 2 ^ 16" for p q
    unfolding dispatch_name_def using length_show_u16 [OF that(1)] length_show_u16 [OF that(2)] by (simp add: take_all)
  then have "show_nat p @ CHR ''_'' # CHR ''q'' # show_nat q = show_nat p' @ CHR ''_'' # CHR ''q'' # show_nat q'"
    using assms by simp
  from show_nat_split [OF this] show ?thesis by simp
qed

section \<open>The registry\<close>

text \<open>A ring can be created under a name that is not taken; it is a ring of its own and found under its name afterwards, and nothing
  else changes.\<close>

definition ring_laws :: "'g ring_calls \<Rightarrow> bool" where
  "ring_laws R \<longleftrightarrow> (\<forall>name cnt sock g r g'. ring_create R name cnt sock g = (Some r, g') \<longrightarrow>
     ring_lookup R name g = None \<and> ring_lookup R name g' = Some r \<and>
     (\<forall>n. n \<noteq> name \<longrightarrow> ring_lookup R n g' = ring_lookup R n g) \<and> (\<forall>n. ring_lookup R n g \<noteq> Some r))"

text \<open>From \<open>g\<close> to \<open>g'\<close> exactly the names \<open>N\<close> were given rings, new and different ones.\<close>

definition grows :: "'g ring_calls \<Rightarrow> string set \<Rightarrow> 'g \<Rightarrow> 'g \<Rightarrow> bool" where
  "grows R N g g' \<longleftrightarrow> (\<forall>n. n \<notin> N \<longrightarrow> ring_lookup R n g' = ring_lookup R n g) \<and>
     (\<forall>n\<in>N. ring_lookup R n g = None \<and> (\<exists>r. ring_lookup R n g' = Some r \<and> (\<forall>m. ring_lookup R m g \<noteq> Some r))) \<and>
     inj_on (\<lambda>n. ring_lookup R n g') N"

lemma grows_refl: "grows R {} g g"
  by (simp add: grows_def)

lemma grows_trans:
  assumes 1: "grows R N g g'" and 2: "grows R M g' g''"
  shows "grows R (N \<union> M) g g''"
proof -
  have NM: "n \<notin> M" if "n \<in> N" for n using that 1 2 unfolding grows_def by force
  have old: "ring_lookup R n g'' = ring_lookup R n g'" if "n \<notin> M" for n using 2 that by (simp add: grows_def)
  have fresh: "\<exists>r. ring_lookup R n g'' = Some r \<and> (\<forall>m. ring_lookup R m g' \<noteq> Some r)" if "n \<in> M" for n
    using 2 that by (simp add: grows_def)
  have sub: "ring_lookup R n g' = Some r" if "ring_lookup R n g = Some r" for n r
    using that 1 by (cases "n \<in> N") (auto simp: grows_def)
  have "inj_on (\<lambda>n. ring_lookup R n g'') (N \<union> M)"
  proof (rule inj_onI)
    fix x y assume xy: "x \<in> N \<union> M" "y \<in> N \<union> M" "ring_lookup R x g'' = ring_lookup R y g''"
    consider "x \<in> N" "y \<in> N" | "x \<in> N" "y \<in> M" | "x \<in> M" "y \<in> N" | "x \<in> M" "y \<in> M" using xy by blast
    then show "x = y"
    proof cases
      case 1
      then show ?thesis using \<open>grows R N g g'\<close> xy(3) NM old unfolding grows_def inj_on_def by simp
    next
      case 2
      then show ?thesis using fresh [of y] old [OF NM [of x]] xy(3) by metis
    next
      case 3
      then show ?thesis using fresh [of x] old [OF NM [of y]] xy(3) by metis
    next
      case 4
      then show ?thesis using \<open>grows R M g' g''\<close> xy(3) unfolding grows_def inj_on_def by simp
    qed
  qed
  moreover have "ring_lookup R n g'' = ring_lookup R n g" if "n \<notin> N \<union> M" for n
    using that old 1 by (simp add: grows_def)
  moreover have "ring_lookup R n g = None \<and> (\<exists>r. ring_lookup R n g'' = Some r \<and> (\<forall>m. ring_lookup R m g \<noteq> Some r))" if "n \<in> N \<union> M" for n
  proof (cases "n \<in> N")
    case True
    then show ?thesis using 1 old [OF NM] by (simp add: grows_def)
  next
    case False
    then have "n \<in> M" "ring_lookup R n g' = ring_lookup R n g" using that 1 by (auto simp: grows_def)
    moreover from this have "ring_lookup R n g' = None" using 2 by (simp add: grows_def)
    ultimately show ?thesis using fresh [of n] sub by fastforce
  qed
  ultimately show ?thesis unfolding grows_def by blast
qed

lemma create_grows:
  assumes "ring_laws R" and "create_ring R primary (Some name) cnt sock g = Inr (r, g')"
  shows "ring_lookup R name g' = Some r \<and> (if primary then grows R {name} g g' else g' = g)"
  using assms unfolding ring_laws_def
  by (auto simp: create_ring_def grows_def split: prod.splits option.splits if_splits)

lemma grows_keeps: "grows R N g g' \<Longrightarrow> ring_lookup R n g = Some r \<Longrightarrow> ring_lookup R n g' = Some r"
  by (cases "n \<in> N") (auto simp: grows_def)

text \<open>After the names \<open>N\<close>: the primary has created them, another process has left the registry alone.\<close>

definition named :: "'g ring_calls \<Rightarrow> bool \<Rightarrow> string set \<Rightarrow> 'g \<Rightarrow> 'g \<Rightarrow> bool" where
  "named R primary N g g' \<longleftrightarrow> (if primary then grows R N g g' else g' = g)"

lemma named_trans: "named R primary N g g' \<Longrightarrow> named R primary M g' g'' \<Longrightarrow> named R primary (N \<union> M) g g''"
  using grows_trans by (auto simp: named_def split: if_splits)

lemma named_keeps: "named R primary N g g' \<Longrightarrow> ring_lookup R n g = Some r \<Longrightarrow> ring_lookup R n g' = Some r"
  using grows_keeps by (auto simp: named_def split: if_splits)

definition ring_of :: "dispatch_rings \<Rightarrow> nat \<times> nat \<Rightarrow> nat option" where
  "ring_of d = (\<lambda>(p, q). case d p of None \<Rightarrow> None | Some a \<Rightarrow> a q)"

lemma ring_of_put: "d p \<noteq> None \<Longrightarrow> ring_of (put_ring p q r d) x = (if x = (p, q) then Some r else ring_of d x)"
  by (auto simp: ring_of_def put_ring_def split: prod.splits)

text \<open>The rings \<open>S\<close> are in place: each is the one the registry has under its name.\<close>

definition in_place :: "'g ring_calls \<Rightarrow> (nat \<times> nat) set \<Rightarrow> dispatch_rings \<Rightarrow> 'g \<Rightarrow> bool" where
  "in_place R S d g \<longleftrightarrow> (\<forall>(p, q)\<in>S. \<exists>r. ring_of d (p, q) = Some r \<and> ring_lookup R (dispatch_name p q) g = Some r)"

lemma in_placeD:
  "in_place R S d g \<Longrightarrow> (p, q) \<in> S \<Longrightarrow> \<exists>r. ring_of d (p, q) = Some r \<and> ring_lookup R (dispatch_name p q) g = Some r"
  by (auto simp: in_place_def)

lemma dispatch_queues_places:
  assumes "ring_laws R" and "dispatch_queues R primary sock p qs (d, g) = Inr (d', g')" and "d p \<noteq> None"
  shows "in_place R ({p} \<times> set qs) d' g' \<and> named R primary (dispatch_name p ` set qs) g g' \<and> d' p \<noteq> None \<and>
    (\<forall>x. x \<notin> {p} \<times> set qs \<longrightarrow> ring_of d' x = ring_of d x)"
  using assms(2,3)
proof (induction qs arbitrary: d g)
  case Nil
  then show ?case by (simp add: in_place_def named_def grows_refl)
next
  case (Cons q qs)
  obtain r g1 where c: "create_ring R primary (Some (dispatch_name p q)) DISPATCH_RING_SIZE sock g = Inr (r, g1)"
    and rest: "dispatch_queues R primary sock p qs (put_ring p q r d, g1) = Inr (d', g')"
    using Cons.prems(1) by (auto split: sum.splits)
  have 1: "ring_lookup R (dispatch_name p q) g1 = Some r" "named R primary {dispatch_name p q} g g1"
    using create_grows [OF assms(1) c] by (auto simp: named_def)
  have there: "put_ring p q r d p \<noteq> None" using Cons.prems(2) by (simp add: put_ring_def)
  have 2: "in_place R ({p} \<times> set qs) d' g'" "named R primary (dispatch_name p ` set qs) g1 g'" "d' p \<noteq> None"
      "\<forall>x. x \<notin> {p} \<times> set qs \<longrightarrow> ring_of d' x = ring_of (put_ring p q r d) x"
    using Cons.IH [OF rest] there by blast+
  have "\<exists>r. ring_of d' (p, q) = Some r \<and> ring_lookup R (dispatch_name p q) g' = Some r"
  proof (cases "q \<in> set qs")
    case True
    then show ?thesis using 2(1) by (auto simp: in_place_def)
  next
    case False
    then show ?thesis using 2(4) named_keeps [OF 2(2) 1(1)] ring_of_put [of d p q r] Cons.prems(2) by simp
  qed
  then have "in_place R ({p} \<times> set (q # qs)) d' g'" using 2(1) by (auto simp: in_place_def)
  moreover have "ring_of d' x = ring_of d x" if "x \<notin> {p} \<times> set (q # qs)" for x
    using 2(4) that ring_of_put [of d p q r] Cons.prems(2) by (cases x) auto
  moreover have "named R primary (dispatch_name p ` set (q # qs)) g g'"
    using named_trans [OF 1(2) 2(2)] by simp
  ultimately show ?case using 2(3) by blast
qed

definition queue_pairs :: "(nat \<Rightarrow> nat) \<Rightarrow> nat list \<Rightarrow> (nat \<times> nat) set" where
  "queue_pairs queues ports = {(p, q). p \<in> set ports \<and> q < queues p}"

lemma dispatch_ports_places:
  assumes "ring_laws R" and "dispatch_ports R primary sock queues ports (d, g) = Inr (d', g')"
  shows "in_place R (queue_pairs queues ports) d' g' \<and>
    named R primary ((\<lambda>(p, q). dispatch_name p q) ` queue_pairs queues ports) g g' \<and>
    (\<forall>x. x \<notin> queue_pairs queues ports \<longrightarrow> ring_of d' x = ring_of d x)"
  using assms(2)
proof (induction ports arbitrary: d g)
  case Nil
  then show ?case by (simp add: in_place_def named_def grows_refl queue_pairs_def)
next
  case (Cons p ports)
  define d0 where "d0 = (if d p = None then d(p := Some (\<lambda>_. None)) else d)"
  obtain d1 g1 where q: "dispatch_queues R primary sock p [0..<queues p] (d0, g) = Inr (d1, g1)"
    and rest: "dispatch_ports R primary sock queues ports (d1, g1) = Inr (d', g')"
    using Cons.prems by (auto simp: d0_def Let_def split: if_splits sum.splits)
  have "d0 p \<noteq> None" by (simp add: d0_def)
  note 1 = dispatch_queues_places [OF assms(1) q this]
  note 2 = Cons.IH [OF rest]
  have pairs: "queue_pairs queues (p # ports) = {p} \<times> set [0..<queues p] \<union> queue_pairs queues ports"
    by (auto simp: queue_pairs_def)
  have "\<exists>r. ring_of d' (p, i) = Some r \<and> ring_lookup R (dispatch_name p i) g' = Some r" if lt: "i < queues p" for i
  proof (cases "(p, i) \<in> queue_pairs queues ports")
    case True
    then show ?thesis using 2 by (auto simp: in_place_def)
  next
    case False
    obtain r where "ring_of d1 (p, i) = Some r" "ring_lookup R (dispatch_name p i) g1 = Some r"
      using in_placeD [OF conjunct1 [OF 1], of p i] lt by auto
    then show ?thesis
      using 2 False named_keeps [of R primary _ g1 g' "dispatch_name p i" r] by auto
  qed
  then have "in_place R (queue_pairs queues (p # ports)) d' g'" using 2 by (auto simp: in_place_def pairs)
  moreover have "(\<lambda>(p, q). dispatch_name p q) ` queue_pairs queues (p # ports) =
      dispatch_name p ` set [0..<queues p] \<union> (\<lambda>(p, q). dispatch_name p q) ` queue_pairs queues ports"
    unfolding pairs image_Un by force
  moreover have "ring_of d0 x = ring_of d x" for x by (auto simp: d0_def ring_of_def split: prod.splits)
  ultimately show ?case using 1 2 named_trans [of R primary "dispatch_name p ` set [0..<queues p]" g g1] by (auto simp: pairs)
qed

text \<open>C22: the processes share their rings.  When the primary process has set up the rings of all queues and another process sets up
  its own, with the rings of the primary still in the registry, both have the same ring for each queue of each port, and different
  queues have different rings: what one core hands over to a queue reaches the core of that queue and no other.\<close>

theorem dispatch_rings_shared:
  assumes "ring_laws R" and "\<forall>i<nb_ports cfg. portid_list cfg i < 2 ^ 16 \<and> nb_lcores cfg (portid_list cfg i) \<le> 2 ^ 16"
    and "init_dispatch_ring R True cfg sock (\<lambda>_. None, g) = Inr (d, g1)"
    and "\<forall>n r. ring_lookup R n g1 = Some r \<longrightarrow> ring_lookup R n g2 = Some r"
    and "init_dispatch_ring R False cfg sock' (\<lambda>_. None, g2) = Inr (d', g3)"
    and "S = queue_pairs (nb_lcores cfg) (map (portid_list cfg) [0..<nb_ports cfg])"
  shows "(\<forall>x\<in>S. ring_of d x \<noteq> None \<and> ring_of d' x = ring_of d x) \<and> inj_on (ring_of d) S"
proof -
  have p: "in_place R S d g1" "named R True ((\<lambda>(p, q). dispatch_name p q) ` S) g g1"
    using dispatch_ports_places [OF assms(1) assms(3) [unfolded init_dispatch_ring_def]] assms(6) by simp_all
  have s: "in_place R S d' g3" "named R False ((\<lambda>(p, q). dispatch_name p q) ` S) g2 g3"
    using dispatch_ports_places [OF assms(1) assms(5) [unfolded init_dispatch_ring_def]] assms(6) by simp_all
  have g3: "g3 = g2" using s(2) by (simp add: named_def)
  have same: "ring_of d x \<noteq> None \<and> ring_of d' x = ring_of d x \<and> ring_of d x = ring_lookup R (case x of (p, q) \<Rightarrow> dispatch_name p q) g1"
    if x: "x \<in> S" for x
  proof -
    obtain pt q where pq: "x = (pt, q)" by (cases x)
    obtain r where r: "ring_of d x = Some r" "ring_lookup R (dispatch_name pt q) g1 = Some r"
      using in_placeD [OF p(1), of pt q] x pq by auto
    obtain r' where r': "ring_of d' x = Some r'" "ring_lookup R (dispatch_name pt q) g2 = Some r'"
      using in_placeD [OF s(1), of pt q] x pq g3 by auto
    show ?thesis using r r' pq assms(4) by simp
  qed
  have small: "p < 2 ^ 16 \<and> q < 2 ^ 16" if "(p, q) \<in> S" for p q
    using that assms(2) by (fastforce simp: assms(6) queue_pairs_def)
  have inj: "inj_on (\<lambda>n. ring_lookup R n g1) ((\<lambda>(p, q). dispatch_name p q) ` S)" using p(2) by (simp add: named_def grows_def)
  have "inj_on (ring_of d) S"
  proof (rule inj_onI)
    fix x y assume xy: "x \<in> S" "y \<in> S" "ring_of d x = ring_of d y"
    obtain pt q pt' q' where e: "x = (pt, q)" "y = (pt', q')" by (cases x; cases y)
    have "ring_lookup R (dispatch_name pt q) g1 = ring_lookup R (dispatch_name pt' q') g1"
      using same [OF xy(1)] same [OF xy(2)] xy(3) by (simp add: e)
    then have "dispatch_name pt q = dispatch_name pt' q'"
      using inj_onD [OF inj, of "dispatch_name pt q" "dispatch_name pt' q'"] xy(1,2) e by force
    then show "x = y" using dispatch_name_inject small xy(1,2) e by blast
  qed
  then show ?thesis using same by blast
qed

text \<open>A registry: the names in the order in which they were given out; a ring is a position.\<close>

definition list_registry :: "string list ring_calls" where
  "list_registry = \<lparr>ring_create = (\<lambda>name cnt sock g. if name \<in> set g then (None, g) else (Some (length g), g @ [name])),
     ring_lookup = (\<lambda>name g. if name \<in> set g then Some (length (takeWhile (\<lambda>n. n \<noteq> name) g)) else None),
     zmalloc_ok = (\<lambda>_. True), msg_pool = True\<rparr>"

lemma list_registry_laws: "ring_laws list_registry"
proof -
  have "length (takeWhile (\<lambda>m. m \<noteq> n) g) \<noteq> length g" if "n \<in> set g" for n :: string and g
    using that by (induction g) auto
  then show ?thesis
    by (auto simp: ring_laws_def list_registry_def takeWhile_append split: if_splits)
qed

definition two_queues :: dpdk_cfg where
  "two_queues = \<lparr>max_portid = 5, nb_ports = 1, portid_list = (\<lambda>_. 5), cfg_proc_id = 0, proc_lcore = (\<lambda>p. p + 2), nb_lcores = (\<lambda>_. 2),
     lcore_list = (\<lambda>_ i. i + 2), pcap_enable = False, pcap_save_path = None, pcap_snap_len = 0\<rparr>"

theorem dispatch_rings_shared_witness:
  "\<exists>d g1 d' g3. init_dispatch_ring list_registry True two_queues 0 (\<lambda>_. None, []) = Inr (d, g1) \<and>
     init_dispatch_ring list_registry False two_queues 1 (\<lambda>_. None, g1) = Inr (d', g3) \<and> ring_of d (5, 1) \<noteq> None \<and>
     ring_of d' (5, 1) = ring_of d (5, 1) \<and> ring_of d (5, 1) \<noteq> ring_of d (5, 0)"
proof -
  have names: "dispatch_name 5 0 \<noteq> dispatch_name 5 (Suc 0)"
    using dispatch_name_inject [of 5 0 5 "Suc 0"] by auto
  obtain d g1 where 1: "init_dispatch_ring list_registry True two_queues 0 (\<lambda>_. None, []) = Inr (d, g1)"
      and "g1 = [dispatch_name 5 0, dispatch_name 5 (Suc 0)]"
    using names by (simp add: init_dispatch_ring_def two_queues_def upt_rec create_ring_def list_registry_def)
  then obtain d' g3 where 2: "init_dispatch_ring list_registry False two_queues 1 (\<lambda>_. None, g1) = Inr (d', g3)"
    using names by (simp add: init_dispatch_ring_def two_queues_def upt_rec create_ring_def list_registry_def)
  let ?S = "queue_pairs (nb_lcores two_queues) (map (portid_list two_queues) [0..<nb_ports two_queues])"
  have "(\<forall>x\<in>?S. ring_of d x \<noteq> None \<and> ring_of d' x = ring_of d x) \<and> inj_on (ring_of d) ?S"
    by (rule dispatch_rings_shared [OF list_registry_laws _ 1 _ 2 refl]) (simp_all add: two_queues_def)
  moreover have "(5, 1) \<in> ?S" "(5, 0) \<in> ?S" by (simp_all add: queue_pairs_def two_queues_def upt_rec)
  moreover from calculation have "ring_of d (5, 1) \<noteq> ring_of d (5, 0)"
    using inj_onD [of "ring_of d" ?S "(5, 1)" "(5, 0)"] by auto
  ultimately show ?thesis using 1 2 by blast
qed

text \<open>With references the second packet pool created does not have the size computed for packet pools.\<close>

lemma second_pool_is_small:
  "init_mem_pool P (\<lambda>_. True) [0, 1] = Inr [(0, pool_size P, ref_pool_size P), (1, ref_pool_size P, ref_pool_size P)]"
  by (simp add: init_mem_pool_def)

end
