(* ===== verification/LB_Route_Norm.thy ===== *)
theory LB_Route_Norm
  imports LB_Route_Props
begin

text \<open>
  The normalisation of an IPv4 request, \<open>cleanup_xaddrs\<close> of \<^verbatim>\<open>bsd/lib/lazybsd_route.c\<close>, for requests with and without a netmask and a
  gateway and for link-layer entries: what is refused, and what the destination, the netmask and the gateway look like afterwards.
\<close>

lemma length_and_bytes [simp]: "length (and_bytes as bs) = min (length as) (length bs)"
  by (simp add: and_bytes_def)

section \<open>Specification\<close>

text \<open>Two pieces of memory that share no byte.\<close>

definition spans_apart :: "nat \<Rightarrow> nat \<Rightarrow> nat \<Rightarrow> nat \<Rightarrow> bool" where
  "spans_apart a k b l \<longleftrightarrow> a + k \<le> b \<or> b + l \<le> a"

text \<open>The netmask a request uses: a request about a link-layer entry loses its netmask, and without one all bits count.\<close>

definition route_mask :: "addrinfo \<Rightarrow> nat option" where
  "route_mask info = (if rti_flags info AND RTF_LLDATA \<noteq> 0 then None else rti_info info RTAX_NETMASK)"

definition mask_bytes :: "addrinfo \<Rightarrow> mem \<Rightarrow> u8 list" where
  "mask_bytes info m = (case route_mask info of Some k \<Rightarrow> mread m (k + 4) 4 | None \<Rightarrow> replicate 4 0xff)"

text \<open>What a gateway has to look like, and the bytes it gets: a clean IPv4 or IPv6 address, a clean short link address with its index
  only; a link-layer entry is checked and kept, other families are kept.  \<open>None\<close> is a gateway that is refused.\<close>

definition gateway_size :: "nat \<Rightarrow> mem \<Rightarrow> nat" where
  "gateway_size gw m = (if m (gw + 1) = F_INET6 then 28 else 16)"

definition gateway_form :: "addrinfo \<Rightarrow> nat \<Rightarrow> mem \<Rightarrow> u8 list option" where
  "gateway_form info gw m =
    (if rti_flags info AND RTF_LLDATA \<noteq> 0 then
       (if m (gw + 1) = F_LINK \<and> ld16 m (gw + 2) \<noteq> 0 \<and> 8 + unat (m (gw + 5)) + unat (m (gw + 6)) \<le> unat (m gw) then Some [] else None)
     else if m (gw + 1) = F_INET then
       (if m gw < 16 then None else Some ([16, F_INET, 0, 0] @ mread m (gw + 4) 4 @ replicate 8 0))
     else if m (gw + 1) = F_INET6 then
       (if m gw < 28 then None else Some ([28, F_INET6, 0, 0, 0, 0, 0, 0] @ mread m (gw + 8) 16 @ replicate 4 0))
     else if m (gw + 1) = F_LINK then
       (if m gw < 16 then None else Some ([16, F_LINK, m (gw + 2), m (gw + 3)] @ replicate 12 0))
     else Some [])"

section \<open>The gateway\<close>

lemma host_keeps_lldata: "(f OR RTF_HOST) AND RTF_LLDATA = f AND RTF_LLDATA"
  by (simp add: bit.conj_disj_distrib2)

lemma gateway_form_remove: "gateway_form (remove_netmask info) = gateway_form info"
  by (simp add: gateway_form_def fun_eq_iff remove_netmask_def host_keeps_lldata)

lemma gateway_form_length: "gateway_form info gw m = Some bs \<Longrightarrow> length bs \<le> gateway_size gw m"
  by (auto simp: gateway_form_def gateway_size_def split: if_splits)

lemma check_gateway_form:
  "check_gateway info m =
    (case rti_info info RTAX_GATEWAY of None \<Rightarrow> (0, info, m)
     | Some gw \<Rightarrow> (case gateway_form info gw m of None \<Rightarrow> (22, info, m) | Some bs \<Rightarrow> (0, info, mwrite gw bs m)))"
proof (cases "rti_info info RTAX_GATEWAY")
  case (Some gw)
  have "replicate 4 (0 :: u8) = [0, 0, 0, 0]" by (simp add: eval_nat_numeral)
  then show ?thesis
    using Some by (auto simp: check_gateway_def cleanup_xaddrs_gateway_def cleanup_xaddrs_lladdr_def gateway_form_def
        fill_sockaddr_inet_def fill_sockaddr_inet6_def simp del: append.simps append_Cons)
qed (simp add: check_gateway_def)

lemma gateway_cong:
  assumes "\<And>a. gw \<le> a \<Longrightarrow> a < gw + gateway_size gw m \<Longrightarrow> m' a = m a"
  shows "gateway_form info gw m' = gateway_form info gw m" "gateway_size gw m' = gateway_size gw m"
proof -
  have size: "16 \<le> gateway_size gw m" by (simp add: gateway_size_def)
  have small: "m' (gw + i) = m (gw + i)" if "i < 16" for i using assms [of "gw + i"] size that by simp
  have bytes: "m' gw = m gw" "m' (gw + 1) = m (gw + 1)" "m' (gw + 2) = m (gw + 2)" "m' (gw + 3) = m (gw + 3)"
    "m' (gw + 5) = m (gw + 5)" "m' (gw + 6) = m (gw + 6)"
    using small [of 0] small [of 1] small [of 2] small [of 3] small [of 5] small [of 6] by simp_all
  then show "gateway_size gw m' = gateway_size gw m" by (simp add: gateway_size_def)
  have w: "ld16 m' (gw + 2) = ld16 m (gw + 2)" using bytes(3,4) by (simp add: ld16_def numeral_3_eq_3)
  have r4: "mread m' (gw + 4) 4 = mread m (gw + 4) 4" by (rule mread_cong) (use assms size in auto)
  have r8: "mread m' (gw + 8) 16 = mread m (gw + 8) 16" if "m (gw + 1) = F_INET6"
    by (rule mread_cong) (use assms that in \<open>auto simp: gateway_size_def\<close>)
  show "gateway_form info gw m' = gateway_form info gw m"
    unfolding gateway_form_def bytes w r4 by (auto simp: r8)
qed

section \<open>Normalisation\<close>

text \<open>What \<open>cleanup_xaddrs\<close> hands to the check of the gateway.\<close>

lemma cleanup_inet_parts:
  assumes "rti_info info RTAX_DST = Some d" "m (d + 1) = F_INET"
  shows "cleanup_xaddrs info m =
    (if m d < 16 \<or> (\<exists>k. route_mask info = Some k \<and> m k < 16)
     then (22, if rti_flags info AND RTF_LLDATA \<noteq> 0 then remove_netmask info else info, m)
     else let m1 = fill_sockaddr_inet d (and_bytes (mread m (d + 4) 4) (mask_bytes info m)) m
          in if mask_bytes info m = replicate 4 0xff then check_gateway (remove_netmask info) m1
             else check_gateway info (case route_mask info of Some k \<Rightarrow> fill_sockaddr_inet k (mask_bytes info m) m1 | None \<Rightarrow> m1))"
proof (cases "rti_flags info AND RTF_LLDATA \<noteq> 0")
  case True
  then have "remove_netmask (remove_netmask info) = remove_netmask info" "rti_info (remove_netmask info) RTAX_NETMASK = None"
    "rti_info (remove_netmask info) RTAX_DST = Some d"
    using assms(1) by (simp_all add: remove_netmask_def or.assoc and.assoc)
  then show ?thesis
    using True assms by (simp add: cleanup_xaddrs_def cleanup_xaddrs_inet_def route_mask_def mask_bytes_def Let_def)
next
  case False
  then show ?thesis
    using assms by (auto simp: cleanup_xaddrs_def cleanup_xaddrs_inet_def route_mask_def mask_bytes_def Let_def split: option.splits)
qed

lemma mread_fill:
  assumes "length bs = 4"
  shows "mread (fill_sockaddr_inet p bs m) p 16 = [16, F_INET, 0, 0] @ bs @ replicate 8 0"
proof -
  have "length ([16, F_INET, 0, 0] @ bs @ replicate 8 0 :: u8 list) = 16" using assms by simp
  then show ?thesis unfolding fill_sockaddr_inet_def by (metis mread_mwrite)
qed

lemma fill_outside:
  assumes "length bs = 4" "a < p \<or> p + 16 \<le> a"
  shows "fill_sockaddr_inet p bs m a = m a"
  using assms by (auto simp: fill_sockaddr_inet_def mwrite_def)

lemma mread_fill_outside: "length bs = 4 \<Longrightarrow> spans_apart q n p 16 \<Longrightarrow> mread (fill_sockaddr_inet p bs m) q n = mread m q n"
  by (rule mread_cong) (auto simp: fill_outside spans_apart_def)

text \<open>C25: an IPv4 route is normalised before it is used.  For a request with an IPv4 destination, with or without a netmask, with or without
  a gateway, and with or without the link-layer flag (which makes the netmask disappear first), whose addresses lie in separate
  memory: a destination or a netmask that is too short is refused with \<open>EINVAL\<close>, and so is a gateway that is too short for its family
  or, with the flag, not a well-formed link address (\<open>gateway_form\<close>).  Else \<open>cleanup_xaddrs\<close> succeeds and leaves a clean
  \<open>sockaddr_in\<close> of the network, the destination masked byte by byte; the netmask removed and the request marked as a host route when all
  bits of the mask count, a clean netmask otherwise; and the gateway in the clean form of its family.\<close>

theorem cleanup_inet_normalises:
  assumes "rti_info info RTAX_DST = Some d" "m (d + 1) = F_INET"
    and mask: "\<And>k. route_mask info = Some k \<Longrightarrow> spans_apart d 16 k 16"
    and gate: "\<And>g. rti_info info RTAX_GATEWAY = Some g \<Longrightarrow> spans_apart g (gateway_size g m) d 16"
    and both: "\<And>g k. rti_info info RTAX_GATEWAY = Some g \<Longrightarrow> route_mask info = Some k \<Longrightarrow> spans_apart g (gateway_size g m) k 16"
  shows "if m d < 16 \<or> (\<exists>k. route_mask info = Some k \<and> m k < 16)
      \<or> (\<exists>g. rti_info info RTAX_GATEWAY = Some g \<and> gateway_form info g m = None)
    then fst (cleanup_xaddrs info m) = 22
    else \<exists>info' m'. cleanup_xaddrs info m = (0, info', m') \<and>
      mread m' d 16 = [16, F_INET, 0, 0] @ and_bytes (mread m (d + 4) 4) (mask_bytes info m) @ replicate 8 0 \<and>
      (if mask_bytes info m = replicate 4 0xff then info' = remove_netmask info
       else info' = info \<and> (\<exists>k. route_mask info = Some k \<and>
         mread m' k 16 = [16, F_INET, 0, 0] @ mask_bytes info m @ replicate 8 0)) \<and>
      (\<forall>g bs. rti_info info RTAX_GATEWAY = Some g \<longrightarrow> gateway_form info g m = Some bs \<longrightarrow> mread m' g (length bs) = bs)"
proof -
  let ?msk = "mask_bytes info m"
  let ?dst = "and_bytes (mread m (d + 4) 4) ?msk"
  let ?m1 = "fill_sockaddr_inet d ?dst m"
  have len: "length ?msk = 4" "length ?dst = 4" by (simp_all add: mask_bytes_def split: option.splits)
  define m2 where "m2 = (if ?msk = replicate 4 0xff then ?m1 else case route_mask info of Some k \<Rightarrow> fill_sockaddr_inet k ?msk ?m1 | None \<Rightarrow> ?m1)"
  define info2 where "info2 = (if ?msk = replicate 4 0xff then remove_netmask info else info)"
  have gw: "rti_info info2 RTAX_GATEWAY = rti_info info RTAX_GATEWAY" "gateway_form info2 = gateway_form info"
    by (simp_all add: info2_def gateway_form_remove) (simp add: remove_netmask_def)
  have k2: "\<exists>k. route_mask info = Some k \<and> mread m2 k 16 = [16, F_INET, 0, 0] @ ?msk @ replicate 8 0"
    if "?msk \<noteq> replicate 4 0xff"
    using that mread_fill [OF len(1)] by (auto simp: m2_def mask_bytes_def split: option.splits)
  have d2: "mread m2 d 16 = [16, F_INET, 0, 0] @ ?dst @ replicate 8 0"
  proof -
    have "mread ?m1 d 16 = [16, F_INET, 0, 0] @ ?dst @ replicate 8 0" by (rule mread_fill [OF len(2)])
    moreover have "mread (fill_sockaddr_inet k ?msk ?m1) d 16 = mread ?m1 d 16" if "route_mask info = Some k" for k
      by (rule mread_fill_outside [OF len(1) mask [OF that]])
    ultimately show ?thesis unfolding m2_def by (simp only: split: option.split if_split) blast
  qed
  have same: "m2 a = m a" if "rti_info info RTAX_GATEWAY = Some g" "g \<le> a" "a < g + gateway_size g m" for g a
    using gate [OF that(1)] both [OF that(1)] that(2,3)
    by (auto simp: m2_def spans_apart_def fill_outside len split: option.split)
  have form: "gateway_form info g m2 = gateway_form info g m" if "rti_info info RTAX_GATEWAY = Some g" for g
    by (rule gateway_cong) (rule same [OF that])
  have apart_after: "mread (mwrite g bs m2) p 16 = mread m2 p 16"
    if "gateway_form info g m = Some bs" "spans_apart g (gateway_size g m) p 16" for g bs p
    using gateway_form_length [OF that(1)] that(2) by (intro mread_mwrite_outside) (auto simp: spans_apart_def)
  have parts: "cleanup_xaddrs info m = (if m d < 16 \<or> (\<exists>k. route_mask info = Some k \<and> m k < 16)
      then (22, if rti_flags info AND RTF_LLDATA \<noteq> 0 then remove_netmask info else info, m) else check_gateway info2 m2)"
    using cleanup_inet_parts [of info d m, OF assms(1,2)] unfolding info2_def m2_def Let_def 
    by (cases "?msk = replicate 4 0xff") (simp_all only: if_True if_False simp_thms)
  show ?thesis
  proof (cases "m d < 16 \<or> (\<exists>k. route_mask info = Some k \<and> m k < 16)")
    case False
    note parts = parts [unfolded if_not_P [OF False] check_gateway_form [of info2] gw]
    have info2: "if ?msk = replicate 4 0xff then info2 = remove_netmask info else info2 = info" by (simp add: info2_def)
    show ?thesis
    proof (cases "rti_info info RTAX_GATEWAY")
      case None
      then show ?thesis using parts False d2 k2 info2 by auto
    next
      case (Some g)
      show ?thesis
      proof (cases "gateway_form info g m")
        case None
        then show ?thesis using parts Some by (simp add: form)
      next
        case bs: (Some bs)
        have "mread (mwrite g bs m2) d 16 = mread m2 d 16" by (rule apart_after [OF bs gate [OF Some]])
        moreover have "mread (mwrite g bs m2) k 16 = mread m2 k 16" if "route_mask info = Some k" for k
          by (rule apart_after [OF bs both [OF Some that]])
        moreover have "cleanup_xaddrs info m = (0, info2, mwrite g bs m2)" using parts Some bs by (simp add: form)
        ultimately show ?thesis using False Some bs d2 k2 info2 mread_mwrite [of g bs m2] by auto
      qed
    qed
  next
    case True
    then have "fst (cleanup_xaddrs info m) = 22" by (simp only: parts if_True fst_conv)
    moreover have bad: "m d < 16 \<or> (\<exists>k. route_mask info = Some k \<and> m k < 16)
        \<or> (\<exists>g. rti_info info RTAX_GATEWAY = Some g \<and> gateway_form info g m = None)" using True by blast
    ultimately show ?thesis unfolding if_P [OF bad] by simp
  qed
qed

text \<open>A route for the network of 10.1.2.3 with the mask 255.255.0.0 by way of 10.9.9.1: destination, gateway and mask one after the other.\<close>

theorem cleanup_inet_normalises_witness:
  "\<exists>info' m'. cleanup_xaddrs \<lparr>rti_addrs = 7, rti_flags = 0, rti_info = [0 \<mapsto> 100, 1 \<mapsto> 116, 2 \<mapsto> 132]\<rparr>
      (mwrite 100 [16, 2, 9, 9, 10, 1, 2, 3] (mwrite 116 [16, 2, 5, 5, 10, 9, 9, 1] (mwrite 132 [16, 0, 0, 0, 0xff, 0xff, 0, 0] (\<lambda>_. 7)))) = (0, info', m') \<and>
    mread m' 100 16 = [16, 2, 0, 0, 10, 1, 0, 0, 0, 0, 0, 0, 0, 0, 0, 0] \<and>
    mread m' 116 16 = [16, 2, 0, 0, 10, 9, 9, 1, 0, 0, 0, 0, 0, 0, 0, 0] \<and>
    mread m' 132 16 = [16, 2, 0, 0, 0xff, 0xff, 0, 0, 0, 0, 0, 0, 0, 0, 0, 0]"
proof -
  let ?m = "mwrite 100 [16, 2, 9, 9, 10, 1, 2, 3] (mwrite 116 [16, 2, 5, 5, 10, 9, 9, 1] (mwrite 132 [16, 0, 0, 0, 0xff, 0xff, 0, 0] (\<lambda>_. 7))) :: mem"
  let ?info = "\<lparr>rti_addrs = 7, rti_flags = 0, rti_info = [0 \<mapsto> 100, 1 \<mapsto> 116, 2 \<mapsto> 132]\<rparr>"
  have v: "?m 100 = 16" "?m 101 = 2" "?m 116 = 16" "?m 117 = 2" "?m 132 = 16" by (simp_all add: mwrite_def)
  have u: "[0..<4] = [0, 1, 2, 3]" by (simp add: upt_rec)
  have r: "mread ?m 104 4 = [10, 1, 2, 3]" "mread ?m 120 4 = [10, 9, 9, 1]" "mread ?m 136 4 = [0xff, 0xff, 0, 0]"
    by (simp_all add: mread_def mwrite_def u)
  have z: "replicate 8 0 = [0, 0, 0, 0, 0, 0, 0, 0 :: u8]" by (simp add: eval_nat_numeral)
  have f: "[0xff, 0xff, 0, 0] \<noteq> replicate 4 (0xff :: u8)"
    by (rule notI, drule arg_cong [where f = "\<lambda>xs. xs ! 3"]) simp
  have a: "and_bytes [10, 1, 2, 3] [0xff, 0xff, 0, 0] = [10, 1, 0, 0]" by (simp add: and_bytes_def)
  have k: "route_mask ?info = Some 132" and mb: "mask_bytes ?info ?m = [0xff, 0xff, 0, 0]"
    using r(3) by (simp_all add: route_mask_def mask_bytes_def)
  have g: "gateway_form ?info 116 ?m = Some [16, 2, 0, 0, 10, 9, 9, 1, 0, 0, 0, 0, 0, 0, 0, 0]" "gateway_size 116 ?m = 16"
    using v(3,4) r(2) z by (simp_all add: gateway_form_def gateway_size_def)
  have info: "rti_info ?info RTAX_DST = Some 100" "rti_info ?info RTAX_GATEWAY = Some 116" by simp_all
  have ap: "spans_apart 100 16 132 16" "spans_apart 116 16 100 16" "spans_apart 116 16 132 16" by (simp_all add: spans_apart_def)
  have ok: "\<not> (?m 100 < 16 \<or> (\<exists>k. route_mask ?info = Some k \<and> ?m k < 16)
      \<or> (\<exists>g. rti_info ?info RTAX_GATEWAY = Some g \<and> gateway_form ?info g ?m = None))"
    using v k g(1) by simp
  let ?g = "[16, 2, 0, 0, 10, 9, 9, 1, 0, 0, 0, 0, 0, 0, 0, 0] :: u8 list"
  have len: "length ?g = 16" by simp
  have "\<exists>info' m'. cleanup_xaddrs ?info ?m = (0, info', m') \<and>
      mread m' 100 16 = [16, F_INET, 0, 0] @ and_bytes (mread ?m (100 + 4) 4) (mask_bytes ?info ?m) @ replicate 8 0 \<and>
      (if mask_bytes ?info ?m = replicate 4 0xff then info' = remove_netmask ?info
       else info' = ?info \<and> (\<exists>k. route_mask ?info = Some k \<and>
         mread m' k 16 = [16, F_INET, 0, 0] @ mask_bytes ?info ?m @ replicate 8 0)) \<and>
      (\<forall>g bs. rti_info ?info RTAX_GATEWAY = Some g \<longrightarrow> gateway_form ?info g ?m = Some bs \<longrightarrow> mread m' g (length bs) = bs)"
    by (rule cleanup_inet_normalises [of ?info 100 ?m, OF info(1), unfolded if_not_P [OF ok]])
      (use v k g(2) ap info(2) in auto)
  then obtain info' m' where m': "cleanup_xaddrs ?info ?m = (0, info', m')"
      "mread m' 100 16 = [16, F_INET, 0, 0] @ and_bytes (mread ?m (100 + 4) 4) (mask_bytes ?info ?m) @ replicate 8 0"
      "\<exists>k. route_mask ?info = Some k \<and> mread m' k 16 = [16, F_INET, 0, 0] @ mask_bytes ?info ?m @ replicate 8 0"
      "mread m' 116 (length ?g) = ?g"
    using f info(2) g(1) mb by (auto simp only: if_False split: if_splits)
  have "mread m' 116 16 = ?g" using m'(4) unfolding len .
  then show ?thesis using m'(1-3) mb k r(1) a z by auto
qed

end
