(* ===== verification/Spec2Isabelle.thy ===== *)
theory Spec2Isabelle
  imports LB_Callout_Props LB_Socket_Props LB_Startup LB_Kenv_Props LB_Patch_Props LB_Rx_Props LB_Rss LB_Prf_Props
    LB_Subr_Props LB_Siphash_Props LB_Msghdr_Props LB_Zc LB_Veth_Props LB_Msg_Props LB_Kevent LB_Rtreply
    LB_Elf LB_Pcap LB_Conf LB_Loop LB_Callstat LB_Rings LB_Route_Norm
begin

text \<open>
  lazybsd runs FreeBSD's network stack as a user-space library over DPDK.  Its own code, as opposed to the
  FreeBSD kernel and DPDK it links, is of two kinds: a replacement for the parts of the FreeBSD kernel the
  stack expects below it (\<^verbatim>\<open>bsd/lib\<close>), and a driver that moves packets between the network cards and the
  stack (\<^verbatim>\<open>src\<close>).  This development models both.

  \<^bold>\<open>How the parts interact.\<close>  DPDK's timer calls \<open>lazybsd_hardclock\<close>, which advances the callout wheel; the
  stack arms and stops callouts on it.  The main loop of the driver drains the transmit tables, feeds every
  received packet through the dispatcher and the classifier to the stack, to another core or to the
  exception path, and the stack's output enters the transmit tables again.  Applications call the socket
  layer, which translates Linux numbers and addresses to FreeBSD's, runs the kernel function and
  translates its error back.  Other processes send requests (system controls, routes, statistics) over rings
  of messages that the main loop serves.  At boot \<open>mi_startup\<close> runs the initialisers, and tunables come from the kernel
  environment.

  \<^bold>\<open>What is modelled where.\<close>
  \<^item> \<open>LB_Prelude\<close>, \<open>LB_Digits\<close>: widths of the C integers, panics as values, the C switch, byte memory, digits.
  \<^item> \<open>LB_Callout\<close>, \<open>LB_Callout_Inv\<close>, \<open>LB_Softclock\<close>, \<open>LB_Bystander\<close>, \<open>LB_Callout_Props\<close>: \<^verbatim>\<open>bsd/lib/lazybsd_kern_timeout.c\<close>.  The record \<open>cst\<close>
    is \<open>struct callout_cpu\<close> with the callouts it refers to; each C function is one definition.  The wheel
    invariant is established by \<open>callout_callwheel_init\<close> and kept by every operation; \<open>softclock\<close> returns and runs
    exactly the due callouts; a callout armed \<open>t\<close> ticks ahead fires at tick \<open>t\<close>, no earlier and no later,
    whatever the functions of the other callouts arm, move or stop as long as they leave it alone (the locale \<open>callout_bystander\<close>);
    \<open>callout_tick\<close> is the same sweep optimised.  \<open>LB_Callstat\<close>: the statistics of the wheel, which count every callout once.
  \<^item> \<open>LB_Lock\<close>: the lock classes and their methods, \<^verbatim>\<open>bsd/lib/lazybsd_lock.c\<close>.
  \<^item> \<open>LB_Errno\<close>, \<open>LB_Sockopt\<close>, \<open>LB_Sockaddr\<close>, \<open>LB_Socket\<close>, \<open>LB_Socket_Props\<close>: \<^verbatim>\<open>src/lazybsd_errno.c\<close> and
    \<^verbatim>\<open>bsd/lib/lazybsd_socket.c\<close>.  The FreeBSD kernel functions are the fields of a record that every call takes.
    What each call makes of numbers, addresses, lengths and errors is stated call by call.
  \<^item> \<open>LB_Startup\<close>: \<open>mi_startup\<close> of \<^verbatim>\<open>bsd/lib/lazybsd_main.c\<close>: the sort, the order of the initialisers, that each
    runs once although initialisers may add more.  A task is any function on a state; it may panic or not return, and then nothing after it runs.
  \<^item> \<open>LB_Kenv\<close>, \<open>LB_Kenv_Props\<close>: \<^verbatim>\<open>bsd/lib/lazybsd_kern_environment.c\<close>; \<open>LB_Patch\<close>, \<open>LB_Patch_Props\<close>: the functions of
    \<^verbatim>\<open>bsd/lib/lazybsd_patch.c\<close> that compute (timers, rates, ticks, limits, groups).
  \<^item> \<open>LB_Filter\<close>, \<open>LB_Filter_Props\<close>: the classifier of \<^verbatim>\<open>src/lazybsd_dpdk.cc\<close> on byte memory: exactly which packets it
    does not return for, which bytes its verdict depends on, what the configured port lists select.
  \<^item> \<open>LB_Memory\<close>, \<open>LB_Memory_Props\<close>: the page pool and the transmit ring of \<^verbatim>\<open>src/lazybsd_memory.cc\<close>.  The locales
    \<open>page_allocator\<close> and \<open>delay_line\<close> state what their clients rely on and are interpreted on the model.
  \<^item> \<open>LB_Tx\<close>, \<open>LB_Tx_Props\<close>, \<open>LB_Rx\<close>, \<open>LB_Rx_Props\<close>: the packet path.  The record \<open>lcore\<close> is the state of a core, with
    a trace of what happened to buffers; the answers of DPDK and of the mbuf allocator are the record \<open>env\<close>, one
    answer per call, so that every theorem holds for all of them.  Ownership is a ledger over the trace: a
    round of the main loop and an output of the stack account for every buffer, and the three places where
    the code does not are exhibited.  One of them, the buffers of a packet of several segments for which the stack runs out of mbufs and
    which are freed twice, is part of the account (\<open>rx_ledger\<close>).
  \<^item> \<open>LB_Rss\<close>: the Toeplitz hash, the queue check and the table given to the card.
  \<^item> \<open>LB_Msg\<close>, \<open>LB_Msg_Props\<close>: the message rings of \<^verbatim>\<open>src/lazybsd_dpdk.cc\<close>: a handler per type of request; every message
    of a burst is answered or returned to the pool, once.
  \<^item> \<open>LB_Msghdr\<close>, \<open>LB_Msghdr_Props\<close>: \<open>sendmsg\<close> and \<open>recvmsg\<close> of \<^verbatim>\<open>bsd/lib/lazybsd_socket.c\<close>: headers and control messages on byte
    memory, converted in place on the way out and copied on the way in.
  \<^item> \<open>LB_Bytes\<close>: loads, stores and blocks of bytes, and a calculus of what stores change.
  \<^item> \<open>LB_Route\<close>, \<open>LB_Route_Props\<close>, \<open>LB_Route_Norm\<close>, \<open>LB_Rtioctl\<close>, \<open>LB_Rtioctl_Props\<close>, \<open>LB_Rtreply\<close>: \<open>lazybsd_rtioctl\<close> of \<^verbatim>\<open>bsd/lib/lazybsd_route.c\<close> with its
    messages.  A request is taken apart within its bounds and its addresses are normalised; a call writes only its own memory, each
    variable at its size, and a bounded part of the caller's, for every request whose header gives its length and whose buffer has room
    for the IPv6 address the code may read behind it, and leaks kernel memory when the header gives another length; a reply can be taken
    apart again; a lookup returns the route.
  \<^item> \<open>LB_Prf\<close>, \<open>LB_Prf_Props\<close>: \<open>kvprintf\<close> of \<^verbatim>\<open>bsd/lib/lazybsd_subr_prf.c\<close> against a reading of formats as items.
  \<^item> \<open>LB_Subr\<close>, \<open>LB_Subr_Props\<close>: \<open>uiomove\<close> and the hash tables of \<^verbatim>\<open>bsd/lib/lazybsd_kern_subr.c\<close>; \<open>LB_Siphash\<close>,
    \<open>LB_Siphash_Props\<close>: \<^verbatim>\<open>bsd/lib/lazybsd_crypto.c\<close> against the published definition of SipHash; \<open>LB_Kevent\<close>:
    \<^verbatim>\<open>bsd/lib/lazybsd_kevent.c\<close>.
  \<^item> \<open>LB_Veth\<close>, \<open>LB_Veth_Props\<close>, \<open>LB_Zc\<close>: the virtual interface and the zero-copy buffers of \<^verbatim>\<open>bsd/lib/lazybsd_veth.c\<close>.
  \<^item> \<open>LB_Loop\<close>: the main loop: a round runs the timers, the packets, the requests and the application and accounts for the time.  Its
    theorem puts those of the parts together and says when no round stops the process.  \<open>LB_Conf\<close>: \<open>init_lcore_conf\<close>, which queues a process polls;
    \<open>LB_Rings\<close>: the rings between processes and the sizes of pools.
  \<^item> \<open>LB_Pcap\<close>: packet capture, \<^verbatim>\<open>src/lazybsd_pcap.c\<close>, against a reader of the file format; \<open>LB_Elf\<close>: relocation of objects in
    \<^verbatim>\<open>bsd/lib/lazybsd_compat.c\<close> against the table of the System V ABI, with the types the code refuses and the overflows it does
    not notice.

  \<^bold>\<open>Modelling choices.\<close>  Integers have their C width where wrap-around can matter, else they are natural numbers
  or integers.  A panic, a null pointer or an index out of bounds is \<open>Inl\<close> of a result; assertions
  (\<open>KASSERT\<close>, \<open>MPASS\<close>) are not compiled in and are no code.  Loops are structural recursion or come with a
  termination proof; \<open>protocol_filter_ip\<close> and the draining of callouts may run forever and are partial
  functions to \<open>option\<close>, where \<open>None\<close> is not returning.  No fuel is used.  Compile-time switches are those of the
  build (\<open>LAZYBSD_USE_PAGE_ARRAY\<close> on), or fields of a configuration where both settings are of interest
  (\<open>INET6\<close>, \<open>LAZYBSD_KNI\<close>).

  \<^bold>\<open>Not modelled.\<close>  Device setup of \<^verbatim>\<open>src/lazybsd_dpdk.cc\<close>, the configuration and log readers, and
  \<^verbatim>\<open>src/lazybsd_host.c\<close>, which are calls into DPDK, the C library or other packages; the stubs of \<^verbatim>\<open>bsd/lib\<close> that do
  nothing; \<open>lazybsd_rtioctl_old\<close>, which is compiled out.
\<close>

end
